(* ===== verification/Prelude.thy ===== *)
theory Prelude
  imports Main
begin

text \<open>
  Shared infrastructure of the development: the effect type of the modelled Go
  functions (explicit state, errors as values), its combinators, the weakest
  precondition calculus over them, and generic lemmas on lists and options.

  A Go function \<open>func f(...) (T, error)\<close> that reads and writes the outside world
  is an \<open>('w, 'e, 'a) io\<close>: it maps a world to an error (\<open>Inl\<close>) or a value (\<open>Inr\<close>)
  and the world afterwards. An error does not undo effects; undoing is written out
  where the code undoes (\<open>tx.Rollback\<close>, \<open>storage.Delete\<close>).
\<close>

type_synonym ('w, 'e, 'a) io = "'w \<Rightarrow> ('e + 'a) \<times> 'w"

definition ret :: "'a \<Rightarrow> ('w, 'e, 'a) io" where
  "ret x = (\<lambda>w. (Inr x, w))"

definition fail :: "'e \<Rightarrow> ('w, 'e, 'a) io" where
  "fail e = (\<lambda>w. (Inl e, w))"

text \<open>\<open>bnd m f\<close> is \<open>x, err := m(); if err != nil \{ return err \}; f(x)\<close>.\<close>

definition bnd :: "('w, 'e, 'a) io \<Rightarrow> ('a \<Rightarrow> ('w, 'e, 'b) io) \<Rightarrow> ('w, 'e, 'b) io" where
  "bnd m f = (\<lambda>w. case m w of (Inl e, w') \<Rightarrow> (Inl e, w') | (Inr x, w') \<Rightarrow> f x w')"

text \<open>\<open>require b e\<close> is the early return \<open>if !b \{ return e \}\<close>.\<close>

definition require :: "bool \<Rightarrow> 'e \<Rightarrow> ('w, 'e, unit) io" where
  "require b e = (if b then ret () else fail e)"

text \<open>\<open>result m\<close> gives the outcome of \<open>m\<close> as a value, so that the caller can inspect it.\<close>

definition result :: "('w, 'e, 'a) io \<Rightarrow> ('w, 'e, 'e + 'a) io" where
  "result m = (\<lambda>w. case m w of (r, w') \<Rightarrow> (Inr r, w'))"

text \<open>\<open>ignore m\<close> is \<open>_ = m()\<close>: the effect stays, the error is dropped.\<close>

definition ignore :: "('w, 'e, 'a) io \<Rightarrow> ('w, 'e, unit) io" where
  "ignore m = (\<lambda>w. (Inr (), snd (m w)))"

text \<open>\<open>on_err m h\<close> is \<open>if err := m(); err != nil \{ _ = h(); return err \}\<close>.\<close>

definition on_err :: "('w, 'e, 'a) io \<Rightarrow> ('w, 'e, 'b) io \<Rightarrow> ('w, 'e, 'a) io" where
  "on_err m h = (\<lambda>w. case m w of
     (Inl e, w') \<Rightarrow> (Inl e, snd (h w'))
   | (Inr x, w') \<Rightarrow> (Inr x, w'))"

text \<open>\<open>map_err g m\<close> is \<open>if err != nil \{ return g(err) \}\<close>.\<close>

definition map_err :: "('e \<Rightarrow> 'f) \<Rightarrow> ('w, 'e, 'a) io \<Rightarrow> ('w, 'f, 'a) io" where
  "map_err g m = (\<lambda>w. case m w of (Inl e, w') \<Rightarrow> (Inl (g e), w') | (Inr x, w') \<Rightarrow> (Inr x, w'))"

definition getw :: "('w \<Rightarrow> 'a) \<Rightarrow> ('w, 'e, 'a) io" where
  "getw f = (\<lambda>w. (Inr (f w), w))"

definition modw :: "('w \<Rightarrow> 'w) \<Rightarrow> ('w, 'e, unit) io" where
  "modw f = (\<lambda>w. (Inr (), f w))"

text \<open>A \<open>for ... range\<close> loop whose body returns from the function on an error.\<close>

fun each :: "('a \<Rightarrow> ('w, 'e, unit) io) \<Rightarrow> 'a list \<Rightarrow> ('w, 'e, unit) io" where
  "each f [] = ret ()"
| "each f (x # xs) = bnd (f x) (\<lambda>_. each f xs)"

text \<open>A loop that collects the results of its body.\<close>

fun collect :: "('a \<Rightarrow> ('w, 'e, 'b) io) \<Rightarrow> 'a list \<Rightarrow> ('w, 'e, 'b list) io" where
  "collect f [] = ret []"
| "collect f (x # xs) = bnd (f x) (\<lambda>y. bnd (collect f xs) (\<lambda>ys. ret (y # ys)))"

text \<open>
  Errors. \<open>Msg\<close> carries the text of an \<open>errors.New\<close> or the constant part of a
  \<open>fmt.Errorf\<close>; the named ones are those the code compares with \<open>errors.Is\<close>, and the
  package-level error variables. \<open>Fault\<close> is a failure of the environment (database
  connection, operating system call, cancelled context), \<open>Constraint\<close> a constraint of
  the database schema, \<open>Aborted\<close> a statement or commit in a transaction in which a
  statement has failed, \<open>Diverges\<close> a recursive query that does not end.
\<close>

datatype err =
    Msg string | NoRows | NotExist | Fault | Constraint | Aborted | Diverges
  | ErrIsFolder | ErrDuplicateName | ErrOverloaded
  | ErrInvalidCredentials | ErrRateLimited | ErrMailRequired | ErrChallengeInvalid

text \<open>\<open>map_err (no_rows e)\<close> is \<open>if errors.Is(err, pgx.ErrNoRows) \{ return e \}; return err\<close>.\<close>

definition no_rows :: "err \<Rightarrow> err \<Rightarrow> err" where
  "no_rows e' e = (if e = NoRows then e' else e)"

subsection \<open>Weakest preconditions\<close>

text \<open>
  \<open>wp m Q E w\<close>: running \<open>m\<close> in \<open>w\<close> ends in a state where \<open>Q\<close> holds of the result, or,
  when it returns an error, where \<open>E\<close> holds of the error. The equations below compute
  it for every combinator, so that a proof about an operation is: unfold the operation,
  simplify with \<open>wp_simps\<close>.
\<close>

definition wp :: "('w, 'e, 'a) io \<Rightarrow> ('a \<Rightarrow> 'w \<Rightarrow> bool) \<Rightarrow> ('e \<Rightarrow> 'w \<Rightarrow> bool) \<Rightarrow> 'w \<Rightarrow> bool" where
  "wp m Q E w = (case m w of (Inl e, w') \<Rightarrow> E e w' | (Inr x, w') \<Rightarrow> Q x w')"

named_theorems wp_simps "weakest preconditions of the combinators"

lemma wp_ret [wp_simps]: "wp (ret x) Q E w = Q x w"
  by (simp add: wp_def ret_def)

lemma wp_fail [wp_simps]: "wp (fail e) Q E w = E e w"
  by (simp add: wp_def fail_def)

lemma wp_bnd [wp_simps]: "wp (bnd m f) Q E w = wp m (\<lambda>x w'. wp (f x) Q E w') E w"
  by (simp add: wp_def bnd_def split: prod.splits sum.splits)

lemma wp_require [wp_simps]: "wp (require b e) Q E w = (if b then Q () w else E e w)"
  by (simp add: require_def wp_simps)

lemma wp_result [wp_simps]: "wp (result m) Q E w = wp m (\<lambda>x. Q (Inr x)) (\<lambda>e. Q (Inl e)) w"
  by (simp add: wp_def result_def split: prod.splits sum.splits)

lemma wp_ignore [wp_simps]: "wp (ignore m) Q E w = wp m (\<lambda>_. Q ()) (\<lambda>_. Q ()) w"
  by (auto simp: wp_def ignore_def split: prod.splits sum.splits)

lemma wp_on_err [wp_simps]:
  "wp (on_err m h) Q E w = wp m Q (\<lambda>e w'. wp h (\<lambda>_. E e) (\<lambda>_. E e) w') w"
  by (simp add: wp_def on_err_def case_prod_unfold split: sum.splits)

lemma wp_map_err [wp_simps]: "wp (map_err g m) Q E w = wp m Q (\<lambda>e. E (g e)) w"
  by (simp add: wp_def map_err_def split: prod.splits sum.splits)

lemma wp_getw [wp_simps]: "wp (getw f) Q E w = Q (f w) w"
  by (simp add: wp_def getw_def)

lemma wp_modw [wp_simps]: "wp (modw f) Q E w = Q () (f w)"
  by (simp add: wp_def modw_def)

lemma wp_if [wp_simps]: "wp (if b then m else n) Q E w = (if b then wp m Q E w else wp n Q E w)"
  by simp

lemma wp_case_option [wp_simps]:
  "wp (case x of None \<Rightarrow> m | Some y \<Rightarrow> f y) Q E w
     = (case x of None \<Rightarrow> wp m Q E w | Some y \<Rightarrow> wp (f y) Q E w)"
  by (cases x) simp_all

lemma wp_case_sum [wp_simps]:
  "wp (case x of Inl y \<Rightarrow> m y | Inr z \<Rightarrow> f z) Q E w
     = (case x of Inl y \<Rightarrow> wp (m y) Q E w | Inr z \<Rightarrow> wp (f z) Q E w)"
  by (cases x) simp_all

lemma wp_case_prod [wp_simps]:
  "wp (case x of (y, z) \<Rightarrow> f y z) Q E w = (case x of (y, z) \<Rightarrow> wp (f y z) Q E w)"
  by (cases x) simp_all

lemma wp_let [wp_simps]: "wp (let x = t in f x) Q E w = (let x = t in wp (f x) Q E w)"
  by simp

lemma wp_mono:
  assumes "wp m Q E w"
    and "\<And>x w'. m w = (Inr x, w') \<Longrightarrow> Q x w' \<Longrightarrow> Q' x w'"
    and "\<And>e w'. m w = (Inl e, w') \<Longrightarrow> E e w' \<Longrightarrow> E' e w'"
  shows "wp m Q' E' w"
  using assms by (auto simp: wp_def split: prod.splits sum.splits)

lemma wp_weaken:
  assumes "wp m Q E w"
    and "\<And>x w'. Q x w' \<Longrightarrow> Q' x w'" and "\<And>e w'. E e w' \<Longrightarrow> E' e w'"
  shows "wp m Q' E' w"
  using assms by (auto intro: wp_mono)

lemma wp_conj: "wp m Q E w \<Longrightarrow> wp m Q' E' w \<Longrightarrow> wp m (\<lambda>x w'. Q x w' \<and> Q' x w') (\<lambda>e w'. E e w' \<and> E' e w') w"
  by (auto simp: wp_def split: prod.splits sum.splits)

lemma wp_InrD: "wp m Q E w \<Longrightarrow> m w = (Inr x, w') \<Longrightarrow> Q x w'"
  by (simp add: wp_def)

lemma wp_InlD: "wp m Q E w \<Longrightarrow> m w = (Inl e, w') \<Longrightarrow> E e w'"
  by (simp add: wp_def)

lemma wp_iff:
  "wp m Q E w \<longleftrightarrow> (\<forall>x w'. m w = (Inr x, w') \<longrightarrow> Q x w') \<and> (\<forall>e w'. m w = (Inl e, w') \<longrightarrow> E e w')"
  by (auto simp: wp_def split: prod.splits sum.splits)

text \<open>A loop keeps what its body keeps.\<close>

lemma wp_each:
  assumes "\<And>x w'. x \<in> set xs \<Longrightarrow> I w' \<Longrightarrow> wp (f x) (\<lambda>_. I) E w'" and "I w"
  shows "wp (each f xs) (\<lambda>_. I) E w"
  using assms
proof (induction xs arbitrary: w)
  case Nil
  then show ?case by (simp add: wp_simps)
next
  case (Cons x xs)
  from Cons.prems have "wp (f x) (\<lambda>_. I) E w" by simp
  then have "wp (f x) (\<lambda>_ w'. wp (each f xs) (\<lambda>_. I) E w') E w"
    by (rule wp_weaken) (use Cons in auto)
  then show ?case by (simp add: wp_simps)
qed

lemma wp_collect:
  assumes "\<And>x w'. x \<in> set xs \<Longrightarrow> I w' \<Longrightarrow> wp (f x) (\<lambda>_. I) E w'" and "I w"
  shows "wp (collect f xs) (\<lambda>_. I) E w"
  using assms
proof (induction xs arbitrary: w)
  case Nil
  then show ?case by (simp add: wp_simps)
next
  case (Cons x xs)
  have rest: "wp (collect f xs) (\<lambda>_. I) E w'" if "I w'" for w'
    using that Cons by auto
  from Cons.prems have "wp (f x) (\<lambda>_. I) E w" by simp
  then have "wp (f x) (\<lambda>_ w'. wp (collect f xs) (\<lambda>_. I) E w') E w"
    by (rule wp_weaken) (use rest in auto)
  then show ?case by (simp add: wp_simps)
qed

subsection \<open>What a computation can do to the state\<close>

text \<open>
  \<open>steps R m\<close>: however \<open>m\<close> ends, the state before and the state after are related by
  \<open>R\<close>. For a preorder \<open>R\<close> this goes through every combinator.
\<close>

definition steps :: "('w \<Rightarrow> 'w \<Rightarrow> bool) \<Rightarrow> ('w, 'e, 'a) io \<Rightarrow> bool" where
  "steps R m \<longleftrightarrow> (\<forall>w. R w (snd (m w)))"

definition preorder :: "('w \<Rightarrow> 'w \<Rightarrow> bool) \<Rightarrow> bool" where
  "preorder R \<longleftrightarrow> reflp R \<and> transp R"

lemma preorderI: "(\<And>w. R w w) \<Longrightarrow> (\<And>a b c. R a b \<Longrightarrow> R b c \<Longrightarrow> R a c) \<Longrightarrow> preorder R"
  unfolding preorder_def by (blast intro: reflpI transpI)

lemma preorder_refl: "preorder R \<Longrightarrow> R w w"
  by (auto simp: preorder_def dest: reflpD)

lemma preorder_trans: "preorder R \<Longrightarrow> R a b \<Longrightarrow> R b c \<Longrightarrow> R a c"
  by (auto simp: preorder_def dest: transpD)

named_theorems steps_intros "what the combinators can do"

lemma stepsI: "(\<And>w. R w (snd (m w))) \<Longrightarrow> steps R m"
  by (simp add: steps_def)

lemma stepsD: "steps R m \<Longrightarrow> m w = (r, w') \<Longrightarrow> R w w'"
  unfolding steps_def by (metis snd_conv)

lemma steps_weaken: "steps R m \<Longrightarrow> (\<And>a b. R a b \<Longrightarrow> S a b) \<Longrightarrow> steps S m"
  by (simp add: steps_def)

lemma steps_pure [steps_intros]:
  assumes "preorder R" shows "steps R (ret x)" "steps R (fail e)" "steps R (require b e)" "steps R (getw f)"
  using preorder_refl [OF assms] by (simp_all add: steps_def ret_def fail_def require_def getw_def)

lemma steps_bnd [steps_intros]:
  assumes "preorder R" and "steps R m" and "\<And>x. steps R (f x)"
  shows "steps R (bnd m f)"
proof (rule stepsI)
  fix w
  show "R w (snd (bnd m f w))"
  proof (cases "m w")
    case (Pair r w')
    then have "R w w'" by (rule stepsD [OF assms(2)])
    moreover have "R w' (snd (f x w'))" for x using assms(3) by (simp add: steps_def)
    ultimately show ?thesis
      using Pair preorder_trans [OF assms(1)] by (auto simp: bnd_def split: sum.splits)
  qed
qed

lemma steps_result [steps_intros]: "steps R m \<Longrightarrow> steps R (result m)"
  by (simp add: steps_def result_def case_prod_unfold)

lemma steps_ignore [steps_intros]: "steps R m \<Longrightarrow> steps R (ignore m)"
  by (simp add: steps_def ignore_def)

lemma steps_map_err [steps_intros]: "steps R m \<Longrightarrow> steps R (map_err g m)"
  by (simp add: steps_def map_err_def case_prod_unfold split: sum.splits)

lemma steps_on_err [steps_intros]:
  assumes "preorder R" and "steps R m" and "steps R h"
  shows "steps R (on_err m h)"
proof (rule stepsI)
  fix w
  show "R w (snd (on_err m h w))"
  proof (cases "m w")
    case (Pair r w')
    then have "R w w'" by (rule stepsD [OF assms(2)])
    moreover have "R w' (snd (h w'))" using assms(3) by (simp add: steps_def)
    ultimately show ?thesis
      using Pair preorder_trans [OF assms(1)] by (auto simp: on_err_def split: sum.splits)
  qed
qed

lemma steps_cases [steps_intros]:
  "\<lbrakk>b \<Longrightarrow> steps R m; \<not> b \<Longrightarrow> steps R n\<rbrakk> \<Longrightarrow> steps R (if b then m else n)"
  "\<lbrakk>y = None \<Longrightarrow> steps R m; \<And>x. y = Some x \<Longrightarrow> steps R (f x)\<rbrakk> \<Longrightarrow> steps R (case y of None \<Rightarrow> m | Some x \<Rightarrow> f x)"
  "\<lbrakk>\<And>a. z = Inl a \<Longrightarrow> steps R (g a); \<And>a. z = Inr a \<Longrightarrow> steps R (h a)\<rbrakk> \<Longrightarrow> steps R (case z of Inl a \<Rightarrow> g a | Inr a \<Rightarrow> h a)"
  "(\<And>a b. p = (a, b) \<Longrightarrow> steps R (k a b)) \<Longrightarrow> steps R (case p of (a, b) \<Rightarrow> k a b)"
  "(\<And>x. x = t \<Longrightarrow> steps R (j x)) \<Longrightarrow> steps R (let x = t in j x)"
  by (auto split: option.split sum.split prod.split)

lemma steps_each [steps_intros]:
  "preorder R \<Longrightarrow> (\<And>x. x \<in> set xs \<Longrightarrow> steps R (f x)) \<Longrightarrow> steps R (each f xs)"
  by (induction xs) (auto intro!: steps_intros)

lemma wp_steps:
  assumes "steps R m" and "\<And>x w'. R w w' \<Longrightarrow> Q x w'" and "\<And>e w'. R w w' \<Longrightarrow> E e w'"
  shows "wp m Q E w"
proof (cases "m w")
  case (Pair r w')
  with stepsD [OF assms(1) Pair] assms(2,3) show ?thesis by (auto simp: wp_def split: sum.splits)
qed

subsection \<open>Invariants of a computation\<close>

text \<open>
  \<open>keeps I V m\<close>: from a state with \<open>I\<close>, \<open>m\<close> ends in one with \<open>I\<close>, and a value it returns
  satisfies \<open>V\<close>.
\<close>

definition keeps :: "('w \<Rightarrow> bool) \<Rightarrow> ('a \<Rightarrow> bool) \<Rightarrow> ('w, 'e, 'a) io \<Rightarrow> bool" where
  "keeps I V m \<longleftrightarrow> (\<forall>w. I w \<longrightarrow> wp m (\<lambda>x w'. I w' \<and> V x) (\<lambda>_. I) w)"

abbreviation keeps_any :: "('w \<Rightarrow> bool) \<Rightarrow> ('w, 'e, 'a) io \<Rightarrow> bool" where
  "keeps_any I \<equiv> keeps I (\<lambda>_. True)"

lemma keepsI: "(\<And>w. I w \<Longrightarrow> wp m (\<lambda>x w'. I w' \<and> V x) (\<lambda>_. I) w) \<Longrightarrow> keeps I V m"
  by (simp add: keeps_def)

lemma keepsD: "keeps I V m \<Longrightarrow> I w \<Longrightarrow> wp m (\<lambda>x w'. I w' \<and> V x) (\<lambda>_. I) w"
  by (simp add: keeps_def)

lemma keeps_run: "keeps I V m \<Longrightarrow> I w \<Longrightarrow> I (snd (m w))"
  using keepsD [of I V m w] by (auto simp: wp_def split: prod.splits sum.splits)

lemma keeps_weaken: "keeps I V m \<Longrightarrow> (\<And>x. V x \<Longrightarrow> U x) \<Longrightarrow> keeps I U m"
  unfolding keeps_def by (blast intro: wp_weaken)

named_theorems keeps_intros "invariants through the combinators"

lemma keeps_ret: "V x \<Longrightarrow> keeps I V (ret x)"
  by (simp add: keeps_def wp_simps)

lemma keeps_getw: "(\<And>w. I w \<Longrightarrow> V (f w)) \<Longrightarrow> keeps I V (getw f)"
  by (simp add: keeps_def wp_simps)

lemma keeps_fail [keeps_intros]: "keeps I V (fail e)"
  by (simp add: keeps_def wp_simps)

lemma keeps_any_ret [keeps_intros]: "keeps_any I (ret x)"
  by (rule keeps_ret) simp

lemma keeps_any_getw [keeps_intros]: "keeps_any I (getw f)"
  by (rule keeps_getw) simp

lemma keeps_require [keeps_intros]: "keeps_any I (require b e)"
  by (simp add: keeps_def wp_simps)

lemma keeps_modw [keeps_intros]: "(\<And>w. I w \<Longrightarrow> I (g w)) \<Longrightarrow> keeps_any I (modw g)"
  by (simp add: keeps_def wp_simps)

lemma keeps_bnd:
  assumes "keeps I U m" and "\<And>x. U x \<Longrightarrow> keeps I V (f x)"
  shows "keeps I V (bnd m f)"
proof (rule keepsI)
  fix w
  assume "I w"
  with assms(1) have "wp m (\<lambda>x w'. I w' \<and> U x) (\<lambda>_. I) w" by (rule keepsD)
  then show "wp (bnd m f) (\<lambda>x w'. I w' \<and> V x) (\<lambda>_. I) w"
    unfolding wp_bnd by (rule wp_weaken) (use assms(2) in \<open>auto dest: keepsD\<close>)
qed

lemma keeps_bnd_any [keeps_intros]: "keeps_any I m \<Longrightarrow> (\<And>x. keeps I V (f x)) \<Longrightarrow> keeps I V (bnd m f)"
  by (erule keeps_bnd)

lemma keeps_result:
  assumes "keeps I U m" and "\<And>x. U x \<Longrightarrow> V (Inr x)" and "\<And>e. V (Inl e)"
  shows "keeps I V (result m)"
  using assms unfolding keeps_def wp_result by (blast intro: wp_weaken)

lemma keeps_any_result [keeps_intros]: "keeps_any I m \<Longrightarrow> keeps_any I (result m)"
  by (erule keeps_result) simp_all

lemma keeps_ignore [keeps_intros]: "keeps_any I m \<Longrightarrow> keeps_any I (ignore m)"
  unfolding keeps_def wp_ignore by (blast intro: wp_weaken)

lemma keeps_on_err [keeps_intros]:
  assumes "keeps I V m" and "keeps_any I h"
  shows "keeps I V (on_err m h)"
proof (rule keepsI)
  fix w
  assume "I w"
  with assms(1) have "wp m (\<lambda>x w'. I w' \<and> V x) (\<lambda>_. I) w" by (rule keepsD)
  then show "wp (on_err m h) (\<lambda>x w'. I w' \<and> V x) (\<lambda>_. I) w"
    unfolding wp_on_err
  proof (rule wp_weaken)
    fix e w'
    assume "I w'"
    with assms(2) have "wp h (\<lambda>x w'. I w' \<and> True) (\<lambda>_. I) w'" by (rule keepsD)
    then show "wp h (\<lambda>_. I) (\<lambda>_. I) w'" by (rule wp_weaken) auto
  qed
qed

lemma keeps_cases [keeps_intros]:
  "\<lbrakk>b \<Longrightarrow> keeps I V m; \<not> b \<Longrightarrow> keeps I V n\<rbrakk> \<Longrightarrow> keeps I V (if b then m else n)"
  "\<lbrakk>y = None \<Longrightarrow> keeps I V m; \<And>x. y = Some x \<Longrightarrow> keeps I V (f x)\<rbrakk> \<Longrightarrow> keeps I V (case y of None \<Rightarrow> m | Some x \<Rightarrow> f x)"
  "\<lbrakk>\<And>a. z = Inl a \<Longrightarrow> keeps I V (g a); \<And>a. z = Inr a \<Longrightarrow> keeps I V (h a)\<rbrakk> \<Longrightarrow> keeps I V (case z of Inl a \<Rightarrow> g a | Inr a \<Rightarrow> h a)"
  "(\<And>a b. p = (a, b) \<Longrightarrow> keeps I V (k a b)) \<Longrightarrow> keeps I V (case p of (a, b) \<Rightarrow> k a b)"
  "(\<And>x. x = t \<Longrightarrow> keeps I V (j x)) \<Longrightarrow> keeps I V (let x = t in j x)"
  by (auto split: option.split sum.split prod.split)

lemma keeps_each [keeps_intros]:
  "(\<And>x. x \<in> set xs \<Longrightarrow> keeps_any I (f x)) \<Longrightarrow> keeps_any I (each f xs)"
  by (induction xs) (auto intro!: keeps_intros)

subsection \<open>Generic lemmas on lists\<close>

lemma find_set: "find P xs = Some x \<Longrightarrow> x \<in> set xs \<and> P x"
  by (auto simp: find_Some_iff)

lemma find_none: "find P xs = None \<longleftrightarrow> (\<forall>x \<in> set xs. \<not> P x)"
  by (auto simp: find_None_iff)

lemma find_append: "find P (xs @ ys) = (case find P xs of None \<Rightarrow> find P ys | r \<Rightarrow> r)"
  by (induction xs) auto

lemma find_distinct_key:
  assumes "distinct (map k xs)" and "x \<in> set xs"
  shows "find (\<lambda>y. k y = k x) xs = Some x"
  using assms by (induction xs) (auto simp: image_iff)

lemma find_map_upd:
  assumes "\<And>x. k (f x) = k x"
  shows "find (\<lambda>y. k y = i) (map (\<lambda>y. if P y then f y else y) xs)
       = map_option (\<lambda>y. if P y then f y else y) (find (\<lambda>y. k y = i) xs)"
  using assms by (induction xs) auto

lemma find_cong_all: "(\<And>x. x \<in> set xs \<Longrightarrow> P x = Q x) \<Longrightarrow> find P xs = find Q xs"
  by (induction xs) auto

lemma sum_list_map_upd:
  fixes g :: "'a \<Rightarrow> int"
  assumes "distinct (map k xs)" and "x \<in> set xs"
  shows "sum_list (map g (map (\<lambda>y. if k y = k x then f y else y) xs))
       = sum_list (map g xs) - g x + g (f x)"
  using assms
proof (induction xs)
  case Nil
  then show ?case by simp
next
  case (Cons a xs)
  show ?case
  proof (cases "a = x")
    case True
    then have "k y \<noteq> k x" if "y \<in> set xs" for y
      using Cons.prems that by (auto simp: image_iff)
    then have "map (\<lambda>y. if k y = k x then f y else y) xs = xs"
      by (simp add: map_idI)
    with True show ?thesis by (simp del: map_map)
  next
    case False
    with Cons.prems have "x \<in> set xs" and "k a \<noteq> k x" by auto
    with Cons show ?thesis by simp
  qed
qed

end
