(* ===== verification/GoStrings.thy ===== *)
theory GoStrings
  imports Prelude
begin

text \<open>
  What the source uses of Go's \<open>strings\<close>, \<open>path\<close> and \<open>path/filepath\<close> packages, on
  byte strings: a Go string is a list of bytes, and \<open>char\<close> is a byte. UTF-8 matters
  where the code works on runes (\<open>strings.TrimSpace\<close>, \<open>strings.Map\<close>) and not where it
  works on bytes (\<open>len\<close>, slicing, splitting at a separator). Paths are those of a
  system whose separator is the slash.
\<close>

section \<open>Prefixes, splitting, joining\<close>

definition has_prefix :: "string \<Rightarrow> string \<Rightarrow> bool" where
  "has_prefix s p = (take (length p) s = p)"

lemma has_prefix_Nil [simp]: "has_prefix s []"
  by (simp add: has_prefix_def)

lemma has_prefix_append: "has_prefix s p \<longleftrightarrow> (\<exists>t. s = p @ t)"
  by (metis append_eq_conv_conj append_take_drop_id has_prefix_def)

text \<open>\<open>strings.Split\<close> at a one-byte separator.\<close>

fun split_at :: "char \<Rightarrow> string \<Rightarrow> string list" where
  "split_at c [] = [[]]"
| "split_at c (x # xs) =
     (if x = c then [] # split_at c xs
      else (case split_at c xs of [] \<Rightarrow> [[x]] | p # ps \<Rightarrow> (x # p) # ps))"

fun join_with :: "char \<Rightarrow> string list \<Rightarrow> string" where
  "join_with c [] = []"
| "join_with c [p] = p"
| "join_with c (p # q # ps) = p @ [c] @ join_with c (q # ps)"

lemma split_at_ne [simp]: "split_at c s \<noteq> []"
  by (induction s) (auto split: list.splits)

lemma split_at_no_sep: "p \<in> set (split_at c s) \<Longrightarrow> c \<notin> set p"
  by (induction s arbitrary: p) (auto split: list.splits if_splits)

lemma split_at_none: "c \<notin> set s \<Longrightarrow> split_at c s = [s]"
  by (induction s) auto

lemma split_at_append_sep: "split_at c (s @ c # t) = split_at c s @ split_at c t"
proof (induction s)
  case Nil
  then show ?case by simp
next
  case (Cons x s)
  then show ?case
    by (cases "split_at c s") (auto split: list.splits)
qed

lemma join_split [simp]: "join_with c (split_at c s) = s"
proof (induction s)
  case Nil
  then show ?case by simp
next
  case (Cons x s)
  then show ?case
    by (cases "split_at c s"; cases "tl (split_at c s)") (auto split: list.splits)
qed

lemma split_join:
  assumes "ps \<noteq> []" and "\<forall>p \<in> set ps. c \<notin> set p"
  shows "split_at c (join_with c ps) = ps"
  using assms
proof (induction c ps rule: join_with.induct)
  case (3 c p q ps)
  then have "split_at c (join_with c (q # ps)) = q # ps" by simp
  with 3 show ?case by (simp add: split_at_append_sep split_at_none)
qed (auto simp: split_at_none)

text \<open>\<open>strings.ReplaceAll\<close> with one-byte arguments.\<close>

definition replace_all :: "char \<Rightarrow> char \<Rightarrow> string \<Rightarrow> string" where
  "replace_all a b s = map (\<lambda>c. if c = a then b else c) s"

lemma replace_all_not_in: "a \<noteq> b \<Longrightarrow> a \<notin> set (replace_all a b s)"
  by (auto simp: replace_all_def split: if_splits)

lemma replace_all_set: "set (replace_all a b s) \<subseteq> insert b (set s)"
  by (auto simp: replace_all_def)

text \<open>\<open>strings.Trim\<close> with a one-byte cut set, \<open>strings.TrimRight\<close> likewise.\<close>

definition trim_char :: "char \<Rightarrow> string \<Rightarrow> string" where
  "trim_char c s = rev (dropWhile (\<lambda>x. x = c) (rev (dropWhile (\<lambda>x. x = c) s)))"

text \<open>\<open>strings.TrimPrefix\<close>.\<close>

definition trim_prefix :: "string \<Rightarrow> string \<Rightarrow> string" where
  "trim_prefix s p = (if has_prefix s p then drop (length p) s else s)"

text \<open>\<open>strings.TrimSuffix\<close>.\<close>

definition trim_suffix :: "string \<Rightarrow> string \<Rightarrow> string" where
  "trim_suffix s t = (if has_prefix (rev s) (rev t) then take (length s - length t) s else s)"

text \<open>
  \<open>strings.ToLower\<close> on ASCII letters and on the two other runes whose lower case is an
  ASCII letter: U+0130 (to \<open>i\<close>) and U+212A (to \<open>k\<close>). The rest of the tables of package
  \<open>unicode\<close> is not modelled: other runes are left alone, which is exact where the
  result is compared with an ASCII literal.
\<close>

definition lower_byte :: "char \<Rightarrow> char" where
  "lower_byte c = (let n = (of_char c :: nat) in if 65 \<le> n \<and> n \<le> 90 then char_of (n + 32) else c)"

fun to_lower :: "string \<Rightarrow> string" where
  "to_lower [] = []"
| "to_lower (a # s) =
     (case s of
        b # c # t \<Rightarrow>
          if a = CHR 0xE2 \<and> b = CHR 0x84 \<and> c = CHR 0xAA then CHR ''k'' # to_lower t
          else if a = CHR 0xC4 \<and> b = CHR 0xB0 then CHR ''i'' # to_lower (c # t)
          else lower_byte a # to_lower s
      | [b] \<Rightarrow> if a = CHR 0xC4 \<and> b = CHR 0xB0 then ''i'' else lower_byte a # to_lower s
      | [] \<Rightarrow> [lower_byte a])"

section \<open>UTF-8\<close>

definition byte :: "char \<Rightarrow> nat" where
  "byte c = of_char c"

definition cont :: "char \<Rightarrow> bool" where
  "cont c \<longleftrightarrow> 128 \<le> byte c \<and> byte c < 192"

text \<open>
  The width of the rune a byte string starts with, as \<open>utf8.DecodeRuneInString\<close> reads
  it; 0 where the bytes are not the encoding of a rune (Go then takes one byte for
  \<open>RuneError\<close>).
\<close>

fun enc1 :: "string \<Rightarrow> bool" where
  "enc1 (a # _) = (byte a < 128)"
| "enc1 _ = False"

fun enc2 :: "string \<Rightarrow> bool" where
  "enc2 (a # b # _) = (194 \<le> byte a \<and> byte a < 224 \<and> cont b)"
| "enc2 _ = False"

fun enc3 :: "string \<Rightarrow> bool" where
  "enc3 (a # b # c # _) =
     (224 \<le> byte a \<and> byte a < 240 \<and> (if byte a = 224 then 160 else 128) \<le> byte b
      \<and> byte b < (if byte a = 237 then 160 else 192) \<and> cont c)"
| "enc3 _ = False"

fun enc4 :: "string \<Rightarrow> bool" where
  "enc4 (a # b # c # d # _) =
     (240 \<le> byte a \<and> byte a < 245 \<and> (if byte a = 240 then 144 else 128) \<le> byte b
      \<and> byte b < (if byte a = 244 then 144 else 192) \<and> cont c \<and> cont d)"
| "enc4 _ = False"

definition rune_width :: "string \<Rightarrow> nat" where
  "rune_width s = (if enc1 s then 1 else if enc2 s then 2 else if enc3 s then 3 else if enc4 s then 4 else 0)"

lemma enc1D: "enc1 s \<Longrightarrow> \<exists>a t. s = a # t \<and> byte a < 128"
  by (cases s) auto

lemma enc2D: "enc2 s \<Longrightarrow> \<exists>a b t. s = a # b # t \<and> 128 \<le> byte a \<and> 128 \<le> byte b"
  by (cases s rule: enc2.cases) (auto simp: cont_def)

lemma enc3D: "enc3 s \<Longrightarrow> \<exists>a b c t. s = a # b # c # t \<and> 128 \<le> byte a \<and> 128 \<le> byte b \<and> 128 \<le> byte c"
  by (cases s rule: enc3.cases) (auto simp: cont_def split: if_splits)

lemma enc4D:
  "enc4 s \<Longrightarrow> \<exists>a b c d t. s = a # b # c # d # t
     \<and> 128 \<le> byte a \<and> 128 \<le> byte b \<and> 128 \<le> byte c \<and> 128 \<le> byte d"
  by (cases s rule: enc4.cases) (auto simp: cont_def split: if_splits)

lemma rune_width_Nil [simp]: "rune_width [] = 0"
  by (simp add: rune_width_def)

lemma rune_width_cases:
  obtains (one) a t where "s = a # t" "byte a < 128" "enc1 s" "rune_width s = 1"
  | (two) a b t where "s = a # b # t" "128 \<le> byte a" "128 \<le> byte b" "enc2 s" "rune_width s = 2"
  | (three) a b c t where "s = a # b # c # t" "128 \<le> byte a" "128 \<le> byte b" "128 \<le> byte c"
      "enc3 s" "rune_width s = 3"
  | (four) a b c d t where "s = a # b # c # d # t" "128 \<le> byte a" "128 \<le> byte b" "128 \<le> byte c"
      "128 \<le> byte d" "enc4 s" "rune_width s = 4"
  | (bad) "rune_width s = 0"
proof -
  consider "enc1 s" | "\<not> enc1 s" "enc2 s" | "\<not> enc1 s" "\<not> enc2 s" "enc3 s"
    | "\<not> enc1 s" "\<not> enc2 s" "\<not> enc3 s" "enc4 s" | "\<not> enc1 s" "\<not> enc2 s" "\<not> enc3 s" "\<not> enc4 s"
    by blast
  then show thesis
  proof cases
    case 1
    then show ?thesis using enc1D [OF 1] one by (auto simp: rune_width_def)
  next
    case 2
    then show ?thesis using enc2D [OF 2(2)] two by (auto simp: rune_width_def)
  next
    case 3
    then show ?thesis using enc3D [OF 3(3)] three unfolding rune_width_def by auto
  next
    case 4
    then show ?thesis using enc4D [OF 4(4)] four unfolding rune_width_def by auto
  next
    case 5
    then show ?thesis using bad by (simp add: rune_width_def)
  qed
qed

lemma rune_width_le: "rune_width s \<le> length s"
  by (cases s rule: rune_width_cases) auto

lemma rune_width_high: "rune_width s \<noteq> 1 \<Longrightarrow> c \<in> set (take (rune_width s) s) \<Longrightarrow> 128 \<le> byte c"
  by (cases s rule: rune_width_cases) (auto simp: numeral_eq_Suc)

lemma rune_width_take: "rune_width s \<noteq> 0 \<Longrightarrow> rune_width (take (rune_width s) s @ t) = rune_width s"
  by (cases s rule: rune_width_cases) (simp_all add: rune_width_def numeral_eq_Suc)

function valid_utf8 :: "string \<Rightarrow> bool" where
  "valid_utf8 s =
     (if s = [] then True else if rune_width s = 0 then False else valid_utf8 (drop (rune_width s) s))"
  by pat_completeness auto
termination
  by (relation "measure length") auto

declare valid_utf8.simps [simp del]

lemma valid_utf8_Nil [simp]: "valid_utf8 []"
  by (simp add: valid_utf8.simps)

lemma to_lower_plain: "(\<forall>c \<in> set s. byte c < 128 \<and> lower_byte c = c) \<Longrightarrow> to_lower s = s"
  by (induction s rule: to_lower.induct) (auto simp: byte_def split: list.split)

lemma ascii_valid: "(\<forall>c \<in> set s. byte c < 128) \<Longrightarrow> valid_utf8 s"
proof (induction s)
  case (Cons a s)
  then show ?case by (subst valid_utf8.simps) (simp add: rune_width_def)
qed simp

lemma valid_utf8_rune: "rune_width s \<noteq> 0 \<Longrightarrow> valid_utf8 (take (rune_width s) s @ t) = valid_utf8 t"
proof -
  assume a: "rune_width s \<noteq> 0"
  let ?u = "take (rune_width s) s @ t"
  have "?u \<noteq> []" using a by (cases s) auto
  moreover have "drop (rune_width s) ?u = t"
    using rune_width_le [of s] by simp
  ultimately show ?thesis
    using rune_width_take [OF a, of t] a by (subst valid_utf8.simps) simp
qed

text \<open>\<open>strings.Map\<close> with a mapping that keeps a rune or drops it; invalid bytes become U+FFFD.\<close>

function map_runes :: "(char \<Rightarrow> bool) \<Rightarrow> string \<Rightarrow> string" where
  "map_runes drp s =
     (if s = [] then []
      else let n = rune_width s in
        if n = 0 then map char_of [239, 191, 189 :: nat] @ map_runes drp (tl s)
        else if n = 1 \<and> drp (hd s) then map_runes drp (tl s)
        else take n s @ map_runes drp (drop n s))"
  by pat_completeness auto
termination
  by (relation "measure (\<lambda>(d, s). length s)") auto

declare map_runes.simps [simp del]

lemma map_runes_bytes:
  "c \<in> set (map_runes drp s) \<Longrightarrow> 128 \<le> byte c \<or> (c \<in> set s \<and> \<not> drp c)"
proof (induction drp s rule: map_runes.induct)
  case (1 drp s)
  show ?case
  proof (cases "s = []")
    case True
    with "1.prems" show ?thesis by (simp add: map_runes.simps)
  next
    case False
    let ?n = "rune_width s"
    consider (bad) "?n = 0" | (del) "?n = 1 \<and> drp (hd s)" | (keep1) "?n = 1 \<and> \<not> drp (hd s)"
      | (keep) "?n \<noteq> 0 \<and> ?n \<noteq> 1" by blast
    then show ?thesis
    proof cases
      case bad
      with False "1.prems" have "c \<in> set (map char_of [239, 191, 189 :: nat]) \<or> c \<in> set (map_runes drp (tl s))"
        by (subst (asm) map_runes.simps) (simp add: Let_def)
      then show ?thesis
      proof
        assume "c \<in> set (map char_of [239, 191, 189 :: nat])"
        then show ?thesis by (auto simp: byte_def of_char_of)
      next
        assume "c \<in> set (map_runes drp (tl s))"
        with bad False "1.IH"(1) show ?thesis by (auto dest: list.set_sel(2))
      qed
    next
      case del
      with False "1.prems" have "c \<in> set (map_runes drp (tl s))"
        by (subst (asm) map_runes.simps) (simp add: Let_def)
      with del False "1.IH"(2) show ?thesis by (auto dest: list.set_sel(2))
    next
      case keep1
      with False "1.prems" have "c \<in> set (take 1 s) \<or> c \<in> set (map_runes drp (drop 1 s))"
        by (subst (asm) map_runes.simps) (simp add: Let_def)
      with keep1 False "1.IH"(3) [of 1] show ?thesis
        by (cases s) auto
    next
      case keep
      with False "1.prems" have "c \<in> set (take ?n s) \<or> c \<in> set (map_runes drp (drop ?n s))"
        by (subst (asm) map_runes.simps) (simp add: Let_def)
      with keep False "1.IH"(3) [of ?n] rune_width_high [of s c] show ?thesis
        by (auto dest: in_set_dropD)
    qed
  qed
qed

lemma map_runes_valid: "valid_utf8 (map_runes drp s)"
proof (induction drp s rule: map_runes.induct)
  case (1 drp s)
  have fffd: "rune_width (map char_of [239, 191, 189 :: nat]) = 3"
    by (simp add: rune_width_def byte_def cont_def of_char_of)
  have bad: "valid_utf8 (map char_of [239, 191, 189 :: nat] @ t) = valid_utf8 t" for t
    using valid_utf8_rune [of "map char_of [239, 191, 189 :: nat]" t] fffd by simp
  show ?case
    using 1 valid_utf8_rune [of s] bad
    by (subst map_runes.simps) (auto simp: Let_def simp del: list.map)
qed

section \<open>White space\<close>

text \<open>
  The encodings of the runes of \<open>unicode.IsSpace\<close>. UTF-8 is prefix free, so a string
  starts (ends) with a space rune iff it starts (ends) with one of these.
\<close>

definition spaces :: "string list" where
  "spaces = map (map char_of)
     ([[9], [10], [11], [12], [13], [32], [194, 133], [194, 160], [225, 154, 128],
       [226, 128, 168], [226, 128, 169], [226, 128, 175], [226, 129, 159], [227, 128, 128 :: nat]]
      @ map (\<lambda>n. [226, 128, 128 + n]) [0, 1, 2, 3, 4, 5, 6, 7, 8, 9, 10])"

lemma spaces_chars [code]: "spaces = [[CHR 0x09], [CHR 0x0A], [CHR 0x0B], [CHR 0x0C], [CHR 0x0D], [CHR 0x20],
   [CHR 0xC2, CHR 0x85], [CHR 0xC2, CHR 0xA0], [CHR 0xE1, CHR 0x9A, CHR 0x80], [CHR 0xE2, CHR 0x80, CHR 0xA8],
   [CHR 0xE2, CHR 0x80, CHR 0xA9], [CHR 0xE2, CHR 0x80, CHR 0xAF], [CHR 0xE2, CHR 0x81, CHR 0x9F], [CHR 0xE3, CHR 0x80, CHR 0x80],
   [CHR 0xE2, CHR 0x80, CHR 0x80], [CHR 0xE2, CHR 0x80, CHR 0x81], [CHR 0xE2, CHR 0x80, CHR 0x82], [CHR 0xE2, CHR 0x80, CHR 0x83],
   [CHR 0xE2, CHR 0x80, CHR 0x84], [CHR 0xE2, CHR 0x80, CHR 0x85], [CHR 0xE2, CHR 0x80, CHR 0x86], [CHR 0xE2, CHR 0x80, CHR 0x87],
   [CHR 0xE2, CHR 0x80, CHR 0x88], [CHR 0xE2, CHR 0x80, CHR 0x89], [CHR 0xE2, CHR 0x80, CHR 0x8A]]"
  by (simp add: spaces_def char_of_def bit_iff_odd)

lemma find_prefix_shorter:
  "find (\<lambda>e. e \<noteq> [] \<and> has_prefix s e) pats = Some e \<Longrightarrow> length (drop (length e) s) < length s"
  by (drule find_set) (auto simp: has_prefix_append)

function strip :: "string list \<Rightarrow> string \<Rightarrow> string" where
  "strip pats s =
     (case find (\<lambda>e. e \<noteq> [] \<and> has_prefix s e) pats of
        None \<Rightarrow> s
      | Some e \<Rightarrow> strip pats (drop (length e) s))"
  by pat_completeness auto
termination
  by (relation "measure (\<lambda>(p, s). length s)") (auto dest: find_prefix_shorter)

declare strip.simps [simp del]

definition trim_space :: "string \<Rightarrow> string" where
  "trim_space s = rev (strip (map rev spaces) (rev (strip spaces s)))"

lemma strip_suffix: "\<exists>t. s = t @ strip pats s"
proof (induction pats s rule: strip.induct)
  case (1 pats s)
  show ?case
  proof (cases "find (\<lambda>e. e \<noteq> [] \<and> has_prefix s e) pats")
    case None
    then show ?thesis by (simp add: strip.simps)
  next
    case (Some e)
    with 1 obtain t where "drop (length e) s = t @ strip pats (drop (length e) s)" by blast
    then have "s = (take (length e) s @ t) @ strip pats (drop (length e) s)"
      by (metis append.assoc append_take_drop_id)
    moreover have "strip pats s = strip pats (drop (length e) s)"
      using Some by (subst strip.simps) simp
    ultimately show ?thesis by metis
  qed
qed

lemma strip_stop: "e \<in> set pats \<Longrightarrow> e \<noteq> [] \<Longrightarrow> \<not> has_prefix (strip pats s) e"
proof (induction pats s rule: strip.induct)
  case (1 pats s)
  then show ?case
    by (subst strip.simps) (auto simp: find_None_iff split: option.splits)
qed

lemma trim_space_middle: "\<exists>a b. s = a @ trim_space s @ b"
proof -
  obtain a where a: "s = a @ strip spaces s" using strip_suffix by blast
  obtain b where "rev (strip spaces s) = b @ strip (map rev spaces) (rev (strip spaces s))"
    using strip_suffix by blast
  then have "strip spaces s = trim_space s @ rev b"
    unfolding trim_space_def by (metis rev_append rev_rev_ident)
  with a show ?thesis by metis
qed

lemma trim_space_set: "set (trim_space s) \<subseteq> set s"
proof -
  obtain a b where "s = a @ trim_space s @ b" using trim_space_middle by blast
  then have "set s = set a \<union> set (trim_space s) \<union> set b" by (metis set_append sup_assoc)
  then show ?thesis by blast
qed

lemma trim_space_length: "length (trim_space s) \<le> length s"
proof -
  obtain a b where "s = a @ trim_space s @ b" using trim_space_middle by blast
  then have "length s = length a + length (trim_space s) + length b" by (metis add.assoc length_append)
  then show ?thesis by simp
qed

lemma trim_space_ends:
  assumes "e \<in> set spaces"
  shows "\<not> has_prefix (trim_space s) e" and "\<not> has_prefix (rev (trim_space s)) (rev e)"
proof -
  have ne: "e \<noteq> []" using assms by (auto simp: spaces_def)
  obtain b where b: "rev (strip spaces s) = b @ strip (map rev spaces) (rev (strip spaces s))"
    using strip_suffix by blast
  then have "strip spaces s = trim_space s @ rev b"
    unfolding trim_space_def by (metis rev_append rev_rev_ident)
  with strip_stop [OF assms ne, of s] show "\<not> has_prefix (trim_space s) e"
    by (metis append.assoc has_prefix_append)
  have "rev e \<in> set (map rev spaces)" using assms by simp
  with ne show "\<not> has_prefix (rev (trim_space s)) (rev e)"
    unfolding trim_space_def by (simp add: strip_stop)
qed

section \<open>Slash-separated paths\<close>

text \<open>
  \<open>path.Clean\<close> and \<open>filepath.Clean\<close> as a left-to-right pass over the components with the
  list of components kept so far: empty and \<open>.\<close> components are dropped, \<open>..\<close> removes
  the last real one, and is kept only at the front of a relative path.
\<close>

definition rooted :: "string \<Rightarrow> bool" where
  "rooted s = has_prefix s ''/''"

definition clean_step :: "bool \<Rightarrow> string list \<Rightarrow> string \<Rightarrow> string list" where
  "clean_step r out c =
     (if c = [] \<or> c = ''.'' then out
      else if c = ''..'' then
        (if out \<noteq> [] \<and> last out \<noteq> ''..'' then butlast out
         else if r then out else out @ [''..''])
      else out @ [c])"

definition comps :: "string \<Rightarrow> string list" where
  "comps s = foldl (clean_step (rooted s)) [] (split_at CHR ''/'' s)"

definition unsplit :: "bool \<Rightarrow> string list \<Rightarrow> string" where
  "unsplit r cs =
     (let s = (if r then ''/'' else []) @ join_with CHR ''/'' cs in if s = [] then ''.'' else s)"

definition go_clean :: "string \<Rightarrow> string" where
  "go_clean s = unsplit (rooted s) (comps s)"

text \<open>\<open>filepath.Join\<close> of two elements.\<close>

definition go_join :: "string \<Rightarrow> string \<Rightarrow> string" where
  "go_join a b =
     (if a = [] then (if b = [] then [] else go_clean b)
      else if b = [] then go_clean a
      else go_clean (a @ ''/'' @ b))"

text \<open>\<open>filepath.Rel\<close>; \<open>None\<close> is its error.\<close>

fun drop_common :: "string list \<Rightarrow> string list \<Rightarrow> string list \<times> string list" where
  "drop_common (b # bs) (t # ts) = (if b = t then drop_common bs ts else (b # bs, t # ts))"
| "drop_common bs ts = (bs, ts)"

definition go_rel :: "string \<Rightarrow> string \<Rightarrow> string option" where
  "go_rel base targ =
     (if go_clean base = go_clean targ then Some ''.''
      else if rooted base \<noteq> rooted targ then None
      else (case drop_common (comps base) (comps targ) of
          ([], ts) \<Rightarrow> Some (join_with CHR ''/'' ts)
        | (b # bs, ts) \<Rightarrow>
            if b = ''..'' then None
            else Some (join_with CHR ''/'' (replicate (length (b # bs)) ''..'' @ ts))))"

text \<open>\<open>filepath.Ext\<close>: the suffix from the last dot of the last element.\<close>

definition go_ext :: "string \<Rightarrow> string" where
  "go_ext s =
     (let e = last (split_at CHR ''/'' s)
      in if CHR ''.'' \<in> set e then CHR ''.'' # last (split_at CHR ''.'' e) else [])"

text \<open>\<open>path.Base\<close> and \<open>path.Dir\<close> of a non-empty path that \<open>path.Clean\<close> leaves alone.\<close>

definition base_of :: "string \<Rightarrow> string" where
  "base_of s = last (split_at CHR ''/'' s)"

definition dir_of :: "string \<Rightarrow> string" where
  "dir_of s =
     (let d = butlast (split_at CHR ''/'' s)
      in if d = [] then ''.'' else join_with CHR ''/'' d)"

definition proper :: "string \<Rightarrow> bool" where
  "proper c \<longleftrightarrow> c \<noteq> [] \<and> c \<noteq> ''.'' \<and> c \<noteq> ''..'' \<and> CHR ''/'' \<notin> set c"

text \<open>
  The components of a cleaned path: some \<open>..\<close>, none of them when the path is rooted,
  then proper names.
\<close>

definition clean_form :: "bool \<Rightarrow> string list \<Rightarrow> bool" where
  "clean_form r cs \<longleftrightarrow>
     (\<exists>k ns. cs = replicate k ''..'' @ ns \<and> (\<forall>n \<in> set ns. proper n) \<and> (r \<longrightarrow> k = 0))"

lemma clean_form_Nil [simp]: "clean_form r []"
  by (auto simp: clean_form_def intro: exI [of _ 0])

lemma clean_form_step:
  assumes "clean_form r out" and "CHR ''/'' \<notin> set c"
  shows "clean_form r (clean_step r out c)"
proof -
  from assms(1) obtain k ns where out: "out = replicate k ''..'' @ ns"
    and ns: "\<forall>n \<in> set ns. proper n" and r: "r \<longrightarrow> k = 0"
    by (auto simp: clean_form_def)
  consider (skip) "c = [] \<or> c = ''.''" | (up) "c = ''..''" | (name) "proper c"
    using assms(2) by (auto simp: proper_def)
  then show ?thesis
  proof cases
    case skip
    then show ?thesis using assms(1) by (auto simp: clean_step_def)
  next
    case name
    then have "clean_step r out c = replicate k ''..'' @ (ns @ [c])"
      by (auto simp: clean_step_def proper_def out)
    then show ?thesis
      unfolding clean_form_def using ns r name by (intro exI [of _ k] exI [of _ "ns @ [c]"]) auto
  next
    case up
    show ?thesis
    proof (cases "ns = []")
      case True
      then have "clean_step r out c = (if r then out else replicate (Suc k) ''..'')"
        using up out by (cases k) (auto simp: clean_step_def replicate_append_same last_replicate)
      then show ?thesis
        using assms(1) unfolding clean_form_def
        by (metis append_Nil2 empty_iff empty_set)
    next
      case False
      then have "last out \<noteq> ''..''" and "out \<noteq> []"
        using ns out by (auto simp: proper_def)
      then have "clean_step r out c = replicate k ''..'' @ butlast ns"
        using up False out by (auto simp: clean_step_def butlast_append)
      then show ?thesis
        unfolding clean_form_def using ns r
        by (intro exI [of _ k] exI [of _ "butlast ns"]) (auto dest: in_set_butlastD)
    qed
  qed
qed

lemma clean_form_foldl:
  "clean_form r out \<Longrightarrow> (\<And>c. c \<in> set cs \<Longrightarrow> CHR ''/'' \<notin> set c) \<Longrightarrow> clean_form r (foldl (clean_step r) out cs)"
  by (induction cs arbitrary: out) (auto intro: clean_form_step)

lemma clean_form_comps: "clean_form (rooted s) (comps s)"
  unfolding comps_def by (rule clean_form_foldl [OF clean_form_Nil]) (erule split_at_no_sep)

lemma clean_form_no_sep:
  assumes "clean_form r cs" and "c \<in> set cs"
  shows "CHR ''/'' \<notin> set c \<and> c \<noteq> [] \<and> c \<noteq> ''.''"
proof -
  from assms(1) obtain k ns where cs: "cs = replicate k ''..'' @ ns" and ns: "\<forall>n \<in> set ns. proper n"
    unfolding clean_form_def by blast
  from assms(2) have "c = ''..'' \<or> c \<in> set ns" unfolding cs by auto
  then show ?thesis
  proof
    assume "c \<in> set ns"
    with ns have "proper c" by blast
    then show ?thesis by (simp add: proper_def)
  qed simp
qed

text \<open>Cleaning does nothing to names, and nothing to a list in clean form.\<close>

lemma foldl_names: "(\<forall>n \<in> set ns. proper n) \<Longrightarrow> foldl (clean_step r) out ns = out @ ns"
  by (induction ns arbitrary: out) (auto simp: clean_step_def proper_def)

lemma foldl_ups: "foldl (clean_step False) (replicate j ''..'') (replicate k ''..'') = replicate (j + k) ''..''"
proof (induction k arbitrary: j)
  case 0
  then show ?case by simp
next
  case (Suc k)
  have "clean_step False (replicate j ''..'') ''..'' = replicate (Suc j) ''..''"
    by (cases j) (auto simp: clean_step_def replicate_append_same last_replicate)
  then show ?case using Suc [of "Suc j"] by simp
qed

lemma foldl_clean_form: "clean_form r cs \<Longrightarrow> foldl (clean_step r) [] cs = cs"
proof -
  assume "clean_form r cs"
  then obtain k ns where cs: "cs = replicate k ''..'' @ ns"
    and ns: "\<forall>n \<in> set ns. proper n" and r: "r \<longrightarrow> k = 0"
    by (auto simp: clean_form_def)
  have "foldl (clean_step r) [] (replicate k ''..'') = replicate k ''..''"
    using r foldl_ups [of 0 k] by (cases r) auto
  with cs show ?thesis using foldl_names [OF ns] by simp
qed

lemma rooted_join: "clean_form r cs \<Longrightarrow> cs \<noteq> [] \<Longrightarrow> \<not> rooted (join_with CHR ''/'' cs)"
proof -
  assume a: "clean_form r cs" "cs \<noteq> []"
  then obtain c ds where cs: "cs = c # ds" by (cases cs) auto
  with a have "c \<noteq> []" and "CHR ''/'' \<notin> set c" using clean_form_no_sep by auto
  then show ?thesis
    by (cases c; cases ds) (auto simp: cs rooted_def has_prefix_def)
qed

lemma join_ne: "clean_form r cs \<Longrightarrow> cs \<noteq> [] \<Longrightarrow> join_with CHR ''/'' cs \<noteq> []"
  using clean_form_no_sep [of r cs "hd cs"] by (cases cs; cases "tl cs") auto

lemma rooted_unsplit: "clean_form r cs \<Longrightarrow> rooted (unsplit r cs) = r"
  using rooted_join [of r cs]
  by (cases "cs = []") (auto simp: unsplit_def Let_def rooted_def has_prefix_def)

lemma comps_unsplit: "clean_form r cs \<Longrightarrow> comps (unsplit r cs) = cs"
proof -
  assume a: "clean_form r cs"
  show ?thesis
  proof (cases "cs = []")
    case True
    then show ?thesis
      by (cases r) (auto simp: unsplit_def comps_def clean_step_def)
  next
    case False
    have "split_at CHR ''/'' (join_with CHR ''/'' cs) = cs"
      using False clean_form_no_sep [OF a] by (intro split_join) auto
    then have "split_at CHR ''/'' (unsplit r cs) = (if r then [] # cs else cs)"
      using join_ne [OF a False] by (auto simp: unsplit_def Let_def)
    then show ?thesis
      using foldl_clean_form [OF a] rooted_unsplit [OF a] by (auto simp: comps_def clean_step_def)
  qed
qed

lemma comps_clean [simp]: "comps (go_clean s) = comps s"
  by (simp add: go_clean_def comps_unsplit clean_form_comps)

lemma rooted_clean [simp]: "rooted (go_clean s) = rooted s"
  by (simp add: go_clean_def rooted_unsplit clean_form_comps)

lemma go_clean_idem: "go_clean (go_clean s) = go_clean s"
  by (simp add: go_clean_def comps_unsplit rooted_unsplit clean_form_comps)

lemma go_clean_eq: "go_clean s = go_clean t \<longleftrightarrow> rooted s = rooted t \<and> comps s = comps t"
proof
  assume eq: "go_clean s = go_clean t"
  from arg_cong [OF eq, of rooted] arg_cong [OF eq, of comps]
  show "rooted s = rooted t \<and> comps s = comps t" by simp
qed (simp add: go_clean_def)

text \<open>Joining a path that cleans to proper names appends the names.\<close>

lemma comps_append_names:
  assumes "a \<noteq> []" and "comps b = ns" and "\<forall>n \<in> set ns. proper n" and "\<not> rooted b" and "go_clean b = b"
    and "ns \<noteq> []"
  shows "comps (a @ ''/'' @ b) = comps a @ ns" and "rooted (a @ ''/'' @ b) = rooted a"
proof -
  show r: "rooted (a @ ''/'' @ b) = rooted a"
    using assms(1) by (cases a) (auto simp: rooted_def has_prefix_def)
  have ne: "join_with CHR ''/'' ns \<noteq> []"
    using assms(2,4,6) clean_form_comps [of b] by (metis join_ne)
  have "b = unsplit False ns"
    using assms(2,4,5) by (simp add: go_clean_def)
  with ne have "b = join_with CHR ''/'' ns"
    by (simp add: unsplit_def)
  moreover have "\<forall>p \<in> set ns. CHR ''/'' \<notin> set p"
    using assms(3) by (simp add: proper_def)
  ultimately have "split_at CHR ''/'' b = ns"
    using assms(6) split_join by blast
  then have "split_at CHR ''/'' (a @ ''/'' @ b) = split_at CHR ''/'' a @ ns"
    using split_at_append_sep [of "CHR ''/''" a b] by simp
  then show "comps (a @ ''/'' @ b) = comps a @ ns"
    unfolding comps_def r by (simp add: foldl_names [OF assms(3)])
qed

end
