(* ===== verification/Storage.thy ===== *)
theory Storage
  imports GoStrings
begin

text \<open>
  \<open>internal/storage/local.go\<close>: the blob store in DATA_DIR. \<open>resolve\<close> maps a storage
  key to a path below the root; the operations read and write the file at that path.

  The operations are written once over a disk whose files are named by any type of
  keys (\<open>st_...\<close>). \<open>storage.Local\<close> (\<open>Save\<close>, \<open>Open\<close>, ...) is those operations on paths,
  after \<open>resolve\<close>; the services use them on structured keys (theory Keys), and
  \<open>StorageRefine\<close> shows that the first implements the second. \<open>faults\<close> is the schedule
  of the failures of the environment: each call that can fail takes the next boolean
  off it and fails when that is true; an empty schedule never fails. Directories are
  not modelled: \<open>MkdirAll\<close> is a call that can fail.
\<close>

section \<open>resolve\<close>

definition resolve :: "string \<Rightarrow> string \<Rightarrow> err + string" where
  "resolve root key =
     (let clean = go_clean (replace_all (CHR 0x5C) CHR ''/'' key)
      in if clean = ''.'' \<or> has_prefix clean ''..'' \<or> rooted clean then Inl (Msg ''invalid storage key'')
         else let full = go_join root clean
              in case go_rel root full of
                   None \<Rightarrow> Inl (Msg ''storage key escapes root'')
                 | Some rel \<Rightarrow>
                     if has_prefix rel ''..'' then Inl (Msg ''storage key escapes root'')
                     else Inr full)"

lemma clean_rel_names:
  assumes "go_clean s = clean" and "clean \<noteq> ''.''" and "\<not> has_prefix clean ''..''" and "\<not> rooted clean"
  shows "comps clean \<noteq> []" and "\<forall>n \<in> set (comps clean). proper n"
proof -
  have form: "clean_form False (comps clean)"
    using clean_form_comps [of clean] assms(4) by simp
  have "rooted s = False" and "comps s = comps clean"
    using assms(1,4) rooted_clean [of s] comps_clean [of s] by simp_all
  then have clean: "clean = unsplit False (comps clean)"
    using assms(1) by (simp add: go_clean_def)
  show ne: "comps clean \<noteq> []"
    using clean assms(2) by (auto simp: unsplit_def)
  from form obtain k ns where cs: "comps clean = replicate k ''..'' @ ns"
    and ns: "\<forall>n \<in> set ns. proper n" unfolding clean_form_def by blast
  have "k = 0"
  proof (rule ccontr)
    assume "k \<noteq> 0"
    then obtain rest where "comps clean = ''..'' # rest" using cs by (cases k) auto
    moreover have "has_prefix (join_with CHR ''/'' (''..'' # rest)) ''..''"
      by (cases rest) (auto simp: has_prefix_def)
    ultimately have "has_prefix clean ''..''"
      using clean join_ne [OF form ne] by (simp add: unsplit_def)
    with assms(3) show False ..
  qed
  with cs ns show "\<forall>n \<in> set (comps clean). proper n" by simp
qed

lemma drop_common_append: "drop_common bs (bs @ ts) = ([], ts)"
  by (induction bs) (cases ts, auto)

text \<open>What \<open>resolve\<close> returns: the components of the root, then those of the cleaned key.\<close>

lemma resolve_ok:
  assumes "go_clean (replace_all (CHR 0x5C) CHR ''/'' key) = clean"
    and "clean \<noteq> ''.''" and "\<not> has_prefix clean ''..''" and "\<not> rooted clean"
  shows "resolve root key = Inr (go_join root clean)"
    and "comps (go_join root clean) = comps root @ comps clean"
    and "rooted (go_join root clean) = rooted root"
proof -
  note names = clean_rel_names [OF assms]
  have idem: "go_clean clean = clean" using assms(1) go_clean_idem by metis
  have ne: "clean \<noteq> []" using names(1) by (auto simp: comps_def clean_step_def)
  have both: "comps (go_join root clean) = comps root @ comps clean
      \<and> rooted (go_join root clean) = rooted root"
  proof (cases "root = []")
    case True
    then show ?thesis
      using ne idem assms(4) by (auto simp: go_join_def comps_def clean_step_def rooted_def has_prefix_def)
  next
    case False
    then show ?thesis
      using ne comps_append_names [OF False refl names(2) assms(4) idem names(1)]
      by (simp add: go_join_def)
  qed
  then show c: "comps (go_join root clean) = comps root @ comps clean"
    and r: "rooted (go_join root clean) = rooted root" by simp_all
  have rel: "go_rel root (go_join root clean) = Some (join_with CHR ''/'' (comps clean))"
    using c r names(1) by (simp add: go_rel_def go_clean_eq drop_common_append)
  have "join_with CHR ''/'' (comps clean) = clean"
    using idem assms(4) ne join_ne [of False "comps clean"] clean_form_comps [of clean] names(1)
    by (simp add: go_clean_def unsplit_def)
  with rel assms show "resolve root key = Inr (go_join root clean)"
    by (simp add: resolve_def Let_def)
qed

text \<open>
  The second check of \<open>resolve\<close> never fires: it is a guard against an error in the
  first one.
\<close>

lemma resolve_errors: "resolve root key = Inl e \<Longrightarrow> e = Msg ''invalid storage key''"
  using resolve_ok(1) [of key "go_clean (replace_all (CHR 0x5C) CHR ''/'' key)" root]
  by (auto simp: resolve_def Let_def split: if_splits)

lemma resolve_InrD:
  assumes "resolve root key = Inr full"
  shows "\<exists>cs. cs \<noteq> [] \<and> (\<forall>c \<in> set cs. proper c) \<and> comps full = comps root @ cs \<and> rooted full = rooted root
    \<and> go_clean full = full"
proof -
  let ?c = "go_clean (replace_all (CHR 0x5C) CHR ''/'' key)"
  have g: "?c \<noteq> ''.''" "\<not> has_prefix ?c ''..''" "\<not> rooted ?c"
    using assms by (auto simp: resolve_def Let_def split: if_splits)
  note ok = resolve_ok [OF refl g, of root] and names = clean_rel_names [OF refl g]
  have full: "full = go_join root ?c" using ok(1) assms by simp
  have "?c \<noteq> []" using names(1) by (auto simp: comps_def clean_step_def)
  then have "go_clean full = full"
    unfolding full go_join_def by (simp add: go_clean_idem)
  with ok(2,3) names show ?thesis unfolding full by blast
qed

section \<open>Operations on files\<close>

record 'k disk =
  files :: "'k \<Rightarrow> string option"
  faults :: "bool list"

definition faulty :: "('k, 'z) disk_scheme \<Rightarrow> bool" where
  "faulty w = (case faults w of [] \<Rightarrow> False | b # _ \<Rightarrow> b)"

definition pop :: "('k, 'z) disk_scheme \<Rightarrow> ('k, 'z) disk_scheme" where
  "pop w = w\<lparr>faults := tl (faults w)\<rparr>"

text \<open>A call of the operating system: it may fail before it has any effect.\<close>

definition oscall :: "(('k, 'z) disk_scheme, err, 'a) io \<Rightarrow> (('k, 'z) disk_scheme, err, 'a) io" where
  "oscall m = (\<lambda>w. if faulty w then (Inl Fault, pop w) else m (pop w))"

definition os_mkdir :: "(('k, 'z) disk_scheme, err, unit) io" where
  "os_mkdir = oscall (ret ())"

definition os_create :: "'k \<Rightarrow> (('k, 'z) disk_scheme, err, unit) io" where
  "os_create k = oscall (modw (\<lambda>w. w\<lparr>files := (files w)(k \<mapsto> [])\<rparr>))"

definition os_read :: "'k \<Rightarrow> (('k, 'z) disk_scheme, err, string) io" where
  "os_read k = oscall (bnd (getw (\<lambda>w. files w k)) (\<lambda>c. case c of None \<Rightarrow> fail NotExist | Some s \<Rightarrow> ret s))"

definition os_remove :: "'k \<Rightarrow> (('k, 'z) disk_scheme, err, unit) io" where
  "os_remove k = oscall (bnd (getw (\<lambda>w. files w k)) (\<lambda>c. case c of
      None \<Rightarrow> fail NotExist
    | Some _ \<Rightarrow> modw (\<lambda>w. w\<lparr>files := (files w)(k := None)\<rparr>)))"

definition os_append :: "'k \<Rightarrow> string \<Rightarrow> (('k, 'z) disk_scheme, err, unit) io" where
  "os_append k bs = oscall (modw (\<lambda>w. w\<lparr>files := (files w)(k := map_option (\<lambda>c. c @ bs) (files w k))\<rparr>))"

definition os_rename :: "'k \<Rightarrow> 'k \<Rightarrow> (('k, 'z) disk_scheme, err, unit) io" where
  "os_rename a b = oscall (bnd (getw (\<lambda>w. files w a)) (\<lambda>c. case c of
      None \<Rightarrow> fail NotExist
    | Some s \<Rightarrow> modw (\<lambda>w. w\<lparr>files := (files w)(a := None, b \<mapsto> s)\<rparr>)))"

text \<open>\<open>os.Truncate\<close>: cuts a file, or extends it with zero bytes.\<close>

definition resize :: "int \<Rightarrow> string \<Rightarrow> string" where
  "resize n s = take (nat n) s @ replicate (nat n - length s) (CHR 0x00)"

definition os_truncate :: "'k \<Rightarrow> int \<Rightarrow> (('k, 'z) disk_scheme, err, unit) io" where
  "os_truncate k n = oscall (bnd (getw (\<lambda>w. files w k)) (\<lambda>c. case c of
      None \<Rightarrow> fail NotExist
    | Some s \<Rightarrow> if n < 0 then fail Fault else modw (\<lambda>w. w\<lparr>files := (files w)(k \<mapsto> resize n s)\<rparr>)))"

text \<open>
  A source of bytes (\<open>io.Reader\<close>): what its successive reads give, \<open>Broken\<close> for a read
  that fails, the end of the list for \<open>io.EOF\<close>.
\<close>

datatype rd = Data string | Broken

fun stream_bytes :: "rd list \<Rightarrow> string" where
  "stream_bytes [] = []"
| "stream_bytes (Data bs # rs) = bs @ stream_bytes rs"
| "stream_bytes (Broken # _) = []"

definition sound :: "rd list \<Rightarrow> bool" where
  "sound rs \<longleftrightarrow> Broken \<notin> set rs"

text \<open>\<open>io.LimitReader\<close>.\<close>

fun limit_reader :: "int \<Rightarrow> rd list \<Rightarrow> rd list" where
  "limit_reader n [] = []"
| "limit_reader n (Broken # rs) = (if n \<le> 0 then [] else [Broken])"
| "limit_reader n (Data bs # rs) =
     (if n \<le> 0 then [] else Data (take (nat n) bs) # limit_reader (n - int (length bs)) rs)"

text \<open>\<open>copyWithContext\<close>: one \<open>oscall\<close> per round covers a cancelled context and a failed write.\<close>

fun copy_with_context :: "'k \<Rightarrow> rd list \<Rightarrow> int \<Rightarrow> (('k, 'z) disk_scheme, err, int) io" where
  "copy_with_context k [] n = ret n"
| "copy_with_context k (Broken # _) n = fail Fault"
| "copy_with_context k (Data bs # rs) n =
     bnd (os_append k bs) (\<lambda>_. copy_with_context k rs (n + int (length bs)))"

definition st_save :: "'k \<Rightarrow> rd list \<Rightarrow> (('k, 'z) disk_scheme, err, int) io" where
  "st_save k src =
     bnd os_mkdir (\<lambda>_.
     bnd (os_create k) (\<lambda>_.
     on_err (copy_with_context k src 0) (os_remove k)))"

definition st_open :: "'k \<Rightarrow> (('k, 'z) disk_scheme, err, string) io" where
  "st_open k = os_read k"

definition st_delete :: "'k \<Rightarrow> (('k, 'z) disk_scheme, err, unit) io" where
  "st_delete k = bnd (result (os_remove k)) (\<lambda>r. case r of
      Inl e \<Rightarrow> if e = NotExist then ret () else fail e
    | Inr _ \<Rightarrow> ret ())"

definition st_size :: "'k \<Rightarrow> (('k, 'z) disk_scheme, err, int) io" where
  "st_size k = bnd (result (os_read k)) (\<lambda>r. case r of
      Inl e \<Rightarrow> if e = NotExist then ret 0 else fail e
    | Inr c \<Rightarrow> ret (int (length c)))"

definition st_ensure_empty :: "'k \<Rightarrow> (('k, 'z) disk_scheme, err, unit) io" where
  "st_ensure_empty k = bnd os_mkdir (\<lambda>_. bnd (os_create k) (\<lambda>_. oscall (ret ())))"

definition st_truncate :: "'k \<Rightarrow> int \<Rightarrow> (('k, 'z) disk_scheme, err, unit) io" where
  "st_truncate k n = (if n = 0 then st_ensure_empty k else os_truncate k n)"

definition os_open_rw :: "'k \<Rightarrow> (('k, 'z) disk_scheme, err, unit) io" where
  "os_open_rw k = oscall (modw (\<lambda>w. w\<lparr>files := (files w)(k \<mapsto> (case files w k of None \<Rightarrow> [] | Some c \<Rightarrow> c))\<rparr>))"

definition st_append_at :: "'k \<Rightarrow> int \<Rightarrow> rd list \<Rightarrow> (('k, 'z) disk_scheme, err, int) io" where
  "st_append_at k off src =
     bnd os_mkdir (\<lambda>_.
     bnd (os_open_rw k) (\<lambda>_.
     bnd (os_read k) (\<lambda>c.
     bnd (if int (length c) > off then os_truncate k off
          else if int (length c) < off then fail (Msg ''unexpected file offset'')
          else ret ()) (\<lambda>_.
     bnd (oscall (ret ())) (\<lambda>_.
     copy_with_context k src 0)))))"

definition st_finalize :: "'k \<Rightarrow> 'k \<Rightarrow> (('k, 'z) disk_scheme, err, unit) io" where
  "st_finalize tmp dst =
     bnd os_mkdir (\<lambda>_.
     bnd (result (os_rename tmp dst)) (\<lambda>r. case r of
       Inr _ \<Rightarrow> ret ()
     | Inl e \<Rightarrow>
         bnd (result (os_read tmp)) (\<lambda>i. case i of
           Inl _ \<Rightarrow> fail e
         | Inr c \<Rightarrow>
             bnd (os_create dst) (\<lambda>_.
             bnd (on_err (os_append dst c) (os_remove dst)) (\<lambda>_.
             ignore (os_remove tmp))))))"

section \<open>storage.Local\<close>

definition at_key :: "string \<Rightarrow> string \<Rightarrow> (string \<Rightarrow> ('w, err, 'a) io) \<Rightarrow> ('w, err, 'a) io" where
  "at_key root key f = (case resolve root key of Inl e \<Rightarrow> fail e | Inr path \<Rightarrow> f path)"

definition Save :: "string \<Rightarrow> string \<Rightarrow> rd list \<Rightarrow> ((string, 'z) disk_scheme, err, int) io" where
  "Save root key src = at_key root key (\<lambda>path. st_save path src)"

definition Open :: "string \<Rightarrow> string \<Rightarrow> ((string, 'z) disk_scheme, err, string) io" where
  "Open root key = at_key root key st_open"

definition Delete :: "string \<Rightarrow> string \<Rightarrow> ((string, 'z) disk_scheme, err, unit) io" where
  "Delete root key = at_key root key st_delete"

definition Size :: "string \<Rightarrow> string \<Rightarrow> ((string, 'z) disk_scheme, err, int) io" where
  "Size root key = at_key root key st_size"

definition EnsureEmpty :: "string \<Rightarrow> string \<Rightarrow> ((string, 'z) disk_scheme, err, unit) io" where
  "EnsureEmpty root key = at_key root key st_ensure_empty"

definition Truncate :: "string \<Rightarrow> string \<Rightarrow> int \<Rightarrow> ((string, 'z) disk_scheme, err, unit) io" where
  "Truncate root key n = at_key root key (\<lambda>path. st_truncate path n)"

definition AppendAt :: "string \<Rightarrow> string \<Rightarrow> int \<Rightarrow> rd list \<Rightarrow> ((string, 'z) disk_scheme, err, int) io" where
  "AppendAt root key off src = at_key root key (\<lambda>path. st_append_at path off src)"

definition Finalize :: "string \<Rightarrow> string \<Rightarrow> string \<Rightarrow> ((string, 'z) disk_scheme, err, unit) io" where
  "Finalize root tempKey finalKey =
     at_key root tempKey (\<lambda>src. at_key root finalKey (\<lambda>dst. st_finalize src dst))"

section \<open>Weakest preconditions of the file operations\<close>

lemma faulty_pop_simps [simp]:
  "faults w = [] \<Longrightarrow> faulty w = False" "faults w = [] \<Longrightarrow> pop w = w"
  "files (pop w) = files w" "faults (pop w) = tl (faults w)"
  by (simp_all add: faulty_def pop_def)

lemma pop_update [simp]: "pop (w\<lparr>files := f\<rparr>) = (pop w)\<lparr>files := f\<rparr>" "faulty (w\<lparr>files := f\<rparr>) = faulty w"
  by (simp_all add: faulty_def pop_def)

lemma wp_oscall [wp_simps]:
  "wp (oscall m) Q E w = (if faulty w then E Fault (pop w) else wp m Q E (pop w))"
  by (simp add: wp_def oscall_def)

lemmas os_defs = os_mkdir_def os_create_def os_read_def os_remove_def os_append_def os_rename_def
  os_truncate_def os_open_rw_def

section \<open>Which files an operation may change\<close>

text \<open>
  \<open>only K m\<close>: \<open>m\<close> changes nothing but the files in \<open>K\<close> and the fault schedule, of which
  it takes a prefix.
\<close>

definition disk_step :: "'k set \<Rightarrow> ('k, 'z) disk_scheme \<Rightarrow> ('k, 'z) disk_scheme \<Rightarrow> bool" where
  "disk_step K w w' \<longleftrightarrow> (\<exists>f n. w' = w\<lparr>files := f, faults := drop n (faults w)\<rparr> \<and> (\<forall>p. p \<notin> K \<longrightarrow> f p = files w p))"

abbreviation only :: "'k set \<Rightarrow> (('k, 'z) disk_scheme, err, 'a) io \<Rightarrow> bool" where
  "only K m \<equiv> steps (disk_step K) m"

lemma disk_stepI:
  "w' = w\<lparr>files := f, faults := drop n (faults w)\<rparr> \<Longrightarrow> (\<And>p. p \<notin> K \<Longrightarrow> f p = files w p) \<Longrightarrow> disk_step K w w'"
  unfolding disk_step_def by blast

lemma disk_step_refl [simp]: "disk_step K w w"
  by (rule disk_stepI [where f = "files w" and n = 0]) simp_all

lemma disk_step_pop [simp]: "disk_step K w (pop w)"
  by (rule disk_stepI [where f = "files w" and n = 1]) (simp_all add: pop_def drop_Suc)

lemma preorder_disk_step [steps_intros]: "preorder (disk_step K)"
proof (rule preorderI)
  fix a b c :: "('a, 'b) disk_scheme"
  assume "disk_step K a b" "disk_step K b c"
  then obtain f n g m where b: "b = a\<lparr>files := f, faults := drop n (faults a)\<rparr>" "\<forall>p. p \<notin> K \<longrightarrow> f p = files a p"
    and c: "c = b\<lparr>files := g, faults := drop m (faults b)\<rparr>" "\<forall>p. p \<notin> K \<longrightarrow> g p = files b p"
    unfolding disk_step_def by blast
  then show "disk_step K a c"
    by (intro disk_stepI [where f = g and n = "m + n"]) simp_all
qed simp

lemma only_modw: "(\<And>w p. p \<notin> K \<Longrightarrow> h w p = files w p) \<Longrightarrow> only K (modw (\<lambda>w. w\<lparr>files := h w\<rparr>))"
  by (auto simp: steps_def modw_def intro!: disk_stepI [where n = 0])

lemma only_oscall [steps_intros]: "only K m \<Longrightarrow> only K (oscall m)"
  unfolding steps_def oscall_def using preorder_trans [OF preorder_disk_step disk_step_pop] by auto

lemma only_os [steps_intros]:
  "only K os_mkdir" "k \<in> K \<Longrightarrow> only K (os_create k)" "only K (os_read k)" "k \<in> K \<Longrightarrow> only K (os_remove k)"
  "k \<in> K \<Longrightarrow> only K (os_append k bs)" "a \<in> K \<Longrightarrow> k \<in> K \<Longrightarrow> only K (os_rename a k)"
  "k \<in> K \<Longrightarrow> only K (os_truncate k n)" "k \<in> K \<Longrightarrow> only K (os_open_rw k)"
  unfolding os_defs by (intro steps_intros only_modw; auto)+

lemma only_copy [steps_intros]: "k \<in> K \<Longrightarrow> only K (copy_with_context k src n)"
  by (induction k src n rule: copy_with_context.induct) (auto intro!: steps_intros)

lemma only_st [steps_intros]:
  "k \<in> K \<Longrightarrow> only K (st_save k src)" "only K (st_open k)" "k \<in> K \<Longrightarrow> only K (st_delete k)"
  "only K (st_size k)" "k \<in> K \<Longrightarrow> only K (st_ensure_empty k)" "k \<in> K \<Longrightarrow> only K (st_truncate k n)"
  "k \<in> K \<Longrightarrow> only K (st_append_at k off src)"
  "a \<in> K \<Longrightarrow> k \<in> K \<Longrightarrow> only K (st_finalize a k)"
  unfolding st_save_def st_open_def st_delete_def st_size_def st_ensure_empty_def st_truncate_def
    st_append_at_def st_finalize_def
  by (auto intro!: steps_intros)

text \<open>The paths below the root: proper names appended to the components of the root.\<close>

definition under :: "string \<Rightarrow> string \<Rightarrow> bool" where
  "under root p \<longleftrightarrow> go_clean p = p \<and> rooted p = rooted root \<and>
     (\<exists>cs. cs \<noteq> [] \<and> (\<forall>c \<in> set cs. proper c) \<and> comps p = comps root @ cs)"

lemma under_resolve: "resolve root key = Inr p \<Longrightarrow> under root p"
  using resolve_InrD [of root key p] by (auto simp: under_def)

lemma only_mono: "only K m \<Longrightarrow> K \<subseteq> L \<Longrightarrow> only L m"
  by (erule steps_weaken) (auto simp: disk_step_def)

lemma only_at_key:
  "(\<And>p. under root p \<Longrightarrow> only {p. under root p} (f p)) \<Longrightarrow> only {p. under root p} (at_key root key f)"
  unfolding at_key_def by (auto intro!: steps_intros under_resolve)

lemma only_local:
  "only {p. under root p} (Save root key src)" "only {p. under root p} (Open root key)"
  "only {p. under root p} (Delete root key)" "only {p. under root p} (Size root key)"
  "only {p. under root p} (EnsureEmpty root key)" "only {p. under root p} (Truncate root key n)"
  "only {p. under root p} (AppendAt root key off src)" "only {p. under root p} (Finalize root key key')"
  unfolding Save_def Open_def Delete_def Size_def EnsureEmpty_def Truncate_def AppendAt_def Finalize_def
  by (intro only_at_key; auto intro!: steps_intros)+

section \<open>What the operations do when nothing fails\<close>

lemma copy_ok:
  assumes "faults w = []" and "sound src" and "files w k = Some c"
  shows "copy_with_context k src n w
    = (Inr (n + int (length (stream_bytes src))), w\<lparr>files := (files w)(k \<mapsto> c @ stream_bytes src)\<rparr>)"
  using assms
proof (induction k src n arbitrary: w c rule: copy_with_context.induct)
  case (1 k n)
  then show ?case by (simp add: ret_def fun_upd_idem)
next
  case (2 k rs n)
  then show ?case by (simp add: sound_def)
next
  case (3 k bs rs n)
  let ?w = "w\<lparr>files := (files w)(k \<mapsto> c @ bs)\<rparr>"
  have "copy_with_context k rs (n + int (length bs)) ?w
      = (Inr (n + int (length bs) + int (length (stream_bytes rs))),
         ?w\<lparr>files := (files ?w)(k \<mapsto> (c @ bs) @ stream_bytes rs)\<rparr>)"
    using "3.prems" by (intro "3.IH") (auto simp: sound_def)
  with "3.prems" show ?case
    by (simp add: bnd_def os_append_def oscall_def modw_def) (simp add: fun_upd_def)
qed

lemma st_save_ok:
  assumes "faults w = []" and "sound src"
  shows "st_save k src w = (Inr (int (length (stream_bytes src))), w\<lparr>files := (files w)(k \<mapsto> stream_bytes src)\<rparr>)"
  using assms copy_ok [of "w\<lparr>files := (files w)(k \<mapsto> [])\<rparr>" src k "[]" 0]
  by (simp add: st_save_def bnd_def os_defs oscall_def modw_def on_err_def ret_def)

lemma st_delete_ok: "faults w = [] \<Longrightarrow> st_delete k w = (Inr (), w\<lparr>files := (files w)(k := None)\<rparr>)"
  by (auto simp: st_delete_def bnd_def result_def os_defs oscall_def modw_def ret_def fail_def getw_def
      fun_upd_idem split: option.splits)

lemma st_size_ok:
  "faults w = [] \<Longrightarrow> st_size k w = (Inr (case files w k of None \<Rightarrow> 0 | Some c \<Rightarrow> int (length c)), w)"
  by (auto simp: st_size_def bnd_def result_def os_defs oscall_def ret_def fail_def getw_def split: option.splits)

lemma st_open_ok: "faults w = [] \<Longrightarrow> files w k = Some c \<Longrightarrow> st_open k w = (Inr c, w)"
  by (auto simp: st_open_def bnd_def os_defs oscall_def ret_def getw_def)

lemma st_ensure_empty_ok: "faults w = [] \<Longrightarrow> st_ensure_empty k w = (Inr (), w\<lparr>files := (files w)(k \<mapsto> [])\<rparr>)"
  by (simp add: st_ensure_empty_def bnd_def os_defs oscall_def ret_def modw_def)

lemma st_truncate_ok:
  "faults w = [] \<Longrightarrow> files w k = Some c \<Longrightarrow> 0 \<le> n \<Longrightarrow>
     st_truncate k n w = (Inr (), w\<lparr>files := (files w)(k \<mapsto> resize n c)\<rparr>)"
  by (auto simp: st_truncate_def st_ensure_empty_ok resize_def)
     (simp add: bnd_def os_defs oscall_def ret_def modw_def getw_def resize_def)

lemma st_append_at_ok:
  assumes "faults w = []" and "sound src" and "files w k = Some c" and "0 \<le> off" and "off \<le> int (length c)"
  shows "st_append_at k off src w = (Inr (int (length (stream_bytes src))),
    w\<lparr>files := (files w)(k \<mapsto> take (nat off) c @ stream_bytes src)\<rparr>)"
proof -
  let ?w = "w\<lparr>files := (files w)(k \<mapsto> take (nat off) c)\<rparr>"
  have copy: "copy_with_context k src 0 ?w = (Inr (int (length (stream_bytes src))),
      w\<lparr>files := (files w)(k \<mapsto> take (nat off) c @ stream_bytes src)\<rparr>)"
    using copy_ok [of ?w src k "take (nat off) c" 0] assms by simp
  show ?thesis
  proof (cases "int (length c) > off")
    case True
    have "resize off c = take (nat off) c" using True assms(4) by (simp add: resize_def)
    then show ?thesis using True assms copy
      by (simp add: st_append_at_def bnd_def os_defs oscall_def ret_def modw_def getw_def fun_upd_idem)
  next
    case False
    then have "off = int (length c)" using assms(5) by simp
    then show ?thesis using assms copy
      by (simp add: st_append_at_def bnd_def os_defs oscall_def ret_def modw_def getw_def fun_upd_idem)
  qed
qed

lemma st_finalize_ok:
  "faults w = [] \<Longrightarrow> files w a = Some c \<Longrightarrow> a \<noteq> b \<Longrightarrow>
     st_finalize a b w = (Inr (), w\<lparr>files := (files w)(a := None, b \<mapsto> c)\<rparr>)"
  by (simp add: st_finalize_def bnd_def result_def os_defs oscall_def ret_def modw_def getw_def)

lemmas st_ok = st_save_ok st_delete_ok st_size_ok st_open_ok st_ensure_empty_ok st_truncate_ok
  st_append_at_ok st_finalize_ok

lemma stream_bytes_limit:
  "sound src \<Longrightarrow> stream_bytes (limit_reader n src) = take (nat n) (stream_bytes src)"
proof (induction n src rule: limit_reader.induct)
  case (3 n bs rs)
  then show ?case
    by (cases "n \<le> 0") (auto simp: sound_def nat_diff_distrib')
qed (auto simp: sound_def)

lemma sound_limit: "sound src \<Longrightarrow> sound (limit_reader n src)"
  by (induction n src rule: limit_reader.induct) (auto simp: sound_def)

end
