(* ===== verification/Names.thy ===== *)
theory Names
  imports GoStrings
begin

text \<open>
  The pure functions on names: \<open>sanitizeName\<close>, \<open>normalizeUploadConflict\<close> and
  \<open>nextUniqueName\<close> of \<open>internal/files/service.go\<close>, \<open>normalizeManifest\<close> and
  \<open>sanitizeName\<close> of \<open>internal/uploads/service.go\<close>, the role normalisers of
  \<open>internal/drives\<close> and \<open>internal/collab\<close>.
\<close>

section \<open>sanitizeName\<close>

definition dropped :: "char \<Rightarrow> bool" where
  "dropped c \<longleftrightarrow> byte c < 32 \<or> byte c = 127 \<or> c = CHR 0x22"

definition sanitizeName :: "string \<Rightarrow> string" where
  "sanitizeName raw =
     (let name = trim_space raw;
          name = replace_all CHR ''/'' CHR ''_'' name;
          name = replace_all (CHR 0x5C) CHR ''_'' name;
          name = map_runes dropped name;
          name = (if length name > 255 then take 255 name else name)
      in trim_space name)"

lemma replace_all_keeps: "c \<noteq> b \<Longrightarrow> c \<notin> set s \<Longrightarrow> c \<notin> set (replace_all a b s)"
  by (auto simp: replace_all_def)

lemma sanitizeName_bytes:
  assumes "c \<in> set (sanitizeName raw)"
  shows "c \<noteq> CHR ''/'' \<and> c \<noteq> CHR 0x5C \<and> \<not> dropped c"
proof -
  let ?n3 = "replace_all (CHR 0x5C) CHR ''_'' (replace_all CHR ''/'' CHR ''_'' (trim_space raw))"
  have no: "CHR ''/'' \<notin> set ?n3" "CHR 0x5C \<notin> set ?n3"
    by (auto simp: replace_all_def)
  from assms have "c \<in> set (map_runes dropped ?n3)"
    using trim_space_set set_take_subset
    unfolding sanitizeName_def Let_def by (fastforce split: if_splits)
  then have "128 \<le> byte c \<or> (c \<in> set ?n3 \<and> \<not> dropped c)"
    by (rule map_runes_bytes)
  then show ?thesis
    using no by (auto simp: dropped_def byte_def)
qed

lemma sanitizeName_length: "length (sanitizeName raw) \<le> 255"
proof -
  have "length (trim_space (if length s > 255 then take 255 s else s)) \<le> 255" for s
    using trim_space_length [of "if length s > 255 then take 255 s else s"] by (simp split: if_splits)
  then show ?thesis unfolding sanitizeName_def Let_def by blast
qed

lemma sanitizeName_trimmed: "e \<in> set spaces \<Longrightarrow> \<not> has_prefix (sanitizeName raw) e"
  unfolding sanitizeName_def Let_def by (rule trim_space_ends)

section \<open>Conflict modes and unique names\<close>

definition normalizeUploadConflict :: "string \<Rightarrow> string" where
  "normalizeUploadConflict raw =
     (let m = to_lower (trim_space raw)
      in if m = ''overwrite'' \<or> m = ''replace'' then ''overwrite''
         else if m = ''error'' \<or> m = ''skip'' then ''error''
         else ''rename'')"

lemma normalizeUploadConflict_cases:
  "normalizeUploadConflict raw \<in> {''overwrite'', ''error'', ''rename''}"
  by (simp add: normalizeUploadConflict_def Let_def)

text \<open>\<open>%d\<close> of a non-negative number.\<close>

fun show_nat :: "nat \<Rightarrow> string" where
  "show_nat n = (if n < 10 then [char_of (48 + n)] else show_nat (n div 10) @ [char_of (48 + n mod 10)])"

declare show_nat.simps [simp del]

definition nextUniqueName :: "string \<Rightarrow> nat \<Rightarrow> string" where
  "nextUniqueName base n =
     (if n \<le> 1 then base
      else let ext = go_ext base; stem = trim_suffix base ext;
               p = (if stem = [] then (base, []) else (stem, ext))
           in fst p @ '' ('' @ show_nat n @ '')'' @ snd p)"

lemma char_of_digit: "d < 10 \<Longrightarrow> e < 10 \<Longrightarrow> (char_of (48 + d :: nat) = char_of (48 + e :: nat)) = (d = e)"
proof
  assume a: "d < 10" "e < 10" "char_of (48 + d :: nat) = (char_of (48 + e :: nat) :: char)"
  from arg_cong [OF a(3), of "of_char :: char \<Rightarrow> nat"] a(1,2) show "d = e" by (simp add: of_char_of)
qed simp

lemma show_nat_chars: "set (show_nat n) \<subseteq> set ''0123456789''"
proof (induction n rule: show_nat.induct)
  case (1 n)
  have "char_of (48 + d) \<in> set ''0123456789''" if "d < 10" for d :: nat
  proof -
    have "\<forall>d \<in> set [0..<10]. char_of (48 + d :: nat) \<in> set ''0123456789''" by code_simp
    with that show ?thesis by simp
  qed
  with 1 show ?case by (subst show_nat.simps) simp
qed

lemma show_nat_inj: "show_nat m = show_nat n \<Longrightarrow> m = n"
proof (induction m arbitrary: n rule: show_nat.induct)
  case (1 m)
  have ne: "show_nat k \<noteq> []" "[] \<noteq> show_nat k" for k by (subst show_nat.simps, simp)+
  show ?case
  proof (cases "m < 10")
    case True
    with "1.prems" ne show ?thesis
      by (subst (asm) (1 2) show_nat.simps) (auto simp: char_of_digit split: if_splits)
  next
    case False
    then have n: "\<not> n < 10"
      using "1.prems" ne by (subst (asm) (1 2) show_nat.simps) (auto split: if_splits)
    with False "1.prems" have "show_nat (m div 10) = show_nat (n div 10)"
      and "m mod 10 = n mod 10"
      by (subst (asm) (1 2) show_nat.simps; auto simp: char_of_digit)+
    with False "1.IH" have "m div 10 = n div 10" by blast
    with \<open>m mod 10 = n mod 10\<close> show ?thesis by (metis div_mult_mod_eq)
  qed
qed

lemma nextUniqueName_inj:
  assumes "1 < m" and "1 < n" and "nextUniqueName base m = nextUniqueName base n"
  shows "m = n"
proof -
  obtain stem ext where "nextUniqueName base k = stem @ '' ('' @ show_nat k @ '')'' @ ext" if "1 < k" for k
    by (auto simp: nextUniqueName_def Let_def split: if_splits)
  then have "show_nat m = show_nat n" using assms by simp
  then show ?thesis by (rule show_nat_inj)
qed

section \<open>Roles\<close>

definition normalizeDriveRole :: "string \<Rightarrow> string" where
  "normalizeDriveRole role =
     (let r = to_lower (trim_space role)
      in if r \<in> {''viewer'', ''commenter'', ''contributor'', ''content_manager'', ''manager''} then r
         else if r = ''editor'' then ''contributor''
         else [])"

definition normalizeACL :: "string \<Rightarrow> string" where
  "normalizeACL role =
     (let r = to_lower (trim_space role)
      in if r \<in> {''viewer'', ''commenter'', ''editor''} then r else [])"

section \<open>Manifest entries of an upload batch\<close>

record manifest_file =
  RelativePath :: string
  FileName :: string
  MimeType :: string
  ExpectedSize :: int
  LastModifiedMs :: int
  TargetEntryID :: "nat option"
  ExpectedVersion :: "int option"
  ContentHash :: string
  ClientModifiedAt :: "int option"
  DeviceID :: "nat option"

definition manifest_name :: "manifest_file \<Rightarrow> string \<Rightarrow> string" where
  "manifest_name f rel =
     (let name = trim_space (FileName f);
          name = (if name = [] then base_of rel else name)
      in sanitizeName name)"

definition manifest_mime :: "manifest_file \<Rightarrow> string" where
  "manifest_mime f =
     (let mime = trim_space (MimeType f)
      in if mime = [] then ''application/octet-stream'' else mime)"

definition normalizeManifest :: "manifest_file \<Rightarrow> err + manifest_file" where
  "normalizeManifest f =
     (let rel = replace_all (CHR 0x5C) CHR ''/'' (trim_space (RelativePath f))
      in if rel = [] \<or> has_prefix rel ''/'' then Inl (Msg ''invalid relative path'')
      else let rel = trim_char CHR ''/'' rel
      in if rel = [] then Inl (Msg ''invalid relative path'')
      else if \<exists>part \<in> set (split_at CHR ''/'' rel). part = [] \<or> part = ''.'' \<or> part = ''..''
        then Inl (Msg ''invalid relative path'')
      else let rel = go_clean rel
      in if rel = ''.'' \<or> has_prefix rel ''..'' then Inl (Msg ''invalid relative path'')
      else let name = manifest_name f rel
      in if name = [] then Inl (Msg ''file name is required'')
      else if ExpectedSize f < 0 then Inl (Msg ''invalid file size'')
      else Inr (f\<lparr>RelativePath := rel, FileName := name, MimeType := manifest_mime f\<rparr>))"

lemma split_names_clean:
  assumes "s \<noteq> []" and "\<forall>p \<in> set (split_at CHR ''/'' s). \<not> (p = [] \<or> p = ''.'' \<or> p = ''..'')"
  shows "go_clean s = s" and "comps s = split_at CHR ''/'' s"
    and "\<forall>c \<in> set (comps s). proper c" and "\<not> rooted s"
proof -
  have p: "\<forall>n \<in> set (split_at CHR ''/'' s). proper n"
  proof
    fix n
    assume n: "n \<in> set (split_at CHR ''/'' s)"
    from split_at_no_sep [OF n] bspec [OF assms(2) n] show "proper n" by (simp add: proper_def)
  qed
  show r: "\<not> rooted s"
  proof
    assume "rooted s"
    then obtain t where "s = CHR ''/'' # t" by (auto simp: rooted_def has_prefix_append)
    then have "[] \<in> set (split_at CHR ''/'' s)" by simp
    with assms(2) show False by blast
  qed
  show c: "comps s = split_at CHR ''/'' s"
    using p by (simp add: comps_def foldl_names)
  show "\<forall>c \<in> set (comps s). proper c" using p c by simp
  show "go_clean s = s"
    using c r assms(1) by (simp add: go_clean_def unsplit_def)
qed

lemma normalizeManifest_InrD:
  assumes "normalizeManifest f = Inr g"
  shows "RelativePath g \<noteq> [] \<and> go_clean (RelativePath g) = RelativePath g \<and> \<not> rooted (RelativePath g)
      \<and> (\<forall>c \<in> set (comps (RelativePath g)). proper c)
      \<and> comps (RelativePath g) = split_at CHR ''/'' (RelativePath g)
      \<and> FileName g \<noteq> [] \<and> (\<exists>n. FileName g = sanitizeName n)
      \<and> 0 \<le> ExpectedSize g \<and> ExpectedSize g = ExpectedSize f"
proof -
  define rel where "rel = trim_char CHR ''/'' (replace_all (CHR 0x5C) CHR ''/'' (trim_space (RelativePath f)))"
  have ne: "rel \<noteq> []"
    using assms by (simp add: normalizeManifest_def Let_def flip: rel_def split: if_split_asm)
  have "\<not> (\<exists>part \<in> set (split_at CHR ''/'' rel). part = [] \<or> part = ''.'' \<or> part = ''..'')"
    using assms by (simp only: normalizeManifest_def Let_def rel_def [symmetric] split: if_split_asm) simp_all
  then have parts: "\<forall>p \<in> set (split_at CHR ''/'' rel). \<not> (p = [] \<or> p = ''.'' \<or> p = ''..'')"
    by blast
  note clean = split_names_clean [OF ne parts]
  define name where "name = manifest_name f rel"
  have "name \<noteq> []" and "0 \<le> ExpectedSize f"
    and "g = f\<lparr>RelativePath := rel, FileName := name, MimeType := manifest_mime f\<rparr>"
    using assms
    by (simp_all only: normalizeManifest_def Let_def rel_def [symmetric] clean(1) name_def [symmetric]
        not_less sum.inject sum.simps not_False_eq_True split: if_split_asm)
  moreover have "\<exists>n. name = sanitizeName n"
    unfolding name_def manifest_name_def Let_def by blast
  ultimately have g: "RelativePath g = rel" "FileName g \<noteq> []" "\<exists>n. FileName g = sanitizeName n"
    "0 \<le> ExpectedSize g" "ExpectedSize g = ExpectedSize f"
    by simp_all
  then show ?thesis using clean ne by simp
qed

section \<open>Numbers in text\<close>

text \<open>\<open>strconv.ParseInt(s, 10, 64)\<close>: an optional sign, digits, the range of \<open>int64\<close>.\<close>

definition is_digit :: "char \<Rightarrow> bool" where
  "is_digit c \<longleftrightarrow> 48 \<le> byte c \<and> byte c \<le> 57"

definition digits_value :: "string \<Rightarrow> int" where
  "digits_value s = foldl (\<lambda>n c. 10 * n + (int (byte c) - 48)) 0 s"

definition parse_int64 :: "string \<Rightarrow> int option" where
  "parse_int64 s =
     (let neg = has_prefix s ''-''; t = (if neg \<or> has_prefix s ''+'' then tl s else s);
          n = (if neg then - digits_value t else digits_value t)
      in if t \<noteq> [] \<and> (\<forall>c \<in> set t. is_digit c) \<and> - (2 ^ 63) \<le> n \<and> n < 2 ^ 63 then Some n else None)"

end
