(* ===== verification/Database.thy ===== *)
theory Database
  imports Storage Names "HOL-Library.Multiset"
begin

text \<open>
  The state of the server: the tables of \<open>internal/store/postgres.go\<close> with the structs
  of \<open>internal/domain/models.go\<close>, the blob store, and the way the services reach
  them. A table is the list of its rows in insertion order; a query filters it, an
  update maps over it.

  UUIDs are natural numbers, and the one that is generated next is \<open>fresh\<close> (a counter
  that no rollback resets, as no UUID is generated twice). Times are integers, \<open>clock\<close>
  is \<open>now()\<close>. \<open>sql_lower\<close> is the function \<open>lower\<close> of the database, which depends on its
  locale, and \<open>sql_le\<close> the order of its collation. Storage keys are the strings the services
  build, as a datatype with one constructor for each shape.
\<close>

type_synonym uuid = nat

datatype skey =
    NoKey
  | FolderKey uuid
  | RootKey uuid
  | DriveKey uuid
  | UserKey uuid int uuid
  | TmpKey uuid uuid uuid

datatype kind = Folder | File

datatype drive_kind = Personal | Shared

datatype change_op = OpUpsert | OpRename | OpMove | OpTrash | OpRestore | OpPurge

datatype batch_status = BOpen | BDone | BAborted | BExpired

datatype session_status = SOpen | SComplete | SAborted | SExpired

section \<open>Rows\<close>

record user_row =
  u_id :: uuid
  u_email :: string
  u_pw :: string
  u_name :: string
  u_role :: string
  u_plan :: string
  u_quota :: int
  u_bonus :: int
  u_used :: int
  u_reserved :: int
  u_root :: "uuid option"
  u_created :: int
  u_last_login :: int
  u_email_2fa :: bool
  u_totp_secret :: string
  u_totp_enabled :: bool
  u_totp_last :: int

record file_entry =
  fe_id :: uuid
  fe_user :: uuid
  fe_drive :: "uuid option"
  fe_parent :: "uuid option"
  fe_name :: string
  fe_kind :: kind
  fe_key :: skey
  fe_size :: int
  fe_mime :: string
  fe_version :: int
  fe_hash :: string
  fe_cmod :: "int option"
  fe_opened :: "int option"
  fe_deleted :: "int option"
  fe_created :: int
  fe_updated :: int

record drive_row =
  d_id :: uuid
  d_kind :: drive_kind
  d_name :: string
  d_owner :: uuid
  d_root :: "uuid option"
  d_created :: int

record member_row =
  m_drive :: uuid
  m_user :: uuid
  m_role :: string
  m_created :: int

record perm_row =
  p_id :: uuid
  p_entry :: uuid
  p_grantee :: uuid
  p_role :: string
  p_created :: int

record star_row =
  st_user :: uuid
  st_entry :: uuid
  st_created :: int

record version_row =
  v_id :: uuid
  v_entry :: uuid
  v_version :: int
  v_key :: skey
  v_size :: int
  v_mime :: string
  v_hash :: string
  v_by :: "uuid option"
  v_created :: int

record comment_row =
  cm_id :: uuid
  cm_entry :: uuid
  cm_user :: uuid
  cm_body :: string
  cm_created :: int

record change_row =
  c_id :: int
  c_user :: uuid
  c_entry :: uuid
  c_op :: change_op
  c_name :: string
  c_parent :: "uuid option"
  c_kind :: kind
  c_size :: int
  c_mime :: string
  c_version :: int
  c_hash :: string
  c_device :: "uuid option"
  c_cmod :: "int option"
  c_drive :: "uuid option"
  c_created :: int

record batch_row =
  b_id :: uuid
  b_user :: uuid
  b_parent :: "uuid option"
  b_total :: int
  b_reserved :: int
  b_count :: int
  b_status :: batch_status
  b_expires :: int
  b_created :: int

record session_row =
  us_id :: uuid
  us_batch :: uuid
  us_user :: uuid
  us_parent :: "uuid option"
  us_rel :: string
  us_name :: string
  us_mime :: string
  us_expected :: int
  us_received :: int
  us_mtime :: int
  us_key :: skey
  us_target :: "uuid option"
  us_expver :: "int option"
  us_hash :: string
  us_cmod :: "int option"
  us_device :: "uuid option"
  us_status :: session_status

record share_row =
  sl_id :: uuid
  sl_entry :: uuid
  sl_token :: string
  sl_pw :: string
  sl_perm :: string
  sl_expires :: "int option"
  sl_count :: int
  sl_max :: "int option"
  sl_by :: uuid
  sl_created :: int

record web_session_row =
  ws_user :: uuid
  ws_token :: string
  ws_expires :: int

record device_row =
  dv_id :: uuid
  dv_user :: uuid
  dv_name :: string
  dv_token :: string
  dv_created :: int
  dv_seen :: int
  dv_expires :: "int option"
  dv_revoked :: "int option"

record challenge_row =
  ch_id :: uuid
  ch_user :: uuid
  ch_purpose :: string
  ch_code :: string
  ch_token :: string
  ch_expires :: int
  ch_consumed :: "int option"
  ch_attempts :: int
  ch_created :: int

record notification_row =
  n_id :: uuid
  n_user :: uuid
  n_kind :: string
  n_title :: string
  n_body :: string
  n_entry :: "uuid option"
  n_drive :: "uuid option"
  n_read :: "int option"
  n_created :: int

record activity_row =
  a_id :: uuid
  a_user :: uuid
  a_actor :: uuid
  a_kind :: string
  a_entry :: "uuid option"
  a_drive :: "uuid option"
  a_message :: string
  a_created :: int

record plan_row =
  pl_code :: string
  pl_name :: string
  pl_quota :: int
  pl_price :: int
  pl_term :: string
  pl_active :: bool

section \<open>Tables\<close>

record database =
  users :: "user_row list"
  entries :: "file_entry list"
  drives :: "drive_row list"
  members :: "member_row list"
  perms :: "perm_row list"
  stars :: "star_row list"
  versions :: "version_row list"
  comments :: "comment_row list"
  changes :: "change_row list"
  batches :: "batch_row list"
  sessions :: "session_row list"
  shares :: "share_row list"
  web_sessions :: "web_session_row list"
  devices :: "device_row list"
  challenges :: "challenge_row list"
  notifications :: "notification_row list"
  activities :: "activity_row list"
  settings :: "(string \<times> string) list"
  plans :: "plan_row list"

definition user_of :: "database \<Rightarrow> uuid \<Rightarrow> user_row option" where
  "user_of d i = find (\<lambda>u. u_id u = i) (users d)"

definition entry_of :: "database \<Rightarrow> uuid \<Rightarrow> file_entry option" where
  "entry_of d i = find (\<lambda>e. fe_id e = i) (entries d)"

definition drive_of :: "database \<Rightarrow> uuid \<Rightarrow> drive_row option" where
  "drive_of d i = find (\<lambda>r. d_id r = i) (drives d)"

definition session_of :: "database \<Rightarrow> uuid \<Rightarrow> session_row option" where
  "session_of d i = find (\<lambda>s. us_id s = i) (sessions d)"

definition batch_of :: "database \<Rightarrow> uuid \<Rightarrow> batch_row option" where
  "batch_of d i = find (\<lambda>b. b_id b = i) (batches d)"

definition update_user :: "uuid \<Rightarrow> (user_row \<Rightarrow> user_row) \<Rightarrow> database \<Rightarrow> database" where
  "update_user i f d = d\<lparr>users := map (\<lambda>u. if u_id u = i then f u else u) (users d)\<rparr>"

definition update_entry :: "uuid \<Rightarrow> (file_entry \<Rightarrow> file_entry) \<Rightarrow> database \<Rightarrow> database" where
  "update_entry i f d = d\<lparr>entries := map (\<lambda>e. if fe_id e = i then f e else e) (entries d)\<rparr>"

definition update_session :: "uuid \<Rightarrow> (session_row \<Rightarrow> session_row) \<Rightarrow> database \<Rightarrow> database" where
  "update_session i f d = d\<lparr>sessions := map (\<lambda>s. if us_id s = i then f s else s) (sessions d)\<rparr>"

definition update_batch :: "uuid \<Rightarrow> (batch_row \<Rightarrow> batch_row) \<Rightarrow> database \<Rightarrow> database" where
  "update_batch i f d = d\<lparr>batches := map (\<lambda>b. if b_id b = i then f b else b) (batches d)\<rparr>"

definition live :: "file_entry \<Rightarrow> bool" where
  "live e \<longleftrightarrow> fe_deleted e = None"

text \<open>
  The unique index \<open>file_entries_unique_name_idx\<close>: no two live rows agree in user,
  parent and lower-cased name.
\<close>

definition live_names :: "(string \<Rightarrow> string) \<Rightarrow> file_entry list \<Rightarrow> (uuid \<times> uuid option \<times> string) list" where
  "live_names low es = map (\<lambda>e. (fe_user e, fe_parent e, low (fe_name e))) (filter live es)"

text \<open>A value of type \<open>text\<close>: PostgreSQL refuses other bytes than UTF-8, and the byte 0.\<close>

definition text_ok :: "string \<Rightarrow> bool" where
  "text_ok s \<longleftrightarrow> valid_utf8 s \<and> CHR 0x00 \<notin> set s"

definition names_ok :: "(string \<Rightarrow> string) \<Rightarrow> file_entry list \<Rightarrow> bool" where
  "names_ok low es \<longleftrightarrow> distinct (live_names low es) \<and> (\<forall>e \<in> set es. text_ok (fe_name e) \<and> text_ok (fe_mime e))"

text \<open>The foreign keys of a new \<open>file_entries\<close> row, then its insertion.\<close>

definition entry_fk :: "database \<Rightarrow> file_entry \<Rightarrow> bool" where
  "entry_fk d e \<longleftrightarrow> user_of d (fe_user e) \<noteq> None
     \<and> (case fe_parent e of None \<Rightarrow> True | Some p \<Rightarrow> entry_of d p \<noteq> None)
     \<and> (case fe_drive e of None \<Rightarrow> True | Some r \<Rightarrow> drive_of d r \<noteq> None)"

definition insert_entry :: "(string \<Rightarrow> string) \<Rightarrow> file_entry \<Rightarrow> database \<Rightarrow> database option" where
  "insert_entry low e d =
     (if entry_fk d e \<and> names_ok low (entries d @ [e]) then Some (d\<lparr>entries := entries d @ [e]\<rparr>) else None)"

text \<open>An update of entries that may touch the columns of the unique index.\<close>

definition modify_entries :: "(string \<Rightarrow> string) \<Rightarrow> (file_entry \<Rightarrow> file_entry) \<Rightarrow> database \<Rightarrow> database option" where
  "modify_entries low f d =
     (let es = map f (entries d) in if names_ok low es then Some (d\<lparr>entries := es\<rparr>) else None)"

text \<open>Deleting entries cascades as the schema says.\<close>

definition delete_entries :: "uuid list \<Rightarrow> database \<Rightarrow> database" where
  "delete_entries ids d =
     (let null = (\<lambda>p. case p of None \<Rightarrow> None | Some i \<Rightarrow> if i \<in> set ids then None else Some i)
      in d\<lparr>entries := map (\<lambda>e. e\<lparr>fe_parent := null (fe_parent e)\<rparr>) (filter (\<lambda>e. fe_id e \<notin> set ids) (entries d)),
           drives := map (\<lambda>r. r\<lparr>d_root := null (d_root r)\<rparr>) (drives d),
           perms := filter (\<lambda>p. p_entry p \<notin> set ids) (perms d),
           stars := filter (\<lambda>s. st_entry s \<notin> set ids) (stars d),
           versions := filter (\<lambda>v. v_entry v \<notin> set ids) (versions d),
           comments := filter (\<lambda>c. cm_entry c \<notin> set ids) (comments d),
           shares := filter (\<lambda>l. sl_entry l \<notin> set ids) (shares d),
           batches := map (\<lambda>b. b\<lparr>b_parent := null (b_parent b)\<rparr>) (batches d),
           sessions := map (\<lambda>s. s\<lparr>us_parent := null (us_parent s)\<rparr>) (sessions d)\<rparr>)"

definition delete_drive :: "uuid \<Rightarrow> database \<Rightarrow> database" where
  "delete_drive i d = d\<lparr>drives := filter (\<lambda>r. d_id r \<noteq> i) (drives d), members := filter (\<lambda>m. m_drive m \<noteq> i) (members d),
     entries := map (\<lambda>e. if fe_drive e = Some i then e\<lparr>fe_drive := None\<rparr> else e) (entries d)\<rparr>"

section \<open>The world of the services\<close>

text \<open>
  Beside the tables and the blobs, a server has what it keeps in memory: the recent
  attempts of each client (\<open>loginLimiter\<close>, \<open>shareLimiter\<close>). \<open>entropy\<close> is what the
  coming reads of \<open>crypto/rand\<close> return.
\<close>

record limiter =
  tried :: "string \<Rightarrow> int list option"
  swept :: int

record world = "skey disk" +
  db :: database
  aborted :: bool
  clock :: int
  fresh :: uuid
  change_seq :: int
  sql_lower :: "string \<Rightarrow> string"
  sql_le :: "string \<Rightarrow> string \<Rightarrow> bool"
  entropy :: "(nat \<Rightarrow> char) option list"
  login_limiter :: limiter
  share_limiter :: limiter

type_synonym 'a srv = "(world, err, 'a) io"

text \<open>
  A statement on the pool (\<open>s.db\<close>): it fails as a whole when the connection does. A
  statement in a transaction (\<open>tx\<close>): any failure but an empty result aborts the
  transaction, and PostgreSQL refuses every later statement of it.
\<close>

type_synonym 'a stmt = "world \<Rightarrow> err + ('a \<times> world)"

definition db_stmt :: "'a stmt \<Rightarrow> 'a srv" where
  "db_stmt f = (\<lambda>w. if faulty w then (Inl Fault, pop w)
     else (case f (pop w) of Inl e \<Rightarrow> (Inl e, pop w) | Inr (x, w') \<Rightarrow> (Inr x, w')))"

definition tx_stmt :: "'a stmt \<Rightarrow> 'a srv" where
  "tx_stmt f = (\<lambda>w. if aborted w then (Inl Aborted, w)
     else if faulty w then (Inl Fault, (pop w)\<lparr>aborted := True\<rparr>)
     else (case f (pop w) of
         Inl e \<Rightarrow> (Inl e, if e = NoRows then pop w else (pop w)\<lparr>aborted := True\<rparr>)
       | Inr (x, w') \<Rightarrow> (Inr x, w')))"

text \<open>The shapes of statement: a query, a query of one row, an update, a constrained update.\<close>

definition sel :: "(database \<Rightarrow> 'a) \<Rightarrow> 'a stmt" where
  "sel g = (\<lambda>w. Inr (g (db w), w))"

definition row :: "(database \<Rightarrow> 'a option) \<Rightarrow> 'a stmt" where
  "row g = (\<lambda>w. case g (db w) of None \<Rightarrow> Inl NoRows | Some x \<Rightarrow> Inr (x, w))"

definition query :: "(database \<Rightarrow> err + 'a) \<Rightarrow> 'a stmt" where
  "query g = (\<lambda>w. case g (db w) of Inl e \<Rightarrow> Inl e | Inr x \<Rightarrow> Inr (x, w))"

definition ask :: "(world \<Rightarrow> err + 'a) \<Rightarrow> 'a stmt" where
  "ask g = (\<lambda>w. case g w of Inl e \<Rightarrow> Inl e | Inr x \<Rightarrow> Inr (x, w))"

definition ask_row :: "(world \<Rightarrow> 'a option) \<Rightarrow> 'a stmt" where
  "ask_row g = (\<lambda>w. case g w of None \<Rightarrow> Inl NoRows | Some x \<Rightarrow> Inr (x, w))"

definition look :: "(world \<Rightarrow> 'a) \<Rightarrow> 'a stmt" where
  "look g = (\<lambda>w. Inr (g w, w))"

definition upd :: "(database \<Rightarrow> database) \<Rightarrow> unit stmt" where
  "upd g = (\<lambda>w. Inr ((), w\<lparr>db := g (db w)\<rparr>))"

definition try_upd :: "(database \<Rightarrow> database option) \<Rightarrow> unit stmt" where
  "try_upd g = (\<lambda>w. case g (db w) of None \<Rightarrow> Inl Constraint | Some d \<Rightarrow> Inr ((), w\<lparr>db := d\<rparr>))"

text \<open>A statement that a constraint may refuse, with access to all of the state.\<close>

definition checked :: "(world \<Rightarrow> ('a \<times> world) option) \<Rightarrow> 'a stmt" where
  "checked g = (\<lambda>w. case g w of None \<Rightarrow> Inl Constraint | Some p \<Rightarrow> Inr p)"

text \<open>\<open>uuid.NewString()\<close>.\<close>

definition new_uuid :: "uuid srv" where
  "new_uuid = bnd (getw fresh) (\<lambda>i. bnd (modw (\<lambda>w. w\<lparr>fresh := Suc i\<rparr>)) (\<lambda>_. ret i))"

text \<open>
  \<open>tx, err := s.db.Begin(ctx); defer tx.Rollback(ctx); ...; return tx.Commit(ctx)\<close>. A
  commit that reports an error is taken to have rolled back.
\<close>

definition rollback :: "database \<Rightarrow> world \<Rightarrow> world" where
  "rollback d w = w\<lparr>db := d, aborted := False\<rparr>"

definition with_tx :: "'a srv \<Rightarrow> 'a srv" where
  "with_tx body = (\<lambda>w.
     if faulty w then (Inl Fault, pop w)
     else (case body ((pop w)\<lparr>aborted := False\<rparr>) of
         (Inl e, w') \<Rightarrow> (Inl e, rollback (db w) w')
       | (Inr x, w') \<Rightarrow>
           if aborted w' then (Inl Aborted, rollback (db w) w')
           else if faulty w' then (Inl Fault, rollback (db w) (pop w'))
           else (Inr x, pop w')))"

text \<open>The C collation: bytes in order.\<close>

fun bytes_le :: "string \<Rightarrow> string \<Rightarrow> bool" where
  "bytes_le [] t = True"
| "bytes_le (a # s) [] = False"
| "bytes_le (a # s) (b # t) = (byte a < byte b \<or> (a = b \<and> bytes_le s t))"

text \<open>The state of a new installation, after \<open>Migrate\<close>.\<close>

definition empty_db :: database where
  "empty_db = \<lparr>users = [], entries = [], drives = [], members = [], perms = [], stars = [], versions = [],
     comments = [], changes = [], batches = [], sessions = [], shares = [], web_sessions = [], devices = [],
     challenges = [], notifications = [], activities = [], settings = [], plans = []\<rparr>"

definition boot :: world where
  "boot = \<lparr>files = \<lambda>_. None, faults = [], db = empty_db, aborted = False, clock = 0, fresh = 100,
     change_seq = 0, sql_lower = to_lower, sql_le = bytes_le, entropy = [],
     login_limiter = \<lparr>tried = \<lambda>_. None, swept = -62135596800\<rparr>, share_limiter = \<lparr>tried = \<lambda>_. None, swept = -62135596800\<rparr>\<rparr>"

text \<open>The columns of a new entry that the schema fills in.\<close>

definition entry_row :: "uuid \<Rightarrow> uuid \<Rightarrow> uuid option \<Rightarrow> uuid option \<Rightarrow> string \<Rightarrow> kind \<Rightarrow> skey \<Rightarrow> int \<Rightarrow> string \<Rightarrow> int \<Rightarrow> file_entry" where
  "entry_row i user drive parent name k key sz mime now =
     \<lparr>fe_id = i, fe_user = user, fe_drive = drive, fe_parent = parent, fe_name = name, fe_kind = k,
      fe_key = key, fe_size = sz, fe_mime = mime, fe_version = 1, fe_hash = '''', fe_cmod = None,
      fe_opened = None, fe_deleted = None, fe_created = now, fe_updated = now\<rparr>"

definition user_row :: "uuid \<Rightarrow> string \<Rightarrow> string \<Rightarrow> string \<Rightarrow> string \<Rightarrow> string \<Rightarrow> int \<Rightarrow> int \<Rightarrow> user_row" where
  "user_row i email pw name role plan quota now =
     \<lparr>u_id = i, u_email = email, u_pw = pw, u_name = name, u_role = role, u_plan = plan, u_quota = quota,
      u_bonus = 0, u_used = 0, u_reserved = 0, u_root = None, u_created = now, u_last_login = now,
      u_email_2fa = False, u_totp_secret = '''', u_totp_enabled = False, u_totp_last = -1\<rparr>"

text \<open>\<open>order by\<close> with a given order.\<close>

fun insert_by :: "('a \<Rightarrow> 'a \<Rightarrow> bool) \<Rightarrow> 'a \<Rightarrow> 'a list \<Rightarrow> 'a list" where
  "insert_by le x [] = [x]"
| "insert_by le x (y # ys) = (if le x y then x # y # ys else y # insert_by le x ys)"

definition sort_by :: "('a \<Rightarrow> 'a \<Rightarrow> bool) \<Rightarrow> 'a list \<Rightarrow> 'a list" where
  "sort_by le xs = foldr (insert_by le) xs []"

lemma mset_sort_by [simp]: "mset (sort_by le xs) = mset xs"
proof -
  have "mset (insert_by le x ys) = add_mset x (mset ys)" for x ys
    by (induction ys) auto
  then show ?thesis by (induction xs) (simp_all add: sort_by_def)
qed

lemma set_sort_by [simp]: "set (sort_by le xs) = set xs"
  by (metis mset_sort_by set_mset_mset)

text \<open>
  \<open>run_tx hb body k\<close>: a transaction whose caller looks at the outcome: \<open>hb\<close> continues
  when \<open>Begin\<close> fails, \<open>k x r\<close> after a commit that ended with \<open>r\<close>. An error of the body
  rolls back; it can be of any type, as some methods return more than an \<open>error\<close>.
\<close>

definition run_tx :: "(err \<Rightarrow> (world, 'e, 'a) io) \<Rightarrow> (world, 'e, 'b) io \<Rightarrow> ('b \<Rightarrow> err + unit \<Rightarrow> (world, 'e, 'a) io)
    \<Rightarrow> (world, 'e, 'a) io" where
  "run_tx hb body k = (\<lambda>w.
     if faulty w then hb Fault (pop w)
     else (case body ((pop w)\<lparr>aborted := False\<rparr>) of
         (Inl e, w') \<Rightarrow> (Inl e, rollback (db w) w')
       | (Inr x, w') \<Rightarrow>
           if aborted w' then k x (Inl Aborted) (rollback (db w) w')
           else if faulty w' then k x (Inl Fault) (rollback (db w) (pop w'))
           else k x (Inr ()) (pop w')))"

text \<open>\<open>with_tx_else h body\<close>: as \<open>with_tx\<close>, but \<open>h\<close> runs when \<open>Begin\<close> fails.\<close>

definition with_tx_else :: "unit srv \<Rightarrow> 'a srv \<Rightarrow> 'a srv" where
  "with_tx_else h body = (\<lambda>w. if faulty w then (Inl Fault, snd (h (pop w))) else with_tx body w)"

section \<open>Weakest preconditions of the statements\<close>

lemma wp_db_stmt [wp_simps]:
  "wp (db_stmt f) Q E w = (if faulty w then E Fault (pop w)
     else (case f (pop w) of Inl e \<Rightarrow> E e (pop w) | Inr (x, w') \<Rightarrow> Q x w'))"
  by (auto simp: wp_def db_stmt_def split: sum.splits prod.splits)

lemma wp_tx_stmt [wp_simps]:
  "wp (tx_stmt f) Q E w = (if aborted w then E Aborted w
     else if faulty w then E Fault ((pop w)\<lparr>aborted := True\<rparr>)
     else (case f (pop w) of
         Inl e \<Rightarrow> E e (if e = NoRows then pop w else (pop w)\<lparr>aborted := True\<rparr>)
       | Inr (x, w') \<Rightarrow> Q x w'))"
  by (auto simp: wp_def tx_stmt_def split: sum.splits prod.splits)

lemma wp_with_tx [wp_simps]:
  "wp (with_tx body) Q E w = (if faulty w then E Fault (pop w)
     else wp body
       (\<lambda>x w'. if aborted w' then E Aborted (rollback (db w) w')
          else if faulty w' then E Fault (rollback (db w) (pop w'))
          else Q x (pop w'))
       (\<lambda>e w'. E e (rollback (db w) w')) ((pop w)\<lparr>aborted := False\<rparr>))"
  by (simp add: wp_def with_tx_def split: sum.splits prod.splits)

lemma wp_with_tx_else [wp_simps]:
  "wp (with_tx_else h body) Q E w = (if faulty w then wp h (\<lambda>_. E Fault) (\<lambda>_. E Fault) (pop w)
     else wp body
       (\<lambda>x w'. if aborted w' then E Aborted (rollback (db w) w')
          else if faulty w' then E Fault (rollback (db w) (pop w'))
          else Q x (pop w'))
       (\<lambda>e w'. E e (rollback (db w) w')) ((pop w)\<lparr>aborted := False\<rparr>))"
  by (auto simp: wp_def with_tx_else_def with_tx_def split: sum.splits prod.splits)

lemma wp_run_tx [wp_simps]:
  "wp (run_tx hb body k) Q E w = (if faulty w then wp (hb Fault) Q E (pop w)
     else wp body
       (\<lambda>x w'. if aborted w' then wp (k x (Inl Aborted)) Q E (rollback (db w) w')
          else if faulty w' then wp (k x (Inl Fault)) Q E (rollback (db w) (pop w'))
          else wp (k x (Inr ())) Q E (pop w'))
       (\<lambda>e w'. E e (rollback (db w) w')) ((pop w)\<lparr>aborted := False\<rparr>))"
  by (simp add: wp_def run_tx_def split: sum.splits prod.splits)

lemma wp_run_txI:
  assumes "faulty w \<Longrightarrow> wp (hb Fault) Q E (pop w)"
    and "wp body QB EB ((pop w)\<lparr>aborted := False\<rparr>)"
    and "\<And>x w'. QB x w' \<Longrightarrow> wp (k x (Inl Aborted)) Q E (rollback (db w) w')"
    and "\<And>x w'. QB x w' \<Longrightarrow> wp (k x (Inl Fault)) Q E (rollback (db w) (pop w'))"
    and "\<And>x w'. QB x w' \<Longrightarrow> wp (k x (Inr ())) Q E (pop w')"
    and "\<And>e w'. EB e w' \<Longrightarrow> E e (rollback (db w) w')"
  shows "wp (run_tx hb body k) Q E w"
proof -
  have "wp body
       (\<lambda>x w'. if aborted w' then wp (k x (Inl Aborted)) Q E (rollback (db w) w')
          else if faulty w' then wp (k x (Inl Fault)) Q E (rollback (db w) (pop w'))
          else wp (k x (Inr ())) Q E (pop w'))
       (\<lambda>e w'. E e (rollback (db w) w')) ((pop w)\<lparr>aborted := False\<rparr>)"
    by (rule wp_weaken [OF assms(2)]) (use assms in auto)
  with assms(1) show ?thesis by (simp add: wp_run_tx)
qed

lemma wp_with_txI:
  assumes "wp body QB EB ((pop w)\<lparr>aborted := False\<rparr>)"
    and "\<And>n. E Fault (w\<lparr>faults := drop n (faults w)\<rparr>)"
    and "\<And>x w'. QB x w' \<Longrightarrow> E Aborted (rollback (db w) w') \<and> E Fault (rollback (db w) (pop w')) \<and> Q x (pop w')"
    and "\<And>e w'. EB e w' \<Longrightarrow> E e (rollback (db w) w')"
  shows "wp (with_tx body) Q E w"
proof -
  have "wp body
       (\<lambda>x w'. if aborted w' then E Aborted (rollback (db w) w')
          else if faulty w' then E Fault (rollback (db w) (pop w'))
          else Q x (pop w'))
       (\<lambda>e w'. E e (rollback (db w) w')) ((pop w)\<lparr>aborted := False\<rparr>)"
    by (rule wp_weaken [OF assms(1)]) (use assms in auto)
  moreover have "E Fault (pop w)" using assms(2) [of 1] by (simp add: pop_def drop_Suc)
  ultimately show ?thesis by (simp add: wp_with_tx)
qed

lemma wp_new_uuid [wp_simps]: "wp new_uuid Q E w = Q (fresh w) (w\<lparr>fresh := Suc (fresh w)\<rparr>)"
  by (simp add: new_uuid_def wp_simps)

lemma stmt_simps [simp]:
  "sel g w = Inr (g (db w), w)" "upd h w = Inr ((), w\<lparr>db := h (db w)\<rparr>)" "look f w = Inr (f w, w)"
  by (simp_all add: sel_def upd_def look_def)

lemma world_pop_simps [simp]:
  "db (pop w) = db w" "aborted (pop w) = aborted w" "clock (pop w) = clock w" "fresh (pop w) = fresh w"
  "change_seq (pop w) = change_seq w" "sql_lower (pop w) = sql_lower w" "sql_le (pop w) = sql_le w"
  "entropy (pop w) = entropy w" "login_limiter (pop w) = login_limiter w" "share_limiter (pop w) = share_limiter w"
  by (simp_all add: pop_def)

lemma rollback_simps [simp]:
  "db (rollback d w) = d" "aborted (rollback d w) = False" "files (rollback d w) = files w"
  "faults (rollback d w) = faults w" "clock (rollback d w) = clock w" "fresh (rollback d w) = fresh w"
  "change_seq (rollback d w) = change_seq w" "sql_lower (rollback d w) = sql_lower w" "sql_le (rollback d w) = sql_le w"
  "entropy (rollback d w) = entropy w" "login_limiter (rollback d w) = login_limiter w" "share_limiter (rollback d w) = share_limiter w"
  by (simp_all add: rollback_def)

lemma faulty_world_simps [simp]:
  "faulty (w\<lparr>db := d\<rparr>) = faulty w" "faulty (w\<lparr>aborted := b\<rparr>) = faulty w"
  "faulty (w\<lparr>fresh := i\<rparr>) = faulty w" "faulty (w\<lparr>change_seq := n\<rparr>) = faulty w"
  "pop (w\<lparr>db := d\<rparr>) = (pop w)\<lparr>db := d\<rparr>" "pop (w\<lparr>aborted := b\<rparr>) = (pop w)\<lparr>aborted := b\<rparr>"
  "pop (w\<lparr>fresh := i\<rparr>) = (pop w)\<lparr>fresh := i\<rparr>" "pop (w\<lparr>change_seq := n\<rparr>) = (pop w)\<lparr>change_seq := n\<rparr>"
  "faulty (w\<lparr>entropy := en\<rparr>) = faulty w" "faulty (w\<lparr>login_limiter := l\<rparr>) = faulty w" "faulty (w\<lparr>share_limiter := l\<rparr>) = faulty w"
  "pop (w\<lparr>entropy := en\<rparr>) = (pop w)\<lparr>entropy := en\<rparr>" "pop (w\<lparr>login_limiter := l\<rparr>) = (pop w)\<lparr>login_limiter := l\<rparr>"
  "pop (w\<lparr>share_limiter := l\<rparr>) = (pop w)\<lparr>share_limiter := l\<rparr>"
  by (simp_all add: faulty_def pop_def)

end
