(* ===== verification/FolderTree.thy ===== *)
theory FolderTree
  imports Database
begin

text \<open>
  The folder tree, as the recursive queries of the services walk it: \<open>chain_up\<close> from an
  entry to its ancestors, \<open>down\<close> from entries to all their descendants. SQL's
  \<open>with recursive ... union all\<close> does not end on a cycle of parents; here the walks have
  fuel and run out of it (\<open>None\<close>). One more than the number of rows is enough as long as
  the parents form no cycle, which \<open>ancestors_terminates\<close> and \<open>subtree_terminates\<close> show.
\<close>

section \<open>The walks\<close>

fun chain_up :: "nat \<Rightarrow> (file_entry \<Rightarrow> bool) \<Rightarrow> file_entry list \<Rightarrow> uuid \<Rightarrow> file_entry list option" where
  "chain_up 0 P es i = None"
| "chain_up (Suc n) P es i =
     (case find (\<lambda>e. fe_id e = i \<and> P e) es of
        None \<Rightarrow> Some []
      | Some e \<Rightarrow> (case fe_parent e of
            None \<Rightarrow> Some [e]
          | Some p \<Rightarrow> map_option (Cons e) (chain_up n P es p)))"

definition ancestors :: "(file_entry \<Rightarrow> bool) \<Rightarrow> file_entry list \<Rightarrow> uuid \<Rightarrow> file_entry list option" where
  "ancestors P es i = chain_up (Suc (length es)) P es i"

definition children :: "(file_entry \<Rightarrow> bool) \<Rightarrow> file_entry list \<Rightarrow> file_entry list \<Rightarrow> file_entry list" where
  "children P es front = concat (map (\<lambda>t. filter (\<lambda>e. P e \<and> fe_parent e = Some (fe_id t)) es) front)"

fun down :: "nat \<Rightarrow> (file_entry \<Rightarrow> bool) \<Rightarrow> file_entry list \<Rightarrow> file_entry list \<Rightarrow> file_entry list option" where
  "down n P es [] = Some []"
| "down 0 P es (x # xs) = None"
| "down (Suc n) P es (x # xs) =
     map_option (\<lambda>r. (x # xs) @ r) (down n P es (children P es (x # xs)))"

definition subtree :: "(file_entry \<Rightarrow> bool) \<Rightarrow> file_entry list \<Rightarrow> file_entry list \<Rightarrow> file_entry list option" where
  "subtree P es start = down (Suc (length es)) P es start"

section \<open>Cycles\<close>

definition parent_rel :: "file_entry list \<Rightarrow> (uuid \<times> uuid) set" where
  "parent_rel es = {(fe_id e, p) |e p. e \<in> set es \<and> fe_parent e = Some p}"

definition forest :: "file_entry list \<Rightarrow> bool" where
  "forest es \<longleftrightarrow> distinct (map fe_id es) \<and> acyclic (parent_rel es)"

lemma parent_relI: "e \<in> set es \<Longrightarrow> fe_parent e = Some p \<Longrightarrow> (fe_id e, p) \<in> parent_rel es"
  by (auto simp: parent_rel_def)

lemma successively_trancl:
  "successively (\<lambda>a b. (a, b) \<in> r) (x # xs) \<Longrightarrow> y \<in> set xs \<Longrightarrow> (x, y) \<in> r\<^sup>+"
proof (induction xs arbitrary: x)
  case Nil
  then show ?case by simp
next
  case (Cons z xs)
  then have "(x, z) \<in> r" and "successively (\<lambda>a b. (a, b) \<in> r) (z # xs)" by simp_all
  with Cons show ?case by (auto intro: trancl_into_trancl2)
qed

lemma acyclic_path_distinct:
  "acyclic r \<Longrightarrow> successively (\<lambda>a b. (a, b) \<in> r) xs \<Longrightarrow> distinct xs"
proof (induction xs)
  case Nil
  then show ?case by simp
next
  case (Cons x xs)
  from Cons.prems have "successively (\<lambda>a b. (a, b) \<in> r) xs" by (cases xs) auto
  with Cons have "distinct xs" by blast
  moreover have "x \<notin> set xs"
    using successively_trancl [OF Cons.prems(2)] Cons.prems(1) by (auto simp: acyclic_def)
  ultimately show ?case by simp
qed

lemma path_length:
  assumes "forest es" and "successively (\<lambda>a b. (a, b) \<in> parent_rel es) xs" and "set xs \<subseteq> fe_id ` set es"
  shows "length xs \<le> length es"
proof -
  have "distinct xs" using assms(1,2) by (auto simp: forest_def intro: acyclic_path_distinct)
  then have "length xs = card (set xs)" by (simp add: distinct_card)
  also have "\<dots> \<le> card (fe_id ` set es)" using assms(3) by (intro card_mono) auto
  also have "\<dots> \<le> length es" by (metis card_length image_set length_map)
  finally show ?thesis .
qed

lemma chain_up_None:
  "chain_up n P es i = None \<Longrightarrow> \<exists>xs. length xs = n \<and> set xs \<subseteq> fe_id ` set es
     \<and> successively (\<lambda>a b. (a, b) \<in> parent_rel es) xs \<and> (n \<noteq> 0 \<longrightarrow> hd xs = i)"
proof (induction n P es i rule: chain_up.induct)
  case (1 P es i)
  then show ?case by simp
next
  case (2 n P es i)
  then obtain e p where e: "find (\<lambda>e. fe_id e = i \<and> P e) es = Some e" "fe_parent e = Some p"
    and none: "chain_up n P es p = None"
    by (auto split: option.splits)
  from "2.IH" [OF e none] obtain xs where xs: "length xs = n" "set xs \<subseteq> fe_id ` set es"
    "successively (\<lambda>a b. (a, b) \<in> parent_rel es) xs" "n \<noteq> 0 \<longrightarrow> hd xs = p" by blast
  have mem: "e \<in> set es" "fe_id e = i" using find_set [OF e(1)] by auto
  have "successively (\<lambda>a b. (a, b) \<in> parent_rel es) (i # xs)"
    using xs parent_relI [OF mem(1) e(2)] mem(2) by (cases xs) auto
  with xs mem show ?case by (intro exI [of _ "i # xs"]) auto
qed

lemma ancestors_terminates: "forest es \<Longrightarrow> ancestors P es i \<noteq> None"
  unfolding ancestors_def
  by (metis Suc_n_not_le_n chain_up_None path_length)

lemma in_children: "e \<in> set (children P es front) \<longleftrightarrow> e \<in> set es \<and> P e \<and> (\<exists>t \<in> set front. fe_parent e = Some (fe_id t))"
  by (auto simp: children_def)

lemma down_None:
  "down n P es front = None \<Longrightarrow> set front \<subseteq> set es \<Longrightarrow> \<exists>xs. length xs = Suc n \<and> set xs \<subseteq> fe_id ` set es
     \<and> successively (\<lambda>a b. (a, b) \<in> parent_rel es) xs \<and> last xs \<in> fe_id ` set front"
proof (induction n P es front rule: down.induct)
  case (1 n P es)
  then show ?case by simp
next
  case (2 P es x xs)
  then show ?case by (intro exI [of _ "[fe_id x]"]) auto
next
  case (3 n P es x xs)
  then have none: "down n P es (children P es (x # xs)) = None" by auto
  have sub: "set (children P es (x # xs)) \<subseteq> set es" by (auto simp: in_children)
  from "3.IH" [OF none sub] obtain ys where ys: "length ys = Suc n" "set ys \<subseteq> fe_id ` set es"
    "successively (\<lambda>a b. (a, b) \<in> parent_rel es) ys"
    "last ys \<in> fe_id ` set (children P es (x # xs))" by blast
  from ys(4) obtain e where ec: "e \<in> set (children P es (x # xs))" "last ys = fe_id e" by blast
  then obtain t where e: "e \<in> set es" "last ys = fe_id e" "t \<in> set (x # xs)"
    "fe_parent e = Some (fe_id t)"
    unfolding in_children by blast
  have "successively (\<lambda>a b. (a, b) \<in> parent_rel es) (ys @ [fe_id t])"
    using ys parent_relI [OF e(1,4)] e(2) by (simp add: successively_append_iff)
  with ys e "3.prems"(2) show ?case by (intro exI [of _ "ys @ [fe_id t]"]) auto
qed

lemma subtree_terminates: "forest es \<Longrightarrow> set start \<subseteq> set es \<Longrightarrow> subtree P es start \<noteq> None"
  unfolding subtree_def
  using down_None [of "Suc (length es)" P es start] path_length [of es]
  by (metis Suc_n_not_le_n le_Suc_eq)

section \<open>What the downward walk returns\<close>

inductive desc :: "(file_entry \<Rightarrow> bool) \<Rightarrow> file_entry list \<Rightarrow> file_entry list \<Rightarrow> file_entry \<Rightarrow> bool"
  for P es start where
  start: "e \<in> set start \<Longrightarrow> desc P es start e"
| child: "desc P es start t \<Longrightarrow> e \<in> set es \<Longrightarrow> P e \<Longrightarrow> fe_parent e = Some (fe_id t) \<Longrightarrow> desc P es start e"

inductive_cases descE: "desc P es start e"

lemma desc_children: "desc P es (children P es front) e \<Longrightarrow> desc P es front e"
  by (induction rule: desc.induct) (auto simp: in_children intro: desc.intros)

lemma desc_split: "desc P es front e \<Longrightarrow> e \<in> set front \<or> desc P es (children P es front) e"
proof (induction rule: desc.induct)
  case (start e)
  then show ?case by simp
next
  case (child t e)
  from child.IH have "desc P es (children P es front) e"
  proof
    assume "t \<in> set front"
    with child.hyps show ?thesis by (intro desc.start) (auto simp: in_children)
  next
    assume "desc P es (children P es front) t"
    with child.hyps show ?thesis by (blast intro: desc.child)
  qed
  then show ?case ..
qed

lemma desc_Nil [simp]: "\<not> desc P es [] e"
proof
  assume "desc P es [] e"
  then show False by (induction rule: desc.induct) auto
qed

lemma down_desc: "down n P es front = Some r \<Longrightarrow> e \<in> set r \<longleftrightarrow> desc P es front e"
proof (induction n P es front arbitrary: r rule: down.induct)
  case (3 n P es x xs)
  then obtain r' where r': "down n P es (children P es (x # xs)) = Some r'" "r = (x # xs) @ r'" by auto
  from "3.IH" [OF r'(1)] r'(2) show ?case
    using desc_split [of P es "x # xs" e] desc_children [of P es "x # xs" e] desc.start [of e "x # xs" P es]
    by auto
qed auto

lemma subtree_desc: "subtree P es start = Some r \<Longrightarrow> e \<in> set r \<longleftrightarrow> desc P es start e"
  unfolding subtree_def by (rule down_desc)

lemma desc_in: "desc P es start e \<Longrightarrow> set start \<subseteq> set es \<Longrightarrow> e \<in> set es"
  by (induction rule: desc.induct) auto

lemma desc_reach: "desc P es start e \<Longrightarrow> \<exists>t \<in> set start. (fe_id e, fe_id t) \<in> (parent_rel es)\<^sup>*"
proof (induction rule: desc.induct)
  case (start e)
  then show ?case by auto
next
  case (child t e)
  then show ?case by (meson converse_rtrancl_into_rtrancl parent_relI)
qed

end
