(* ===== verification/Access.thy ===== *)
theory Access
  imports FolderTree
begin

text \<open>
  \<open>internal/access/access.go\<close>: what a user may do with an entry or a drive. The level of
  a user on an entry is the highest of: owner of the row, role in the drive of the
  entry, roles granted by \<open>file_permissions\<close> on the entry or one of its ancestors.
\<close>

section \<open>Operations\<close>

datatype action = ActionView | ActionComment | ActionEdit | ActionManage | ActionAdminDrive | OtherAction string

definition roleLevel :: "string \<Rightarrow> nat" where
  "roleLevel r =
     (if r = ''viewer'' then 1
      else if r = ''commenter'' then 2
      else if r = ''contributor'' \<or> r = ''editor'' then 3
      else if r = ''content_manager'' then 4
      else if r = ''manager'' then 5
      else if r = ''owner'' then 6
      else 0)"

fun requiredLevel :: "action \<Rightarrow> nat" where
  "requiredLevel ActionView = 1"
| "requiredLevel ActionComment = 2"
| "requiredLevel ActionEdit = 3"
| "requiredLevel ActionManage = 4"
| "requiredLevel ActionAdminDrive = 5"
| "requiredLevel (OtherAction _) = 99"

definition member_of :: "database \<Rightarrow> uuid \<Rightarrow> uuid \<Rightarrow> member_row option" where
  "member_of d drive user = find (\<lambda>m. m_drive m = drive \<and> m_user m = user) (members d)"

text \<open>The join of the entry with its drive and the user's membership.\<close>

definition level_row :: "uuid \<Rightarrow> uuid \<Rightarrow> database \<Rightarrow> (uuid \<times> drive_kind option \<times> string option) option" where
  "level_row user entry d = map_option (\<lambda>f.
      (fe_user f,
       map_option d_kind (Option.bind (fe_drive f) (drive_of d)),
       map_option m_role (Option.bind (fe_drive f) (\<lambda>r. member_of d r user)))) (entry_of d entry)"

text \<open>\<open>order by rank desc limit 1\<close>.\<close>

fun top_by :: "('a \<Rightarrow> nat) \<Rightarrow> 'a list \<Rightarrow> 'a option" where
  "top_by f [] = None"
| "top_by f (x # xs) = (case top_by f xs of None \<Rightarrow> Some x | Some y \<Rightarrow> if f x < f y then Some y else Some x)"

definition acl_rank :: "string \<Rightarrow> nat" where
  "acl_rank r = (if r = ''editor'' then 3 else if r = ''commenter'' then 2 else if r = ''viewer'' then 1 else 0)"

definition acl_roles :: "uuid \<Rightarrow> database \<Rightarrow> file_entry list \<Rightarrow> string list" where
  "acl_roles user d chain = concat (map (\<lambda>c.
     map p_role (filter (\<lambda>p. p_entry p = fe_id c \<and> p_grantee p = user) (perms d))) chain)"

definition aclRoleOnAncestors :: "uuid \<Rightarrow> uuid \<Rightarrow> string srv" where
  "aclRoleOnAncestors user entry =
     bnd (result (db_stmt (query (\<lambda>d. case ancestors (\<lambda>_. True) (entries d) entry of
         None \<Rightarrow> Inl Diverges
       | Some chain \<Rightarrow> (case top_by acl_rank (acl_roles user d chain) of None \<Rightarrow> Inl NoRows | Some r \<Rightarrow> Inr r)))))
     (\<lambda>r. case r of Inl e \<Rightarrow> if e = NoRows then ret '''' else fail e | Inr role \<Rightarrow> ret role)"

definition effectiveLevel :: "uuid \<Rightarrow> uuid \<Rightarrow> nat srv" where
  "effectiveLevel user entry =
     bnd (map_err (no_rows (Msg ''file not found'')) (db_stmt (row (level_row user entry)))) (\<lambda>(owner, driveKind, memberRole).
     let best = (if owner = user then roleLevel ''owner'' else 0);
         best = (if driveKind = Some Personal \<and> owner = user then max best (roleLevel ''owner'') else best);
         best = (case memberRole of None \<Rightarrow> best | Some r \<Rightarrow> max best (roleLevel r))
     in bnd (aclRoleOnAncestors user entry) (\<lambda>aclRole.
        ret (if aclRole \<noteq> '''' then max best (roleLevel aclRole) else best)))"

definition Can :: "uuid \<Rightarrow> string \<Rightarrow> uuid \<Rightarrow> action \<Rightarrow> bool srv" where
  "Can user userRole entry action =
     (if userRole = ''admin'' then ret True
      else bnd (effectiveLevel user entry) (\<lambda>level. ret (requiredLevel action \<le> level)))"

definition Require :: "uuid \<Rightarrow> string \<Rightarrow> uuid \<Rightarrow> action \<Rightarrow> unit srv" where
  "Require user userRole entry action =
     bnd (Can user userRole entry action) (\<lambda>ok. require ok (Msg ''forbidden''))"

definition CanDrive :: "uuid \<Rightarrow> string \<Rightarrow> uuid \<Rightarrow> action \<Rightarrow> bool srv" where
  "CanDrive user userRole drive action =
     (if userRole = ''admin'' then ret True
      else
        bnd (map_err (no_rows (Msg ''drive not found'')) (db_stmt (row (\<lambda>d.
          map_option (\<lambda>r. (d_owner r, d_kind r,
             case member_of d drive user of None \<Rightarrow> '''' | Some m \<Rightarrow> m_role m)) (drive_of d drive)))))
        (\<lambda>(owner, kind, memberRole).
          let level = (if owner = user then roleLevel ''owner'' else 0);
              level = (if memberRole \<noteq> '''' then max level (roleLevel memberRole) else level);
              level = (if kind = Personal \<and> owner = user then roleLevel ''owner'' else level)
          in ret (requiredLevel action \<le> level)))"

section \<open>What is granted\<close>

text \<open>
  The specification: the levels a user has on an entry, each with its reason, without
  queries. \<open>(i, a) \<in> (parent_rel es)\<^sup>*\<close> says that \<open>a\<close> is \<open>i\<close> or an ancestor of \<open>i\<close>.
\<close>

definition grants :: "database \<Rightarrow> uuid \<Rightarrow> uuid \<Rightarrow> nat set" where
  "grants d user i =
     {6 |f. f \<in> set (entries d) \<and> fe_id f = i \<and> fe_user f = user}
   \<union> {roleLevel (m_role m) |f m. f \<in> set (entries d) \<and> fe_id f = i \<and> m \<in> set (members d)
        \<and> fe_drive f = Some (m_drive m) \<and> m_user m = user}
   \<union> {roleLevel (p_role p) |p. p \<in> set (perms d) \<and> p_grantee p = user \<and> p_entry p \<in> fe_id ` set (entries d)
        \<and> (i, p_entry p) \<in> (parent_rel (entries d))\<^sup>*}"

text \<open>The constraints of the schema the level depends on.\<close>

definition access_wf :: "database \<Rightarrow> bool" where
  "access_wf d \<longleftrightarrow> forest (entries d)
     \<and> distinct (map (\<lambda>m. (m_drive m, m_user m)) (members d))
     \<and> (\<forall>p \<in> set (perms d). p_role p \<in> {''viewer'', ''commenter'', ''editor''})"

lemma top_by_None: "top_by f xs = None \<longleftrightarrow> xs = []"
  by (cases xs) (auto split: option.splits)

lemma top_by_Some: "top_by f xs = Some y \<Longrightarrow> y \<in> set xs \<and> (\<forall>x \<in> set xs. f x \<le> f y)"
proof (induction xs arbitrary: y)
  case Nil
  then show ?case by simp
next
  case (Cons x xs)
  then show ?case
    by (fastforce simp: top_by_None split: option.splits if_splits)
qed

lemma find_by_id:
  assumes "distinct (map fe_id es)" and "find (\<lambda>e. fe_id e = i) es = Some e"
  shows "(i, j) \<in> parent_rel es \<longleftrightarrow> fe_parent e = Some j"
proof -
  have e: "e \<in> set es" "fe_id e = i" using find_set [OF assms(2)] by auto
  have uniq: "f \<in> set es \<Longrightarrow> fe_id f = i \<Longrightarrow> f = e" for f
    using e assms(1) by (simp add: distinct_map inj_on_def)
  show ?thesis
  proof
    assume "(i, j) \<in> parent_rel es"
    then obtain f where "f \<in> set es" "fe_id f = i" "fe_parent f = Some j" by (auto simp: parent_rel_def)
    with uniq show "fe_parent e = Some j" by blast
  next
    assume "fe_parent e = Some j"
    with e show "(i, j) \<in> parent_rel es" by (auto intro: parent_relI)
  qed
qed

lemma chain_up_Some:
  assumes "distinct (map fe_id es)"
  shows "chain_up n (\<lambda>_. True) es i = Some xs \<Longrightarrow>
    fe_id ` set xs = {j. (i, j) \<in> (parent_rel es)\<^sup>* \<and> j \<in> fe_id ` set es}"
  using assms
proof (induction n "\<lambda>_ :: file_entry. True" es i arbitrary: xs rule: chain_up.induct)
  case (1 es i)
  then show ?case by simp
next
  case (2 n es i)
  show ?case
  proof (cases "find (\<lambda>e. fe_id e = i) es")
    case None
    then have no: "i \<notin> fe_id ` set es" by (auto simp: find_none)
    then have "(i, j) \<notin> parent_rel es" for j by (auto simp: parent_rel_def)
    with no 2 None show ?thesis by (auto elim: converse_rtranclE)
  next
    case (Some e)
    note step = find_by_id [OF "2.prems"(2) Some]
    have e: "i \<in> fe_id ` set es" "fe_id e = i" using find_set [OF Some] by auto
    show ?thesis
    proof (cases "fe_parent e")
      case None
      with step e "2.prems" Some show ?thesis by (auto elim: converse_rtranclE)
    next
      case (Some p)
      note par = this
      have find: "find (\<lambda>e. fe_id e = i \<and> True) es = Some e"
        using \<open>find (\<lambda>e. fe_id e = i) es = Some e\<close> by simp
      with par "2.prems" obtain ys where ys: "chain_up n (\<lambda>_. True) es p = Some ys" "xs = e # ys"
        by auto
      have "fe_id ` set ys = {j. (p, j) \<in> (parent_rel es)\<^sup>* \<and> j \<in> fe_id ` set es}"
        by (rule "2.hyps" [OF find par ys(1) "2.prems"(2)])
      moreover have "(i, j) \<in> (parent_rel es)\<^sup>* \<longleftrightarrow> i = j \<or> (p, j) \<in> (parent_rel es)\<^sup>*" for j
      proof
        assume "(i, j) \<in> (parent_rel es)\<^sup>*"
        then show "i = j \<or> (p, j) \<in> (parent_rel es)\<^sup>*"
          by (cases rule: converse_rtranclE) (use step par in auto)
      next
        assume "i = j \<or> (p, j) \<in> (parent_rel es)\<^sup>*"
        then show "(i, j) \<in> (parent_rel es)\<^sup>*"
          using step [of p] par by (blast intro: converse_rtrancl_into_rtrancl)
      qed
      ultimately show ?thesis using ys(2) e by auto
    qed
  qed
qed

lemma ancestors_Some:
  "forest es \<Longrightarrow> ancestors (\<lambda>_. True) es i = Some xs \<Longrightarrow>
    fe_id ` set xs = {j. (i, j) \<in> (parent_rel es)\<^sup>* \<and> j \<in> fe_id ` set es}"
  unfolding ancestors_def forest_def by (rule chain_up_Some) blast+

lemma acl_roles_set:
  "set (acl_roles user d chain) = {p_role p |p. p \<in> set (perms d) \<and> p_grantee p = user \<and> p_entry p \<in> fe_id ` set chain}"
  by (auto simp: acl_roles_def)

text \<open>The level the roles of the chain give, next to the direct ones.\<close>

definition acl_level :: "string option \<Rightarrow> nat" where
  "acl_level r = (case r of None \<Rightarrow> 0 | Some r \<Rightarrow> roleLevel r)"

definition direct_level :: "database \<Rightarrow> uuid \<Rightarrow> file_entry \<Rightarrow> nat" where
  "direct_level d user f =
     max (if fe_user f = user then 6 else 0)
         (case Option.bind (fe_drive f) (\<lambda>r. member_of d r user) of None \<Rightarrow> 0 | Some m \<Rightarrow> roleLevel (m_role m))"

lemma roleLevel_acl: "r \<in> {''viewer'', ''commenter'', ''editor''} \<Longrightarrow> roleLevel r = acl_rank r"
  by (auto simp: roleLevel_def acl_rank_def)

lemma roleLevel_le: "roleLevel r \<le> 6" by (simp add: roleLevel_def)

lemma effectiveLevel_run:
  assumes "faults w = []" and "entry_of (db w) i = Some f"
    and "ancestors (\<lambda>_. True) (entries (db w)) i = Some chain"
  shows "effectiveLevel user i w
    = (Inr (max (direct_level (db w) user f) (acl_level (top_by acl_rank (acl_roles user (db w) chain)))), w)"
proof -
  have pop: "pop w = w" "faulty w = False" using assms(1) by simp_all
  have owner: "roleLevel ''owner'' = 6" "roleLevel [] = 0" by (simp_all add: roleLevel_def)
  show ?thesis
    using assms(2,3) roleLevel_le
    by (auto simp: effectiveLevel_def aclRoleOnAncestors_def bnd_def map_err_def result_def db_stmt_def pop
        row_def query_def level_row_def direct_level_def acl_level_def ret_def Let_def owner max_def
        split: option.splits)
qed

lemma acl_level_ge:
  assumes "\<And>r. r \<in> set rs \<Longrightarrow> roleLevel r = acl_rank r" and "0 < k"
  shows "k \<le> acl_level (top_by acl_rank rs) \<longleftrightarrow> (\<exists>r \<in> set rs. k \<le> roleLevel r)"
proof (cases "top_by acl_rank rs")
  case None
  with assms(2) show ?thesis by (simp add: top_by_None acl_level_def)
next
  case (Some y)
  with top_by_Some [OF Some] assms(1) show ?thesis
    by (auto simp: acl_level_def intro: order_trans)
qed

lemma member_of_iff:
  assumes "distinct (map (\<lambda>m. (m_drive m, m_user m)) (members d))"
  shows "member_of d r u = Some m \<longleftrightarrow> m \<in> set (members d) \<and> m_drive m = r \<and> m_user m = u"
proof
  assume "member_of d r u = Some m"
  then show "m \<in> set (members d) \<and> m_drive m = r \<and> m_user m = u"
    unfolding member_of_def by (auto dest: find_set)
next
  assume m: "m \<in> set (members d) \<and> m_drive m = r \<and> m_user m = u"
  then have "find (\<lambda>y. (m_drive y, m_user y) = (m_drive m, m_user m)) (members d) = Some m"
    by (intro find_distinct_key [OF assms]) simp
  with m show "member_of d r u = Some m" by (simp add: member_of_def)
qed

lemma direct_level_ge:
  assumes "distinct (map (\<lambda>m. (m_drive m, m_user m)) (members d))" and "0 < k"
  shows "k \<le> direct_level d user f \<longleftrightarrow> (fe_user f = user \<and> k \<le> 6)
    \<or> (\<exists>m \<in> set (members d). fe_drive f = Some (m_drive m) \<and> m_user m = user \<and> k \<le> roleLevel (m_role m))"
proof -
  have "(k \<le> (case Option.bind (fe_drive f) (\<lambda>r. member_of d r user) of None \<Rightarrow> 0 | Some m \<Rightarrow> roleLevel (m_role m)))
     \<longleftrightarrow> (\<exists>r m. fe_drive f = Some r \<and> member_of d r user = Some m \<and> k \<le> roleLevel (m_role m))"
    using assms(2) by (auto split: option.splits bind_splits)
  also have "\<dots> \<longleftrightarrow> (\<exists>m \<in> set (members d). fe_drive f = Some (m_drive m) \<and> m_user m = user \<and> k \<le> roleLevel (m_role m))"
    using member_of_iff [OF assms(1)] by auto
  finally show ?thesis using assms(2) by (auto simp: direct_level_def le_max_iff_disj)
qed

lemma entry_of_iff:
  "distinct (map fe_id (entries d)) \<Longrightarrow> entry_of d i = Some f \<longleftrightarrow> f \<in> set (entries d) \<and> fe_id f = i"
  unfolding entry_of_def by (auto dest: find_set find_distinct_key)

lemma grants_ge:
  assumes "access_wf d" and "entry_of d i = Some f" and "ancestors (\<lambda>_. True) (entries d) i = Some chain"
    and "0 < k"
  shows "k \<le> max (direct_level d user f) (acl_level (top_by acl_rank (acl_roles user d chain)))
    \<longleftrightarrow> (\<exists>g \<in> grants d user i. k \<le> g)"
proof -
  have dist: "distinct (map fe_id (entries d))" "distinct (map (\<lambda>m. (m_drive m, m_user m)) (members d))"
    using assms(1) by (auto simp: access_wf_def forest_def)
  have chain: "fe_id ` set chain = {j. (i, j) \<in> (parent_rel (entries d))\<^sup>* \<and> j \<in> fe_id ` set (entries d)}"
    using assms(1,3) ancestors_Some by (auto simp: access_wf_def)
  have self: "f' \<in> set (entries d) \<and> fe_id f' = i \<longleftrightarrow> f' = f" for f'
    using entry_of_iff [OF dist(1), of i f'] assms(2) by auto
  have roles: "\<And>r. r \<in> set (acl_roles user d chain) \<Longrightarrow> roleLevel r = acl_rank r"
    using assms(1) by (auto simp: acl_roles_set access_wf_def intro!: roleLevel_acl)
  have "(\<exists>g \<in> grants d user i. k \<le> g) \<longleftrightarrow> k \<le> direct_level d user f
      \<or> (\<exists>r \<in> set (acl_roles user d chain). k \<le> roleLevel r)"
  proof -
    have own: "(\<exists>f'. f' \<in> set (entries d) \<and> fe_id f' = i \<and> fe_user f' = user) \<longleftrightarrow> fe_user f = user"
      using self by metis
    have mem: "(\<exists>f' m. k \<le> roleLevel (m_role m) \<and> f' \<in> set (entries d) \<and> fe_id f' = i \<and> m \<in> set (members d)
        \<and> fe_drive f' = Some (m_drive m) \<and> m_user m = user)
      \<longleftrightarrow> (\<exists>m \<in> set (members d). fe_drive f = Some (m_drive m) \<and> m_user m = user \<and> k \<le> roleLevel (m_role m))"
      using self by metis
    have "(\<exists>g \<in> grants d user i. k \<le> g) \<longleftrightarrow> (k \<le> 6 \<and> fe_user f = user)
      \<or> (\<exists>m \<in> set (members d). fe_drive f = Some (m_drive m) \<and> m_user m = user \<and> k \<le> roleLevel (m_role m))
      \<or> (\<exists>p. k \<le> roleLevel (p_role p) \<and> p \<in> set (perms d) \<and> p_grantee p = user
           \<and> p_entry p \<in> fe_id ` set (entries d) \<and> (i, p_entry p) \<in> (parent_rel (entries d))\<^sup>*)"
      unfolding grants_def own [symmetric] mem [symmetric] by blast
    then show ?thesis
      unfolding direct_level_ge [OF dist(2) assms(4)] acl_roles_set chain by blast
  qed
  then show ?thesis
    by (simp add: le_max_iff_disj acl_level_ge [OF roles assms(4)])
qed

lemma requiredLevel_pos: "0 < requiredLevel a"
  by (cases a) simp_all

lemma Can_run:
  assumes "faults w = []" and "access_wf (db w)" and "entry_of (db w) i = Some f"
  shows "Can user r i a w
    = (Inr (r = ''admin'' \<or> (\<exists>g \<in> grants (db w) user i. requiredLevel a \<le> g)), w)"
proof -
  obtain chain where chain: "ancestors (\<lambda>_. True) (entries (db w)) i = Some chain"
    using assms(2) ancestors_terminates [of "entries (db w)" "\<lambda>_. True" i] by (auto simp: access_wf_def)
  show ?thesis
    using grants_ge [OF assms(2,3) chain requiredLevel_pos]
    by (simp add: Can_def bnd_def effectiveLevel_run [OF assms(1,3) chain] ret_def)
qed

lemma Require_run:
  assumes "faults w = []" and "access_wf (db w)" and "entry_of (db w) i = Some f"
  shows "Require user r i a w
    = (if r = ''admin'' \<or> (\<exists>g \<in> grants (db w) user i. requiredLevel a \<le> g)
       then (Inr (), w) else (Inl (Msg ''forbidden''), w))"
  using Can_run [OF assms] by (simp add: Require_def bnd_def require_def ret_def fail_def)

text \<open>
  C4: the access check decides exactly the specification: an administrator may do
  everything, any other user what some grant allows. In particular the check ends and
  has no effect.
\<close>

theorem access_decides:
  assumes "faults w = []" and "access_wf (db w)" and "entry_of (db w) i = Some f"
  shows "Require user r i a w
    = (if r = ''admin'' \<or> (\<exists>g \<in> grants (db w) user i. requiredLevel a \<le> g)
       then (Inr (), w) else (Inl (Msg ''forbidden''), w))"
  by (rule Require_run [OF assms])

end
