(* ===== verification/Blobs.thy ===== *)
theory Blobs
  imports Access
begin

text \<open>
  What the services share below the entry table: the blob store by key
  (\<open>storage.Local\<close>; the empty key does not resolve), the change log
  (\<open>internal/changelog\<close>) and the garbage collection of blobs (\<open>internal/blobgc\<close>).
\<close>

section \<open>The store by key\<close>

definition by_key :: "skey \<Rightarrow> 'a srv \<Rightarrow> 'a srv" where
  "by_key k m = (if k = NoKey then fail (Msg ''invalid storage key'') else m)"

definition blob_save :: "skey \<Rightarrow> rd list \<Rightarrow> int srv" where
  "blob_save k src = by_key k (st_save k src)"

definition blob_open :: "skey \<Rightarrow> string srv" where
  "blob_open k = by_key k (st_open k)"

definition blob_delete :: "skey \<Rightarrow> unit srv" where
  "blob_delete k = by_key k (st_delete k)"

definition blob_size :: "skey \<Rightarrow> int srv" where
  "blob_size k = by_key k (st_size k)"

definition blob_ensure_empty :: "skey \<Rightarrow> unit srv" where
  "blob_ensure_empty k = by_key k (st_ensure_empty k)"

definition blob_truncate :: "skey \<Rightarrow> int \<Rightarrow> unit srv" where
  "blob_truncate k n = by_key k (st_truncate k n)"

definition blob_append :: "skey \<Rightarrow> int \<Rightarrow> rd list \<Rightarrow> int srv" where
  "blob_append k off src = by_key k (st_append_at k off src)"

definition blob_finalize :: "skey \<Rightarrow> skey \<Rightarrow> unit srv" where
  "blob_finalize a b = by_key a (by_key b (st_finalize a b))"

lemmas blob_defs = blob_save_def blob_open_def blob_delete_def blob_size_def blob_ensure_empty_def
  blob_truncate_def blob_append_def blob_finalize_def by_key_def

text \<open>The day of a Unix time, which the keys of new blobs carry.\<close>

definition day_of :: "int \<Rightarrow> int" where
  "day_of t = t div 86400"

section \<open>The change log\<close>

definition Append :: "uuid \<Rightarrow> uuid \<Rightarrow> change_op \<Rightarrow> string \<Rightarrow> uuid option \<Rightarrow> kind \<Rightarrow> int \<Rightarrow> string \<Rightarrow> int
    \<Rightarrow> string \<Rightarrow> uuid option \<Rightarrow> int option \<Rightarrow> unit srv" where
  "Append user entry op name parent k sz mime version hash device clientMod = tx_stmt (\<lambda>w.
     if user_of (db w) user = None then Inl Constraint
     else let c = \<lparr>c_id = change_seq w + 1, c_user = user, c_entry = entry, c_op = op, c_name = name,
                   c_parent = parent, c_kind = k, c_size = sz, c_mime = mime, c_version = version,
                   c_hash = hash, c_device = device, c_cmod = clientMod,
                   c_drive = Option.bind (entry_of (db w) entry) fe_drive, c_created = clock w\<rparr>
          in Inr ((), w\<lparr>change_seq := change_seq w + 1, db := (db w)\<lparr>changes := changes (db w) @ [c]\<rparr>\<rparr>))"

section \<open>Garbage collection of blobs\<close>

definition referenced :: "database \<Rightarrow> skey \<Rightarrow> bool" where
  "referenced d k \<longleftrightarrow>
     (\<exists>e \<in> set (entries d). fe_key e = k)
   \<or> (\<exists>v \<in> set (versions d). v_key v = k)
   \<or> (\<exists>s \<in> set (sessions d). us_key s = k \<and> us_status s = SOpen)"

definition delete_unreferenced_key :: "skey \<Rightarrow> unit srv" where
  "delete_unreferenced_key key =
     bnd (result (db_stmt (sel (\<lambda>d. referenced d key)))) (\<lambda>r. case r of
       Inl _ \<Rightarrow> ret ()
     | Inr b \<Rightarrow> if b then ret () else ignore (blob_delete key))"

fun delete_loop :: "skey set \<Rightarrow> skey list \<Rightarrow> unit srv" where
  "delete_loop seen [] = ret ()"
| "delete_loop seen (key # keys) =
     (if key = NoKey \<or> key \<in> seen then delete_loop seen keys
      else bnd (delete_unreferenced_key key) (\<lambda>_. delete_loop (insert key seen) keys))"

definition DeleteUnreferenced :: "skey list \<Rightarrow> unit srv" where
  "DeleteUnreferenced keys = delete_loop {} keys"

text \<open>\<open>order by version desc offset keep\<close>: all but the \<open>keep\<close> newest versions.\<close>

definition pruned :: "uuid \<Rightarrow> nat \<Rightarrow> database \<Rightarrow> version_row list" where
  "pruned entry keep d =
     drop keep (rev (sort_key v_version (filter (\<lambda>v. v_entry v = entry) (versions d))))"

definition PruneVersions :: "uuid \<Rightarrow> int \<Rightarrow> unit srv" where
  "PruneVersions entry keep =
     bnd (db_stmt (\<lambda>w.
       let old = pruned entry (nat keep) (db w);
           w' = w\<lparr>db := (db w)\<lparr>versions := filter (\<lambda>v. v_id v \<notin> v_id ` set old) (versions (db w))\<rparr>\<rparr>
       in Inr (map v_key old, w')))
     (\<lambda>keys. DeleteUnreferenced keys)"

section \<open>What the operations leave alone\<close>

text \<open>
  \<open>quiet m\<close>: whatever happens, \<open>m\<close> does nothing but use up the fault schedule. A query
  and an access check are quiet.
\<close>

definition used_faults :: "world \<Rightarrow> world \<Rightarrow> bool" where
  "used_faults w w' \<longleftrightarrow> (\<exists>n. w' = w\<lparr>faults := drop n (faults w)\<rparr>)"

abbreviation quiet :: "'a srv \<Rightarrow> bool" where
  "quiet m \<equiv> steps used_faults m"

lemma used_faults_refl [simp]: "used_faults w w"
  by (auto simp: used_faults_def intro!: exI [of _ 0])

lemma preorder_used_faults [steps_intros]: "preorder used_faults"
  by (rule preorderI) (auto simp: used_faults_def)

lemma used_faults_pop [simp]: "used_faults w (pop w)"
  by (auto simp: used_faults_def pop_def drop_Suc intro!: exI [of _ 1])

lemma quiet_query [steps_intros]: "quiet (db_stmt (query g))" "quiet (db_stmt (row g'))" "quiet (db_stmt (sel g''))"
  "quiet (db_stmt (ask a))" "quiet (db_stmt (ask_row a'))" "quiet (db_stmt (look a''))"
  by (auto intro!: stepsI simp: db_stmt_def query_def row_def sel_def ask_def ask_row_def look_def
      split: sum.splits option.splits)

lemma quiet_access [steps_intros]: "quiet (effectiveLevel u i)" "quiet (Can u r i a)" "quiet (Require u r i a)"
proof -
  show e: "quiet (effectiveLevel u i)" unfolding effectiveLevel_def aclRoleOnAncestors_def
    by (intro steps_intros)
  then show c: "quiet (Can u r i a)" unfolding Can_def by (intro steps_intros)
  then show "quiet (Require u r i a)" unfolding Require_def by (intro steps_intros)
qed

lemma disk_step_world:
  "disk_step K w w' \<Longrightarrow> db w' = db w \<and> aborted w' = aborted w \<and> clock w' = clock w \<and> fresh w' = fresh w
     \<and> change_seq w' = change_seq w \<and> sql_lower w' = sql_lower w \<and> sql_le w' = sql_le w"
  by (auto simp: disk_step_def)

lemma only_blob [steps_intros]:
  "k \<in> K \<Longrightarrow> only K (blob_save k src)" "only K (blob_open k)" "k \<in> K \<Longrightarrow> only K (blob_delete k)"
  "only K (blob_size k)" "k \<in> K \<Longrightarrow> only K (blob_ensure_empty k)" "k \<in> K \<Longrightarrow> only K (blob_truncate k n)"
  "k \<in> K \<Longrightarrow> only K (blob_append k off src)" "a \<in> K \<Longrightarrow> k \<in> K \<Longrightarrow> only K (blob_finalize a k)"
  unfolding blob_defs by (auto intro!: steps_intros)

text \<open>
  A relation \<open>R\<close> that goes through transactions: what \<open>R\<close> allows before a rollback, it
  allows after it.
\<close>

definition tx_rel :: "(world \<Rightarrow> world \<Rightarrow> bool) \<Rightarrow> bool" where
  "tx_rel R \<longleftrightarrow> preorder R \<and> (\<forall>w. R w (pop w)) \<and> (\<forall>w b. R w (w\<lparr>aborted := b\<rparr>))
     \<and> (\<forall>w w'. R w w' \<longrightarrow> R w (rollback (db w) w'))"

lemma tx_rel_pop: "tx_rel R \<Longrightarrow> R w w' \<Longrightarrow> R w (pop w')"
  and tx_rel_aborted: "tx_rel R \<Longrightarrow> R w w' \<Longrightarrow> R w (w'\<lparr>aborted := b\<rparr>)"
  and tx_rel_refl: "tx_rel R \<Longrightarrow> R w w"
  by (auto simp: tx_rel_def dest: preorder_trans intro: preorder_refl)

lemma steps_db_stmt:
  assumes "tx_rel R" and "\<And>w x w'. f w = Inr (x, w') \<Longrightarrow> R w w'"
  shows "steps R (db_stmt f)"
proof (rule stepsI)
  fix w
  have pop: "R w (pop w)" and pre: "preorder R" using assms(1) by (simp_all add: tx_rel_def)
  have "f (pop w) = Inr (x, w') \<Longrightarrow> R w w'" for x w'
    using preorder_trans [OF pre pop] assms(2) by blast
  with pop show "R w (snd (db_stmt f w))"
    by (auto simp: db_stmt_def split: sum.splits)
qed

lemma steps_tx_stmt:
  assumes "tx_rel R" and "\<And>w x w'. f w = Inr (x, w') \<Longrightarrow> R w w'"
  shows "steps R (tx_stmt f)"
proof (rule stepsI)
  fix w
  have pop: "R w (pop w)" "R w ((pop w)\<lparr>aborted := True\<rparr>)" "R w w" and pre: "preorder R"
    using assms(1) tx_rel_refl [OF assms(1)] by (simp_all add: tx_rel_pop tx_rel_aborted) (simp add: tx_rel_def)
  have "f (pop w) = Inr (x, w') \<Longrightarrow> R w w'" for x w'
    using preorder_trans [OF pre pop(1)] assms(2) by blast
  with pop show "R w (snd (tx_stmt f w))"
    by (auto simp: tx_stmt_def split: sum.splits)
qed

lemma steps_with_tx [steps_intros]:
  assumes "tx_rel R" and "steps R body"
  shows "steps R (with_tx body)"
proof (rule stepsI)
  fix w :: world
  let ?w = "(pop w)\<lparr>aborted := False\<rparr>"
  have w: "R w (pop w)" "R w ?w" using tx_rel_refl [OF assms(1)] assms(1) by (simp_all add: tx_rel_pop tx_rel_aborted)
  have body: "R w (snd (body ?w))"
    using assms(2) preorder_trans [of R w "?w"] w(2) assms(1) by (simp add: steps_def tx_rel_def)
  have undo: "R w v \<Longrightarrow> R w (rollback (db w) v)" for v using assms(1) by (simp add: tx_rel_def)
  show "R w (snd (with_tx body w))"
    using w body undo tx_rel_pop [OF assms(1)]
    by (cases "body ?w") (auto simp: with_tx_def split: sum.splits)
qed

lemma steps_with_tx_else [steps_intros]:
  assumes "tx_rel R" and "steps R body" and "steps R h"
  shows "steps R (with_tx_else h body)"
proof (rule stepsI)
  fix w
  have "R w (snd (h (pop w)))"
    using assms(1,3) preorder_trans [of R w "pop w"] by (simp add: steps_def tx_rel_def)
  moreover have "R w (snd (with_tx body w))" using steps_with_tx [OF assms(1,2)] by (simp add: steps_def)
  ultimately show "R w (snd (with_tx_else h body w))" by (simp add: with_tx_else_def)
qed

lemma steps_run_tx [steps_intros]:
  assumes "tx_rel R" and "steps R body" and "\<And>e. steps R (hb e)" and "\<And>x r. steps R (k x r)"
  shows "steps R (run_tx hb body k)"
proof (rule stepsI)
  fix w :: world
  let ?w = "(pop w)\<lparr>aborted := False\<rparr>"
  have "preorder R" using assms(1) by (simp add: tx_rel_def)
  note tr = preorder_trans [OF this]
  have w: "R w (pop w)" "R w ?w" using tx_rel_refl [OF assms(1)] assms(1) by (simp_all add: tx_rel_pop tx_rel_aborted)
  have body: "R w (snd (body ?w))" by (rule tr, rule w(2)) (use assms(2) in \<open>simp add: steps_def\<close>)
  have begin_fails: "R w (snd (hb Fault (pop w)))" by (rule tr, rule w(1)) (use assms(3) in \<open>simp add: steps_def\<close>)
  have undo: "R w v \<Longrightarrow> R w (rollback (db w) v)" for v using assms(1) by (simp add: tx_rel_def)
  have k: "R w v \<Longrightarrow> R w (snd (k x r v))" for v x r
  proof -
    assume "R w v"
    then show ?thesis by (rule tr) (use assms(4) in \<open>simp add: steps_def\<close>)
  qed
  show "R w (snd (run_tx hb body k w))"
  proof (cases "body ?w")
    case (Pair r w')
    with body have w': "R w w'" by simp
    note after = undo [OF w'] undo [OF tx_rel_pop [OF assms(1) w']] tx_rel_pop [OF assms(1) w']
    show ?thesis
      using Pair begin_fails after(1) k [OF after(1)] k [OF after(2)] k [OF after(3)]
      by (cases r) (simp_all add: run_tx_def)
  qed
qed

section \<open>Garbage collection deletes no referenced blob\<close>

definition gc_step :: "skey set \<Rightarrow> world \<Rightarrow> world \<Rightarrow> bool" where
  "gc_step K w w' \<longleftrightarrow> db w' = db w \<and> aborted w' = aborted w
     \<and> (\<forall>k. files w' k = files w k \<or> (k \<in> K \<and> \<not> referenced (db w) k \<and> files w' k = None))"

lemma preorder_gc [steps_intros]: "preorder (gc_step K)"
  by (rule preorderI) (simp_all add: gc_step_def, metis)

lemma gc_key: "key \<in> K \<Longrightarrow> steps (gc_step K) (delete_unreferenced_key key)"
  by (rule stepsI)
     (auto simp: delete_unreferenced_key_def bnd_def result_def db_stmt_def ret_def ignore_def blob_delete_def by_key_def
       fail_def st_delete_def os_remove_def oscall_def getw_def modw_def gc_step_def split: option.splits)

lemma gc_loop: "set keys \<subseteq> K \<Longrightarrow> steps (gc_step K) (delete_loop seen keys)"
  by (induction keys arbitrary: seen) (auto intro!: steps_intros gc_key)

lemma gc_steps: "steps (gc_step (set keys)) (DeleteUnreferenced keys)"
  unfolding DeleteUnreferenced_def by (rule gc_loop) simp

end
