(* ===== verification/Files.thy ===== *)
theory Files
  imports Blobs
begin

text \<open>
  \<open>internal/files/service.go\<close>: browsing, uploading, moving, renaming, trashing, restoring
  and purging entries. Each operation is the Go method, statement by statement. A
  recursive query that does not end is the error \<open>Diverges\<close>; \<open>pace\<close> is the admission of
  the load controller, an operation without effect on the state.
\<close>

section \<open>Configuration\<close>

record config =
  AppEnv :: string
  HTTPAddr :: string
  DatabaseURL :: string
  SessionSecret :: string
  DataDir :: string
  PublicBaseURL :: string
  FreeQuotaBytes :: int
  MaxUploadBytes :: int
  MaxUploadBatchBytes :: int
  UploadChunkBytes :: int
  UploadSessionTTL :: int
  MaxBatchFiles :: int
  MaxConcurrentChunks :: int
  MaxConcurrentUploads :: int
  SessionTTL :: int
  DeviceTokenTTL :: int
  TrashRetention :: int
  FileChangeRetention :: int
  ShareTokenBytes :: int
  SharePasswordSalt :: string
  AllowRegistration :: bool
  UpdateManifestURL :: string
  UpdateChannel :: string
  LicenseVendorMode :: bool

section \<open>Reading\<close>

definition entry_le :: "(string \<Rightarrow> string) \<Rightarrow> (string \<Rightarrow> string \<Rightarrow> bool) \<Rightarrow> file_entry \<Rightarrow> file_entry \<Rightarrow> bool" where
  "entry_le low le e f =
     (if fe_kind e = fe_kind f then le (low (fe_name e)) (low (fe_name f)) else fe_kind e = Folder)"

definition live_children :: "uuid \<Rightarrow> world \<Rightarrow> file_entry list" where
  "live_children parent w = sort_by (entry_le (sql_lower w) (sql_le w))
     (filter (\<lambda>f. live f \<and> fe_parent f = Some parent) (entries (db w)))"

definition List :: "uuid \<Rightarrow> string \<Rightarrow> uuid \<Rightarrow> (file_entry \<times> bool) list srv" where
  "List user userRole parent =
     bnd (Require user userRole parent ActionView) (\<lambda>_.
     db_stmt (look (\<lambda>w. map (\<lambda>f. (f, \<exists>s \<in> set (stars (db w)). st_user s = user \<and> st_entry s = fe_id f))
       (live_children parent w))))"

definition IsDescendantOrSelf :: "uuid option \<Rightarrow> uuid option \<Rightarrow> bool srv" where
  "IsDescendantOrSelf entry shareRoot =
     (case (entry, shareRoot) of
        (Some e, Some r) \<Rightarrow>
          if e = r then ret True
          else db_stmt (query (\<lambda>d. case ancestors live (entries d) e of
              None \<Rightarrow> Inl Diverges
            | Some chain \<Rightarrow> Inr (r \<in> fe_id ` set chain)))
      | _ \<Rightarrow> fail (Msg ''invalid id''))"

definition ListPublicChildren :: "uuid \<Rightarrow> file_entry list srv" where
  "ListPublicChildren parent =
     db_stmt (look (\<lambda>w. map (\<lambda>f. f\<lparr>fe_key := NoKey\<rparr>) (live_children parent w)))"

definition entryByID :: "uuid \<Rightarrow> file_entry srv" where
  "entryByID i = map_err (no_rows (Msg ''file not found''))
     (db_stmt (row (\<lambda>d. find (\<lambda>e. fe_id e = i \<and> live e) (entries d))))"

definition EntryForShare :: "uuid \<Rightarrow> file_entry srv" where
  "EntryForShare i = entryByID i"

definition OpenStorage :: "skey \<Rightarrow> string srv" where
  "OpenStorage key = blob_open key"

definition bill_user :: "database \<Rightarrow> file_entry \<Rightarrow> uuid" where
  "bill_user d f = (case Option.bind (fe_drive f) (drive_of d) of None \<Rightarrow> fe_user f | Some r \<Rightarrow> d_owner r)"

definition parentContext :: "uuid \<Rightarrow> (uuid option \<times> uuid) srv" where
  "parentContext parent = map_err (no_rows (Msg ''parent folder not found''))
     (db_stmt (row (\<lambda>d. map_option (\<lambda>f. (fe_drive f, bill_user d f))
        (find (\<lambda>f. fe_id f = parent \<and> fe_kind f = Folder \<and> live f) (entries d)))))"

text \<open>The file that occupies a name in a folder.\<close>

definition child_file :: "uuid \<Rightarrow> string \<Rightarrow> world \<Rightarrow> file_entry option" where
  "child_file parent name w = find (\<lambda>f. fe_parent f = Some parent
     \<and> sql_lower w (fe_name f) = sql_lower w name \<and> live f \<and> fe_kind f = File) (entries (db w))"

definition FindChildFile :: "uuid \<Rightarrow> string \<Rightarrow> file_entry option srv" where
  "FindChildFile parent name =
     bnd (result (db_stmt (ask_row (child_file parent (sanitizeName name))))) (\<lambda>r. case r of
       Inl e \<Rightarrow> if e = NoRows then ret None else fail e
     | Inr f \<Rightarrow> ret (Some (f\<lparr>fe_key := NoKey\<rparr>)))"

text \<open>\<open>None\<close> as content stands for the error \<open>ErrIsFolder\<close>, with which the entry is returned.\<close>

definition Download :: "uuid \<Rightarrow> string \<Rightarrow> uuid \<Rightarrow> (file_entry \<times> string option) srv" where
  "Download user userRole i =
     bnd (Require user userRole i ActionView) (\<lambda>_.
     bnd (entryByID i) (\<lambda>e.
     if fe_kind e = Folder \<or> (case fe_key e of FolderKey _ \<Rightarrow> True | _ \<Rightarrow> False) then ret (e, None)
     else
       bnd (ignore (db_stmt (\<lambda>w. upd (update_entry i (\<lambda>f. f\<lparr>fe_opened := Some (clock w)\<rparr>)) w))) (\<lambda>_.
       bnd (blob_open (fe_key e)) (\<lambda>c. ret (e, Some c)))))"

section \<open>New entries\<close>

definition insert_file :: "uuid \<Rightarrow> uuid option \<Rightarrow> uuid option \<Rightarrow> string \<Rightarrow> kind \<Rightarrow> skey \<Rightarrow> int \<Rightarrow> string \<Rightarrow> file_entry srv" where
  "insert_file user drive parent name k key sz mime = tx_stmt (\<lambda>w.
     let e = entry_row (fresh w) user drive parent name k key sz mime (clock w)
     in case insert_entry (sql_lower w) e (db w) of
          None \<Rightarrow> Inl Constraint
        | Some d \<Rightarrow> Inr (e, w\<lparr>fresh := Suc (fresh w), db := d\<rparr>))"

definition CreateFolder :: "uuid \<Rightarrow> string \<Rightarrow> uuid \<Rightarrow> string \<Rightarrow> uuid option \<Rightarrow> file_entry srv" where
  "CreateFolder user userRole parent rawName device =
     (let name = sanitizeName rawName in
      bnd (require (name \<noteq> '''') (Msg ''folder name is required'')) (\<lambda>_.
      bnd (Require user userRole parent ActionEdit) (\<lambda>_.
      bnd (parentContext parent) (\<lambda>(drive, billUser).
      with_tx (
        bnd new_uuid (\<lambda>k.
        bnd (insert_file user drive (Some parent) name Folder (FolderKey k) 0 ''inode/directory'') (\<lambda>e.
        bnd (Append billUser (fe_id e) OpUpsert (fe_name e) (fe_parent e) (fe_kind e) (fe_size e) (fe_mime e)
               (fe_version e) (fe_hash e) device (fe_cmod e)) (\<lambda>_.
        ret e))))))))"

section \<open>Uploads in one request\<close>

definition quota_row :: "uuid \<Rightarrow> database \<Rightarrow> (int \<times> int) option" where
  "quota_row i d = map_option (\<lambda>u. (u_used u, u_quota u + u_bonus u)) (user_of d i)"

definition add_used :: "int \<Rightarrow> user_row \<Rightarrow> user_row" where
  "add_used n u = u\<lparr>u_used := u_used u + n\<rparr>"

definition default_mime :: "string \<Rightarrow> string" where
  "default_mime m = (if m = '''' then ''application/octet-stream'' else m)"

text \<open>The statement that gives an entry a new blob.\<close>

definition set_blob :: "uuid \<Rightarrow> skey \<Rightarrow> int \<Rightarrow> string \<Rightarrow> unit srv" where
  "set_blob i key sz mime = tx_stmt (\<lambda>w. try_upd (modify_entries (sql_lower w) (\<lambda>f. if fe_id f = i
     then f\<lparr>fe_key := key, fe_size := sz, fe_mime := mime, fe_version := fe_version f + 1, fe_updated := clock w\<rparr>
     else f)) w)"

fun insert_attempts :: "nat list \<Rightarrow> uuid \<Rightarrow> uuid option \<Rightarrow> uuid \<Rightarrow> uuid \<Rightarrow> string \<Rightarrow> skey \<Rightarrow> int \<Rightarrow> string
    \<Rightarrow> uuid option \<Rightarrow> string \<Rightarrow> file_entry srv" where
  "insert_attempts [] user drive parent billUser fileName key written mime device conflict = fail ErrDuplicateName"
| "insert_attempts (attempt # rest) user drive parent billUser fileName key written mime device conflict =
     (let name = (if attempt > 0 then nextUniqueName (sanitizeName fileName) (attempt + 1) else sanitizeName fileName) in
      bnd (result (tx_stmt (ask_row (child_file parent name)))) (\<lambda>r. case r of
        Inl e \<Rightarrow>
          if e = NoRows then
            bnd (insert_file user drive (Some parent) name File key written mime) (\<lambda>f.
            bnd (tx_stmt (upd (update_user billUser (add_used written)))) (\<lambda>_.
            bnd (Append billUser (fe_id f) OpUpsert (fe_name f) (fe_parent f) (fe_kind f) (fe_size f) (fe_mime f)
                   (fe_version f) (fe_hash f) device (fe_cmod f)) (\<lambda>_.
            ret f)))
          else fail e
      | Inr old \<Rightarrow>
          if conflict = ''overwrite'' then
            bnd (set_blob (fe_id old) key written mime) (\<lambda>_.
            bnd (tx_stmt (upd (update_user billUser (add_used (written - fe_size old))))) (\<lambda>_.
            bnd (ignore (blob_delete (fe_key old))) (\<lambda>_.
            bnd (tx_stmt (row (\<lambda>d. entry_of d (fe_id old)))) (\<lambda>f.
            bnd (Append billUser (fe_id f) OpUpsert (fe_name f) (fe_parent f) (fe_kind f) (fe_size f) (fe_mime f)
                   (fe_version f) (fe_hash f) device (fe_cmod f)) (\<lambda>_.
            ret f)))))
          else if conflict = ''rename'' then
            insert_attempts rest user drive parent billUser fileName key written mime device conflict
          else fail ErrDuplicateName))"

definition insertUploadedFile :: "uuid \<Rightarrow> uuid option \<Rightarrow> uuid \<Rightarrow> uuid \<Rightarrow> string \<Rightarrow> skey \<Rightarrow> int \<Rightarrow> string
    \<Rightarrow> uuid option \<Rightarrow> string \<Rightarrow> file_entry srv" where
  "insertUploadedFile user drive parent billUser fileName key written mime device rawConflict =
     bnd (require (sanitizeName fileName \<noteq> '''') (Msg ''file name is required'')) (\<lambda>_.
     insert_attempts [0..<30] user drive parent billUser fileName key written mime device
       (normalizeUploadConflict rawConflict))"

definition Upload :: "config \<Rightarrow> unit srv \<Rightarrow> uuid \<Rightarrow> string \<Rightarrow> uuid \<Rightarrow> uuid option \<Rightarrow> string \<Rightarrow> rd list
    \<Rightarrow> int \<Rightarrow> string \<Rightarrow> string \<Rightarrow> file_entry srv" where
  "Upload cfg pace user userRole parent device conflict file headerSize headerName contentType =
     bnd pace (\<lambda>_.
     bnd (Require user userRole parent ActionEdit) (\<lambda>_.
     bnd (parentContext parent) (\<lambda>(drive, billUser).
     bnd (require (headerSize \<le> MaxUploadBytes cfg) (Msg ''file exceeds max upload limit'')) (\<lambda>_.
     bnd (db_stmt (row (quota_row billUser))) (\<lambda>(billUsed, billQuota).
     bnd (require (billUsed + headerSize \<le> billQuota) (Msg ''quota exceeded'')) (\<lambda>_.
     let fileName = sanitizeName headerName in
     bnd (require (fileName \<noteq> '''') (Msg ''file name is required'')) (\<lambda>_.
     let mime = default_mime contentType in
     bnd (getw clock) (\<lambda>now.
     bnd new_uuid (\<lambda>i.
     let key = UserKey billUser (day_of now) i in
     bnd (blob_save key (limit_reader (MaxUploadBytes cfg + 1) file)) (\<lambda>written.
     if written > MaxUploadBytes cfg then
       bnd (ignore (blob_delete key)) (\<lambda>_. fail (Msg ''quota or size limit exceeded during upload''))
     else
       on_err (with_tx (
         bnd (tx_stmt (row (quota_row billUser))) (\<lambda>(freshUsed, quota).
         bnd (require (freshUsed + written \<le> quota) (Msg ''quota exceeded'')) (\<lambda>_.
         insertUploadedFile user drive parent billUser fileName key written mime device
           (normalizeUploadConflict conflict)))))
       (blob_delete key)))))))))))"

definition uploadStreamInner :: "uuid \<Rightarrow> uuid \<Rightarrow> uuid option \<Rightarrow> uuid \<Rightarrow> string \<Rightarrow> string \<Rightarrow> int \<Rightarrow> rd list
    \<Rightarrow> uuid option \<Rightarrow> unit srv" where
  "uploadStreamInner user billUser drive parent fileName mime sz src device =
     bnd (getw clock) (\<lambda>now.
     bnd new_uuid (\<lambda>i.
     let key = UserKey billUser (day_of now) i in
     bnd (blob_save key (limit_reader (sz + 1) src)) (\<lambda>written.
     if written \<noteq> sz then
       bnd (ignore (blob_delete key)) (\<lambda>_. fail (Msg ''stream size mismatch''))
     else
       with_tx_else (ignore (blob_delete key)) (
         bnd (on_err (tx_stmt (row (quota_row billUser))) (blob_delete key)) (\<lambda>(freshUsed, quota).
         bnd (on_err (require (freshUsed + written \<le> quota) (Msg ''quota exceeded'')) (blob_delete key)) (\<lambda>_.
         bnd (result (tx_stmt (ask_row (child_file parent fileName)))) (\<lambda>r. case r of
           Inr old \<Rightarrow>
             bnd (on_err (set_blob (fe_id old) key written mime) (blob_delete key)) (\<lambda>_.
             bnd (on_err (tx_stmt (upd (update_user billUser (add_used (written - fe_size old))))) (blob_delete key)) (\<lambda>_.
             bnd (ignore (blob_delete (fe_key old))) (\<lambda>_.
             bnd (result (tx_stmt (row (\<lambda>d. map_option fe_version (entry_of d (fe_id old)))))) (\<lambda>v.
             let ver = (case v of Inl _ \<Rightarrow> 1 | Inr n \<Rightarrow> n) in
             Append billUser (fe_id old) OpUpsert fileName (Some parent) File written mime ver '''' device None))))
         | Inl _ \<Rightarrow>
             bnd (on_err (insert_file user drive (Some parent) fileName File key written mime) (blob_delete key)) (\<lambda>f.
             bnd (on_err (tx_stmt (upd (update_user billUser (add_used written)))) (blob_delete key)) (\<lambda>_.
             ignore (Append billUser (fe_id f) OpUpsert fileName (Some parent) File written mime 1 '''' device None)))))))
       )))"

definition UploadBytes :: "config \<Rightarrow> uuid \<Rightarrow> string \<Rightarrow> uuid \<Rightarrow> string \<Rightarrow> string \<Rightarrow> string \<Rightarrow> uuid option \<Rightarrow> unit srv" where
  "UploadBytes cfg user userRole parent rawName rawMime bytes device =
     bnd (Require user userRole parent ActionEdit) (\<lambda>_.
     bnd (parentContext parent) (\<lambda>(drive, billUser).
     let sz = int (length bytes) in
     bnd (require (sz \<le> MaxUploadBytes cfg) (Msg ''file exceeds max upload limit'')) (\<lambda>_.
     let fileName = sanitizeName rawName in
     bnd (require (fileName \<noteq> '''') (Msg ''file name is required'')) (\<lambda>_.
     bnd (db_stmt (row (quota_row billUser))) (\<lambda>(billUsed, billQuota).
     bnd (require (billUsed + sz \<le> billQuota) (Msg ''quota exceeded'')) (\<lambda>_.
     uploadStreamInner user billUser drive parent fileName (default_mime rawMime) sz [Data bytes] device))))))"

definition UploadStream :: "config \<Rightarrow> uuid \<Rightarrow> string \<Rightarrow> uuid \<Rightarrow> string \<Rightarrow> string \<Rightarrow> int \<Rightarrow> rd list \<Rightarrow> uuid option \<Rightarrow> unit srv" where
  "UploadStream cfg user userRole parent rawName rawMime sz src device =
     bnd (Require user userRole parent ActionEdit) (\<lambda>_.
     bnd (parentContext parent) (\<lambda>(drive, billUser).
     bnd (require (0 \<le> sz \<and> sz \<le> MaxUploadBytes cfg) (Msg ''file exceeds max upload limit'')) (\<lambda>_.
     let fileName = sanitizeName rawName in
     bnd (require (fileName \<noteq> '''') (Msg ''file name is required'')) (\<lambda>_.
     bnd (db_stmt (row (quota_row billUser))) (\<lambda>(billUsed, billQuota).
     bnd (require (billUsed + sz \<le> billQuota) (Msg ''quota exceeded'')) (\<lambda>_.
     uploadStreamInner user billUser drive parent fileName (default_mime rawMime) sz src device))))))"

section \<open>Moving and renaming\<close>

definition is_drive_root :: "database \<Rightarrow> uuid \<Rightarrow> bool" where
  "is_drive_root d i \<longleftrightarrow> Some i \<in> d_root ` set (drives d)"

text \<open>
  \<open>update file_entries set ... where id = i and deleted_at is null and id not in (roots)
  returning ...\<close>.
\<close>

definition update_live :: "uuid \<Rightarrow> (int \<Rightarrow> file_entry \<Rightarrow> file_entry) \<Rightarrow> (database \<Rightarrow> bool) \<Rightarrow> file_entry srv" where
  "update_live i g fk = tx_stmt (\<lambda>w.
     case find (\<lambda>f. fe_id f = i \<and> live f \<and> \<not> is_drive_root (db w) i) (entries (db w)) of
       None \<Rightarrow> Inl NoRows
     | Some f \<Rightarrow>
         (case modify_entries (sql_lower w) (\<lambda>e. if fe_id e = i then g (clock w) e else e) (db w) of
            None \<Rightarrow> Inl Constraint
          | Some d \<Rightarrow> if fk (db w) then Inr (g (clock w) f, w\<lparr>db := d\<rparr>) else Inl Constraint))"

definition Move :: "uuid \<Rightarrow> string \<Rightarrow> uuid \<Rightarrow> uuid \<Rightarrow> uuid option \<Rightarrow> unit srv" where
  "Move user userRole i parent device =
     bnd (Require user userRole i ActionEdit) (\<lambda>_.
     bnd (Require user userRole parent ActionEdit) (\<lambda>_.
     bnd (db_stmt (query (\<lambda>d. case subtree live (entries d) (filter (\<lambda>f. fe_id f = i \<and> live f) (entries d)) of
         None \<Rightarrow> Inl Diverges
       | Some r \<Rightarrow> Inr (parent \<in> fe_id ` set r)))) (\<lambda>invalid.
     bnd (require (\<not> invalid) (Msg ''a folder cannot be moved into itself'')) (\<lambda>_.
     bnd (parentContext parent) (\<lambda>(drive, billUser).
     with_tx (
       bnd (map_err (no_rows (Msg ''file not found or root folder cannot be moved''))
         (update_live i (\<lambda>now f. f\<lparr>fe_parent := Some parent, fe_drive := drive, fe_version := fe_version f + 1,
             fe_updated := now\<rparr>) (\<lambda>d. entry_of d parent \<noteq> None))) (\<lambda>e.
       Append billUser (fe_id e) OpMove (fe_name e) (fe_parent e) (fe_kind e) (fe_size e) (fe_mime e)
         (fe_version e) (fe_hash e) device (fe_cmod e))))))))"

definition Rename :: "uuid \<Rightarrow> string \<Rightarrow> uuid \<Rightarrow> string \<Rightarrow> uuid option \<Rightarrow> unit srv" where
  "Rename user userRole i rawName device =
     (let name = sanitizeName rawName in
      bnd (require (name \<noteq> '''') (Msg ''name is required'')) (\<lambda>_.
      bnd (Require user userRole i ActionEdit) (\<lambda>_.
      with_tx (
        bnd (map_err (no_rows (Msg ''file not found or root folder cannot be renamed''))
          (update_live i (\<lambda>now f. f\<lparr>fe_name := name, fe_version := fe_version f + 1, fe_updated := now\<rparr>)
             (\<lambda>_. True))) (\<lambda>e.
        Append (fe_user e) (fe_id e) OpRename (fe_name e) (fe_parent e) (fe_kind e) (fe_size e) (fe_mime e)
          (fe_version e) (fe_hash e) device (fe_cmod e))))))"

section \<open>Trash\<close>

text \<open>A recursive query for the rows below \<open>start\<close>, in a transaction.\<close>

definition tx_subtree :: "(file_entry \<Rightarrow> bool) \<Rightarrow> (database \<Rightarrow> file_entry \<Rightarrow> bool) \<Rightarrow> file_entry list srv" where
  "tx_subtree P start = tx_stmt (query (\<lambda>d.
     case subtree P (entries d) (filter (start d) (entries d)) of None \<Rightarrow> Inl Diverges | Some r \<Rightarrow> Inr r))"

text \<open>\<open>update file_entries set deleted_at = ... where id in (recursive query)\<close>.\<close>

definition mark_subtree :: "(file_entry \<Rightarrow> bool) \<Rightarrow> (database \<Rightarrow> file_entry \<Rightarrow> bool) \<Rightarrow> (int \<Rightarrow> int option) \<Rightarrow> unit srv" where
  "mark_subtree P start stamp = tx_stmt (\<lambda>w.
     case subtree P (entries (db w)) (filter (start (db w)) (entries (db w))) of
       None \<Rightarrow> Inl Diverges
     | Some r \<Rightarrow> try_upd (modify_entries (sql_lower w) (\<lambda>f. if fe_id f \<in> fe_id ` set r
         then f\<lparr>fe_deleted := stamp (clock w), fe_version := fe_version f + 1, fe_updated := clock w\<rparr> else f)) w)"

definition log_targets :: "change_op \<Rightarrow> int \<Rightarrow> uuid option \<Rightarrow> file_entry list \<Rightarrow> unit srv" where
  "log_targets op inc device = each (\<lambda>t. Append (fe_user t) (fe_id t) op (fe_name t) (fe_parent t) (fe_kind t)
     (fe_size t) (fe_mime t) (fe_version t + inc) (fe_hash t) device None)"

definition trashed :: "file_entry \<Rightarrow> bool" where
  "trashed f \<longleftrightarrow> \<not> live f"

definition TrashEntry :: "uuid \<Rightarrow> string \<Rightarrow> uuid \<Rightarrow> uuid option \<Rightarrow> unit srv" where
  "TrashEntry user userRole i device =
     bnd (Require user userRole i ActionManage) (\<lambda>_.
     with_tx (
       bnd (tx_subtree live (\<lambda>d f. fe_id f = i \<and> live f \<and> \<not> is_drive_root d i)) (\<lambda>targets.
       bnd (require (targets \<noteq> []) (Msg ''file not found or root folder cannot be deleted'')) (\<lambda>_.
       bnd (mark_subtree live (\<lambda>_ f. fe_id f = i \<and> live f) Some) (\<lambda>_.
       log_targets OpTrash 1 device targets)))))"

definition ListTrash :: "uuid \<Rightarrow> file_entry list srv" where
  "ListTrash user = db_stmt (sel (\<lambda>d. rev (sort_key (\<lambda>f. case fe_deleted f of None \<Rightarrow> 0 | Some t \<Rightarrow> t)
     (filter (\<lambda>f. fe_user f = user \<and> trashed f) (entries d)))))"

definition parent_live :: "database \<Rightarrow> file_entry \<Rightarrow> bool" where
  "parent_live d f = (case fe_parent f of None \<Rightarrow> True
     | Some p \<Rightarrow> (\<exists>g \<in> set (entries d). fe_id g = p \<and> live g))"

definition user_role :: "uuid \<Rightarrow> string srv" where
  "user_role user = bnd (result (db_stmt (row (\<lambda>d. map_option u_role (user_of d user)))))
     (\<lambda>r. ret (case r of Inl _ \<Rightarrow> '''' | Inr role \<Rightarrow> role))"

definition Restore :: "uuid \<Rightarrow> string \<Rightarrow> uuid \<Rightarrow> uuid option \<Rightarrow> unit srv" where
  "Restore user callerRole i device =
     bnd (user_role user) (\<lambda>role.
     let userRole = (if callerRole = '''' then role else callerRole) in
     bnd (Require user userRole i ActionManage) (\<lambda>_.
     with_tx (
       bnd (tx_subtree trashed (\<lambda>d f. fe_id f = i \<and> trashed f \<and> parent_live d f)) (\<lambda>targets.
       bnd (require (targets \<noteq> []) (Msg ''file not found or parent is still trashed'')) (\<lambda>_.
       bnd (mark_subtree trashed (\<lambda>_ f. fe_id f = i \<and> trashed f) (\<lambda>_. None)) (\<lambda>_.
       log_targets OpRestore 1 device targets))))))"

definition purge_keys :: "file_entry list \<Rightarrow> skey list" where
  "purge_keys targets = map fe_key (filter (\<lambda>t. fe_kind t = File) targets)"

definition purge_bill :: "database \<Rightarrow> file_entry list \<Rightarrow> (uuid \<times> int) list" where
  "purge_bill d targets =
     (let fs = filter (\<lambda>t. fe_kind t = File) targets
      in map (\<lambda>u. (u, sum_list (map fe_size (filter (\<lambda>t. bill_user d t = u) fs))))
           (remdups (map (bill_user d) fs)))"

definition drop_used :: "int \<Rightarrow> user_row \<Rightarrow> user_row" where
  "drop_used n u = u\<lparr>u_used := max 0 (u_used u - n)\<rparr>"

definition Purge :: "uuid \<Rightarrow> uuid \<Rightarrow> uuid option \<Rightarrow> unit srv" where
  "Purge user i device =
     bnd (user_role user) (\<lambda>role.
     bnd (Require user role i ActionManage) (\<lambda>_.
     bnd (with_tx (
       bnd (tx_stmt (query (\<lambda>d. case subtree (\<lambda>_. True) (entries d)
           (filter (\<lambda>f. fe_id f = i \<and> trashed f) (entries d)) of
             None \<Rightarrow> Inl Diverges
           | Some r \<Rightarrow> Inr (r, purge_bill d r)))) (\<lambda>(targets, quota).
       bnd (require (targets \<noteq> []) (Msg ''trashed file not found'')) (\<lambda>_.
       let ids = map fe_id targets in
       bnd (tx_stmt (sel (\<lambda>d. map v_key (filter (\<lambda>v. v_entry v \<in> set ids) (versions d))))) (\<lambda>vkeys.
       bnd (log_targets OpPurge 0 device targets) (\<lambda>_.
       bnd (tx_stmt (upd (delete_entries ids))) (\<lambda>_.
       bnd (each (\<lambda>(owner, sz). tx_stmt (upd (update_user owner (drop_used sz)))) quota) (\<lambda>_.
       ret (purge_keys targets @ vkeys))))))))) (\<lambda>keys.
     DeleteUnreferenced keys)))"

definition CleanupTrash :: "int \<Rightarrow> unit srv" where
  "CleanupTrash retention =
     bnd (db_stmt (look (\<lambda>w. sort_key (\<lambda>f. the (fe_deleted f))
       (filter (\<lambda>f. (case fe_deleted f of None \<Rightarrow> False | Some t \<Rightarrow> t \<le> clock w - retention) \<and> parent_live (db w) f)
          (entries (db w)))))) (\<lambda>items.
     each (\<lambda>f. Purge (fe_user f) (fe_id f) None) items)"

end
