(* ===== verification/FilesInv.thy ===== *)
theory FilesInv
  imports Files
begin

text \<open>
  The invariant of the entry table that every operation of \<open>Files\<close> keeps, under any
  schedule of failures: the parents form a forest of folders, a live folder is in a live
  folder, the live names are unique, the ids have been generated.
\<close>

section \<open>The invariant\<close>

definition parents_ok :: "file_entry list \<Rightarrow> bool" where
  "parents_ok es \<longleftrightarrow> (\<forall>e \<in> set es. \<forall>p. fe_parent e = Some p \<longrightarrow>
     (\<exists>g \<in> set es. fe_id g = p \<and> fe_kind g = Folder \<and> (live e \<and> fe_kind e = Folder \<longrightarrow> live g)))"

definition entries_ok :: "(string \<Rightarrow> string) \<Rightarrow> uuid \<Rightarrow> file_entry list \<Rightarrow> bool" where
  "entries_ok low n es \<longleftrightarrow> forest es \<and> names_ok low es \<and> parents_ok es \<and> (\<forall>e \<in> set es. fe_id e < n)"

text \<open>
  \<open>kept P\<close>: the invariant, together with a fact \<open>P\<close> about the table that the operation
  relies on, is kept.
\<close>

definition kept :: "(file_entry list \<Rightarrow> bool) \<Rightarrow> world \<Rightarrow> world \<Rightarrow> bool" where
  "kept P w w' \<longleftrightarrow> sql_lower w' = sql_lower w \<and> fresh w \<le> fresh w'
     \<and> (entries_ok (sql_lower w) (fresh w) (entries (db w)) \<and> P (entries (db w))
          \<longrightarrow> entries_ok (sql_lower w') (fresh w') (entries (db w')) \<and> P (entries (db w')))"

abbreviation entries_kept :: "world \<Rightarrow> world \<Rightarrow> bool" where
  "entries_kept \<equiv> kept (\<lambda>_. True)"

lemma entries_ok_fresh: "entries_ok low n es \<Longrightarrow> n \<le> m \<Longrightarrow> entries_ok low m es"
  by (auto simp: entries_ok_def)

lemma preorder_kept [steps_intros]: "preorder (kept P)"
  by (rule preorderI) (auto simp: kept_def)

lemma kept_same:
  "sql_lower w' = sql_lower w \<Longrightarrow> fresh w \<le> fresh w' \<Longrightarrow> entries (db w') = entries (db w) \<Longrightarrow> kept P w w'"
  by (auto simp: kept_def intro: entries_ok_fresh)

lemma tx_rel_kept [steps_intros]: "tx_rel (kept P)"
  using preorder_kept [of P] by (auto simp: tx_rel_def intro!: kept_same) (auto simp: kept_def)

lemma kept_quiet: "quiet m \<Longrightarrow> steps (kept P) m"
  by (erule steps_weaken) (auto simp: used_faults_def intro: kept_same)

lemma kept_reads [steps_intros]:
  "steps (kept P) (db_stmt (query g))" "steps (kept P) (db_stmt (row g'))" "steps (kept P) (db_stmt (sel g''))"
  "steps (kept P) (db_stmt (ask a))" "steps (kept P) (db_stmt (ask_row a'))" "steps (kept P) (db_stmt (look a''))"
  "steps (kept P) (Require u r i act)"
  by (rule kept_quiet, rule steps_intros)+

lemma kept_only: "only K m \<Longrightarrow> steps (kept P) m"
  by (erule steps_weaken) (auto dest!: disk_step_world intro: kept_same)

lemma kept_blob [steps_intros]:
  "steps (kept P) (blob_save k src)" "steps (kept P) (blob_open k)" "steps (kept P) (blob_delete k)"
  "steps (kept P) (blob_size k)" "steps (kept P) (blob_ensure_empty k)" "steps (kept P) (blob_truncate k n)"
  "steps (kept P) (blob_append k off src)" "steps (kept P) (blob_finalize a k)"
  by (rule kept_only [of UNIV], rule steps_intros, simp?, simp?)+

lemma kept_tx_query [steps_intros]:
  "steps (kept P) (tx_stmt (query g))" "steps (kept P) (tx_stmt (row g'))" "steps (kept P) (tx_stmt (sel g''))"
  "steps (kept P) (tx_stmt (ask a))" "steps (kept P) (tx_stmt (ask_row a'))" "steps (kept P) (tx_stmt (look a''))"
  by (rule steps_tx_stmt [OF tx_rel_kept], auto simp: query_def row_def sel_def ask_def ask_row_def look_def
      kept_def split: sum.splits option.splits)+

lemma kept_upd [steps_intros]:
  assumes "\<And>d. entries (h d) = entries d"
  shows "steps (kept P) (tx_stmt (upd h))" "steps (kept P) (db_stmt (upd h))"
  using assms by (auto intro!: steps_tx_stmt [OF tx_rel_kept] steps_db_stmt [OF tx_rel_kept] kept_same)

lemma kept_uuid [steps_intros]: "steps (kept P) new_uuid"
  by (rule stepsI) (auto simp: new_uuid_def bnd_def getw_def modw_def ret_def intro: kept_same)

lemma kept_Append [steps_intros]: "steps (kept P) (Append u i op name p k sz m v h dv cm)"
  unfolding Append_def by (rule steps_tx_stmt [OF tx_rel_kept]) (auto simp: Let_def split: if_splits intro: kept_same)

lemma kept_gc [steps_intros]: "steps (kept P) (DeleteUnreferenced keys)"
proof -
  have "steps (kept P) (delete_loop seen keys)" for seen
    by (induction keys arbitrary: seen) (auto intro!: steps_intros simp: delete_unreferenced_key_def)
  then show ?thesis by (simp add: DeleteUnreferenced_def)
qed

lemma kept_wp: "(\<And>w. wp m (\<lambda>_. kept P w) (\<lambda>_. kept P w) w) \<Longrightarrow> steps (kept P) m"
  unfolding steps_def wp_def by (metis (no_types, lifting) case_prod_unfold sum.exhaust old.sum.simps(5,6))

text \<open>A fact that a guard has checked holds for the rest.\<close>

lemma kept_guard:
  assumes "quiet m" and "\<And>w x w'. m w = (Inr x, w') \<Longrightarrow> Q x (entries (db w'))" and "\<And>x. steps (kept (Q x)) (f x)"
  shows "steps entries_kept (bnd m f)"
proof (rule stepsI)
  fix w
  have m: "kept (\<lambda>_. True) w (snd (m w))" using kept_quiet [OF assms(1)] by (simp add: steps_def)
  have "kept (\<lambda>_. True) w (snd (f x w'))" if "m w = (Inr x, w')" for x w'
  proof -
    have "kept (Q x) w' (snd (f x w'))" using assms(3) by (simp add: steps_def)
    then show ?thesis using m that assms(2) [OF that] by (auto simp: kept_def)
  qed
  with m show "kept (\<lambda>_. True) w (snd (bnd m f w))"
    by (cases "m w") (auto simp: bnd_def split: sum.splits)
qed

section \<open>Changes of the table\<close>

lemma parent_rel_map:
  assumes "\<And>e. e \<in> set es \<Longrightarrow> fe_id (g e) = fe_id e \<and> fe_parent (g e) = fe_parent e"
  shows "parent_rel (map g es) = parent_rel es"
proof -
  have "{(fe_id e, p) |e p. e \<in> set (map g es) \<and> fe_parent e = Some p}
      = {(fe_id (g e), p) |e p. e \<in> set es \<and> fe_parent (g e) = Some p}" by auto
  also have "\<dots> = {(fe_id e, p) |e p. e \<in> set es \<and> fe_parent e = Some p}"
    using assms by (smt (verit, best) Collect_cong)
  finally show ?thesis by (simp add: parent_rel_def)
qed

lemma forest_map:
  assumes "\<And>e. e \<in> set es \<Longrightarrow> fe_id (g e) = fe_id e \<and> fe_parent (g e) = fe_parent e" and "forest es"
  shows "forest (map g es)"
proof -
  have "map fe_id (map g es) = map fe_id es" using assms(1) by simp
  with assms(2) parent_rel_map [OF assms(1)] show ?thesis unfolding forest_def by metis
qed

lemma entries_ok_map:
  assumes "entries_ok low n es" and "names_ok low (map g es)"
    and same: "\<And>e. e \<in> set es \<Longrightarrow> fe_id (g e) = fe_id e \<and> fe_parent (g e) = fe_parent e \<and> fe_kind (g e) = fe_kind e"
    and live: "\<And>e f. e \<in> set es \<Longrightarrow> f \<in> set es \<Longrightarrow> fe_parent e = Some (fe_id f) \<Longrightarrow> live (g e) \<Longrightarrow> fe_kind e = Folder
       \<Longrightarrow> fe_kind f = Folder \<Longrightarrow> (live e \<longrightarrow> live f) \<Longrightarrow> live (g f)"
  shows "entries_ok low n (map g es)"
proof -
  have "parents_ok (map g es)"
    unfolding parents_ok_def
  proof (intro ballI allI impI)
    fix e' p assume "e' \<in> set (map g es)" "fe_parent e' = Some p"
    then obtain e where e: "e \<in> set es" "e' = g e" "fe_parent e = Some p" using same by auto
    then obtain f where f: "f \<in> set es" "fe_id f = p" "fe_kind f = Folder" "live e \<and> fe_kind e = Folder \<longrightarrow> live f"
      using assms(1) unfolding entries_ok_def parents_ok_def by blast
    have "live (g e) \<and> fe_kind (g e) = Folder \<longrightarrow> live (g f)"
      using e f same live [OF e(1) f(1)] by auto
    with e f same show "\<exists>k \<in> set (map g es). fe_id k = p \<and> fe_kind k = Folder \<and> (live e' \<and> fe_kind e' = Folder \<longrightarrow> live k)"
      by auto
  qed
  moreover have "forest (map g es)" using assms(1) same by (auto simp: entries_ok_def intro: forest_map)
  moreover have "\<forall>e \<in> set (map g es). fe_id e < n" using assms(1) same by (auto simp: entries_ok_def)
  ultimately show ?thesis using assms(2) by (simp add: entries_ok_def)
qed

lemma entries_ok_insert:
  assumes "entries_ok low n es" and "names_ok low (es @ [e])" and "fe_id e = n"
    and par: "\<And>p. fe_parent e = Some p \<Longrightarrow>
       \<exists>g \<in> set es. fe_id g = p \<and> fe_kind g = Folder \<and> (live e \<and> fe_kind e = Folder \<longrightarrow> live g)"
  shows "entries_ok low (Suc n) (es @ [e])"
proof -
  have small: "x < n" if "(y, x) \<in> parent_rel es" for x y
    using that assms(1) by (fastforce simp: parent_rel_def entries_ok_def parents_ok_def)
  have "acyclic (parent_rel (es @ [e]))"
  proof (cases "fe_parent e")
    case None
    then have "parent_rel (es @ [e]) = parent_rel es" by (auto simp: parent_rel_def)
    with assms(1) show ?thesis by (simp add: entries_ok_def forest_def)
  next
    case (Some p)
    then have rel: "parent_rel (es @ [e]) = insert (n, p) (parent_rel es)" using assms(3) by (auto simp: parent_rel_def)
    have "p < n" using par [OF Some] assms(1) by (auto simp: entries_ok_def)
    moreover have "(p, n) \<in> (parent_rel es)\<^sup>* \<Longrightarrow> p = n \<or> n < n"
      by (erule rtranclE) (auto dest: small)
    ultimately have "(p, n) \<notin> (parent_rel es)\<^sup>*" by auto
    then show ?thesis using assms(1) unfolding rel by (simp add: acyclic_insert entries_ok_def forest_def)
  qed
  moreover have "distinct (map fe_id (es @ [e]))"
    using assms(1,3) by (auto simp: entries_ok_def forest_def)
  moreover have "parents_ok (es @ [e])"
    using assms(1) par unfolding entries_ok_def parents_ok_def by fastforce
  moreover have "\<forall>f \<in> set (es @ [e]). fe_id f < Suc n"
    using assms(1,3) by (auto simp: entries_ok_def less_Suc_eq)
  ultimately show ?thesis using assms(2) by (simp add: entries_ok_def forest_def)
qed

text \<open>A live folder reaches its ancestors through live folders only.\<close>

lemma live_path:
  assumes "parents_ok es" and "(a, i) \<in> (parent_rel es)\<^sup>*"
    and "e \<in> set es" and "fe_id e = a" and "live e" and "fe_kind e = Folder" and "distinct (map fe_id es)"
  shows "desc live es (filter (\<lambda>f. fe_id f = i \<and> live f) es) e"
  using assms(2-6)
proof (induction arbitrary: e rule: converse_rtrancl_induct)
  case base
  then show ?case by (intro desc.start) simp
next
  case (step a b)
  from step.hyps(1) obtain e' where e': "e' \<in> set es" "fe_id e' = a" "fe_parent e' = Some b"
    by (auto simp: parent_rel_def)
  with step.prems assms(7) have [simp]: "e' = e" by (simp add: distinct_map inj_on_def)
  obtain g where g: "g \<in> set es" "fe_id g = b" "fe_kind g = Folder" "live g"
    using assms(1) e' step.prems unfolding parents_ok_def by force
  have "desc live es (filter (\<lambda>f. fe_id f = i \<and> live f) es) g" by (rule step.IH) (use g in auto)
  then show ?case using step.prems e' g by (auto intro: desc.child)
qed

lemma entries_ok_move:
  assumes ok: "entries_ok low n es"
    and sub: "subtree live es (filter (\<lambda>f. fe_id f = i \<and> live f) es) = Some r" and out: "p \<notin> fe_id ` set r"
    and par: "g \<in> set es" "fe_id g = p" "fe_kind g = Folder" "live g"
    and names: "names_ok low (map h es)"
    and h: "\<And>e. fe_id (h e) = fe_id e \<and> fe_kind (h e) = fe_kind e \<and> live (h e) = live e
       \<and> fe_parent (h e) = (if fe_id e = i then Some p else fe_parent e)"
  shows "entries_ok low n (map h es)"
proof -
  have ok': "forest es" "parents_ok es" "distinct (map fe_id es)" using ok by (auto simp: entries_ok_def forest_def)
  have noway: "(p, i) \<notin> (parent_rel es)\<^sup>*"
  proof
    assume "(p, i) \<in> (parent_rel es)\<^sup>*"
    from live_path [OF ok'(2) this par(1,2,4,3) ok'(3)]
    have "g \<in> set r" using subtree_desc [OF sub] by simp
    with out par(2) show False by blast
  qed
  have rel: "parent_rel (map h es) \<subseteq> insert (i, p) (parent_rel es)"
    unfolding parent_rel_def using h by auto (metis option.inject)
  have "acyclic (insert (i, p) (parent_rel es))"
    using ok'(1) noway by (simp add: acyclic_insert forest_def)
  then have "acyclic (parent_rel (map h es))" using rel by (rule acyclic_subset)
  moreover have "map fe_id (map h es) = map fe_id es" using h by simp
  moreover have "parents_ok (map h es)"
    unfolding parents_ok_def
  proof (intro ballI allI impI)
    fix e' q assume a: "e' \<in> set (map h es)" "fe_parent e' = Some q"
    then obtain e where e: "e \<in> set es" "e' = h e" by auto
    show "\<exists>k \<in> set (map h es). fe_id k = q \<and> fe_kind k = Folder \<and> (live e' \<and> fe_kind e' = Folder \<longrightarrow> live k)"
    proof (cases "fe_id e = i")
      case True
      with a e h have "q = p" by simp
      with par h show ?thesis by (intro bexI [of _ "h g"]) auto
    next
      case False
      with a e h have "fe_parent e = Some q" by simp
      with e(1) ok'(2) obtain k where "k \<in> set es" "fe_id k = q" "fe_kind k = Folder" "live e \<and> fe_kind e = Folder \<longrightarrow> live k"
        unfolding parents_ok_def by blast
      with e h show ?thesis by (intro bexI [of _ "h k"]) auto
    qed
  qed
  moreover have "\<forall>e \<in> set (map h es). fe_id e < n" using ok h by (auto simp: entries_ok_def)
  ultimately show ?thesis using names ok'(3) unfolding entries_ok_def forest_def by metis
qed

section \<open>The statements\<close>

definition folder_at :: "uuid \<Rightarrow> file_entry list \<Rightarrow> bool" where
  "folder_at p es \<longleftrightarrow> (\<exists>g \<in> set es. fe_id g = p \<and> fe_kind g = Folder \<and> live g)"

lemma folder_at_map:
  "(\<And>e. e \<in> set es \<Longrightarrow> fe_id (g e) = fe_id e \<and> fe_kind (g e) = fe_kind e \<and> live (g e) = live e) \<Longrightarrow>
     folder_at p (map g es) = folder_at p es"
  by (auto simp: folder_at_def)

lemma kept_insert [steps_intros]:
  "steps (kept (folder_at p)) (insert_file u dr (Some p) name k key sz mime)"
  unfolding insert_file_def
proof (rule steps_tx_stmt [OF tx_rel_kept])
  fix w :: world and x w'
  let ?e = "entry_row (fresh w) u dr (Some p) name k key sz mime (clock w)"
  assume "(let e = ?e in case insert_entry (sql_lower w) e (db w) of
             None \<Rightarrow> Inl Constraint | Some d \<Rightarrow> Inr (e, w\<lparr>fresh := Suc (fresh w), db := d\<rparr>)) = Inr (x, w')"
  then have names: "names_ok (sql_lower w) (entries (db w) @ [?e])"
    and w': "w' = w\<lparr>fresh := Suc (fresh w), db := (db w)\<lparr>entries := entries (db w) @ [?e]\<rparr>\<rparr>"
    by (auto simp: Let_def insert_entry_def split: option.splits if_splits)
  have "entries_ok (sql_lower w) (Suc (fresh w)) (entries (db w) @ [?e])"
    if "entries_ok (sql_lower w) (fresh w) (entries (db w))" "folder_at p (entries (db w))"
    by (rule entries_ok_insert [OF that(1) names]) (use that(2) in \<open>auto simp: entry_row_def folder_at_def\<close>)
  then show "kept (folder_at p) w w'"
    by (auto simp: kept_def w' folder_at_def)
qed

text \<open>Changes that leave alone what the invariant and \<open>folder_at\<close> speak of, but for the names.\<close>

definition harmless :: "(file_entry \<Rightarrow> file_entry) \<Rightarrow> bool" where
  "harmless g \<longleftrightarrow> (\<forall>e. fe_id (g e) = fe_id e \<and> fe_parent (g e) = fe_parent e \<and> fe_kind (g e) = fe_kind e
     \<and> fe_deleted (g e) = fe_deleted e)"

lemma kept_harmless:
  assumes "harmless g" and "names_ok (sql_lower w) (map g (entries (db w)))"
    and "entries (db w') = map g (entries (db w))" "sql_lower w' = sql_lower w" "fresh w' = fresh w"
  shows "kept (\<lambda>_. True) w w'" "kept (folder_at p) w w'"
proof -
  have "entries_ok (sql_lower w) (fresh w) (map g (entries (db w)))" if "entries_ok (sql_lower w) (fresh w) (entries (db w))"
    by (rule entries_ok_map [OF that assms(2)]) (use assms(1) in \<open>auto simp: harmless_def live_def\<close>)
  moreover have "folder_at p (map g (entries (db w))) = folder_at p (entries (db w))"
    by (rule folder_at_map) (use assms(1) in \<open>auto simp: harmless_def live_def\<close>)
  ultimately show "kept (\<lambda>_. True) w w'" "kept (folder_at p) w w'" using assms(3-5) by (simp_all add: kept_def)
qed

lemma kept_modify:
  assumes "\<And>w. harmless (g w)"
  shows "steps (kept (folder_at p)) (tx_stmt (\<lambda>w. try_upd (modify_entries (sql_lower w) (g w)) w))"
    and "steps entries_kept (tx_stmt (\<lambda>w. try_upd (modify_entries (sql_lower w) (g w)) w))"
proof -
  have "names_ok (sql_lower w) (map (g w) (entries (db w))) \<and> entries (db w') = map (g w) (entries (db w))
      \<and> sql_lower w' = sql_lower w \<and> fresh w' = fresh w"
    if "try_upd (modify_entries (sql_lower w) (g w)) w = Inr (x, w')" for w x w'
    using that by (auto simp: try_upd_def modify_entries_def Let_def split: if_splits)
  then show "steps (kept (folder_at p)) (tx_stmt (\<lambda>w. try_upd (modify_entries (sql_lower w) (g w)) w))"
    and "steps entries_kept (tx_stmt (\<lambda>w. try_upd (modify_entries (sql_lower w) (g w)) w))"
    by (rule_tac [!] steps_tx_stmt [OF tx_rel_kept]) (metis assms kept_harmless)+
qed

lemma kept_set_blob [steps_intros]:
  "steps (kept (folder_at p)) (set_blob i key sz mime)" "steps entries_kept (set_blob i key sz mime)"
  unfolding set_blob_def by (rule kept_modify; simp add: harmless_def)+

lemma guard_parentContext: "parentContext p w = (Inr x, w') \<Longrightarrow> folder_at p (entries (db w'))"
  by (auto simp: parentContext_def map_err_def db_stmt_def row_def folder_at_def split: if_splits option.splits sum.splits
      prod.splits dest!: find_set)

lemma quiet_parentContext: "quiet (parentContext p)"
  unfolding parentContext_def by (intro steps_intros)

lemma kept_after_parentContext [steps_intros]:
  "(\<And>x. steps (kept (folder_at p)) (f x)) \<Longrightarrow> steps entries_kept (bnd (parentContext p) f)"
  using kept_guard [of "parentContext p" "\<lambda>_. folder_at p" f] guard_parentContext quiet_parentContext by blast

section \<open>The operations\<close>

lemma kept_CreateFolder: "steps entries_kept (CreateFolder u r p name dv)"
  unfolding CreateFolder_def by (auto intro!: steps_intros)

lemma kept_insert_attempts [steps_intros]:
  "steps (kept (folder_at p)) (insert_attempts ns u dr p bu name key sz mime dv c)"
  by (induction ns) (auto intro!: steps_intros simp: update_user_def simp del: upt_Suc)

lemma kept_getw_bnd: "(\<And>x. steps R (f x)) \<Longrightarrow> preorder R \<Longrightarrow> steps R (bnd (getw g) f)"
  by (intro steps_intros)

lemma kept_Upload: "quiet pace \<Longrightarrow> steps entries_kept (Upload cfg pace u r p dv c file hs hn ct)"
  unfolding Upload_def insertUploadedFile_def by (auto intro!: steps_intros kept_quiet [of pace])

lemma kept_stream [steps_intros]: "steps (kept (folder_at p)) (uploadStreamInner u bu dr p name mime sz src dv)"
  unfolding uploadStreamInner_def by (auto intro!: steps_intros simp: update_user_def)

lemma kept_UploadBytes: "steps entries_kept (UploadBytes cfg u r p name mime bs dv)"
  unfolding UploadBytes_def by (auto intro!: steps_intros)

lemma kept_UploadStream: "steps entries_kept (UploadStream cfg u r p name mime sz src dv)"
  unfolding UploadStream_def by (auto intro!: steps_intros)

lemma kept_update_live:
  assumes "\<And>now. harmless (g now)"
  shows "steps entries_kept (update_live i g fk)"
  unfolding update_live_def
proof (rule steps_tx_stmt [OF tx_rel_kept])
  fix w :: world and x w'
  assume "(case find (\<lambda>f. fe_id f = i \<and> live f \<and> \<not> is_drive_root (db w) i) (entries (db w)) of
       None \<Rightarrow> Inl NoRows
     | Some f \<Rightarrow> (case modify_entries (sql_lower w) (\<lambda>e. if fe_id e = i then g (clock w) e else e) (db w) of
            None \<Rightarrow> Inl Constraint
          | Some d \<Rightarrow> if fk (db w) then Inr (g (clock w) f, w\<lparr>db := d\<rparr>) else Inl Constraint)) = Inr (x, w')"
  then have "names_ok (sql_lower w) (map (\<lambda>e. if fe_id e = i then g (clock w) e else e) (entries (db w)))
     \<and> entries (db w') = map (\<lambda>e. if fe_id e = i then g (clock w) e else e) (entries (db w))
     \<and> sql_lower w' = sql_lower w \<and> fresh w' = fresh w"
    by (auto simp: modify_entries_def Let_def split: option.splits if_splits)
  moreover have "harmless (\<lambda>e. if fe_id e = i then g (clock w) e else e)"
    using assms by (simp add: harmless_def)
  ultimately show "entries_kept w w'" using kept_harmless(1) by blast
qed

lemma kept_Rename: "steps entries_kept (Rename u r i name dv)"
  unfolding Rename_def by (auto intro!: steps_intros kept_update_live simp: harmless_def)

lemma kept_log [steps_intros]: "steps (kept P) (log_targets op k dv ts)"
  unfolding log_targets_def by (intro steps_intros)

text \<open>The same with a fact that the operation relies on but may destroy.\<close>

definition kept_if :: "(file_entry list \<Rightarrow> bool) \<Rightarrow> world \<Rightarrow> world \<Rightarrow> bool" where
  "kept_if P w w' \<longleftrightarrow> sql_lower w' = sql_lower w \<and> fresh w \<le> fresh w'
     \<and> (entries_ok (sql_lower w) (fresh w) (entries (db w)) \<and> P (entries (db w))
          \<longrightarrow> entries_ok (sql_lower w') (fresh w') (entries (db w')))"

lemma kept_if_True: "kept_if (\<lambda>_. True) = entries_kept"
  by (auto simp: kept_if_def kept_def fun_eq_iff)

lemma kept_if_weaken: "steps (kept P) m \<Longrightarrow> steps (kept_if P) m"
  by (erule steps_weaken) (auto simp: kept_def kept_if_def)

lemma kept_if_guard:
  assumes "steps (kept P) m" and "\<And>w x w'. m w = (Inr x, w') \<Longrightarrow> Q x (entries (db w'))"
    and "\<And>x. steps (kept_if (\<lambda>es. P es \<and> Q x es)) (f x)"
  shows "steps (kept_if P) (bnd m f)"
proof (rule stepsI)
  fix w
  have m: "kept P w (snd (m w))" using assms(1) by (simp add: steps_def)
  have "kept_if P w (snd (f x w'))" if "m w = (Inr x, w')" for x w'
  proof -
    have "kept_if (\<lambda>es. P es \<and> Q x es) w' (snd (f x w'))" using assms(3) by (simp add: steps_def)
    then show ?thesis using m that assms(2) [OF that] by (auto simp: kept_def kept_if_def)
  qed
  moreover have "kept_if P w (snd (m w))" using m by (auto simp: kept_def kept_if_def)
  ultimately show "kept_if P w (snd (bnd m f w))"
    by (cases "m w") (auto simp: bnd_def split: sum.splits)
qed

lemma kept_if_bnd:
  assumes "steps (kept_if P) m" and "\<And>x. steps entries_kept (f x)"
  shows "steps (kept_if P) (bnd m f)"
proof (rule stepsI)
  fix w
  have m: "kept_if P w (snd (m w))" using assms(1) by (simp add: steps_def)
  have "kept_if P w (snd (f x w'))" if "m w = (Inr x, w')" for x w'
  proof -
    have "entries_kept w' (snd (f x w'))" using assms(2) by (simp add: steps_def)
    then show ?thesis using m that by (auto simp: kept_def kept_if_def)
  qed
  with m show "kept_if P w (snd (bnd m f w))"
    by (cases "m w") (auto simp: bnd_def split: sum.splits)
qed

lemma kept_if_with_tx:
  assumes "steps (kept_if P) body"
  shows "steps (kept_if P) (with_tx body)"
proof (rule stepsI)
  fix w :: world
  have "kept_if P ((pop w)\<lparr>aborted := False\<rparr>) (snd (body ((pop w)\<lparr>aborted := False\<rparr>)))"
    using assms by (simp add: steps_def)
  then show "kept_if P w (snd (with_tx body w))"
    by (cases "body ((pop w)\<lparr>aborted := False\<rparr>)")
       (auto simp: kept_if_def with_tx_def split: sum.splits intro: entries_ok_fresh)
qed

lemma kept_if_tx_stmt:
  assumes "\<And>w x w'. f w = Inr (x, w') \<Longrightarrow> kept_if P w w'"
  shows "steps (kept_if P) (tx_stmt f)"
proof (rule stepsI)
  fix w
  have "kept_if P w w'" if "f (pop w) = Inr (x, w')" for x w'
    using assms [OF that] by (auto simp: kept_if_def)
  then show "kept_if P w (snd (tx_stmt f w))"
    by (auto simp: tx_stmt_def split: sum.splits) (simp_all add: kept_if_def)
qed

text \<open>Marking a subtree: trashing takes live children along, restoring needs a live parent.\<close>

lemma same_entry: "distinct (map fe_id es) \<Longrightarrow> e \<in> set es \<Longrightarrow> f \<in> set es \<Longrightarrow> fe_id e = fe_id f \<Longrightarrow> e = f"
  by (simp add: distinct_map inj_on_def)

lemma id_mem:
  assumes "distinct (map fe_id es)" and "set r \<subseteq> set es" and "e \<in> set es"
  shows "fe_id e \<in> fe_id ` set r \<longleftrightarrow> e \<in> set r"
proof
  assume "fe_id e \<in> fe_id ` set r"
  then obtain x where x: "x \<in> set r" "fe_id e = fe_id x" by blast
  with assms(2) have "x \<in> set es" by blast
  with x assms show "e \<in> set r" using same_entry by blast
qed blast

lemma kept_mark:
  assumes "\<And>d r e f t. \<lbrakk>P (entries d); parents_ok (entries d); distinct (map fe_id (entries d));
      \<And>x. x \<in> set r \<longleftrightarrow> desc Q (entries d) (filter (start d) (entries d)) x;
      e \<in> set (entries d); f \<in> set (entries d); fe_parent e = Some (fe_id f); fe_kind e = Folder;
      live e \<longrightarrow> live f; if e \<in> set r then stamp t = None else live e\<rbrakk>
      \<Longrightarrow> if f \<in> set r then stamp t = None else live f"
  shows "steps (kept_if P) (mark_subtree Q start stamp)"
  unfolding mark_subtree_def
proof (rule kept_if_tx_stmt)
  fix w :: world and x w'
  let ?d = "db w" and ?es = "entries (db w)"
  let ?g = "\<lambda>(r :: file_entry list) (f :: file_entry). if fe_id f \<in> fe_id ` set r then f\<lparr>fe_deleted := stamp (clock w), fe_version := fe_version f + 1,
     fe_updated := clock w\<rparr> else f"
  have good: "entries_ok (sql_lower w) (fresh w) (map (?g r) ?es)"
    if ok: "entries_ok (sql_lower w) (fresh w) ?es" and P: "P ?es"
      and r: "subtree Q ?es (filter (start ?d) ?es) = Some r" and names: "names_ok (sql_lower w) (map (?g r) ?es)" for r
  proof (rule entries_ok_map [OF ok names])
    have dist: "distinct (map fe_id ?es)" and par: "parents_ok ?es" using ok by (auto simp: entries_ok_def forest_def)
    note desc = subtree_desc [OF r]
    have sub: "set r \<subseteq> set ?es" using desc desc_in [of Q ?es "filter (start ?d) ?es"] by auto
    have mem: "fe_id e \<in> fe_id ` set r \<longleftrightarrow> e \<in> set r" if "e \<in> set ?es" for e
      by (rule id_mem [OF dist sub that])
    fix e f assume a: "e \<in> set ?es" "f \<in> set ?es" "fe_parent e = Some (fe_id f)" "live (?g r e)" "fe_kind e = Folder"
      "fe_kind f = Folder" "live e \<longrightarrow> live f"
    have "if e \<in> set r then stamp (clock w) = None else live e"
      using a(4) mem [OF a(1)] by (auto simp: live_def split: if_splits)
    from assms [OF P par dist desc a(1,2,3,5,7) this]
    show "live (?g r f)" using mem [OF a(2)] by (auto simp: live_def)
  qed auto
  assume "(case subtree Q ?es (filter (start ?d) ?es) of
       None \<Rightarrow> Inl Diverges
     | Some r \<Rightarrow> try_upd (modify_entries (sql_lower w) (?g r)) w) = Inr (x, w')"
  then obtain r where r: "subtree Q ?es (filter (start ?d) ?es) = Some r"
    and t: "try_upd (modify_entries (sql_lower w) (?g r)) w = Inr (x, w')"
    by (cases "subtree Q ?es (filter (start ?d) ?es)") simp_all
  from t have names: "names_ok (sql_lower w) (map (?g r) ?es)"
    and w': "w' = w\<lparr>db := ?d\<lparr>entries := map (?g r) ?es\<rparr>\<rparr>"
    unfolding try_upd_def modify_entries_def Let_def by (simp_all split: if_split_asm)
  show "kept_if P w w'"
    using good [OF _ _ r names] by (simp add: kept_if_def w')
qed

lemma kept_if_mono: "steps (kept_if P) m \<Longrightarrow> (\<And>es. P' es \<Longrightarrow> P es) \<Longrightarrow> steps (kept_if P') m"
  by (erule steps_weaken) (auto simp: kept_if_def)

lemma kept_if_require:
  assumes "b \<Longrightarrow> steps (kept_if P) (f ())"
  shows "steps (kept_if P) (bnd (require b e) f)"
proof (cases b)
  case True
  then show ?thesis using assms by (simp add: require_def bnd_def ret_def)
next
  case False
  then show ?thesis by (simp add: require_def bnd_def fail_def steps_def kept_if_def)
qed

lemma kept_TrashEntry: "steps entries_kept (TrashEntry u r i dv)"
proof -
  have "steps (kept_if (\<lambda>_. True)) (mark_subtree live (\<lambda>_ f. fe_id f = i \<and> live f) Some)"
    by (rule kept_mark) (auto split: if_splits intro: desc.child)
  then show ?thesis unfolding TrashEntry_def tx_subtree_def kept_if_True by (intro steps_intros)
qed

definition restorable :: "uuid \<Rightarrow> file_entry list \<Rightarrow> bool" where
  "restorable i es \<longleftrightarrow> (\<exists>g \<in> set es. fe_id g = i \<and> trashed g
     \<and> (\<forall>p. fe_parent g = Some p \<longrightarrow> (\<exists>h \<in> set es. fe_id h = p \<and> live h)))"

lemma kept_mark_restore:
  "steps (kept_if (restorable i)) (mark_subtree trashed (\<lambda>_ f. fe_id f = i \<and> trashed f) (\<lambda>_. None))"
proof (rule kept_mark)
  fix d r e f and t :: int
  assume res: "restorable i (entries d)" and dist: "distinct (map fe_id (entries d))"
    and r: "\<And>x. x \<in> set r \<longleftrightarrow> desc trashed (entries d) (filter (\<lambda>f. fe_id f = i \<and> trashed f) (entries d)) x"
    and ef: "e \<in> set (entries d)" "f \<in> set (entries d)" "fe_parent e = Some (fe_id f)" "live e \<longrightarrow> live f"
    and e: "if e \<in> set r then None = (None :: int option) else live e"
  have "f \<in> set r \<or> live f"
  proof (cases "live e")
    case True
    with ef show ?thesis by simp
  next
    case False
    with e have "desc trashed (entries d) (filter (\<lambda>f. fe_id f = i \<and> trashed f) (entries d)) e"
      using r by (simp split: if_splits)
    then show ?thesis
    proof (cases rule: desc.cases)
      case start
      then have "fe_id e = i" by simp
      obtain g where g: "g \<in> set (entries d)" "fe_id g = i"
        "\<forall>p. fe_parent g = Some p \<longrightarrow> (\<exists>h \<in> set (entries d). fe_id h = p \<and> live h)"
        using res by (auto simp: restorable_def)
      with \<open>fe_id e = i\<close> ef(1) have "g = e" by (intro same_entry [OF dist]) simp_all
      with g ef(3) obtain h where "h \<in> set (entries d)" "fe_id h = fe_id f" "live h" by blast
      then have "h = f" using ef(2) by (intro same_entry [OF dist]) simp_all
      with \<open>live h\<close> show ?thesis by simp
    next
      case (child t)
      then have "t \<in> set (entries d)" by (auto dest: desc_in)
      with child ef have "t = f" by (intro same_entry [OF dist]) simp_all
      with child r show ?thesis by simp
    qed
  qed
  then show "if f \<in> set r then None = (None :: int option) else live f" by auto
qed

lemma guard_restore:
  assumes "tx_subtree trashed (\<lambda>d f. fe_id f = i \<and> trashed f \<and> parent_live d f) w = (Inr r, w')"
  shows "r \<noteq> [] \<longrightarrow> restorable i (entries (db w'))"
proof
  assume ne: "r \<noteq> []"
  have sub: "subtree trashed (entries (db w)) (filter (\<lambda>f. fe_id f = i \<and> trashed f \<and> parent_live (db w) f) (entries (db w)))
      = Some r" and d: "db w' = db w"
    using assms by (auto simp: tx_subtree_def tx_stmt_def query_def split: if_splits option.splits)
  have "filter (\<lambda>f. fe_id f = i \<and> trashed f \<and> parent_live (db w) f) (entries (db w)) \<noteq> []"
    using sub ne by (auto simp: subtree_def simp del: filter_empty_conv)
  then obtain g where "g \<in> set (entries (db w))" "fe_id g = i" "trashed g" "parent_live (db w) g"
    by (auto simp: filter_empty_conv)
  then show "restorable i (entries (db w'))"
    by (auto simp: restorable_def parent_live_def d)
qed

lemma kept_Restore: "steps entries_kept (Restore u r i dv)"
proof -
  have "steps (kept_if (\<lambda>_. True))
      (bnd (tx_subtree trashed (\<lambda>d f. fe_id f = i \<and> trashed f \<and> parent_live d f)) (\<lambda>targets.
       bnd (require (targets \<noteq> []) (Msg ''file not found or parent is still trashed'')) (\<lambda>_.
       bnd (mark_subtree trashed (\<lambda>_ f. fe_id f = i \<and> trashed f) (\<lambda>_. None)) (\<lambda>_.
       log_targets OpRestore 1 dv targets))))"
  proof (rule kept_if_guard)
    show "steps entries_kept (tx_subtree trashed (\<lambda>d f. fe_id f = i \<and> trashed f \<and> parent_live d f))"
      unfolding tx_subtree_def by (intro steps_intros)
    show "targets \<noteq> [] \<longrightarrow> restorable i (entries (db w'))"
      if "tx_subtree trashed (\<lambda>d f. fe_id f = i \<and> trashed f \<and> parent_live d f) w = (Inr targets, w')" for w targets w'
      using that by (rule guard_restore)
    show "steps (kept_if (\<lambda>es. True \<and> (targets \<noteq> [] \<longrightarrow> restorable i es)))
        (bnd (require (targets \<noteq> []) (Msg ''file not found or parent is still trashed'')) (\<lambda>_.
         bnd (mark_subtree trashed (\<lambda>_ f. fe_id f = i \<and> trashed f) (\<lambda>_. None)) (\<lambda>_.
         log_targets OpRestore 1 dv targets)))" for targets
      by (rule kept_if_require, rule kept_if_mono, rule kept_if_bnd [OF kept_mark_restore], rule kept_log) simp
  qed
  note body = this
  show ?thesis
    unfolding Restore_def Let_def
    by (rule steps_bnd [OF preorder_kept], simp add: user_role_def, (intro steps_intros)[1],
        rule steps_bnd [OF preorder_kept], rule kept_reads,
        rule steps_with_tx [OF tx_rel_kept], rule body [unfolded kept_if_True])
qed

text \<open>Deleting a set of entries that is closed under children.\<close>

definition closed_down :: "uuid set \<Rightarrow> file_entry list \<Rightarrow> bool" where
  "closed_down S es \<longleftrightarrow> (\<forall>e \<in> set es. \<forall>p \<in> S. fe_parent e = Some p \<longrightarrow> fe_id e \<in> S)"

lemma delete_closed:
  assumes "closed_down (set ids) (entries d)"
  shows "entries (delete_entries ids d) = filter (\<lambda>e. fe_id e \<notin> set ids) (entries d)"
proof -
  have "e\<lparr>fe_parent := (case fe_parent e of None \<Rightarrow> None | Some i \<Rightarrow> if i \<in> set ids then None else Some i)\<rparr> = e"
    if "e \<in> set (filter (\<lambda>e. fe_id e \<notin> set ids) (entries d))" for e
  proof -
    have "\<And>i. fe_parent e = Some i \<Longrightarrow> i \<notin> set ids" using that assms unfolding closed_down_def by auto
    then have "(case fe_parent e of None \<Rightarrow> None | Some i \<Rightarrow> if i \<in> set ids then None else Some i) = fe_parent e"
      by (cases "fe_parent e") auto
    then show ?thesis by simp
  qed
  then have "map (\<lambda>e. e\<lparr>fe_parent := (case fe_parent e of None \<Rightarrow> None | Some i \<Rightarrow> if i \<in> set ids then None else Some i)\<rparr>)
      (filter (\<lambda>e. fe_id e \<notin> set ids) (entries d)) = filter (\<lambda>e. fe_id e \<notin> set ids) (entries d)"
    by (rule map_idI)
  then show ?thesis unfolding delete_entries_def Let_def by simp
qed

lemma entries_ok_delete:
  assumes ok: "entries_ok low n (entries d)" and closed: "closed_down (set ids) (entries d)"
  shows "entries_ok low n (entries (delete_entries ids d))"
  unfolding delete_closed [OF closed] entries_ok_def
proof (intro conjI)
  let ?es = "filter (\<lambda>e. fe_id e \<notin> set ids) (entries d)"
  have "parent_rel ?es \<subseteq> parent_rel (entries d)" by (auto simp: parent_rel_def)
  then show "forest ?es" using ok
    by (auto simp: entries_ok_def forest_def distinct_map_filter intro: acyclic_subset)
  have "filter live ?es = filter (\<lambda>e. fe_id e \<notin> set ids) (filter live (entries d))"
    by (simp add: conj_commute)
  then have "distinct (live_names low ?es)" using ok
    unfolding live_names_def by (simp only:) (simp add: entries_ok_def names_ok_def live_names_def distinct_map_filter del: filter_filter)
  then show "names_ok low ?es" using ok by (simp add: entries_ok_def names_ok_def)
  show "parents_ok ?es"
    unfolding parents_ok_def
  proof (intro ballI allI impI)
    fix e p assume e: "e \<in> set ?es" "fe_parent e = Some p"
    then have "p \<notin> set ids" using closed by (auto simp: closed_down_def)
    moreover obtain g where "g \<in> set (entries d)" "fe_id g = p" "fe_kind g = Folder" "live e \<and> fe_kind e = Folder \<longrightarrow> live g"
      using ok e unfolding entries_ok_def parents_ok_def by auto
    ultimately show "\<exists>g \<in> set ?es. fe_id g = p \<and> fe_kind g = Folder \<and> (live e \<and> fe_kind e = Folder \<longrightarrow> live g)"
      by auto
  qed
  show "\<forall>e \<in> set ?es. fe_id e < n" using ok by (simp add: entries_ok_def)
qed

lemma subtree_closed:
  assumes "subtree (\<lambda>_. True) es start = Some r"
  shows "closed_down (fe_id ` set r) es"
  unfolding closed_down_def
proof (intro ballI impI)
  fix e p assume e: "e \<in> set es" "p \<in> fe_id ` set r" "fe_parent e = Some p"
  then obtain t where "t \<in> set r" "p = fe_id t" by blast
  then have "desc (\<lambda>_. True) es start e"
    using e subtree_desc [OF assms] by (auto intro: desc.child)
  then show "fe_id e \<in> fe_id ` set r" using subtree_desc [OF assms] by simp
qed

lemma kept_if_delete: "steps (kept_if (closed_down (set ids))) (tx_stmt (upd (delete_entries ids)))"
  by (rule kept_if_tx_stmt) (auto simp: kept_if_def entries_ok_delete)

definition purge_query :: "uuid \<Rightarrow> (file_entry list \<times> (uuid \<times> int) list) srv" where
  "purge_query i = tx_stmt (query (\<lambda>d. case subtree (\<lambda>_. True) (entries d)
      (filter (\<lambda>f. fe_id f = i \<and> trashed f) (entries d)) of
        None \<Rightarrow> Inl Diverges
      | Some r \<Rightarrow> Inr (r, purge_bill d r)))"

lemma guard_purge: "purge_query i w = (Inr (r, q), w') \<Longrightarrow> closed_down (set (map fe_id r)) (entries (db w'))"
  by (auto simp: purge_query_def tx_stmt_def query_def split: if_splits option.splits dest: subtree_closed)

lemma kept_purge_tx: "steps (kept_if (\<lambda>_. True)) (bnd (purge_query i) (\<lambda>(targets, quota).
       bnd (require (targets \<noteq> []) (Msg ''trashed file not found'')) (\<lambda>_.
       let ids = map fe_id targets in
       bnd (tx_stmt (sel (\<lambda>d. map v_key (filter (\<lambda>v. v_entry v \<in> set ids) (versions d))))) (\<lambda>vkeys.
       bnd (log_targets OpPurge 0 dv targets) (\<lambda>_.
       bnd (tx_stmt (upd (delete_entries ids))) (\<lambda>_.
       bnd (each (\<lambda>(owner, sz). tx_stmt (upd (update_user owner (drop_used sz)))) quota) (\<lambda>_.
       ret (purge_keys targets @ vkeys))))))))"
proof (rule kept_if_guard [where Q = "\<lambda>x es. closed_down (set (map fe_id (fst x))) es"])
  show "steps entries_kept (purge_query i)" unfolding purge_query_def by (intro steps_intros)
  show "closed_down (set (map fe_id (fst x))) (entries (db w'))" if "purge_query i w = (Inr x, w')" for w x w'
    using that guard_purge by (cases x) auto
  fix x :: "file_entry list \<times> (uuid \<times> int) list"
  obtain targets quota where x: "x = (targets, quota)" by (cases x)
  let ?P = "closed_down (set (map fe_id targets))"
  have "steps (kept_if ?P) (bnd (tx_stmt (upd (delete_entries (map fe_id targets)))) (\<lambda>_.
       bnd (each (\<lambda>(owner, sz). tx_stmt (upd (update_user owner (drop_used sz)))) quota) (\<lambda>_.
       ret (purge_keys targets @ vkeys))))" for vkeys
    by (rule kept_if_bnd [OF kept_if_delete]) (auto intro!: steps_intros simp: update_user_def)
  then have log: "steps (kept_if ?P) (bnd (log_targets OpPurge 0 dv targets) (\<lambda>_.
       bnd (tx_stmt (upd (delete_entries (map fe_id targets)))) (\<lambda>_.
       bnd (each (\<lambda>(owner, sz). tx_stmt (upd (update_user owner (drop_used sz)))) quota) (\<lambda>_.
       ret (purge_keys targets @ vkeys)))))" for vkeys
    by (rule_tac kept_if_guard [where Q = "\<lambda>_ _. True", OF kept_log]) simp_all
  have "steps (kept_if ?P) (bnd (tx_stmt (sel (\<lambda>d. map v_key (filter (\<lambda>v. v_entry v \<in> set (map fe_id targets)) (versions d)))))
     (\<lambda>vkeys. bnd (log_targets OpPurge 0 dv targets) (\<lambda>_.
       bnd (tx_stmt (upd (delete_entries (map fe_id targets)))) (\<lambda>_.
       bnd (each (\<lambda>(owner, sz). tx_stmt (upd (update_user owner (drop_used sz)))) quota) (\<lambda>_.
       ret (purge_keys targets @ vkeys))))))"
    by (rule kept_if_guard [where Q = "\<lambda>_ _. True", OF kept_tx_query(3)]) (use log in simp_all)
  then show "steps (kept_if (\<lambda>es. True \<and> closed_down (set (map fe_id (fst x))) es)) (case x of (targets, quota) \<Rightarrow>
       bnd (require (targets \<noteq> []) (Msg ''trashed file not found'')) (\<lambda>_.
       let ids = map fe_id targets in
       bnd (tx_stmt (sel (\<lambda>d. map v_key (filter (\<lambda>v. v_entry v \<in> set ids) (versions d))))) (\<lambda>vkeys.
       bnd (log_targets OpPurge 0 dv targets) (\<lambda>_.
       bnd (tx_stmt (upd (delete_entries ids))) (\<lambda>_.
       bnd (each (\<lambda>(owner, sz). tx_stmt (upd (update_user owner (drop_used sz)))) quota) (\<lambda>_.
       ret (purge_keys targets @ vkeys)))))))"
    unfolding x prod.case fst_conv Let_def by (intro kept_if_require) simp
qed

lemma kept_Purge: "steps entries_kept (Purge u i dv)"
  unfolding Purge_def purge_query_def [symmetric] user_role_def
  by (rule steps_bnd [OF preorder_kept], (intro steps_intros)[1],
      rule steps_bnd [OF preorder_kept], rule kept_reads,
      rule steps_bnd [OF preorder_kept], rule steps_with_tx [OF tx_rel_kept],
      rule kept_purge_tx [unfolded kept_if_True], rule kept_gc)

lemma kept_CleanupTrash: "steps entries_kept (CleanupTrash n)"
  unfolding CleanupTrash_def by (intro steps_intros kept_Purge)

text \<open>Moving: the check of the recursive query, then the update.\<close>

definition not_below :: "uuid \<Rightarrow> uuid \<Rightarrow> file_entry list \<Rightarrow> bool" where
  "not_below i p es \<longleftrightarrow> (\<exists>r. subtree live es (filter (\<lambda>f. fe_id f = i \<and> live f) es) = Some r \<and> p \<notin> fe_id ` set r)"

definition move_row :: "uuid \<Rightarrow> uuid option \<Rightarrow> int \<Rightarrow> file_entry \<Rightarrow> file_entry" where
  "move_row p drive now f = f\<lparr>fe_parent := Some p, fe_drive := drive, fe_version := fe_version f + 1, fe_updated := now\<rparr>"

lemma kept_if_move: "steps (kept_if (\<lambda>es. not_below i p es \<and> folder_at p es)) (update_live i (move_row p drive) fk)"
  unfolding update_live_def
proof (rule kept_if_tx_stmt)
  fix w :: world and x w'
  let ?h = "\<lambda>e. if fe_id e = i then move_row p drive (clock w) e else e"
  assume "(case find (\<lambda>f. fe_id f = i \<and> live f \<and> \<not> is_drive_root (db w) i) (entries (db w)) of
       None \<Rightarrow> Inl NoRows
     | Some f \<Rightarrow> (case modify_entries (sql_lower w) ?h (db w) of
            None \<Rightarrow> Inl Constraint
          | Some d \<Rightarrow> if fk (db w) then Inr (move_row p drive (clock w) f, w\<lparr>db := d\<rparr>) else Inl Constraint)) = Inr (x, w')"
  then have names: "names_ok (sql_lower w) (map ?h (entries (db w)))"
    and w': "w' = w\<lparr>db := (db w)\<lparr>entries := map ?h (entries (db w))\<rparr>\<rparr>"
    by (auto simp: modify_entries_def Let_def split: option.splits if_splits)
  have "entries_ok (sql_lower w) (fresh w) (map ?h (entries (db w)))"
    if ok: "entries_ok (sql_lower w) (fresh w) (entries (db w))" and n: "not_below i p (entries (db w))"
      and f: "folder_at p (entries (db w))"
  proof -
    obtain r where r: "subtree live (entries (db w)) (filter (\<lambda>f. fe_id f = i \<and> live f) (entries (db w))) = Some r"
      "p \<notin> fe_id ` set r" using n by (auto simp: not_below_def)
    obtain g where g: "g \<in> set (entries (db w))" "fe_id g = p" "fe_kind g = Folder" "live g"
      using f by (auto simp: folder_at_def)
    show ?thesis by (rule entries_ok_move [OF ok r g names]) (simp add: move_row_def live_def)
  qed
  then show "kept_if (\<lambda>es. not_below i p es \<and> folder_at p es) w w'" by (simp add: kept_if_def w')
qed

definition move_check :: "uuid \<Rightarrow> uuid \<Rightarrow> bool srv" where
  "move_check i p = db_stmt (query (\<lambda>d. case subtree live (entries d) (filter (\<lambda>f. fe_id f = i \<and> live f) (entries d)) of
         None \<Rightarrow> Inl Diverges
       | Some r \<Rightarrow> Inr (p \<in> fe_id ` set r)))"

lemma guard_move: "move_check i p w = (Inr b, w') \<Longrightarrow> \<not> b \<longrightarrow> not_below i p (entries (db w'))"
  by (auto simp: move_check_def db_stmt_def query_def not_below_def split: if_splits option.splits)

lemma kept_move_tail:
  "steps (kept_if (not_below i p)) (bnd (parentContext p) (\<lambda>(drive, billUser).
     with_tx (
       bnd (map_err (no_rows (Msg ''file not found or root folder cannot be moved''))
         (update_live i (move_row p drive) (\<lambda>d. entry_of d p \<noteq> None))) (\<lambda>e.
       Append billUser (fe_id e) OpMove (fe_name e) (fe_parent e) (fe_kind e) (fe_size e) (fe_mime e)
         (fe_version e) (fe_hash e) dv (fe_cmod e)))))"
proof (rule kept_if_guard [where Q = "\<lambda>_. folder_at p"])
  show "steps (kept (not_below i p)) (parentContext p)" by (rule kept_quiet [OF quiet_parentContext])
  show "folder_at p (entries (db w'))" if "parentContext p w = (Inr x, w')" for w x w'
    using that by (rule guard_parentContext)
  have "steps (kept_if (\<lambda>es. not_below i p es \<and> folder_at p es))
      (with_tx (bnd (map_err (no_rows (Msg ''file not found or root folder cannot be moved''))
         (update_live i (move_row p drive) (\<lambda>d. entry_of d p \<noteq> None))) (\<lambda>e.
       Append billUser (fe_id e) OpMove (fe_name e) (fe_parent e) (fe_kind e) (fe_size e) (fe_mime e)
         (fe_version e) (fe_hash e) dv (fe_cmod e))))" for drive billUser
    by (rule kept_if_with_tx, rule kept_if_bnd, rule steps_map_err, rule kept_if_move, rule kept_Append)
  then show "steps (kept_if (\<lambda>es. not_below i p es \<and> folder_at p es)) (case x of (drive, billUser) \<Rightarrow>
      with_tx (bnd (map_err (no_rows (Msg ''file not found or root folder cannot be moved''))
         (update_live i (move_row p drive) (\<lambda>d. entry_of d p \<noteq> None))) (\<lambda>e.
       Append billUser (fe_id e) OpMove (fe_name e) (fe_parent e) (fe_kind e) (fe_size e) (fe_mime e)
         (fe_version e) (fe_hash e) dv (fe_cmod e))))" for x
    by (cases x) simp
qed

lemma kept_Move: "steps entries_kept (Move u r i p dv)"
proof -
  have row: "(\<lambda>now f. f\<lparr>fe_parent := Some p, fe_drive := drive, fe_version := fe_version f + 1, fe_updated := now\<rparr>)
      = move_row p drive" for drive
    by (simp add: fun_eq_iff move_row_def)
  have "steps (kept_if (\<lambda>_. True)) (bnd (move_check i p) (\<lambda>invalid.
     bnd (require (\<not> invalid) (Msg ''a folder cannot be moved into itself'')) (\<lambda>_.
     bnd (parentContext p) (\<lambda>(drive, billUser).
     with_tx (
       bnd (map_err (no_rows (Msg ''file not found or root folder cannot be moved''))
         (update_live i (move_row p drive) (\<lambda>d. entry_of d p \<noteq> None))) (\<lambda>e.
       Append billUser (fe_id e) OpMove (fe_name e) (fe_parent e) (fe_kind e) (fe_size e) (fe_mime e)
         (fe_version e) (fe_hash e) dv (fe_cmod e)))))))"
  proof (rule kept_if_guard [where Q = "\<lambda>b es. \<not> b \<longrightarrow> not_below i p es"])
    show "steps entries_kept (move_check i p)" unfolding move_check_def by (intro steps_intros)
    show "\<not> b \<longrightarrow> not_below i p (entries (db w'))" if "move_check i p w = (Inr b, w')" for w b w'
      using that by (rule guard_move)
    show "steps (kept_if (\<lambda>es. True \<and> (\<not> b \<longrightarrow> not_below i p es)))
       (bnd (require (\<not> b) (Msg ''a folder cannot be moved into itself'')) (\<lambda>_.
     bnd (parentContext p) (\<lambda>(drive, billUser).
     with_tx (
       bnd (map_err (no_rows (Msg ''file not found or root folder cannot be moved''))
         (update_live i (move_row p drive) (\<lambda>d. entry_of d p \<noteq> None))) (\<lambda>e.
       Append billUser (fe_id e) OpMove (fe_name e) (fe_parent e) (fe_kind e) (fe_size e) (fe_mime e)
         (fe_version e) (fe_hash e) dv (fe_cmod e))))))" for b
      by (rule kept_if_require, rule kept_if_mono, rule kept_move_tail) simp
  qed
  then show ?thesis
    unfolding Move_def row move_check_def [symmetric] kept_if_True
    by (rule_tac steps_bnd [OF preorder_kept kept_reads(7)])+
qed

lemma kept_Download: "steps entries_kept (Download u r i)"
proof -
  have "steps entries_kept (db_stmt (\<lambda>w. upd (update_entry i (\<lambda>f. f\<lparr>fe_opened := Some (clock w)\<rparr>)) w))"
  proof (rule steps_db_stmt [OF tx_rel_kept])
    fix w :: world and x w'
    let ?g = "\<lambda>f :: file_entry. if fe_id f = i then f\<lparr>fe_opened := Some (clock w)\<rparr> else f"
    assume "upd (update_entry i (\<lambda>f. f\<lparr>fe_opened := Some (clock w)\<rparr>)) w = Inr (x, w')"
    then have w': "w' = w\<lparr>db := (db w)\<lparr>entries := map ?g (entries (db w))\<rparr>\<rparr>"
      by (auto simp: update_entry_def)
    have live: "live (?g e) = live e" for e by (simp add: live_def)
    have "filter live (map ?g es) = map ?g (filter live es)" for es
      by (induction es) (simp_all add: live_def)
    then have "live_names low (map ?g es) = live_names low es" for low es
      by (simp add: live_names_def comp_def if_distrib cong: if_cong)
    moreover have "(\<forall>e \<in> set (map ?g es). text_ok (fe_name e) \<and> text_ok (fe_mime e))
        \<longleftrightarrow> (\<forall>e \<in> set es. text_ok (fe_name e) \<and> text_ok (fe_mime e))" for es
      by (induction es) simp_all
    ultimately have names: "names_ok low (map ?g es) = names_ok low es" for low es
      unfolding names_ok_def by (simp only:)
    have "entries_ok low n (map ?g es)" if "entries_ok low n es" for low n es
      by (rule entries_ok_map [OF that]) (use that names live in \<open>auto simp: entries_ok_def\<close>)
    then show "entries_kept w w'" by (simp add: kept_def w')
  qed
  then show ?thesis unfolding Download_def entryByID_def
    by (auto intro!: steps_intros)
qed

end
