(* ===== verification/Uploads.thy ===== *)
theory Uploads
  imports FilesInv
begin

text \<open>
  \<open>internal/uploads/service.go\<close>: uploads in chunks. A batch reserves the bytes of its
  files; each file has a session with a temporary blob that chunks are appended to; a
  complete session becomes an entry, or a new version of one; a batch that is aborted or
  expires gives its reservation back. \<open>sha\<close> is the hexadecimal SHA-256 of a file.
\<close>

section \<open>Creating a batch\<close>

definition MaxBatchBytes :: "config \<Rightarrow> int srv" where
  "MaxBatchBytes cfg =
     bnd (result (db_stmt (row (\<lambda>d. map_of (settings d) ''max_upload_batch_bytes'')))) (\<lambda>r.
     ret (case r of
        Inl _ \<Rightarrow> MaxUploadBatchBytes cfg
      | Inr raw \<Rightarrow> (case parse_int64 raw of
            None \<Rightarrow> MaxUploadBatchBytes cfg
          | Some n \<Rightarrow> if n \<le> 0 then MaxUploadBatchBytes cfg else n)))"

fun check_files :: "config \<Rightarrow> string set \<Rightarrow> manifest_file list \<Rightarrow> err + manifest_file list" where
  "check_files cfg seen [] = Inr []"
| "check_files cfg seen (f # fs) =
     (case normalizeManifest f of
        Inl e \<Rightarrow> Inl e
      | Inr item \<Rightarrow>
          if ExpectedSize item > MaxUploadBytes cfg then Inl (Msg ''exceeds max file size'')
          else if to_lower (RelativePath item) \<in> seen then Inl (Msg ''duplicate path'')
          else (case check_files cfg (insert (to_lower (RelativePath item)) seen) fs of
                  Inl e \<Rightarrow> Inl e
                | Inr items \<Rightarrow> Inr (item # items)))"

definition total_size :: "manifest_file list \<Rightarrow> int" where
  "total_size items = sum_list (map ExpectedSize items)"

definition validateOwnedFolder :: "uuid \<Rightarrow> uuid option \<Rightarrow> unit srv" where
  "validateOwnedFolder user folder =
     bnd (tx_stmt (query (\<lambda>d. case folder of
         None \<Rightarrow> Inl Constraint
       | Some i \<Rightarrow> Inr (\<exists>f \<in> set (entries d). fe_id f = i \<and> fe_user f = user \<and> fe_kind f = Folder \<and> live f)))) (\<lambda>ok.
     require ok (Msg ''parent folder not found''))"

text \<open>The folder of a user with a name, in a folder.\<close>

definition child_folder :: "uuid \<Rightarrow> uuid \<Rightarrow> string \<Rightarrow> world \<Rightarrow> file_entry option" where
  "child_folder user parent name w = find (\<lambda>f. fe_user f = user \<and> fe_parent f = Some parent \<and> fe_kind f = Folder
     \<and> sql_lower w (fe_name f) = sql_lower w name \<and> live f) (entries (db w))"

type_synonym folder_cache = "string \<Rightarrow> uuid option"

fun ensure_parts :: "uuid \<Rightarrow> string list \<Rightarrow> uuid \<Rightarrow> string \<Rightarrow> folder_cache \<Rightarrow> (uuid \<times> folder_cache) srv" where
  "ensure_parts user [] current built cache = ret (current, cache)"
| "ensure_parts user (raw # parts) current built cache =
     (let part = sanitizeName raw in
      bnd (require (part \<noteq> []) (Msg ''invalid folder name'')) (\<lambda>_.
      let built' = (if built = [] then part else built @ ''/'' @ part) in
      case cache built' of
        Some i \<Rightarrow> ensure_parts user parts i built' cache
      | None \<Rightarrow>
          bnd (result (tx_stmt (ask_row (child_folder user current part)))) (\<lambda>r. case r of
            Inr f \<Rightarrow> ensure_parts user parts (fe_id f) built' (cache(built' \<mapsto> fe_id f))
          | Inl e \<Rightarrow>
              if e \<noteq> NoRows then fail e
              else
                bnd new_uuid (\<lambda>k.
                bnd (insert_file user None (Some current) part Folder (FolderKey k) 0 ''inode/directory'') (\<lambda>f.
                ensure_parts user parts (fe_id f) built' (cache(built' \<mapsto> fe_id f))))) ))"

definition ensureFolderPath :: "uuid \<Rightarrow> uuid \<Rightarrow> string \<Rightarrow> folder_cache \<Rightarrow> (uuid \<times> folder_cache) srv" where
  "ensureFolderPath user root relativeDir cache =
     (if relativeDir = [] \<or> relativeDir = ''.'' then ret (root, cache)
      else case cache relativeDir of
          Some i \<Rightarrow> ret (i, cache)
        | None \<Rightarrow> ensure_parts user (split_at CHR ''/'' relativeDir) root [] cache)"

definition manifest_dir :: "manifest_file \<Rightarrow> string" where
  "manifest_dir f = (if dir_of (RelativePath f) = ''.'' then [] else dir_of (RelativePath f))"

fun ensure_folders :: "uuid \<Rightarrow> uuid \<Rightarrow> manifest_file list \<Rightarrow> folder_cache \<Rightarrow> folder_cache srv" where
  "ensure_folders user root [] cache = ret cache"
| "ensure_folders user root (f # fs) cache =
     bnd (ensureFolderPath user root (manifest_dir f) cache) (\<lambda>(_, cache'). ensure_folders user root fs cache')"

definition insert_batch :: "config \<Rightarrow> uuid \<Rightarrow> uuid option \<Rightarrow> int \<Rightarrow> nat \<Rightarrow> batch_row srv" where
  "insert_batch cfg user parent tot n = tx_stmt (\<lambda>w.
     let b = \<lparr>b_id = fresh w, b_user = user, b_parent = parent, b_total = tot, b_reserved = tot,
              b_count = int n, b_status = BOpen, b_expires = clock w + UploadSessionTTL cfg, b_created = clock w\<rparr>
     in Inr (b, w\<lparr>fresh := Suc (fresh w), db := (db w)\<lparr>batches := batches (db w) @ [b]\<rparr>\<rparr>))"

definition new_session :: "uuid \<Rightarrow> uuid \<Rightarrow> uuid \<Rightarrow> uuid \<Rightarrow> manifest_file \<Rightarrow> skey \<Rightarrow> session_row" where
  "new_session i batch user folder f key =
     \<lparr>us_id = i, us_batch = batch, us_user = user, us_parent = Some folder, us_rel = RelativePath f,
      us_name = FileName f, us_mime = MimeType f, us_expected = ExpectedSize f, us_received = 0,
      us_mtime = LastModifiedMs f, us_key = key, us_target = TargetEntryID f, us_expver = ExpectedVersion f,
      us_hash = ContentHash f, us_cmod = ClientModifiedAt f, us_device = DeviceID f, us_status = SOpen\<rparr>"

text \<open>A folder that is not in the cache is the empty string, which is not a UUID.\<close>

definition insert_session :: "uuid \<Rightarrow> uuid \<Rightarrow> uuid option \<Rightarrow> manifest_file \<Rightarrow> skey \<Rightarrow> session_row srv" where
  "insert_session batch user folder f key = tx_stmt (\<lambda>w. case folder of
       None \<Rightarrow> Inl Constraint
     | Some p \<Rightarrow>
         if text_ok (RelativePath f) \<and> text_ok (FileName f) \<and> text_ok (MimeType f) \<and> text_ok (ContentHash f)
         then let s = new_session (fresh w) batch user p f key
              in Inr (s, w\<lparr>fresh := Suc (fresh w), db := (db w)\<lparr>sessions := sessions (db w) @ [s]\<rparr>\<rparr>)
         else Inl Constraint)"

definition create_session :: "uuid \<Rightarrow> uuid \<Rightarrow> folder_cache \<Rightarrow> manifest_file \<Rightarrow> session_row srv" where
  "create_session user batch cache f =
     bnd new_uuid (\<lambda>k.
     let key = TmpKey user batch k in
     bnd (blob_ensure_empty key) (\<lambda>_.
     on_err (insert_session batch user (cache (manifest_dir f)) f key) (blob_delete key)))"

definition user_quota :: "uuid \<Rightarrow> database \<Rightarrow> (int \<times> int \<times> int) option" where
  "user_quota i d = map_option (\<lambda>u. (u_used u, u_reserved u, u_quota u + u_bonus u)) (user_of d i)"

definition add_reserved :: "int \<Rightarrow> user_row \<Rightarrow> user_row" where
  "add_reserved n u = u\<lparr>u_reserved := u_reserved u + n\<rparr>"

definition CreateBatch :: "config \<Rightarrow> uuid \<Rightarrow> uuid option \<Rightarrow> uuid option \<Rightarrow> manifest_file list
    \<Rightarrow> (batch_row \<times> session_row list) srv" where
  "CreateBatch cfg user storageRoot parent0 fs =
     bnd (require (fs \<noteq> []) (Msg ''at least one file is required'')) (\<lambda>_.
     bnd (require (int (length fs) \<le> MaxBatchFiles cfg) (Msg ''batch cannot exceed files'')) (\<lambda>_.
     let parent = (case parent0 of None \<Rightarrow> storageRoot | Some p \<Rightarrow> Some p) in
     bnd (case check_files cfg {} fs of Inl e \<Rightarrow> fail e | Inr items \<Rightarrow> ret items) (\<lambda>normalized.
     let tot = total_size normalized in
     bnd (MaxBatchBytes cfg) (\<lambda>maxBatch.
     bnd (require (tot \<le> maxBatch) (Msg ''batch exceeds maximum upload size'')) (\<lambda>_.
     with_tx (
       bnd (validateOwnedFolder user parent) (\<lambda>_.
       bnd (tx_stmt (row (user_quota user))) (\<lambda>(used, reserved, quota).
       bnd (require (used + reserved + tot \<le> quota) (Msg ''quota exceeded'')) (\<lambda>_.
       bnd (ensure_folders user (the parent) normalized ((\<lambda>_. None)([] \<mapsto> the parent))) (\<lambda>cache.
       bnd (insert_batch cfg user parent tot (length normalized)) (\<lambda>b.
       bnd (collect (create_session user (b_id b) cache) normalized) (\<lambda>ss.
       bnd (tx_stmt (upd (update_user user (add_reserved tot)))) (\<lambda>_.
       ret (b, ss))))))))))))))"

section \<open>Reading batches\<close>

definition sessionsForBatch :: "uuid \<Rightarrow> uuid \<Rightarrow> session_row list srv" where
  "sessionsForBatch user batch = db_stmt (look (\<lambda>w. sort_by (\<lambda>s t. sql_le w (us_rel s) (us_rel t))
     (filter (\<lambda>s. us_batch s = batch \<and> us_user s = user) (sessions (db w)))))"

definition ListOpenBatches :: "uuid \<Rightarrow> (batch_row \<times> session_row list) list srv" where
  "ListOpenBatches user =
     bnd (db_stmt (look (\<lambda>w. rev (sort_key b_created
       (filter (\<lambda>b. b_user b = user \<and> b_status b = BOpen \<and> clock w < b_expires b) (batches (db w))))))) (\<lambda>bs.
     collect (\<lambda>b. bnd (sessionsForBatch user (b_id b)) (\<lambda>ss. ret (b, ss))) bs)"

section \<open>Chunks\<close>

definition session_row_of :: "uuid \<Rightarrow> uuid \<Rightarrow> database \<Rightarrow> (session_row \<times> batch_row) option" where
  "session_row_of i user d = (case find (\<lambda>s. us_id s = i \<and> us_user s = user) (sessions d) of
      None \<Rightarrow> None
    | Some s \<Rightarrow> map_option (\<lambda>b. (s, b)) (batch_of d (us_batch s)))"

text \<open>
  \<open>AppendChunk\<close> returns an offset with its errors, from which the client goes on: its
  errors are pairs. \<open>append_part\<close> is the part that writes to the temporary blob, \<open>chunk_tx\<close>
  the transaction.
\<close>

definition undo_chunk :: "session_row \<Rightarrow> unit srv" where
  "undo_chunk s = ignore (blob_truncate (us_key s) (us_received s))"

definition append_part :: "uuid \<Rightarrow> session_row \<Rightarrow> int \<Rightarrow> rd list \<Rightarrow> int \<Rightarrow> (world, int \<times> err, int \<times> session_row) io" where
  "append_part i s offset body contentLength =
     bnd (map_err (Pair (us_received s))
           (on_err (blob_append (us_key s) offset (limit_reader (contentLength + 1) body)) (undo_chunk s))) (\<lambda>written.
     bnd (map_err (Pair (us_received s)) (on_err (require (written = contentLength) (Msg ''incomplete chunk'')) (undo_chunk s))) (\<lambda>_.
     bnd (map_err (Pair (us_received s))
           (on_err (tx_stmt (upd (update_session i (\<lambda>s. s\<lparr>us_received := offset + written\<rparr>)))) (undo_chunk s))) (\<lambda>_.
     ret (offset + written, s))))"

definition chunk_tx :: "uuid \<Rightarrow> uuid \<Rightarrow> int \<Rightarrow> rd list \<Rightarrow> int \<Rightarrow> (world, int \<times> err, int \<times> session_row) io" where
  "chunk_tx user i offset body contentLength =
     bnd (map_err (\<lambda>e. (0, no_rows (Msg ''upload session not found'') e)) (tx_stmt (row (session_row_of i user)))) (\<lambda>(s, b).
     bnd (getw clock) (\<lambda>now.
     bnd (require (us_status s = SOpen \<and> now \<le> b_expires b) (0, Msg ''upload session is not open'')) (\<lambda>_.
     bnd (map_err (Pair 0) (blob_size (us_key s))) (\<lambda>diskSize.
     bnd (if diskSize \<noteq> us_received s then map_err (Pair 0) (blob_truncate (us_key s) (us_received s)) else ret ()) (\<lambda>_.
     bnd (require (offset = us_received s) (us_received s, Msg ''unexpected offset'')) (\<lambda>_.
     bnd (require (offset + contentLength \<le> us_expected s) (us_received s, Msg ''chunk exceeds expected file size'')) (\<lambda>_.
     append_part i s offset body contentLength)))))))"

definition AppendChunk :: "config \<Rightarrow> unit srv \<Rightarrow> uuid \<Rightarrow> uuid \<Rightarrow> int \<Rightarrow> rd list \<Rightarrow> int \<Rightarrow> (world, int \<times> err, int) io" where
  "AppendChunk cfg pace user i offset body contentLength =
     bnd (require (0 \<le> offset) (0, Msg ''invalid offset'')) (\<lambda>_.
     bnd (require (0 \<le> contentLength \<and> contentLength \<le> UploadChunkBytes cfg) (0, Msg ''chunk must be between 1 and max bytes'')) (\<lambda>_.
     bnd (map_err (Pair 0) pace) (\<lambda>_.
     run_tx (\<lambda>e. fail (0, e)) (chunk_tx user i offset body contentLength)
      (\<lambda>(newOffset, s) r. case r of
         Inr _ \<Rightarrow> ret newOffset
       | Inl e \<Rightarrow> map_err (Pair (us_received s)) (bnd (undo_chunk s) (\<lambda>_. fail e))))))"

section \<open>Completing a file\<close>

definition hashStorageKey :: "(string \<Rightarrow> string) \<Rightarrow> skey \<Rightarrow> string srv" where
  "hashStorageKey sha key = bnd (blob_open key) (\<lambda>c. bnd (oscall (ret ())) (\<lambda>_. ret (sha c)))"

text \<open>\<open>strings.EqualFold\<close> with a hexadecimal string, whose letters have no other case folds.\<close>

definition equal_fold :: "string \<Rightarrow> string \<Rightarrow> bool" where
  "equal_fold s t \<longleftrightarrow> map lower_byte s = map lower_byte t"

definition open_session :: "uuid \<Rightarrow> uuid \<Rightarrow> database \<Rightarrow> session_row option" where
  "open_session i user d = find (\<lambda>s. us_id s = i \<and> us_user s = user \<and> us_status s = SOpen
      \<and> (case batch_of d (us_batch s) of None \<Rightarrow> False | Some b \<Rightarrow> b_status b = BOpen)) (sessions d)"

definition add_version :: "file_entry \<Rightarrow> uuid \<Rightarrow> unit srv" where
  "add_version f user = tx_stmt (\<lambda>w.
     if \<exists>v \<in> set (versions (db w)). v_entry v = fe_id f \<and> v_version v = fe_version f then Inr ((), w)
     else let v = \<lparr>v_id = fresh w, v_entry = fe_id f, v_version = fe_version f, v_key = fe_key f, v_size = fe_size f,
                   v_mime = fe_mime f, v_hash = fe_hash f, v_by = Some user, v_created = clock w\<rparr>
          in Inr ((), w\<lparr>fresh := Suc (fresh w), db := (db w)\<lparr>versions := versions (db w) @ [v]\<rparr>\<rparr>))"

definition uploaded :: "session_row \<Rightarrow> skey \<Rightarrow> string \<Rightarrow> int \<Rightarrow> file_entry \<Rightarrow> file_entry" where
  "uploaded s key hash now f = f\<lparr>fe_key := key, fe_size := us_expected s, fe_mime := us_mime s, fe_hash := hash,
     fe_cmod := us_cmod s, fe_version := fe_version f + 1, fe_updated := now\<rparr>"

definition replace_entry :: "uuid \<Rightarrow> session_row \<Rightarrow> skey \<Rightarrow> string \<Rightarrow> file_entry srv" where
  "replace_entry i s key hash = tx_stmt (\<lambda>w.
     case entry_of (db w) i of
       None \<Rightarrow> Inl NoRows
     | Some f \<Rightarrow>
         (case modify_entries (sql_lower w) (\<lambda>f. if fe_id f = i then uploaded s key hash (clock w) f else f) (db w) of
            None \<Rightarrow> Inl Constraint
          | Some d \<Rightarrow> Inr (uploaded s key hash (clock w) f, w\<lparr>db := d\<rparr>)))"

definition create_entry :: "uuid \<Rightarrow> uuid option \<Rightarrow> session_row \<Rightarrow> skey \<Rightarrow> string \<Rightarrow> file_entry srv" where
  "create_entry user drive s key hash = tx_stmt (\<lambda>w.
     let e = (entry_row (fresh w) user drive (us_parent s) (us_name s) File key (us_expected s) (us_mime s) (clock w))
               \<lparr>fe_hash := hash, fe_cmod := us_cmod s\<rparr>
     in case insert_entry (sql_lower w) e (db w) of
          None \<Rightarrow> Inl Constraint
        | Some d \<Rightarrow> Inr (e, w\<lparr>fresh := Suc (fresh w), db := d\<rparr>))"

definition settle_user :: "int \<Rightarrow> int \<Rightarrow> user_row \<Rightarrow> user_row" where
  "settle_user sz oldSize u = u\<lparr>u_used := max 0 (u_used u + sz - oldSize), u_reserved := max 0 (u_reserved u - sz)\<rparr>"

definition settle_batch :: "uuid \<Rightarrow> int \<Rightarrow> database \<Rightarrow> database" where
  "settle_batch i sz d = update_batch i (\<lambda>b. b\<lparr>b_reserved := max 0 (b_reserved b - sz),
      b_status := (if \<exists>s \<in> set (sessions d). us_batch s = i \<and> us_status s = SOpen then b_status b else BDone)\<rparr>) d"

text \<open>
  The parts of \<open>CompleteFile\<close>: the checks of the session (\<open>complete_check\<close>), the row
  that is replaced (\<open>complete_old\<close>), the entry (\<open>complete_entry\<close>) and the books
  (\<open>complete_settle\<close>), all in one transaction.
\<close>

definition complete_check :: "(string \<Rightarrow> string) \<Rightarrow> uuid \<Rightarrow> uuid \<Rightarrow> (session_row \<times> string) srv" where
  "complete_check sha user i =
     bnd (map_err (no_rows (Msg ''upload session not found'')) (tx_stmt (row (open_session i user)))) (\<lambda>s.
     bnd (require (us_received s = us_expected s) (Msg ''file incomplete'')) (\<lambda>_.
     bnd (blob_size (us_key s)) (\<lambda>diskSize.
     bnd (require (diskSize = us_expected s) (Msg ''temporary file size mismatch'')) (\<lambda>_.
     bnd (hashStorageKey sha (us_key s)) (\<lambda>hash.
     bnd (require (us_hash s = [] \<or> equal_fold hash (us_hash s)) (Msg ''content hash mismatch'')) (\<lambda>_.
     ret (s, hash)))))))"

definition complete_old :: "uuid \<Rightarrow> session_row \<Rightarrow> int srv" where
  "complete_old user s =
     (case us_target s of
        None \<Rightarrow> ret 0
      | Some t \<Rightarrow>
          bnd (map_err (no_rows (Msg ''target file not found''))
            (tx_stmt (row (\<lambda>d. find (\<lambda>f. fe_id f = t \<and> fe_user f = user \<and> live f) (entries d))))) (\<lambda>old.
          bnd (require (us_expver s = Some (fe_version old)) (Msg ''version conflict'')) (\<lambda>_.
          bnd (add_version old user) (\<lambda>_.
          ret (fe_size old)))))"

definition complete_entry :: "uuid \<Rightarrow> session_row \<Rightarrow> skey \<Rightarrow> string \<Rightarrow> file_entry srv" where
  "complete_entry user s key hash =
     (case us_target s of
        Some t \<Rightarrow> replace_entry t s key hash
      | None \<Rightarrow>
          bnd (result (tx_stmt (row (\<lambda>d. map_option fe_drive (Option.bind (us_parent s) (entry_of d)))))) (\<lambda>r.
          create_entry user (case r of Inl _ \<Rightarrow> None | Inr drive \<Rightarrow> drive) s key hash))"

definition complete_settle :: "uuid \<Rightarrow> uuid \<Rightarrow> session_row \<Rightarrow> skey \<Rightarrow> int \<Rightarrow> file_entry \<Rightarrow> unit srv" where
  "complete_settle user i s key oldSize e =
     bnd (on_err (tx_stmt (upd (update_session i (\<lambda>s. s\<lparr>us_status := SComplete\<rparr>)))) (blob_delete key)) (\<lambda>_.
     bnd (on_err (tx_stmt (upd (update_user user (settle_user (us_expected s) oldSize)))) (blob_delete key)) (\<lambda>_.
     bnd (on_err (tx_stmt (upd (settle_batch (us_batch s) (us_expected s)))) (blob_delete key)) (\<lambda>_.
     on_err (Append user (fe_id e) OpUpsert (fe_name e) (fe_parent e) (fe_kind e) (fe_size e) (fe_mime e)
       (fe_version e) (fe_hash e) (us_device s) (fe_cmod e)) (blob_delete key))))"

definition complete_tx :: "(string \<Rightarrow> string) \<Rightarrow> uuid \<Rightarrow> uuid \<Rightarrow> (file_entry \<times> skey \<times> bool) srv" where
  "complete_tx sha user i =
     bnd (complete_check sha user i) (\<lambda>(s, hash).
     bnd (complete_old user s) (\<lambda>oldSize.
     bnd (getw clock) (\<lambda>now.
     bnd new_uuid (\<lambda>k.
     let key = UserKey user (day_of now) k in
     bnd (blob_finalize (us_key s) key) (\<lambda>_.
     bnd (on_err (complete_entry user s key hash) (blob_delete key)) (\<lambda>e.
     bnd (complete_settle user i s key oldSize e) (\<lambda>_.
     ret (e, key, us_target s \<noteq> None))))))))"

definition CompleteFile :: "(string \<Rightarrow> string) \<Rightarrow> uuid \<Rightarrow> uuid \<Rightarrow> file_entry srv" where
  "CompleteFile sha user i =
     run_tx fail (complete_tx sha user i)
      (\<lambda>(e, key, replacing) r. case r of
         Inl x \<Rightarrow> bnd (ignore (blob_delete key)) (\<lambda>_. fail x)
       | Inr _ \<Rightarrow> if replacing then bnd (ignore (PruneVersions (fe_id e) 20)) (\<lambda>_. ret e) else ret e)"

section \<open>Giving a reservation back\<close>

definition drop_reserved :: "int \<Rightarrow> user_row \<Rightarrow> user_row" where
  "drop_reserved n u = u\<lparr>u_reserved := max 0 (u_reserved u - n)\<rparr>"

definition open_keys :: "uuid \<Rightarrow> database \<Rightarrow> skey list" where
  "open_keys batch d = map us_key (filter (\<lambda>s. us_batch s = batch \<and> us_status s = SOpen) (sessions d))"

definition end_sessions :: "uuid \<Rightarrow> session_status \<Rightarrow> database \<Rightarrow> database" where
  "end_sessions batch st d = d\<lparr>sessions := map (\<lambda>s. if us_batch s = batch \<and> us_status s = SOpen
      then s\<lparr>us_status := st\<rparr> else s) (sessions d)\<rparr>"

text \<open>\<open>return nil\<close> from inside a transaction that is not committed: the error \<open>None\<close>.\<close>

definition returning :: "(world, err option, unit) io \<Rightarrow> unit srv" where
  "returning m = (\<lambda>w. case m w of
      (Inl None, w') \<Rightarrow> (Inr (), w')
    | (Inl (Some e), w') \<Rightarrow> (Inl e, w')
    | (Inr x, w') \<Rightarrow> (Inr x, w'))"

definition AbortBatch :: "uuid \<Rightarrow> uuid \<Rightarrow> unit srv" where
  "AbortBatch user batch =
     returning (run_tx (\<lambda>e. fail (Some e))
      (bnd (map_err (\<lambda>e. Some (no_rows (Msg ''batch not found'') e))
             (tx_stmt (row (\<lambda>d. find (\<lambda>b. b_id b = batch \<and> b_user b = user) (batches d))))) (\<lambda>b.
       bnd (require (b_status b = BOpen) None) (\<lambda>_.
       map_err Some (
         bnd (tx_stmt (sel (open_keys batch))) (\<lambda>keys.
         bnd (tx_stmt (upd (end_sessions batch SAborted))) (\<lambda>_.
         bnd (tx_stmt (upd (update_batch batch (\<lambda>b. b\<lparr>b_status := BAborted, b_reserved := 0\<rparr>)))) (\<lambda>_.
         bnd (tx_stmt (upd (update_user user (drop_reserved (b_reserved b))))) (\<lambda>_.
         ret keys))))))))
      (\<lambda>keys r. case r of
         Inl e \<Rightarrow> fail (Some e)
       | Inr _ \<Rightarrow> map_err Some (each (\<lambda>k. ignore (blob_delete k)) keys)))"

definition expireBatch :: "uuid \<Rightarrow> uuid \<Rightarrow> int \<Rightarrow> unit srv" where
  "expireBatch batch user reserved =
     bnd (with_tx (
       bnd (tx_stmt (sel (open_keys batch))) (\<lambda>keys.
       bnd (tx_stmt (upd (end_sessions batch SExpired))) (\<lambda>_.
       bnd (tx_stmt (upd (\<lambda>d. d\<lparr>batches := map (\<lambda>b. if b_id b = batch \<and> b_status b = BOpen
              then b\<lparr>b_status := BExpired, b_reserved := 0\<rparr> else b) (batches d)\<rparr>))) (\<lambda>_.
       bnd (tx_stmt (upd (update_user user (drop_reserved reserved)))) (\<lambda>_.
       ret keys)))))) (\<lambda>keys.
     each (\<lambda>k. ignore (blob_delete k)) keys)"

definition CleanupExpired :: "unit srv" where
  "CleanupExpired =
     bnd (db_stmt (look (\<lambda>w. filter (\<lambda>b. b_status b = BOpen \<and> b_expires b \<le> clock w) (batches (db w))))) (\<lambda>items.
     each (\<lambda>b. ignore (expireBatch (b_id b) (b_user b) (b_reserved b))) items)"

end
