(* ===== verification/Chunks.thy ===== *)
theory Chunks
  imports Uploads
begin

text \<open>
  Chunked uploads under failures. \<open>landed\<close> is what a session has received: the first
  \<open>received_bytes\<close> bytes of its temporary blob. A chunk that is accepted is appended to
  it; a chunk that fails, wherever it fails and whether or not the clean-up after it
  succeeds, leaves it as it was.
\<close>

section \<open>Blob operations under failures\<close>

definition holds :: "world \<Rightarrow> skey \<Rightarrow> string \<Rightarrow> bool" where
  "holds w k c \<longleftrightarrow> files w k = Some c"

lemma copy_wp:
  assumes "files w k = Some c"
  shows "wp (copy_with_context k src n)
     (\<lambda>m w'. m = n + int (length (stream_bytes src)) \<and> files w' k = Some (c @ stream_bytes src) \<and> sound src)
     (\<lambda>_ w'. \<exists>t. files w' k = Some (c @ t)) w"
  using assms
proof (induction k src n arbitrary: w c rule: copy_with_context.induct)
  case (1 k n)
  then show ?case by (simp add: wp_simps sound_def)
next
  case (2 k rs n)
  then show ?case by (auto simp: wp_simps intro: exI [of _ "[]"])
next
  case (3 k bs rs n)
  let ?w = "(pop w)\<lparr>files := (files w)(k \<mapsto> c @ bs)\<rparr>"
  have "wp (copy_with_context k rs (n + int (length bs)))
     (\<lambda>m w'. m = n + int (length bs) + int (length (stream_bytes rs)) \<and> files w' k = Some ((c @ bs) @ stream_bytes rs) \<and> sound rs)
     (\<lambda>_ w'. \<exists>t. files w' k = Some ((c @ bs) @ t)) ?w"
    by (rule "3.IH") simp
  then have "wp (copy_with_context k rs (n + int (length bs)))
     (\<lambda>m w'. m = n + int (length (stream_bytes (Data bs # rs))) \<and> files w' k = Some (c @ stream_bytes (Data bs # rs))
        \<and> sound (Data bs # rs))
     (\<lambda>_ w'. \<exists>t. files w' k = Some (c @ t)) ?w"
    by (rule wp_weaken) (auto simp: sound_def)
  with "3.prems" show ?case
    by (auto simp: wp_simps os_append_def wp_oscall intro: exI [of _ "[]"])
qed

lemma wp_only:
  assumes "only K m" and "wp m Q E w"
  shows "wp m (\<lambda>x w'. Q x w' \<and> disk_step K w w') (\<lambda>e w'. E e w' \<and> disk_step K w w') w"
  using assms(2) by (rule wp_mono) (use stepsD [OF assms(1)] in blast)+

lemma truncate_wp:
  assumes "files w k = Some c" and "0 \<le> n" and "n \<le> int (length c)"
  shows "wp (blob_truncate k n)
     (\<lambda>_ w'. files w' k = Some (take (nat n) c) \<and> disk_step {k} w w')
     (\<lambda>_ w'. (\<exists>t. files w' k = Some (take (nat n) c @ t)) \<and> disk_step {k} w w') w"
proof -
  have c: "c = take (nat n) c @ drop (nat n) c" by simp
  have "wp (blob_truncate k n)
     (\<lambda>_ w'. files w' k = Some (take (nat n) c)) (\<lambda>_ w'. \<exists>t. files w' k = Some (take (nat n) c @ t)) w"
    using assms c
    by (auto simp: blob_truncate_def by_key_def st_truncate_def st_ensure_empty_def os_mkdir_def os_create_def
        os_truncate_def wp_simps wp_oscall resize_def intro: exI [of _ "drop (nat n) c"])
  then show ?thesis by (rule wp_only [rotated]) (auto intro: steps_intros)
qed

lemma size_wp:
  "wp (blob_size k)
     (\<lambda>n w'. n = (case files w k of None \<Rightarrow> 0 | Some c \<Rightarrow> int (length c)) \<and> disk_step {} w w') (\<lambda>_ w'. disk_step {} w w') w"
proof -
  have "wp (blob_size k) (\<lambda>n w'. n = (case files w k of None \<Rightarrow> 0 | Some c \<Rightarrow> int (length c))) (\<lambda>_ _. True) w"
    by (auto simp: blob_size_def by_key_def st_size_def os_read_def wp_simps wp_oscall split: option.splits)
  then have "wp (blob_size k) (\<lambda>n w'. n = (case files w k of None \<Rightarrow> 0 | Some c \<Rightarrow> int (length c)) \<and> disk_step {} w w')
      (\<lambda>_ w'. True \<and> disk_step {} w w') w"
    by (rule wp_only [rotated]) (rule steps_intros)
  then show ?thesis by simp
qed

lemma append_wp:
  assumes "files w k = Some c" and "off = int (length c)"
  shows "wp (blob_append k off src)
     (\<lambda>m w'. (m = int (length (stream_bytes src)) \<and> files w' k = Some (c @ stream_bytes src) \<and> sound src) \<and> disk_step {k} w w')
     (\<lambda>_ w'. (\<exists>t. files w' k = Some (c @ t)) \<and> disk_step {k} w w') w"
proof -
  have copy: "wp (copy_with_context k src 0)
     (\<lambda>m w'. m = int (length (stream_bytes src)) \<and> files w' k = Some (c @ stream_bytes src) \<and> sound src)
     (\<lambda>_ w'. \<exists>t. files w' k = Some (c @ t)) w'" if "files w' k = Some c" for w' :: world
    using copy_wp [OF that, of src 0] by simp
  have "wp (blob_append k off src)
     (\<lambda>m w'. m = int (length (stream_bytes src)) \<and> files w' k = Some (c @ stream_bytes src) \<and> sound src)
     (\<lambda>_ w'. \<exists>t. files w' k = Some (c @ t)) w"
    using assms
    by (auto simp: blob_append_def by_key_def st_append_at_def os_mkdir_def os_open_rw_def os_read_def wp_simps wp_oscall
        intro!: copy exI [of _ "[]"])
  then show ?thesis by (rule wp_only [rotated]) (auto intro: steps_intros)
qed

section \<open>One chunk\<close>

definition landed :: "world \<Rightarrow> session_row \<Rightarrow> string" where
  "landed w s = take (nat (us_received s)) (case files w (us_key s) of None \<Rightarrow> [] | Some c \<Rightarrow> c)"

definition receiving :: "world \<Rightarrow> uuid \<Rightarrow> session_row \<Rightarrow> bool" where
  "receiving w i s \<longleftrightarrow> session_of (db w) i = Some s \<and> 0 \<le> us_received s \<and> us_received s \<le> us_expected s
     \<and> (\<exists>c. files w (us_key s) = Some c \<and> us_received s \<le> int (length c))"

lemma limit_whole:
  "sound (limit_reader n rs) \<Longrightarrow> int (length (stream_bytes (limit_reader n rs))) < n \<Longrightarrow> limit_reader n rs = rs"
proof (induction n rs rule: limit_reader.induct)
  case (3 n bs rs)
  show ?case
  proof (cases "n \<le> 0")
    case True
    with 3 show ?thesis by simp
  next
    case False
    then have lim: "limit_reader n (Data bs # rs) = Data (take (nat n) bs) # limit_reader (n - int (length bs)) rs" by simp
    have b: "length bs < nat n" using "3.prems"(2) False unfolding lim by (simp split: if_splits)
    then have "take (nat n) bs = bs" by simp
    with 3 False b lim show ?thesis by (auto simp: sound_def)
  qed
qed (auto simp: sound_def)

lemma session_row_ofD:
  assumes "session_row_of i user d = Some (s', b)" and "session_of d i = Some s" and "distinct (map us_id (sessions d))"
  shows "s' = s \<and> us_user s = user \<and> batch_of d (us_batch s) = Some b"
proof -
  have s': "s' \<in> set (sessions d)" "us_id s' = i" "us_user s' = user" "batch_of d (us_batch s') = Some b"
    using assms(1) by (auto simp: session_row_of_def split: option.splits dest: find_set)
  have "s \<in> set (sessions d)" "us_id s = i" using assms(2) by (auto simp: session_of_def dest: find_set)
  with s' assms(3) have "s' = s" by (simp add: distinct_map inj_on_def)
  with s' show ?thesis by simp
qed

lemma session_of_update:
  "(\<And>s. us_id (f s) = us_id s) \<Longrightarrow> session_of (update_session i f d) j
     = map_option (\<lambda>s. if us_id s = i then f s else s) (session_of d j)"
  unfolding session_of_def update_session_def by (simp add: find_map_upd)

text \<open>What stays true of a session until its row is updated.\<close>

definition same_session :: "database \<Rightarrow> session_row \<Rightarrow> string \<Rightarrow> world \<Rightarrow> bool" where
  "same_session d s l w \<longleftrightarrow> db w = d \<and> (\<exists>t. files w (us_key s) = Some (l @ t))"

lemma same_session_step:
  "same_session d s l w \<Longrightarrow> disk_step K w w' \<Longrightarrow> us_key s \<notin> K \<Longrightarrow> same_session d s l w'"
  by (auto simp: same_session_def disk_step_def)

lemma chunk_wp:
  assumes dist: "distinct (map us_id (sessions (db w)))" and rec: "receiving w i s" and pace: "quiet pace"
  shows "wp (AppendChunk cfg pace user i off body len)
     (\<lambda>n w'. us_user s = user \<and> off = us_received s \<and> n = off + len \<and> n \<le> us_expected s \<and> 0 \<le> len
        \<and> int (length (stream_bytes body)) = len
        \<and> db w' = update_session i (\<lambda>s. s\<lparr>us_received := n\<rparr>) (db w)
        \<and> files w' (us_key s) = Some (landed w s @ stream_bytes body))
     (\<lambda>(k, e) w'. (k = 0 \<or> k = us_received s) \<and> same_session (db w) s (landed w s) w') w"
proof -
  obtain c where c: "files w (us_key s) = Some c" "us_received s \<le> int (length c)" and s: "session_of (db w) i = Some s"
    and r: "0 \<le> us_received s" using rec by (auto simp: receiving_def)
  let ?l = "take (nat (us_received s)) c"
  have l: "landed w s = ?l" by (simp add: landed_def c)
  have len_l: "int (length ?l) = us_received s" using c(2) r by simp
  let ?k = "us_key s" and ?n = "us_received s"
  let ?has = "\<lambda>w'. \<exists>t. files w' ?k = Some (?l @ t)"
  let ?E = "\<lambda>(k, e :: err) w'. (k = 0 \<or> k = ?n) \<and> ?has w'"
  let ?Q = "\<lambda>(n, s') w'. s' = s \<and> off = ?n \<and> n = off + len \<and> n \<le> us_expected s \<and> 0 \<le> len
     \<and> int (length (stream_bytes body)) = len \<and> db w' = update_session i (\<lambda>s. s\<lparr>us_received := n\<rparr>) (db w)
     \<and> files w' ?k = Some (?l @ stream_bytes body)"
  have undo: "wp (blob_truncate ?k ?n) (\<lambda>_ w'. ?has w') (\<lambda>_ w'. ?has w') w1"
    if has: "?has w1" for w1
  proof -
    obtain t where t: "files w1 ?k = Some (?l @ t)" using has by blast
    have "take (nat ?n) (?l @ t) = ?l" using len_l by auto
    with len_l show ?thesis
      by (intro wp_weaken [OF truncate_wp [OF t]]) (auto simp: r dest: disk_step_world)
  qed
  have tail: "wp (append_part i s off body len) ?Q ?E w1"
    if w1: "files w1 ?k = Some ?l" "db w1 = db w" and g: "off = ?n" "off + len \<le> us_expected s" "0 \<le> len" for w1
  proof -
    have has1: "?has w1" using w1 by (auto intro: exI [of _ "[]"])
    have good: "stream_bytes body = stream_bytes (limit_reader (len + 1) body)"
      if "sound (limit_reader (len + 1) body)" "int (length (stream_bytes (limit_reader (len + 1) body))) = len"
      using limit_whole [of "len + 1" body] that by simp
    show ?thesis
      unfolding append_part_def undo_chunk_def wp_bnd wp_map_err wp_on_err wp_ignore wp_require
      apply (rule wp_weaken [OF append_wp [OF w1(1)]])
      subgoal using g len_l by simp
      subgoal for x w2
        using good g w1 by (auto simp: wp_simps dest!: disk_step_world intro!: undo)
      subgoal for e w2
        using undo [of w2] by auto
      done
  qed
  have tx: "wp (chunk_tx user i off body len) (\<lambda>x w'. ?Q x w' \<and> us_user s = user) ?E w1"
    if w1: "db w1 = db w" "files w1 = files w" and len: "0 \<le> len" for w1
  proof -
    have c1: "files w1 ?k = Some c" using c w1 by simp
    have has: "?has w'" if "files w' = files w" for w'
      using that c by (metis append_take_drop_id)
    have body: "wp (bnd (map_err (Pair 0) (blob_size ?k)) (\<lambda>diskSize.
       bnd (if diskSize \<noteq> ?n then map_err (Pair 0) (blob_truncate ?k ?n) else ret ()) (\<lambda>_.
       bnd (require (off = ?n) (?n, Msg ''unexpected offset'')) (\<lambda>_.
       bnd (require (off + len \<le> us_expected s) (?n, Msg ''chunk exceeds expected file size'')) (\<lambda>_.
       append_part i s off body len))))) ?Q ?E w2"
      if w2: "files w2 = files w" "db w2 = db w" for w2
    proof -
      have cut: "wp (bnd (if m \<noteq> ?n then map_err (Pair 0) (blob_truncate ?k ?n) else ret ()) (\<lambda>_.
         bnd (require (off = ?n) (?n, Msg ''unexpected offset'')) (\<lambda>_.
         bnd (require (off + len \<le> us_expected s) (?n, Msg ''chunk exceeds expected file size'')) (\<lambda>_.
         append_part i s off body len)))) ?Q ?E w3"
        if w3: "files w3 = files w" "db w3 = db w" and m: "m = int (length c)" for w3 m
      proof (cases "m = ?n")
        case True
        then have "?l = c" using m by simp
        then have "files w3 ?k = Some ?l" using w3 c by simp
        with tail [OF this w3(2)] True len has [OF w3(1)] show ?thesis
          unfolding wp_bnd wp_require by (simp add: wp_simps)
      next
        case False
        have c3: "files w3 ?k = Some c" using c w3 by simp
        show ?thesis
          unfolding wp_bnd wp_require
          by (simp add: wp_simps False, rule wp_weaken [OF truncate_wp [OF c3 r c(2)]])
             (use tail len w3 in \<open>auto dest!: disk_step_world intro!: exI [of _ "[]"]\<close>)
      qed
      show ?thesis
        unfolding wp_bnd [of "map_err (Pair 0) (blob_size ?k)"] wp_map_err
      proof (rule wp_weaken [OF size_wp])
        fix m w3
        assume "m = (case files w2 ?k of None \<Rightarrow> 0 | Some c \<Rightarrow> int (length c)) \<and> disk_step {} w2 w3"
        then have "m = int (length c)" "files w3 = files w" "db w3 = db w"
          using w2 c by (auto simp: disk_step_def fun_eq_iff)
        with cut show "wp (bnd (if m \<noteq> ?n then map_err (Pair 0) (blob_truncate ?k ?n) else ret ()) (\<lambda>_.
         bnd (require (off = ?n) (?n, Msg ''unexpected offset'')) (\<lambda>_.
         bnd (require (off + len \<le> us_expected s) (?n, Msg ''chunk exceeds expected file size'')) (\<lambda>_.
         append_part i s off body len)))) ?Q ?E w3" by blast
      next
        fix e w3
        assume "disk_step {} w2 w3"
        then have "files w3 = files w" using w2 by (auto simp: disk_step_def fun_eq_iff)
        with has [of w3] show "?E (0, e) w3" by simp
      qed
    qed
    have err: "?E (0, e) w'" if "files w' = files w" for e w'
      using has [OF that] by simp
    have row: "wp (bnd (getw clock) (\<lambda>now.
       bnd (require (us_status s = SOpen \<and> now \<le> b_expires b) (0, Msg ''upload session is not open'')) (\<lambda>_.
       bnd (map_err (Pair 0) (blob_size ?k)) (\<lambda>diskSize.
       bnd (if diskSize \<noteq> ?n then map_err (Pair 0) (blob_truncate ?k ?n) else ret ()) (\<lambda>_.
       bnd (require (off = ?n) (?n, Msg ''unexpected offset'')) (\<lambda>_.
       bnd (require (off + len \<le> us_expected s) (?n, Msg ''chunk exceeds expected file size'')) (\<lambda>_.
       append_part i s off body len)))))))
       ?Q ?E w2" if "files w2 = files w" "db w2 = db w" for w2 b
      unfolding wp_bnd [of "getw clock"] wp_getw wp_bnd [of "require _ _"] wp_require
      using body [OF that] err [OF that(1)] by simp
    show ?thesis
    proof (cases "aborted w1 \<or> faulty w1")
      case True
      then show ?thesis
        unfolding chunk_tx_def wp_bnd [of "map_err _ (tx_stmt _)"] wp_map_err wp_tx_stmt
        using w1 has [of w1] has [of "(pop w1)\<lparr>aborted := True\<rparr>"] by auto
    next
      case False
      show ?thesis
      proof (cases "session_row_of i user (db w)")
        case None
        with False w1 has [of "pop w1"] show ?thesis
          unfolding chunk_tx_def wp_bnd [of "map_err _ (tx_stmt _)"] wp_map_err wp_tx_stmt
          by (simp add: row_def)
      next
        case (Some sb)
        then obtain b where b: "sb = (s, b)" "us_user s = user"
          using session_row_ofD [OF _ s dist] by (cases sb) metis
        with Some False w1 row [of "pop w1" b] show ?thesis
          unfolding chunk_tx_def wp_bnd [of "map_err _ (tx_stmt _)"] wp_map_err wp_tx_stmt
          by (simp add: row_def)
      qed
    qed
  qed
  have same: "same_session (db w) s ?l w'" if "db w' = db w" "?has w'" for w'
    using that by (simp add: same_session_def)
  have has0: "?has w'" if "files w' = files w" for w'
    using that c by (metis append_take_drop_id)
  let ?Qf = "\<lambda>n w'. us_user s = user \<and> off = ?n \<and> n = off + len \<and> n \<le> us_expected s \<and> 0 \<le> len
        \<and> int (length (stream_bytes body)) = len
        \<and> db w' = update_session i (\<lambda>s. s\<lparr>us_received := n\<rparr>) (db w)
        \<and> files w' ?k = Some (?l @ stream_bytes body)"
  let ?Ef = "\<lambda>(k, e :: err) w'. (k = 0 \<or> k = ?n) \<and> same_session (db w) s ?l w'"
  have fin: "?Ef (k, e) w'" if "k = 0 \<or> k = ?n" "db w' = db w" "?has w'" for k e w'
    using that same by simp
  have run: "wp (run_tx (\<lambda>e. fail (0, e)) (chunk_tx user i off body len)
      (\<lambda>(newOffset, s) r. case r of
         Inr _ \<Rightarrow> ret newOffset
       | Inl e \<Rightarrow> map_err (Pair (us_received s)) (bnd (undo_chunk s) (\<lambda>_. fail e)))) ?Qf ?Ef w1"
    if w1: "db w1 = db w" "files w1 = files w" and len: "0 \<le> len" for w1
  proof -
    have undone: "wp (map_err (Pair ?n) (bnd (undo_chunk s) (\<lambda>_. fail e))) ?Qf ?Ef w2"
      if "db w2 = db w" "?has w2" for w2 e
    proof -
      have "wp (blob_truncate ?k ?n) (\<lambda>_ w'. ?has w' \<and> disk_step {?k} w2 w') (\<lambda>_ w'. ?has w' \<and> disk_step {?k} w2 w') w2"
        by (rule wp_only [OF _ undo [OF that(2)]]) (auto intro: steps_intros)
      then show ?thesis
        using that(1)
        by (simp add: undo_chunk_def wp_simps, elim wp_weaken) (auto intro!: same dest!: disk_step_world)
    qed
    show ?thesis
      apply (rule wp_run_txI [OF _ tx])
      subgoal using fin [of 0 "pop w1"] has0 [of "pop w1"] w1 by (simp add: wp_simps)
      subgoal using w1 by simp
      subgoal using w1 by simp
      subgoal using len .
      subgoal for x w' using undone [of "rollback (db w1) w'"] w1 by (cases x) auto
      subgoal for x w' using undone [of "rollback (db w1) (pop w')"] w1 by (cases x) auto
      subgoal for x w' by (cases x) (auto simp: wp_simps)
      subgoal for e w' using w1 by (auto intro: same)
      done
  qed
  have still: "same_session (db w) s ?l (w\<lparr>faults := fs\<rparr>)" for fs
    by (rule same) (use has0 [of "w\<lparr>faults := fs\<rparr>"] in simp_all)
  show ?thesis
    unfolding AppendChunk_def wp_bnd wp_require wp_map_err l
    using still [of "faults w"] run
    by (auto intro!: wp_steps [OF pace] simp: used_faults_def still)
qed

lemma chunk_effect:
  assumes "distinct (map us_id (sessions (db w)))" and "receiving w i s" and "quiet pace"
    and "AppendChunk cfg pace user i off body len w = (r, w')"
  shows "case r of
      Inr n \<Rightarrow> let s' = s\<lparr>us_received := n\<rparr> in
        receiving w' i s' \<and> off = us_received s \<and> n = off + int (length (stream_bytes body))
        \<and> landed w' s' = landed w s @ stream_bytes body
    | Inl (k, e) \<Rightarrow> receiving w' i s \<and> landed w' s = landed w s \<and> (k = 0 \<or> k = us_received s)"
proof -
  note rec = assms(2) [unfolded receiving_def]
  have l: "int (length (landed w s)) = us_received s" using rec by (auto simp: landed_def)
  have id: "us_id s = i" using rec by (auto simp: session_of_def dest: find_set)
  note chunk = chunk_wp [OF assms(1,2,3), of cfg user off body len]
  show ?thesis
  proof (cases r)
    case (Inl ke)
    obtain k e where ke: "ke = (k, e)" by (cases ke)
    from wp_InlD [OF chunk assms(4) [unfolded Inl]] obtain t where "db w' = db w"
      "files w' (us_key s) = Some (landed w s @ t)" "k = 0 \<or> k = us_received s"
      by (auto simp: ke same_session_def)
    with rec l show ?thesis by (auto simp: Inl ke receiving_def landed_def)
  next
    case (Inr n)
    from wp_InrD [OF chunk assms(4) [unfolded Inr]]
    have n: "off = us_received s" "n = off + len" "n \<le> us_expected s" "0 \<le> len" "int (length (stream_bytes body)) = len"
      "db w' = update_session i (\<lambda>s. s\<lparr>us_received := n\<rparr>) (db w)"
      "files w' (us_key s) = Some (landed w s @ stream_bytes body)" by blast+
    moreover have "session_of (db w') i = Some (s\<lparr>us_received := n\<rparr>)"
      using rec id by (simp add: n(6) session_of_update)
    moreover have "landed w' (s\<lparr>us_received := n\<rparr>) = landed w s @ stream_bytes body"
      using n l by (simp add: landed_def [of w'])
    moreover have "0 \<le> n" using rec n by simp
    ultimately show ?thesis using l by (auto simp: Inr Let_def receiving_def)
  qed
qed

text \<open>
  C2: chunked uploads are exact under any failures. Whatever the schedule of failures,
  a call of \<open>AppendChunk\<close> for a session that is receiving leaves it receiving. If it is
  accepted, its offset was the session's, its body had exactly the announced length, and
  what has landed grows by exactly the body; if it is refused or fails, what has landed
  is unchanged and the offset returned is 0 or the one to go on from.
\<close>

theorem chunk_exact:
  assumes "distinct (map us_id (sessions (db w)))" and "receiving w i s" and "quiet pace"
    and "AppendChunk cfg pace user i off body len w = (r, w')"
  shows "case r of
      Inr n \<Rightarrow> let s' = s\<lparr>us_received := n\<rparr> in
        receiving w' i s' \<and> off = us_received s \<and> n = off + int (length (stream_bytes body))
        \<and> landed w' s' = landed w s @ stream_bytes body
    | Inl (k, e) \<Rightarrow> receiving w' i s \<and> landed w' s = landed w s \<and> (k = 0 \<or> k = us_received s)"
  by (rule chunk_effect [OF assms])

end
