(* ===== verification/Completion.thy ===== *)
theory Completion
  imports Chunks
begin

text \<open>
  What a completed upload is, and what it does to the books: the effect of the
  transaction of \<open>CompleteFile\<close>, whenever it succeeds.
\<close>

section \<open>Frames\<close>

text \<open>\<open>same g m\<close>: \<open>m\<close> leaves the part \<open>g\<close> of the state as it is.\<close>

abbreviation same :: "(world \<Rightarrow> 'b) \<Rightarrow> world \<Rightarrow> world \<Rightarrow> bool" where
  "same g w w' \<equiv> g w' = g w"

lemma preorder_same: "preorder (same g)"
  by (rule preorderI) simp_all

lemma wp_True [simp]: "wp m (\<lambda>_ _. True) (\<lambda>_ _. True) w"
  by (auto simp: wp_def split: prod.splits sum.splits)

lemma wp_same:
  assumes "steps (same g) m" and "\<And>x w'. g w' = g w \<Longrightarrow> Q x w'"
  shows "wp m Q (\<lambda>_ _. True) w"
  by (rule wp_steps [OF assms(1)]) (use assms(2) in auto)

text \<open>The parts of the state that the books and the entries are in.\<close>

definition books :: "database \<Rightarrow> user_row list \<times> batch_row list \<times> session_row list" where
  "books d = (users d, batches d, sessions d)"

section \<open>The steps of the transaction\<close>

lemma open_wp:
  "wp (blob_open k) (\<lambda>c w'. files w k = Some c \<and> disk_step {} w w') (\<lambda>_ w'. disk_step {} w w') w"
proof -
  have "wp (blob_open k) (\<lambda>c w'. files w k = Some c) (\<lambda>_ _. True) w"
    by (auto simp: blob_open_def by_key_def st_open_def os_read_def wp_simps wp_oscall split: option.splits)
  then have "wp (blob_open k) (\<lambda>c w'. files w k = Some c \<and> disk_step {} w w') (\<lambda>_ w'. True \<and> disk_step {} w w') w"
    by (rule wp_only [rotated]) (rule steps_intros)
  then show ?thesis by simp
qed

lemma disk_step_none: "disk_step {} w w' \<Longrightarrow> files w' = files w \<and> db w' = db w \<and> aborted w' = aborted w
   \<and> clock w' = clock w \<and> fresh w' = fresh w"
  by (auto simp: disk_step_def)

lemma finalize_wp:
  assumes "files w a = Some c" and "a \<noteq> b"
  shows "wp (blob_finalize a b)
     (\<lambda>_ w'. files w' b = Some c \<and> disk_step {a, b} w w') (\<lambda>_ _. True) w"
proof -
  have "wp (blob_finalize a b) (\<lambda>_ w'. files w' b = Some c) (\<lambda>_ _. True) w"
    using assms
    by (auto simp: blob_finalize_def by_key_def st_finalize_def os_mkdir_def os_rename_def os_read_def os_create_def
        os_append_def os_remove_def wp_simps wp_oscall split: option.splits)
  then have "wp (blob_finalize a b) (\<lambda>_ w'. files w' b = Some c \<and> disk_step {a, b} w w')
      (\<lambda>_ w'. True \<and> disk_step {a, b} w w') w"
    by (rule wp_only [rotated]) (auto intro: steps_intros)
  then show ?thesis by (rule wp_weaken) auto
qed

lemma check_wp:
  "wp (complete_check sha user i)
     (\<lambda>(s, hash) w'. db w' = db w \<and> files w' = files w \<and> fresh w' = fresh w \<and> clock w' = clock w \<and> aborted w' = aborted w
        \<and> open_session i user (db w) = Some s \<and> us_received s = us_expected s
        \<and> (\<exists>c. files w (us_key s) = Some c \<and> int (length c) = us_expected s \<and> hash = sha c)
        \<and> (us_hash s = [] \<or> equal_fold hash (us_hash s)))
     (\<lambda>_ _. True) w"
proof -
  have open_hash: "wp (hashStorageKey sha k) (\<lambda>h w'. (\<exists>c. files w1 k = Some c \<and> h = sha c) \<and> files w' = files w1
       \<and> db w' = db w1 \<and> fresh w' = fresh w1 \<and> clock w' = clock w1 \<and> aborted w' = aborted w1) (\<lambda>_ _. True) w1" for k w1
    unfolding hashStorageKey_def wp_bnd
    by (rule wp_weaken [OF open_wp]) (auto simp: wp_simps wp_oscall dest: disk_step_none)
  have sized: "wp (bnd (blob_size (us_key s)) (\<lambda>diskSize.
     bnd (require (diskSize = us_expected s) (Msg ''temporary file size mismatch'')) (\<lambda>_.
     bnd (hashStorageKey sha (us_key s)) (\<lambda>hash.
     bnd (require (us_hash s = [] \<or> equal_fold hash (us_hash s)) (Msg ''content hash mismatch'')) (\<lambda>_.
     ret (s, hash))))))
     (\<lambda>(s', hash) w'. s' = s \<and> db w' = db w1 \<and> files w' = files w1 \<and> fresh w' = fresh w1 \<and> clock w' = clock w1
        \<and> aborted w' = aborted w1
        \<and> (\<exists>c. files w1 (us_key s) = Some c \<and> int (length c) = us_expected s \<and> hash = sha c)
        \<and> (us_hash s = [] \<or> equal_fold hash (us_hash s))) (\<lambda>_ _. True) w1" for s w1
    unfolding wp_bnd wp_require
    apply (rule wp_weaken [OF size_wp])
    subgoal for n w2
      using open_hash [of "us_key s" w2]
      by (auto simp: wp_simps elim!: wp_weaken dest!: disk_step_none)
    subgoal by simp
    done
  show ?thesis
    unfolding complete_check_def wp_bnd [of "map_err _ _"] wp_map_err wp_tx_stmt wp_bnd [of "require _ _"] wp_require
    by (auto simp: row_def split: option.splits intro!: wp_weaken [OF sized])
qed

text \<open>The frame rules for what the transaction does besides.\<close>

lemma same_tx_stmt:
  assumes "\<And>w x w'. f w = Inr (x, w') \<Longrightarrow> g w' = g w"
    and "\<And>w. g (pop w) = g w" and "\<And>w b. g (w\<lparr>aborted := b\<rparr>) = g w"
  shows "steps (same g) (tx_stmt f)"
proof (rule stepsI)
  fix w
  have "g w' = g w" if "f (pop w) = Inr (x, w')" for x w'
    using assms(1) [OF that] assms(2) by simp
  then show "g (snd (tx_stmt f w)) = g w"
    by (auto simp: tx_stmt_def assms(2,3) split: sum.splits)
qed

definition core :: "world \<Rightarrow> (skey \<Rightarrow> string option) \<times> int \<times> file_entry list \<times> (user_row list \<times> batch_row list \<times> session_row list)" where
  "core w = (files w, clock w, entries (db w), books (db w))"

lemma core_simps [simp]: "core (pop w) = core w" "core (w\<lparr>aborted := b\<rparr>) = core w"
  by (simp_all add: core_def)

lemma old_wp: "wp (complete_old user s) (\<lambda>_ w'. core w' = core w \<and> fresh w \<le> fresh w') (\<lambda>_ _. True) w"
proof -
  have row: "steps (same core) (tx_stmt (row g))" for g :: "database \<Rightarrow> file_entry option"
    by (rule same_tx_stmt) (auto simp: row_def split: option.splits)
  have ver: "steps (same core) (add_version f user)" for f
    unfolding add_version_def
    by (rule same_tx_stmt) (auto simp: core_def books_def Let_def split: if_splits)
  have "steps (same core) (complete_old user s)"
    unfolding complete_old_def by (intro steps_intros preorder_same row ver)
  moreover have "steps (\<lambda>w w'. fresh w \<le> fresh w') (complete_old user s)"
  proof -
    have pre: "preorder (\<lambda>w w' :: world. fresh w \<le> fresh w')" by (rule preorderI) auto
    then have tx: "tx_rel (\<lambda>w w'. fresh w \<le> fresh w')" by (simp add: tx_rel_def)
    show ?thesis
      unfolding complete_old_def add_version_def
      by (auto intro!: steps_intros pre steps_tx_stmt [OF tx] simp: row_def Let_def split: option.splits if_splits)
  qed
  ultimately show ?thesis
    by (auto intro!: wp_steps [where R = "\<lambda>w w'. core w' = core w \<and> fresh w \<le> fresh w'"] simp: steps_def)
qed

definition completed :: "session_row \<Rightarrow> skey \<Rightarrow> string \<Rightarrow> file_entry \<Rightarrow> bool" where
  "completed s key hash e \<longleftrightarrow> fe_key e = key \<and> fe_size e = us_expected s \<and> fe_hash e = hash"

lemma find_in_map: "entry_of d t = Some f \<Longrightarrow> g f \<in> set (map (\<lambda>x. if fe_id x = t then g x else x) (entries d))"
  unfolding entry_of_def by (drule find_set) (auto simp: image_iff intro!: bexI [of _ f])

lemma entry_wp:
  "wp (complete_entry user s key hash)
     (\<lambda>e w'. completed s key hash e \<and> e \<in> set (entries (db w')) \<and> files w' = files w \<and> clock w' = clock w
        \<and> books (db w') = books (db w)) (\<lambda>_ _. True) w"
proof (cases "us_target s")
  case None
  have "wp (create_entry user dr s key hash)
     (\<lambda>e w'. completed s key hash e \<and> e \<in> set (entries (db w')) \<and> files w' = files w1 \<and> clock w' = clock w1
        \<and> books (db w') = books (db w1)) (\<lambda>_ _. True) w1" for dr w1
    by (auto simp: create_entry_def wp_simps Let_def insert_entry_def completed_def entry_row_def books_def
        split: option.splits if_splits)
  note create = this
  show ?thesis
    unfolding complete_entry_def None option.case wp_bnd wp_result wp_tx_stmt
    by (auto simp: row_def split: option.splits intro!: wp_weaken [OF create])
next
  case (Some t)
  show ?thesis
    unfolding complete_entry_def Some option.case replace_entry_def wp_tx_stmt
    by (auto simp: modify_entries_def Let_def completed_def uploaded_def books_def
        split: option.splits if_splits dest: find_in_map [where g = "uploaded s key hash (clock w)"])
qed

lemma wp_seq:
  assumes "wp m Q1 E1 w" and "\<And>x w'. Q1 x w' \<Longrightarrow> wp (f x) Q E w'" and "\<And>e w'. E1 e w' \<Longrightarrow> E e w'"
  shows "wp (bnd m f) Q E w"
  unfolding wp_bnd by (rule wp_weaken [OF assms(1)]) (use assms in auto)

lemma entry_on_err:
  "wp (on_err (complete_entry user s key hash) h)
     (\<lambda>e w'. completed s key hash e \<and> e \<in> set (entries (db w')) \<and> files w' = files w \<and> clock w' = clock w
        \<and> books (db w') = books (db w)) (\<lambda>_ _. True) w"
  unfolding wp_on_err by (rule wp_weaken [OF entry_wp]) simp_all

text \<open>The books after the transaction.\<close>

definition settled :: "uuid \<Rightarrow> uuid \<Rightarrow> session_row \<Rightarrow> int \<Rightarrow> database \<Rightarrow> database" where
  "settled user i s oldSize d = settle_batch (us_batch s) (us_expected s)
     (update_user user (settle_user (us_expected s) oldSize)
       (update_session i (\<lambda>s. s\<lparr>us_status := SComplete\<rparr>) d))"

lemma books_settled: "books d = books d' \<Longrightarrow> books (settled user i s oldSize d) = books (settled user i s oldSize d')"
  by (simp add: books_def settled_def settle_batch_def update_batch_def update_user_def update_session_def)

lemma entries_settled: "entries (settled user i s oldSize d) = entries d"
  by (simp add: settled_def settle_batch_def update_batch_def update_user_def update_session_def)

lemma settle_wp:
  "wp (complete_settle user i s key oldSize e)
     (\<lambda>_ w'. files w' = files w \<and> entries (db w') = entries (db w) \<and> books (db w') = books (settled user i s oldSize (db w)))
     (\<lambda>_ _. True) w"
  by (simp add: complete_settle_def wp_simps Append_def Let_def settled_def books_def
      settle_batch_def update_batch_def update_user_def update_session_def)

lemma completion_wp:
  "wp (complete_tx sha user i)
     (\<lambda>(e, key, replacing) w'. \<exists>s c oldSize k. open_session i user (db w) = Some s
        \<and> us_received s = us_expected s \<and> files w (us_key s) = Some c \<and> int (length c) = us_expected s
        \<and> (us_hash s = [] \<or> equal_fold (sha c) (us_hash s))
        \<and> key = UserKey user (day_of (clock w)) k \<and> fresh w \<le> k
        \<and> (key \<noteq> us_key s \<longrightarrow> completed s key (sha c) e \<and> e \<in> set (entries (db w')) \<and> files w' key = Some c
             \<and> (\<forall>p. p \<noteq> us_key s \<longrightarrow> p \<noteq> key \<longrightarrow> files w' p = files w p))
        \<and> books (db w') = books (settled user i s oldSize (db w)))
     (\<lambda>_ _. True) w"
  unfolding complete_tx_def
proof (rule wp_seq [OF check_wp], clarify)
  fix s hash c and w1 :: world
  assume pre: "db w1 = db w" "files w1 = files w" "fresh w1 = fresh w" "clock w1 = clock w" "aborted w1 = aborted w"
    "open_session i user (db w) = Some s" "us_received s = us_expected s"
    "files w (us_key s) = Some c" "int (length c) = us_expected s"
    and hash: "us_hash s = [] \<or> equal_fold (sha c) (us_hash s)"
  let ?Q = "\<lambda>(e, key, replacing) w'. \<exists>s c oldSize k. open_session i user (db w) = Some s
        \<and> us_received s = us_expected s \<and> files w (us_key s) = Some c \<and> int (length c) = us_expected s
        \<and> (us_hash s = [] \<or> equal_fold (sha c) (us_hash s))
        \<and> key = UserKey user (day_of (clock w)) k \<and> fresh w \<le> k
        \<and> (key \<noteq> us_key s \<longrightarrow> completed s key (sha c) e \<and> e \<in> set (entries (db w')) \<and> files w' key = Some c
             \<and> (\<forall>p. p \<noteq> us_key s \<longrightarrow> p \<noteq> key \<longrightarrow> files w' p = files w p))
        \<and> books (db w') = books (settled user i s oldSize (db w))"
  show "wp (bnd (complete_old user s) (\<lambda>oldSize.
     bnd (getw clock) (\<lambda>now.
     bnd new_uuid (\<lambda>k.
     let key = UserKey user (day_of now) k in
     bnd (blob_finalize (us_key s) key) (\<lambda>_.
     bnd (on_err (complete_entry user s key (sha c)) (blob_delete key)) (\<lambda>e.
     bnd (complete_settle user i s key oldSize e) (\<lambda>_.
     ret (e, key, us_target s \<noteq> None)))))))) ?Q (\<lambda>_ _. True) w1"
  proof (rule wp_seq [OF old_wp])
    fix oldSize and w2 :: world
    assume w2: "core w2 = core w1 \<and> fresh w1 \<le> fresh w2"
    let ?k = "fresh w2" let ?key = "UserKey user (day_of (clock w2)) ?k"
    let ?w2 = "w2\<lparr>fresh := Suc ?k\<rparr>"
    have c2: "files ?w2 (us_key s) = Some c" "clock w2 = clock w" "entries (db w2) = entries (db w)"
      "books (db w2) = books (db w)" "files w2 = files w" "fresh w \<le> ?k"
      using w2 pre by (auto simp: core_def)
    have fin: "wp (blob_finalize (us_key s) ?key)
       (\<lambda>_ w3. (?key \<noteq> us_key s \<longrightarrow> files w3 ?key = Some c) \<and> disk_step {us_key s, ?key} ?w2 w3) (\<lambda>_ _. True) ?w2"
    proof (cases "us_key s = ?key")
      case True
      have "only {us_key s, ?key} (blob_finalize (us_key s) ?key)" by (rule steps_intros) auto
      then show ?thesis using True by (intro wp_steps) auto
    next
      case False
      show ?thesis by (rule wp_weaken [OF finalize_wp [OF c2(1) False]]) auto
    qed
    have rest: "wp (bnd (on_err (complete_entry user s ?key (sha c)) (blob_delete ?key)) (\<lambda>e.
       bnd (complete_settle user i s ?key oldSize e) (\<lambda>_. ret (e, ?key, us_target s \<noteq> None)))) ?Q (\<lambda>_ _. True) w3"
      if w3: "?key \<noteq> us_key s \<longrightarrow> files w3 ?key = Some c" "disk_step {us_key s, ?key} ?w2 w3" for w3
    proof -
      have d3: "db w3 = db w2" "\<And>p. p \<noteq> us_key s \<Longrightarrow> p \<noteq> ?key \<Longrightarrow> files w3 p = files w p"
        using w3(2) c2(5) by (auto simp: disk_step_def)
      show ?thesis
      proof (rule wp_seq [OF entry_on_err])
        fix e and w4 :: world
        assume w4: "completed s ?key (sha c) e \<and> e \<in> set (entries (db w4)) \<and> files w4 = files w3 \<and> clock w4 = clock w3
          \<and> books (db w4) = books (db w3)"
        have bk: "books (settled user i s oldSize (db w4)) = books (settled user i s oldSize (db w))"
          by (rule books_settled) (use w4 d3 c2 in simp)
        show "wp (bnd (complete_settle user i s ?key oldSize e) (\<lambda>_. ret (e, ?key, us_target s \<noteq> None))) ?Q (\<lambda>_ _. True) w4"
          by (rule wp_seq [OF settle_wp])
             (use w3(1) w4 d3 c2 pre hash bk in \<open>auto simp: wp_ret\<close>)
      qed simp
    qed
    have "wp (bnd (blob_finalize (us_key s) ?key) (\<lambda>_.
          bnd (on_err (complete_entry user s ?key (sha c)) (blob_delete ?key)) (\<lambda>e.
          bnd (complete_settle user i s ?key oldSize e) (\<lambda>_. ret (e, ?key, us_target s \<noteq> None))))) ?Q (\<lambda>_ _. True) ?w2"
      by (rule wp_seq [OF fin]) (use rest in auto)
    then show "wp (bnd (getw clock) (\<lambda>now.
     bnd new_uuid (\<lambda>k.
     let key = UserKey user (day_of now) k in
     bnd (blob_finalize (us_key s) key) (\<lambda>_.
     bnd (on_err (complete_entry user s key (sha c)) (blob_delete key)) (\<lambda>e.
     bnd (complete_settle user i s key oldSize e) (\<lambda>_.
     ret (e, key, us_target s \<noteq> None))))))) ?Q (\<lambda>_ _. True) w2"
      by (simp add: wp_getw wp_new_uuid Let_def wp_bnd)
  qed simp
qed simp

definition tx_done :: "(string \<Rightarrow> string) \<Rightarrow> uuid \<Rightarrow> uuid \<Rightarrow> world \<Rightarrow> file_entry \<Rightarrow> skey \<Rightarrow> world \<Rightarrow> bool" where
  "tx_done sha user i w e key w' \<longleftrightarrow> (\<exists>s c oldSize k. open_session i user (db w) = Some s
        \<and> us_received s = us_expected s \<and> files w (us_key s) = Some c \<and> int (length c) = us_expected s
        \<and> (us_hash s = [] \<or> equal_fold (sha c) (us_hash s))
        \<and> key = UserKey user (day_of (clock w)) k \<and> fresh w \<le> k
        \<and> (key \<noteq> us_key s \<longrightarrow> completed s key (sha c) e \<and> e \<in> set (entries (db w')) \<and> files w' key = Some c
             \<and> (\<forall>p. p \<noteq> us_key s \<longrightarrow> p \<noteq> key \<longrightarrow> files w' p = files w p))
        \<and> books (db w') = books (settled user i s oldSize (db w)))"

lemma completion_done:
  "wp (complete_tx sha user i) (\<lambda>x. tx_done sha user i w (fst x) (fst (snd x))) (\<lambda>_ _. True) w"
  apply (rule wp_weaken [OF completion_wp])
  subgoal for x w' by (cases x) (simp only: prod.case fst_conv snd_conv tx_done_def)
  subgoal by simp
  done

section \<open>The whole operation\<close>

text \<open>Pruning versions touches no row but versions, and no blob of an entry.\<close>

definition entries_safe :: "world \<Rightarrow> world \<Rightarrow> bool" where
  "entries_safe w w' \<longleftrightarrow> entries (db w') = entries (db w) \<and> books (db w') = books (db w)
     \<and> (\<forall>e \<in> set (entries (db w)). files w' (fe_key e) = files w (fe_key e))"

lemma preorder_entries_safe: "preorder entries_safe"
  by (rule preorderI) (auto simp: entries_safe_def)

lemma safe_gc: "steps entries_safe (DeleteUnreferenced keys)"
  by (rule steps_weaken [OF gc_steps]) (auto simp: gc_step_def entries_safe_def referenced_def)

lemma safe_prune: "steps entries_safe (PruneVersions i n)"
proof -
  have "steps entries_safe (db_stmt (\<lambda>w.
       let old = pruned i (nat n) (db w);
           w' = w\<lparr>db := (db w)\<lparr>versions := filter (\<lambda>v. v_id v \<notin> v_id ` set old) (versions (db w))\<rparr>\<rparr>
       in Inr (map v_key old, w')))"
    by (rule stepsI) (simp add: db_stmt_def Let_def entries_safe_def books_def)
  then show ?thesis unfolding PruneVersions_def by (intro steps_intros preorder_entries_safe safe_gc)
qed

definition tmp_keys :: "database \<Rightarrow> bool" where
  "tmp_keys d \<longleftrightarrow> (\<forall>s \<in> set (sessions d). \<exists>u b k. us_key s = TmpKey u b k)"

lemma CompleteFile_wp:
  assumes "tmp_keys (db w)"
  shows "wp (CompleteFile sha user i)
     (\<lambda>e w'. \<exists>s c oldSize. open_session i user (db w) = Some s
        \<and> us_received s = us_expected s \<and> files w (us_key s) = Some c \<and> int (length c) = us_expected s
        \<and> (us_hash s = [] \<or> equal_fold (sha c) (us_hash s))
        \<and> completed s (fe_key e) (sha c) e \<and> e \<in> set (entries (db w')) \<and> files w' (fe_key e) = Some c
        \<and> books (db w') = books (settled user i s oldSize (db w)))
     (\<lambda>_ _. True) w"
  unfolding CompleteFile_def
proof (rule wp_run_txI [OF _ completion_done])
  fix x :: "file_entry \<times> skey \<times> bool" and w1 :: world
  let ?w = "(pop w)\<lparr>aborted := False\<rparr>"
  assume "tx_done sha user i ?w (fst x) (fst (snd x)) w1"
  then obtain e key replacing s c oldSize k where x: "x = (e, key, replacing)" and s: "open_session i user (db w) = Some s"
    and pre: "us_received s = us_expected s" "files w (us_key s) = Some c" "int (length c) = us_expected s"
        "us_hash s = [] \<or> equal_fold (sha c) (us_hash s)" and key: "key = UserKey user (day_of (clock w)) k"
    and post: "key \<noteq> us_key s \<longrightarrow> completed s key (sha c) e \<and> e \<in> set (entries (db w1)) \<and> files w1 key = Some c"
    and bk: "books (db w1) = books (settled user i s oldSize (db w))"
    by (cases x) (simp add: tx_done_def, blast)
  have "s \<in> set (sessions (db w))" using s unfolding open_session_def by (auto dest: find_set)
  with assms key have "key \<noteq> us_key s" by (auto simp: tmp_keys_def)
  with post have post: "completed s key (sha c) e" "e \<in> set (entries (db w1))" "files w1 key = Some c" by auto
  have key': "fe_key e = key" using post(1) by (simp add: completed_def)
  let ?Q = "\<lambda>e w'. \<exists>s c oldSize. open_session i user (db w) = Some s
        \<and> us_received s = us_expected s \<and> files w (us_key s) = Some c \<and> int (length c) = us_expected s
        \<and> (us_hash s = [] \<or> equal_fold (sha c) (us_hash s))
        \<and> completed s (fe_key e) (sha c) e \<and> e \<in> set (entries (db w')) \<and> files w' (fe_key e) = Some c
        \<and> books (db w') = books (settled user i s oldSize (db w))"
  have fin: "?Q e w'" if "entries_safe w1 w'" for w'
    using that s pre post key' bk unfolding entries_safe_def by metis
  have "entries_safe w1 w'" if "entries_safe (pop w1) w'" for w'
    using that by (simp add: entries_safe_def)
  then have "wp (if replacing then bnd (ignore (PruneVersions (fe_id e) 20)) (\<lambda>_. ret e) else ret e) ?Q (\<lambda>_ _. True) (pop w1)"
    using wp_steps [OF safe_prune, of "pop w1" "\<lambda>_. ?Q e" "\<lambda>_. ?Q e"] fin
    by (auto simp: wp_simps entries_safe_def)
  then show "wp ((case x of (e, key, replacing) \<Rightarrow> \<lambda>r. case r of
         Inl x \<Rightarrow> bnd (ignore (blob_delete key)) (\<lambda>_. fail x)
       | Inr _ \<Rightarrow> if replacing then bnd (ignore (PruneVersions (fe_id e) 20)) (\<lambda>_. ret e) else ret e) (Inr ()))
       ?Q (\<lambda>_ _. True) (pop w1)"
    by (simp add: x)
qed (auto simp: wp_simps split: prod.splits)

text \<open>
  C3: a file that completes is the file that was uploaded, under any failures: the entry
  that \<open>CompleteFile\<close> returns is in the table, its blob is what the session received,
  all of it, its size and hash are those of this content, and the hash the client
  announced, if any, is it.
\<close>

theorem complete_exact:
  assumes "tmp_keys (db w)" and "CompleteFile sha user i w = (Inr e, w')"
  shows "\<exists>s c. open_session i user (db w) = Some s \<and> files w (us_key s) = Some c
    \<and> us_received s = int (length c) \<and> us_expected s = int (length c)
    \<and> e \<in> set (entries (db w')) \<and> files w' (fe_key e) = Some c
    \<and> fe_size e = int (length c) \<and> fe_hash e = sha c
    \<and> (us_hash s = [] \<or> equal_fold (fe_hash e) (us_hash s))"
  using wp_InrD [OF CompleteFile_wp [OF assms(1)] assms(2)]
  by (auto simp: completed_def)

end
