(* ===== verification/Accounting.thy ===== *)
theory Accounting
  imports Completion
begin

text \<open>
  The books of the uploads: what a batch and a user have reserved is exactly the sum of
  the expected sizes of the open sessions, after every operation and under any failures.
\<close>

section \<open>The invariant\<close>

definition reserved_in :: "session_row list \<Rightarrow> uuid \<Rightarrow> int" where
  "reserved_in ss i = sum_list (map (\<lambda>s. if us_batch s = i \<and> us_status s = SOpen then us_expected s else 0) ss)"

definition reserved_by :: "batch_row list \<Rightarrow> uuid \<Rightarrow> int" where
  "reserved_by bs u = sum_list (map (\<lambda>b. if b_user b = u then b_reserved b else 0) bs)"

definition has_open :: "session_row list \<Rightarrow> uuid \<Rightarrow> bool" where
  "has_open ss i \<longleftrightarrow> (\<exists>s \<in> set ss. us_batch s = i \<and> us_status s = SOpen)"

definition acct :: "uuid \<Rightarrow> user_row list \<times> batch_row list \<times> session_row list \<Rightarrow> bool" where
  "acct n = (\<lambda>(us, bs, ss).
     distinct (map u_id us) \<and> distinct (map b_id bs) \<and> distinct (map us_id ss)
   \<and> (\<forall>b \<in> set bs. b_id b < n \<and> b_reserved b = reserved_in ss (b_id b) \<and> (has_open ss (b_id b) \<longrightarrow> b_status b = BOpen))
   \<and> (\<forall>s \<in> set ss. us_id s < n \<and> 0 \<le> us_expected s \<and> (\<exists>b \<in> set bs. b_id b = us_batch s \<and> b_user b = us_user s))
   \<and> (\<forall>u \<in> set us. u_reserved u = reserved_by bs (u_id u)))"

lemma acct_fresh: "acct n x \<Longrightarrow> n \<le> m \<Longrightarrow> acct m x"
  unfolding acct_def by (cases x) fastforce

lemma reserved_in_nonneg: "\<forall>s \<in> set ss. 0 \<le> us_expected s \<Longrightarrow> 0 \<le> reserved_in ss i"
  unfolding reserved_in_def by (rule sum_list_nonneg) auto

lemma reserved_in_ge:
  "\<forall>s \<in> set ss. 0 \<le> us_expected s \<Longrightarrow> s \<in> set ss \<Longrightarrow> us_status s = SOpen \<Longrightarrow> us_expected s \<le> reserved_in ss (us_batch s)"
proof (induction ss)
  case (Cons t ss)
  then show ?case
    using reserved_in_nonneg [of ss "us_batch s"] by (auto simp: reserved_in_def)
qed simp

lemma reserved_by_ge:
  "\<forall>b \<in> set bs. 0 \<le> b_reserved b \<Longrightarrow> b \<in> set bs \<Longrightarrow> b_reserved b \<le> reserved_by bs (b_user b)"
proof (induction bs)
  case (Cons t bs)
  have "0 \<le> reserved_by bs (b_user b)"
    unfolding reserved_by_def by (rule sum_list_nonneg) (use Cons.prems in auto)
  with Cons show ?case by (auto simp: reserved_by_def)
qed simp

text \<open>Changing one row of a batch changes the sum of its user by the difference.\<close>

lemma reserved_by_upd:
  assumes "distinct (map b_id bs)" and "b \<in> set bs" and "\<And>b. b_user (f b) = b_user b"
  shows "reserved_by (map (\<lambda>x. if b_id x = b_id b then f x else x) bs) u
       = reserved_by bs u + (if b_user b = u then b_reserved (f b) - b_reserved b else 0)"
  unfolding reserved_by_def
  using sum_list_map_upd [OF assms(1,2), of "\<lambda>b. if b_user b = u then b_reserved b else 0" f] assms(3) by auto

lemma reserved_in_upd:
  assumes "distinct (map us_id ss)" and "s \<in> set ss" and "us_status s = SOpen"
  shows "reserved_in (map (\<lambda>x. if us_id x = us_id s then x\<lparr>us_status := SComplete\<rparr> else x) ss) i
       = reserved_in ss i - (if us_batch s = i then us_expected s else 0)"
  unfolding reserved_in_def
  using sum_list_map_upd [OF assms(1,2), of "\<lambda>s. if us_batch s = i \<and> us_status s = SOpen then us_expected s else 0"
    "\<lambda>x. x\<lparr>us_status := SComplete\<rparr>"] assms(3) by auto

lemma reserved_in_close:
  "st \<noteq> SOpen \<Longrightarrow> reserved_in (map (\<lambda>s. if us_batch s = i \<and> us_status s = SOpen then s\<lparr>us_status := st\<rparr> else s) ss) j
     = (if j = i then 0 else reserved_in ss j)"
  by (induction ss) (auto simp: reserved_in_def)

lemma reserved_in_none: "(\<And>s. s \<in> set ss \<Longrightarrow> us_batch s \<noteq> i) \<Longrightarrow> reserved_in ss i = 0"
  by (induction ss) (auto simp: reserved_in_def)

section \<open>Completing a session\<close>

lemma acct_settled:
  assumes ok: "acct n (books d)" and s: "open_session i user d = Some s"
  shows "acct n (books (settled user i s oldSize d))"
proof -
  have s': "s \<in> set (sessions d)" "us_id s = i" "us_user s = user" "us_status s = SOpen"
    using s unfolding open_session_def by (auto dest: find_set)
  note inv = ok [unfolded acct_def books_def prod.case]
  obtain b where b: "b \<in> set (batches d)" "b_id b = us_batch s" "b_user b = user"
    using inv s'(1,3) by blast
  have nonneg: "\<forall>s \<in> set (sessions d). 0 \<le> us_expected s" using inv by blast
  have bres: "\<forall>b \<in> set (batches d). 0 \<le> b_reserved b" using inv reserved_in_nonneg [OF nonneg] by auto
  have ge: "us_expected s \<le> b_reserved b"
    using reserved_in_ge [OF nonneg s'(1,4)] inv b(1,2) by simp
  have uge: "us_expected s \<le> reserved_by (batches d) user"
    using ge reserved_by_ge [OF bres b(1)] b(3) by simp
  let ?ss = "map (\<lambda>x. if us_id x = i then x\<lparr>us_status := SComplete\<rparr> else x) (sessions d)"
  let ?f = "\<lambda>x. x\<lparr>b_reserved := max 0 (b_reserved x - us_expected s),
     b_status := (if has_open ?ss (us_batch s) then b_status x else BDone)\<rparr>"
  let ?bs = "map (\<lambda>x. if b_id x = us_batch s then ?f x else x) (batches d)"
  let ?us = "map (\<lambda>x. if u_id x = user then settle_user (us_expected s) oldSize x else x) (users d)"
  have bk: "books (settled user i s oldSize d) = (?us, ?bs, ?ss)"
    by (simp add: settled_def settle_batch_def update_batch_def update_user_def update_session_def books_def has_open_def)
  have ss: "reserved_in ?ss j = reserved_in (sessions d) j - (if us_batch s = j then us_expected s else 0)" for j
    using reserved_in_upd [OF _ s'(1,4), of j] inv s'(2) by auto
  have bs: "reserved_by ?bs u = reserved_by (batches d) u - (if user = u then us_expected s else 0)" for u
    using reserved_by_upd [OF _ b(1), of ?f u] inv b ge by auto
  have open_sub: "has_open ?ss j \<Longrightarrow> has_open (sessions d) j" for j
    by (auto simp: has_open_def split: if_splits)
  have users: "\<forall>u \<in> set ?us. u_reserved u = reserved_by ?bs (u_id u)"
  proof
    fix u assume "u \<in> set ?us"
    then obtain v where v: "v \<in> set (users d)" "u = (if u_id v = user then settle_user (us_expected s) oldSize v else v)" by auto
    have "u_reserved v = reserved_by (batches d) (u_id v)" using inv v(1) by blast
    then show "u_reserved u = reserved_by ?bs (u_id u)"
      unfolding bs using v(2) uge by (auto simp: settle_user_def)
  qed
  have batch: "b_id x < n \<and> b_reserved x = reserved_in ?ss (b_id x) \<and> (has_open ?ss (b_id x) \<longrightarrow> b_status x = BOpen)"
    if mem: "x \<in> set ?bs" for x
  proof -
    obtain y where y: "y \<in> set (batches d)" "x = (if b_id y = us_batch s then ?f y else y)"
      using mem by auto
    have iy: "b_id y < n" "b_reserved y = reserved_in (sessions d) (b_id y)"
      "has_open (sessions d) (b_id y) \<longrightarrow> b_status y = BOpen" using inv y(1) by blast+
    have gey: "b_id y = us_batch s \<Longrightarrow> us_expected s \<le> b_reserved y"
      using reserved_in_ge [OF nonneg s'(1,4)] iy(2) by simp
    show ?thesis
      using iy gey open_sub [of "b_id y"] y(2) unfolding ss by auto
  qed
  have sess: "us_id x < n \<and> 0 \<le> us_expected x \<and> (\<exists>b \<in> set ?bs. b_id b = us_batch x \<and> b_user b = us_user x)"
    if mem: "x \<in> set ?ss" for x
  proof -
    obtain y where y: "y \<in> set (sessions d)" "us_id x = us_id y" "us_expected x = us_expected y" "us_batch x = us_batch y"
      "us_user x = us_user y" using mem by auto
    then obtain c where "c \<in> set (batches d)" "b_id c = us_batch x" "b_user c = us_user x" using inv by metis
    then have "\<exists>b \<in> set ?bs. b_id b = us_batch x \<and> b_user b = us_user x"
      by (intro bexI [of _ "if b_id c = us_batch s then ?f c else c"]) auto
    with y inv show ?thesis by auto
  qed
  have dist: "distinct (map u_id ?us)" "distinct (map b_id ?bs)" "distinct (map us_id ?ss)"
  proof -
    have "map u_id ?us = map u_id (users d)" by (simp add: settle_user_def)
    moreover have "map b_id ?bs = map b_id (batches d)" by simp
    moreover have "map us_id ?ss = map us_id (sessions d)" by simp
    ultimately show "distinct (map u_id ?us)" "distinct (map b_id ?bs)" "distinct (map us_id ?ss)"
      using inv by metis+
  qed
  show ?thesis
    unfolding bk acct_def prod.case using dist users batch sess by blast
qed

section \<open>Closing a batch\<close>

definition closed :: "uuid \<Rightarrow> session_status \<Rightarrow> batch_status \<Rightarrow> uuid \<Rightarrow> int \<Rightarrow> database \<Rightarrow> database" where
  "closed i st bst user r d = update_user user (drop_reserved r)
     (update_batch i (\<lambda>b. b\<lparr>b_status := bst, b_reserved := 0\<rparr>) (end_sessions i st d))"

lemma acct_closed:
  assumes ok: "acct n (books d)" and b: "b \<in> set (batches d)" and st: "st \<noteq> SOpen"
  shows "acct n (books (closed (b_id b) st bst (b_user b) (b_reserved b) d))"
proof -
  note inv = ok [unfolded acct_def books_def prod.case]
  have nonneg: "\<forall>s \<in> set (sessions d). 0 \<le> us_expected s" using inv by blast
  have bres: "\<forall>b \<in> set (batches d). 0 \<le> b_reserved b" using inv reserved_in_nonneg [OF nonneg] by auto
  let ?f = "\<lambda>x. x\<lparr>b_status := bst, b_reserved := 0\<rparr>"
  let ?ss = "map (\<lambda>s. if us_batch s = b_id b \<and> us_status s = SOpen then s\<lparr>us_status := st\<rparr> else s) (sessions d)"
  let ?bs = "map (\<lambda>x. if b_id x = b_id b then ?f x else x) (batches d)"
  let ?us = "map (\<lambda>u. if u_id u = b_user b then drop_reserved (b_reserved b) u else u) (users d)"
  have bk: "books (closed (b_id b) st bst (b_user b) (b_reserved b) d) = (?us, ?bs, ?ss)"
    by (simp add: closed_def update_user_def update_batch_def end_sessions_def books_def)
  have ss: "reserved_in ?ss j = (if j = b_id b then 0 else reserved_in (sessions d) j)" for j
    using reserved_in_close [OF st] by simp
  have none: "\<not> has_open ?ss (b_id b)" using st by (auto simp: has_open_def split: if_splits)
  have other: "j \<noteq> b_id b \<Longrightarrow> has_open ?ss j \<Longrightarrow> has_open (sessions d) j" for j
    by (auto simp: has_open_def split: if_splits)
  have bs: "reserved_by ?bs u = reserved_by (batches d) u - (if b_user b = u then b_reserved b else 0)" for u
    using reserved_by_upd [OF _ b, of ?f u] inv by auto
  have uge: "b_reserved b \<le> reserved_by (batches d) (b_user b)" by (rule reserved_by_ge [OF bres b])
  have users: "\<forall>u \<in> set ?us. u_reserved u = reserved_by ?bs (u_id u)"
  proof
    fix u assume "u \<in> set ?us"
    then obtain v where v: "v \<in> set (users d)" "u = (if u_id v = b_user b then drop_reserved (b_reserved b) v else v)" by auto
    have "u_reserved v = reserved_by (batches d) (u_id v)" using inv v(1) by blast
    then show "u_reserved u = reserved_by ?bs (u_id u)"
      unfolding bs using v(2) uge by (auto simp: drop_reserved_def)
  qed
  have batch: "b_id x < n \<and> b_reserved x = reserved_in ?ss (b_id x) \<and> (has_open ?ss (b_id x) \<longrightarrow> b_status x = BOpen)"
    if mem: "x \<in> set ?bs" for x
  proof -
    obtain y where y: "y \<in> set (batches d)" "x = (if b_id y = b_id b then ?f y else y)" using mem by auto
    have iy: "b_id y < n" "b_reserved y = reserved_in (sessions d) (b_id y)"
      "has_open (sessions d) (b_id y) \<longrightarrow> b_status y = BOpen" using inv y(1) by blast+
    show ?thesis using iy y(2) other [of "b_id y"] none unfolding ss by auto
  qed
  have sess: "us_id x < n \<and> 0 \<le> us_expected x \<and> (\<exists>b \<in> set ?bs. b_id b = us_batch x \<and> b_user b = us_user x)"
    if mem: "x \<in> set ?ss" for x
  proof -
    obtain y where y: "y \<in> set (sessions d)" "us_id x = us_id y" "us_expected x = us_expected y" "us_batch x = us_batch y"
      "us_user x = us_user y" using mem by auto
    then obtain c where "c \<in> set (batches d)" "b_id c = us_batch x" "b_user c = us_user x" using inv by metis
    then have "\<exists>b \<in> set ?bs. b_id b = us_batch x \<and> b_user b = us_user x"
      by (intro bexI [of _ "if b_id c = b_id b then ?f c else c"]) auto
    with y inv show ?thesis by auto
  qed
  have "map u_id ?us = map u_id (users d)" "map b_id ?bs = map b_id (batches d)" "map us_id ?ss = map us_id (sessions d)"
    by (simp_all add: drop_reserved_def)
  then have dist: "distinct (map u_id ?us)" "distinct (map b_id ?bs)" "distinct (map us_id ?ss)"
    using inv by metis+
  show ?thesis
    unfolding bk acct_def prod.case using dist users batch sess by blast
qed

section \<open>Opening a batch\<close>

definition opened :: "batch_row \<Rightarrow> session_row list \<Rightarrow> database \<Rightarrow> user_row list \<times> batch_row list \<times> session_row list" where
  "opened b ss d = (map (\<lambda>u. if u_id u = b_user b then add_reserved (b_total b) u else u) (users d),
     batches d @ [b], sessions d @ ss)"

lemma acct_opened:
  assumes ok: "acct n (books d)" and b: "n \<le> b_id b" "b_id b < m" "b_status b = BOpen" "b_reserved b = b_total b"
    and tot: "b_total b = sum_list (map us_expected ss)" and dist: "distinct (map us_id ss)"
    and ss: "\<forall>s \<in> set ss. n \<le> us_id s \<and> us_id s < m \<and> us_batch s = b_id b \<and> us_user s = b_user b \<and> us_status s = SOpen
       \<and> 0 \<le> us_expected s"
  shows "acct m (opened b ss d)"
proof -
  note inv = ok [unfolded acct_def books_def prod.case]
  have old: "reserved_in (sessions d) (b_id b) = 0"
  proof -
    have "us_batch s \<noteq> b_id b" if "s \<in> set (sessions d)" for s
      using inv that b(1) by (metis not_less)
    then show ?thesis by (rule reserved_in_none)
  qed
  have new: "reserved_in ss i = (if i = b_id b then b_total b else 0)" for i
    unfolding tot reserved_in_def using ss by (induction ss) auto
  have sum: "reserved_in (sessions d @ ss) i = reserved_in (sessions d) i + reserved_in ss i" for i
    by (simp add: reserved_in_def)
  have sb: "reserved_by (batches d @ [b]) u = reserved_by (batches d) u + (if b_user b = u then b_total b else 0)" for u
    using b(4) by (simp add: reserved_by_def)
  have op: "has_open (sessions d @ ss) i \<Longrightarrow> i \<noteq> b_id b \<Longrightarrow> has_open (sessions d) i" for i
    using ss by (auto simp: has_open_def)
  have batch: "b_id x < m \<and> b_reserved x = reserved_in (sessions d @ ss) (b_id x)
      \<and> (has_open (sessions d @ ss) (b_id x) \<longrightarrow> b_status x = BOpen)" if "x \<in> set (batches d @ [b])" for x
  proof (cases "x = b")
    case True
    then show ?thesis using b old new sum by simp
  next
    case False
    with that have x: "x \<in> set (batches d)" by simp
    then have "b_id x < n" using inv by blast
    with b x inv op [of "b_id x"] show ?thesis unfolding sum new by auto
  qed
  have sess: "us_id x < m \<and> 0 \<le> us_expected x \<and> (\<exists>c \<in> set (batches d @ [b]). b_id c = us_batch x \<and> b_user c = us_user x)"
    if "x \<in> set (sessions d @ ss)" for x
  proof (cases "x \<in> set ss")
    case True
    then show ?thesis using ss by auto
  next
    case False
    with that have "x \<in> set (sessions d)" by simp
    with inv b(1,2) show ?thesis by fastforce
  qed
  let ?us = "map (\<lambda>u. if u_id u = b_user b then add_reserved (b_total b) u else u) (users d)"
  have users: "\<forall>u \<in> set ?us. u_reserved u = reserved_by (batches d @ [b]) (u_id u)"
    using inv unfolding sb by (auto simp: add_reserved_def)
  have "map u_id ?us = map u_id (users d)" by (simp add: add_reserved_def)
  then have d1: "distinct (map u_id ?us)" using inv by metis
  have d2: "distinct (map b_id (batches d @ [b]))" using inv b(1) by auto
  have d3: "distinct (map us_id (sessions d @ ss))" using inv dist ss by fastforce
  show ?thesis
    unfolding opened_def acct_def prod.case using d1 d2 d3 users batch sess by blast
qed

section \<open>The operations keep the books\<close>

definition acct_kept :: "world \<Rightarrow> world \<Rightarrow> bool" where
  "acct_kept w w' \<longleftrightarrow> fresh w \<le> fresh w' \<and> (acct (fresh w) (books (db w)) \<longrightarrow> acct (fresh w') (books (db w')))"

lemma preorder_acct [steps_intros]: "preorder acct_kept"
  by (rule preorderI) (auto simp: acct_kept_def)

lemma acct_same: "fresh w \<le> fresh w' \<Longrightarrow> books (db w') = books (db w) \<Longrightarrow> acct_kept w w'"
  by (auto simp: acct_kept_def intro: acct_fresh)

lemma tx_rel_acct [steps_intros]: "tx_rel acct_kept"
  using preorder_acct by (auto simp: tx_rel_def intro!: acct_same) (auto simp: acct_kept_def)

lemma acct_only: "only K m \<Longrightarrow> steps acct_kept m"
  by (erule steps_weaken) (auto dest!: disk_step_world intro: acct_same)

lemma acct_quiet: "quiet m \<Longrightarrow> steps acct_kept m"
  by (erule steps_weaken) (auto simp: used_faults_def intro: acct_same)

definition db_fresh :: "world \<Rightarrow> database \<times> uuid" where
  "db_fresh w = (db w, fresh w)"

lemma deletes_same: "steps (same db_fresh) (each (\<lambda>k. ignore (blob_delete k)) keys)"
proof -
  have "steps (same db_fresh) (blob_delete k)" for k
    by (rule steps_weaken [of "disk_step UNIV"]) (auto intro: steps_intros dest: disk_step_world simp: db_fresh_def)
  then show ?thesis by (intro steps_intros preorder_same)
qed

lemma wp_returning [wp_simps]:
  "wp (returning m) Q E w = wp m Q (\<lambda>e w'. case e of None \<Rightarrow> Q () w' | Some e \<Rightarrow> E e w') w"
  by (auto simp: wp_def returning_def split: prod.splits sum.splits option.splits)

subsection \<open>Aborting and expiring\<close>

lemma deletes_wp:
  "(\<And>w'. db w' = db w \<Longrightarrow> fresh w' = fresh w \<Longrightarrow> Q () w') \<Longrightarrow>
     wp (each (\<lambda>k. ignore (blob_delete k)) keys) Q E w"
proof -
  assume Q: "\<And>w'. db w' = db w \<Longrightarrow> fresh w' = fresh w \<Longrightarrow> Q () w'"
  have "wp (each (\<lambda>k. ignore (blob_delete k)) keys) (\<lambda>_ _. True) (\<lambda>_ _. False) w"
    by (rule wp_each) (simp_all add: wp_simps)
  then have "wp (each (\<lambda>k. ignore (blob_delete k)) keys) (\<lambda>_ w'. True \<and> db_fresh w' = db_fresh w) (\<lambda>_ w'. False \<and> db_fresh w' = db_fresh w) w"
    by (rule wp_conj) (rule wp_steps [OF deletes_same], simp_all)
  then show ?thesis by (rule wp_weaken) (auto simp: db_fresh_def intro: Q)
qed

lemma AbortBatch_wp:
  "wp (AbortBatch user i)
     (\<lambda>_ w'. fresh w' = fresh w \<and> (db w' = db w \<or> (\<exists>b \<in> set (batches (db w)). b_id b = i \<and> b_user b = user \<and> b_status b = BOpen
        \<and> db w' = closed i SAborted BAborted user (b_reserved b) (db w))))
     (\<lambda>_ w'. fresh w' = fresh w \<and> db w' = db w) w"
proof -
  have in_set: "find (\<lambda>b. b_id b = i \<and> b_user b = user) (batches (db w)) = Some b \<Longrightarrow>
      b \<in> set (batches (db w)) \<and> b_id b = i \<and> b_user b = user" for b by (auto dest: find_set)
  show ?thesis
    by (auto simp: AbortBatch_def wp_simps row_def closed_def intro!: deletes_wp split: option.splits dest!: in_set)
qed

lemma expire_wp:
  "wp (expireBatch i user r)
     (\<lambda>_ w'. fresh w' = fresh w \<and> db w' = update_user user (drop_reserved r) ((end_sessions i SExpired (db w))
        \<lparr>batches := map (\<lambda>b. if b_id b = i \<and> b_status b = BOpen then b\<lparr>b_status := BExpired, b_reserved := 0\<rparr> else b) (batches (db w))\<rparr>))
     (\<lambda>_ w'. fresh w' = fresh w \<and> db w' = db w) w"
  by (auto simp: expireBatch_def wp_simps end_sessions_def intro!: deletes_wp)

subsection \<open>The operations, one by one\<close>

lemma steps_wpI: "(\<And>w. wp m (\<lambda>_. R w) (\<lambda>_. R w) w) \<Longrightarrow> steps R m"
  by (rule stepsI) (simp add: wp_def case_prod_unfold split: sum.splits)

definition older :: "world \<Rightarrow> world \<Rightarrow> bool" where
  "older w w' \<longleftrightarrow> fresh w \<le> fresh w'"

lemma tx_rel_older [steps_intros]: "tx_rel older" and preorder_older [steps_intros]: "preorder older"
  by (auto simp: tx_rel_def older_def intro!: preorderI)

lemma only_older: "only K m \<Longrightarrow> steps older m"
  by (erule steps_weaken) (auto dest!: disk_step_world simp: older_def)

lemma older_blob [steps_intros]:
  "steps older (blob_save k src)" "steps older (blob_open k)" "steps older (blob_delete k)"
  "steps older (blob_size k)" "steps older (blob_ensure_empty k)" "steps older (blob_truncate k n)"
  "steps older (blob_append k off src)" "steps older (blob_finalize a k)"
  by (auto intro!: only_older [of UNIV] steps_intros)

lemma older_stmt [steps_intros]:
  "(\<And>w x w'. f w = Inr (x, w') \<Longrightarrow> fresh w \<le> fresh w') \<Longrightarrow> steps older (tx_stmt f)"
  "(\<And>w x w'. f w = Inr (x, w') \<Longrightarrow> fresh w \<le> fresh w') \<Longrightarrow> steps older (db_stmt f)"
  by (auto intro!: steps_tx_stmt steps_db_stmt steps_intros simp: older_def)

lemma older_new_uuid [steps_intros]: "steps older new_uuid"
  by (rule stepsI) (simp add: new_uuid_def bnd_def getw_def modw_def ret_def older_def)

lemma older_simple [steps_intros]:
  "steps older (tx_stmt (row g))" "steps older (tx_stmt (sel h))" "steps older (tx_stmt (upd u))"
  "steps older (tx_stmt (query q))"
  by (auto intro!: older_stmt simp: row_def query_def split: option.splits sum.splits)

lemma older_complete: "steps older (complete_tx sha user i)"
  unfolding complete_tx_def complete_check_def complete_old_def complete_entry_def complete_settle_def hashStorageKey_def
    replace_entry_def create_entry_def add_version_def Append_def
  by (intro steps_intros; (rule only_older [of UNIV], intro steps_intros)?)
     (auto simp: Let_def split: option.splits if_splits)

lemma steps_conj: "steps R m \<Longrightarrow> steps S m \<Longrightarrow> steps (\<lambda>a b. R a b \<and> S a b) m"
  by (simp add: steps_def)

lemma older_gc: "steps older (DeleteUnreferenced keys)"
proof -
  have "steps older (delete_unreferenced_key key)" for key
    unfolding delete_unreferenced_key_def
    by (intro steps_intros) (auto simp: sel_def)
  then have "steps older (delete_loop seen keys)" for seen
    by (induction keys arbitrary: seen) (auto intro!: steps_intros)
  then show ?thesis by (simp add: DeleteUnreferenced_def)
qed

lemma acct_prune: "steps acct_kept (PruneVersions i n)"
proof -
  have "steps older (PruneVersions i n)"
    unfolding PruneVersions_def by (intro steps_intros older_gc) (auto simp: Let_def)
  with safe_prune have "steps (\<lambda>a b. entries_safe a b \<and> older a b) (PruneVersions i n)" by (rule steps_conj)
  then show ?thesis by (rule steps_weaken) (auto simp: entries_safe_def older_def intro: acct_same)
qed

lemma acct_blob: "steps acct_kept (blob_delete k)"
  by (rule acct_only [of UNIV]) (intro steps_intros UNIV_I)

lemma acct_wp: "steps acct_kept m \<Longrightarrow> acct_kept w w1 \<Longrightarrow> wp m (\<lambda>_. acct_kept w) (\<lambda>_. acct_kept w) w1"
  using preorder_trans [OF preorder_acct] by (intro wp_steps) blast+

lemma acct_complete: "steps acct_kept (CompleteFile sha user i)"
proof (rule steps_wpI)
  fix w :: world
  let ?w = "(pop w)\<lparr>aborted := False\<rparr>"
  have body: "wp (complete_tx sha user i)
     (\<lambda>x w'. tx_done sha user i ?w (fst x) (fst (snd x)) w' \<and> older ?w w') (\<lambda>_ w'. True \<and> older ?w w') ?w"
    by (rule wp_conj [OF completion_done]) (rule wp_steps [OF older_complete], simp_all)
  have after: "acct_kept w (pop w1)" if done_tx: "tx_done sha user i ?w e key w1" and older_tx: "older ?w w1" for w1 e key
  proof -
    obtain s oldSize where "open_session i user (db w) = Some s" "books (db w1) = books (settled user i s oldSize (db w))"
      using done_tx unfolding tx_done_def by simp blast
    with older_tx show ?thesis
      using acct_settled [of _ "db w" i user s oldSize] by (auto simp: acct_kept_def older_def intro: acct_fresh)
  qed
  have undone: "older ?w w1 \<Longrightarrow> acct_kept w (rollback (db w) w1)" "older ?w w1 \<Longrightarrow> acct_kept w (rollback (db w) (pop w1))" for w1
    by (auto simp: older_def intro: acct_same)
  show "wp (CompleteFile sha user i) (\<lambda>_. acct_kept w) (\<lambda>_. acct_kept w) w"
    unfolding CompleteFile_def
    by (rule wp_run_txI [OF _ body])
       (auto simp: acct_same wp_fail split: prod.splits intro!: acct_wp steps_intros acct_blob acct_prune after undone)
qed

lemma acct_abort: "steps acct_kept (AbortBatch user i)"
proof (rule steps_wpI, rule wp_weaken [OF AbortBatch_wp])
  fix x and w w' :: world
  assume "fresh w' = fresh w \<and> (db w' = db w \<or> (\<exists>b \<in> set (batches (db w)). b_id b = i \<and> b_user b = user
     \<and> b_status b = BOpen \<and> db w' = closed i SAborted BAborted user (b_reserved b) (db w)))"
  then show "acct_kept w w'"
    by (auto simp: acct_kept_def dest: acct_closed [where st = SAborted and bst = BAborted])
qed (auto intro: acct_same)

lemma find_id_unique: "distinct (map b_id bs) \<Longrightarrow> b \<in> set bs \<Longrightarrow> c \<in> set bs \<Longrightarrow> b_id c = b_id b \<Longrightarrow> c = b"
  by (metis distinct_map inj_onD)

lemma expired_closed:
  assumes "distinct (map b_id (batches d))" and "b \<in> set (batches d)" and "b_status b = BOpen"
  shows "update_user (b_user b) (drop_reserved (b_reserved b)) ((end_sessions (b_id b) SExpired d)
        \<lparr>batches := map (\<lambda>c. if b_id c = b_id b \<and> b_status c = BOpen then c\<lparr>b_status := BExpired, b_reserved := 0\<rparr> else c) (batches d)\<rparr>)
    = closed (b_id b) SExpired BExpired (b_user b) (b_reserved b) d"
proof -
  have "map (\<lambda>c. if b_id c = b_id b \<and> b_status c = BOpen then c\<lparr>b_status := BExpired, b_reserved := 0\<rparr> else c) (batches d)
      = map (\<lambda>c. if b_id c = b_id b then c\<lparr>b_status := BExpired, b_reserved := 0\<rparr> else c) (batches d)"
    using find_id_unique [OF assms(1,2)] assms(3) by (intro map_cong) auto
  note eq = this
  have "batches (end_sessions (b_id b) SExpired d) = batches d" by (simp add: end_sessions_def)
  then show ?thesis by (simp only: closed_def update_batch_def eq)
qed

lemma expire_one:
  assumes "acct (fresh w) (books (db w))" and "b \<in> set (batches (db w))" and "b_status b = BOpen"
  shows "wp (ignore (expireBatch (b_id b) (b_user b) (b_reserved b)))
    (\<lambda>_ w'. acct (fresh w') (books (db w')) \<and> fresh w' = fresh w
       \<and> (\<forall>c \<in> set (batches (db w)). b_id c \<noteq> b_id b \<longrightarrow> c \<in> set (batches (db w')))) E w"
proof -
  have dist: "distinct (map b_id (batches (db w)))" using assms(1) by (simp add: acct_def books_def)
  have keep: "c \<in> set (batches (closed (b_id b) SExpired BExpired (b_user b) (b_reserved b) (db w)))"
    if "c \<in> set (batches (db w))" "b_id c \<noteq> b_id b" for c
    using that by (auto simp: closed_def update_batch_def update_user_def end_sessions_def image_iff intro!: bexI [of _ c])
  show ?thesis
    unfolding wp_ignore
    by (rule wp_weaken [OF expire_wp])
       (use assms keep expired_closed [OF dist assms(2,3)] acct_closed [OF assms(1,2), of SExpired BExpired] in auto)
qed

lemma expire_all:
  assumes "acct (fresh w) (books (db w))" and "\<forall>b \<in> set bs. b \<in> set (batches (db w)) \<and> b_status b = BOpen"
    and "distinct (map b_id bs)"
  shows "wp (each (\<lambda>b. ignore (expireBatch (b_id b) (b_user b) (b_reserved b))) bs)
     (\<lambda>_ w'. acct (fresh w') (books (db w')) \<and> fresh w \<le> fresh w') (\<lambda>_ _. False) w"
  using assms
proof (induction bs arbitrary: w)
  case Nil
  then show ?case by (simp add: wp_simps)
next
  case (Cons b bs)
  show ?case
    unfolding each.simps wp_bnd
  proof (rule wp_weaken [OF expire_one])
    fix x and w1 :: world
    assume w1: "acct (fresh w1) (books (db w1)) \<and> fresh w1 = fresh w
       \<and> (\<forall>c \<in> set (batches (db w)). b_id c \<noteq> b_id b \<longrightarrow> c \<in> set (batches (db w1)))"
    have "\<forall>c \<in> set bs. c \<in> set (batches (db w1)) \<and> b_status c = BOpen"
      using w1 Cons.prems by (auto simp: image_iff)
    moreover have "acct (fresh w1) (books (db w1))" and fresh: "fresh w1 = fresh w" using w1 by blast+
    moreover have "distinct (map b_id bs)" using Cons.prems(3) by simp
    ultimately show "wp (each (\<lambda>b. ignore (expireBatch (b_id b) (b_user b) (b_reserved b))) bs)
       (\<lambda>_ w'. acct (fresh w') (books (db w')) \<and> fresh w \<le> fresh w') (\<lambda>_ _. False) w1"
      using Cons.IH [of w1] unfolding fresh by blast
  qed (use Cons.prems in auto)
qed

lemma expireBatch_older: "steps older (expireBatch i user r)"
  unfolding expireBatch_def by (intro steps_intros)

lemma acct_expire: "steps acct_kept CleanupExpired"
proof (rule steps_wpI)
  fix w :: world
  let ?bs = "filter (\<lambda>b. b_status b = BOpen \<and> b_expires b \<le> clock w) (batches (db w))"
  have "acct_kept w w'" if "acct (fresh w) (books (db w)) \<longrightarrow> acct (fresh w') (books (db w'))" "older w w'" for w'
    using that by (simp add: acct_kept_def older_def)
  moreover have "steps older CleanupExpired"
    unfolding CleanupExpired_def by (intro steps_intros expireBatch_older) (auto simp: look_def)
  then have "older w (snd (CleanupExpired w))" by (simp add: steps_def)
  moreover have "acct (fresh w) (books (db w)) \<longrightarrow> acct (fresh (snd (CleanupExpired w))) (books (db (snd (CleanupExpired w))))"
  proof
    assume ok: "acct (fresh w) (books (db w))"
    have "distinct (map b_id (batches (db w)))" using ok by (simp add: acct_def books_def)
    then have "distinct (map b_id ?bs)" by (rule distinct_map_filter)
    with ok have "wp CleanupExpired (\<lambda>_ w'. acct (fresh w') (books (db w'))) (\<lambda>_ w'. acct (fresh w') (books (db w'))) w"
      unfolding CleanupExpired_def wp_bnd wp_db_stmt
      by (auto intro!: wp_weaken [OF expire_all])
    then show "acct (fresh (snd (CleanupExpired w))) (books (db (snd (CleanupExpired w))))"
      by (auto simp: wp_def split: prod.splits sum.splits)
  qed
  ultimately have "acct_kept w (snd (CleanupExpired w))" by blast
  then show "wp CleanupExpired (\<lambda>_. acct_kept w) (\<lambda>_. acct_kept w) w"
    by (auto simp: wp_def split: prod.splits sum.splits)
qed

subsection \<open>Chunks\<close>

lemma acct_received: "acct n (books d) \<Longrightarrow> acct n (books (update_session i (\<lambda>s. s\<lparr>us_received := k\<rparr>) d))"
proof -
  assume ok: "acct n (books d)"
  let ?ss = "map (\<lambda>s. if us_id s = i then s\<lparr>us_received := k\<rparr> else s) (sessions d)"
  have "reserved_in ?ss j = reserved_in (sessions d) j" for j
    unfolding reserved_in_def map_map by (rule arg_cong [of _ _ sum_list], rule map_cong) auto
  moreover have "has_open ?ss j = has_open (sessions d) j" for j
    unfolding has_open_def set_map bex_simps by (rule bex_cong) auto
  moreover have "map us_id ?ss = map us_id (sessions d)" by simp
  ultimately show ?thesis
    using ok unfolding acct_def books_def update_session_def by (auto simp del: map_map)
qed

lemma acct_undo: "steps acct_kept (undo_chunk s)"
  unfolding undo_chunk_def by (rule acct_only [of UNIV]) (intro steps_intros UNIV_I)

lemma acct_query [steps_intros]: "steps acct_kept (tx_stmt (row g))" "steps acct_kept (tx_stmt (query q))" "steps acct_kept (tx_stmt (sel h))"
  by (auto intro!: steps_tx_stmt steps_intros preorder_refl [OF preorder_acct] simp: row_def query_def split: option.splits sum.splits)

lemma acct_chunk:
  assumes "quiet pace"
  shows "steps acct_kept (AppendChunk cfg pace user i off body len)"
proof -
  have upd: "steps acct_kept (tx_stmt (upd (update_session i (\<lambda>s. s\<lparr>us_received := n\<rparr>))))" for n
    by (rule steps_tx_stmt [OF tx_rel_acct]) (auto simp: acct_kept_def acct_received)
  have blob: "steps acct_kept (blob_append k m src)" "steps acct_kept (blob_size k)" "steps acct_kept (blob_truncate k m)" for k m src
    by (rule acct_only [of UNIV], intro steps_intros UNIV_I)+
  have part: "steps acct_kept (append_part i s off body len)" for s
    unfolding append_part_def by (intro steps_intros acct_undo upd blob)
  have tx: "steps acct_kept (chunk_tx user i off body len)"
    unfolding chunk_tx_def by (intro steps_intros part blob)
  show ?thesis
    unfolding AppendChunk_def
    by (intro steps_intros acct_undo tx acct_quiet [OF assms])
       (auto split: prod.split sum.split intro!: steps_intros acct_undo)
qed

end
