(* ===== verification/Batches.thy ===== *)
theory Batches
  imports Accounting
begin

text \<open>
  What \<open>CreateBatch\<close> makes: the reservation and the sessions of a batch, and that every
  session is ready to receive its file.
\<close>

lemma blob_empty_wp:
  "wp (blob_ensure_empty k) (\<lambda>_ w'. \<exists>n. w' = w\<lparr>files := (files w)(k \<mapsto> []), faults := drop n (faults w)\<rparr>) (\<lambda>_ _. True) w"
  by (auto simp: blob_ensure_empty_def by_key_def st_ensure_empty_def os_defs wp_simps pop_def drop_Suc numeral_3_eq_3
      intro!: exI [of _ 3])

definition tmp_from :: "uuid \<Rightarrow> uuid \<Rightarrow> uuid \<Rightarrow> uuid \<Rightarrow> skey \<Rightarrow> bool" where
  "tmp_from user b n m k \<longleftrightarrow> (\<exists>i. k = TmpKey user b i \<and> n \<le> i \<and> i < m)"

text \<open>The sessions \<open>ss\<close> were made for the files \<open>fs\<close> between the two states.\<close>

definition sessions_made :: "uuid \<Rightarrow> uuid \<Rightarrow> manifest_file list \<Rightarrow> world \<Rightarrow> session_row list \<Rightarrow> world \<Rightarrow> bool" where
  "sessions_made user b fs w ss w' \<longleftrightarrow> fresh w \<le> fresh w'
     \<and> books (db w') = (users (db w), batches (db w), sessions (db w) @ ss)
     \<and> distinct (map us_id ss) \<and> map us_expected ss = map ExpectedSize fs \<and> map us_rel ss = map RelativePath fs
     \<and> (\<forall>s \<in> set ss. fresh w \<le> us_id s \<and> us_id s < fresh w' \<and> us_batch s = b \<and> us_user s = user
          \<and> us_status s = SOpen \<and> us_received s = 0 \<and> tmp_from user b (fresh w) (fresh w') (us_key s)
          \<and> files w' (us_key s) = Some [])
     \<and> (\<forall>k. \<not> tmp_from user b (fresh w) (fresh w') k \<longrightarrow> files w' k = files w k)"

lemma create_session_wp:
  "wp (create_session user b cache f) (\<lambda>s. sessions_made user b [f] w [s]) (\<lambda>_ _. True) w"
  unfolding create_session_def Let_def
proof (rule wp_seq [of _ "\<lambda>k w1. k = fresh w \<and> w1 = w\<lparr>fresh := Suc (fresh w)\<rparr>"], simp add: wp_simps, clarify)
  let ?w1 = "w\<lparr>fresh := Suc (fresh w)\<rparr>" and ?k = "TmpKey user b (fresh w)"
  show "wp (bnd (blob_ensure_empty ?k) (\<lambda>_. on_err (insert_session b user (cache (manifest_dir f)) f ?k) (blob_delete ?k)))
     (\<lambda>s. sessions_made user b [f] w [s]) (\<lambda>_ _. True) ?w1"
  proof (rule wp_seq [OF blob_empty_wp], clarify)
    fix n
    let ?w2 = "?w1\<lparr>files := (files ?w1)(?k \<mapsto> []), faults := drop n (faults ?w1)\<rparr>"
    have "wp (insert_session b user (cache (manifest_dir f)) f ?k) (\<lambda>s. sessions_made user b [f] w [s]) (\<lambda>_ _. True) ?w2"
      by (auto simp: insert_session_def wp_simps Let_def sessions_made_def books_def new_session_def tmp_from_def
          split: option.splits)
    then show "wp (on_err (insert_session b user (cache (manifest_dir f)) f ?k) (blob_delete ?k))
       (\<lambda>s. sessions_made user b [f] w [s]) (\<lambda>_ _. True) ?w2"
      unfolding wp_on_err by (rule wp_weaken) (auto simp: wp_iff)
  qed simp
qed simp

lemma sessions_made_trans:
  assumes a: "sessions_made user b fs w ss w1" and b: "sessions_made user b gs w1 ts w2"
  shows "sessions_made user b (fs @ gs) w (ss @ ts) w2"
proof -
  have mono: "fresh w \<le> fresh w1" "fresh w1 \<le> fresh w2" using a b by (simp_all add: sessions_made_def)
  have old: "\<not> tmp_from user b (fresh w1) (fresh w2) (us_key s)" if "s \<in> set ss" for s
    using a that by (fastforce simp: sessions_made_def tmp_from_def)
  have wide: "tmp_from user b (fresh w) (fresh w1) k \<Longrightarrow> tmp_from user b (fresh w) (fresh w2) k"
    "tmp_from user b (fresh w1) (fresh w2) k \<Longrightarrow> tmp_from user b (fresh w) (fresh w2) k" for k
    using mono by (auto simp: tmp_from_def)
  have dist: "distinct (map us_id (ss @ ts))" using a b by (fastforce simp: sessions_made_def)
  have row: "fresh w \<le> us_id s \<and> us_id s < fresh w2 \<and> us_batch s = b \<and> us_user s = user \<and> us_status s = SOpen
      \<and> us_received s = 0 \<and> tmp_from user b (fresh w) (fresh w2) (us_key s) \<and> files w2 (us_key s) = Some []"
    if mem: "s \<in> set (ss @ ts)" for s
  proof (cases "s \<in> set ss")
    case True
    with a b old [OF True] wide mono show ?thesis by (fastforce simp: sessions_made_def)
  next
    case False
    with mem have "s \<in> set ts" by simp
    with b wide mono show ?thesis by (fastforce simp: sessions_made_def)
  qed
  have "files w2 k = files w k" if "\<not> tmp_from user b (fresh w) (fresh w2) k" for k
    using a b wide that by (metis sessions_made_def)
  with row dist mono a b show ?thesis by (simp add: sessions_made_def books_def)
qed

lemma create_sessions_wp:
  "wp (collect (create_session user b cache) fs) (\<lambda>ss. sessions_made user b fs w ss) (\<lambda>_ _. True) w"
proof (induction fs arbitrary: w)
  case Nil
  then show ?case by (simp add: wp_simps sessions_made_def books_def)
next
  case (Cons f fs)
  show ?case
    unfolding collect.simps
  proof (rule wp_seq [OF create_session_wp])
    fix s w1
    assume s: "sessions_made user b [f] w [s] w1"
    show "wp (bnd (collect (create_session user b cache) fs) (\<lambda>ys. ret (s # ys)))
       (sessions_made user b (f # fs) w) (\<lambda>_ _. True) w1"
      by (rule wp_seq [OF Cons.IH]) (use sessions_made_trans [OF s] in \<open>auto simp: wp_ret\<close>)
  qed simp
qed

section \<open>The manifest\<close>

lemma check_files_ok:
  "check_files cfg seen fs = Inr items \<Longrightarrow>
     map ExpectedSize items = map ExpectedSize fs
   \<and> (\<forall>f \<in> set items. 0 \<le> ExpectedSize f \<and> ExpectedSize f \<le> MaxUploadBytes cfg \<and> to_lower (RelativePath f) \<notin> seen)
   \<and> distinct (map (\<lambda>f. to_lower (RelativePath f)) items)"
proof (induction cfg seen fs arbitrary: items rule: check_files.induct)
  case (2 cfg seen f fs)
  from "2.prems" obtain item where item: "normalizeManifest f = Inr item" by (auto split: sum.splits)
  from "2.prems" item obtain rest where rest: "ExpectedSize item \<le> MaxUploadBytes cfg" "to_lower (RelativePath item) \<notin> seen"
    "check_files cfg (insert (to_lower (RelativePath item)) seen) fs = Inr rest" "items = item # rest"
    by (auto split: sum.splits if_splits)
  have "map ExpectedSize rest = map ExpectedSize fs
   \<and> (\<forall>f \<in> set rest. 0 \<le> ExpectedSize f \<and> ExpectedSize f \<le> MaxUploadBytes cfg
        \<and> to_lower (RelativePath f) \<notin> insert (to_lower (RelativePath item)) seen)
   \<and> distinct (map (\<lambda>f. to_lower (RelativePath f)) rest)"
    by (rule "2.IH" [OF item _ _ rest(3)]) (use rest in auto)
  with rest normalizeManifest_InrD [OF item] show ?case by auto
qed simp

section \<open>The whole operation\<close>

definition books_kept :: "world \<Rightarrow> world \<Rightarrow> bool" where
  "books_kept w w' \<longleftrightarrow> books (db w') = books (db w) \<and> files w' = files w \<and> fresh w \<le> fresh w'"

lemma preorder_books_kept [steps_intros]: "preorder books_kept" and tx_rel_books_kept: "tx_rel books_kept"
  by (auto simp: tx_rel_def books_kept_def intro!: preorderI)

lemma quiet_books: "quiet m \<Longrightarrow> steps books_kept m"
  by (erule steps_weaken) (auto simp: used_faults_def books_kept_def)

lemma books_tx_query [steps_intros]:
  "steps books_kept (tx_stmt (row g))" "steps books_kept (tx_stmt (query q))" "steps books_kept (tx_stmt (ask_row a))"
  by (auto intro!: steps_tx_stmt tx_rel_books_kept simp: row_def query_def ask_row_def books_kept_def
      split: option.splits sum.splits)

lemma books_insert_file: "steps books_kept (insert_file u d p n k key sz mime)"
  unfolding insert_file_def
  by (rule steps_tx_stmt [OF tx_rel_books_kept])
     (auto simp: books_kept_def books_def insert_entry_def Let_def split: option.splits if_splits)

lemma books_new_uuid [steps_intros]: "steps books_kept new_uuid"
  by (rule stepsI) (simp add: new_uuid_def bnd_def getw_def modw_def ret_def books_kept_def)

lemma books_parts: "steps books_kept (ensure_parts user parts current built c)"
proof (induction user parts current built c rule: ensure_parts.induct)
  case (2 user raw parts current built c)
  show ?case
    unfolding ensure_parts.simps Let_def
    by (intro steps_intros "2.IH" [OF refl refl] books_insert_file) auto
qed (auto intro: steps_intros)

lemma books_folders: "steps books_kept (ensure_folders user root fs cache)"
  by (induction user root fs cache rule: ensure_folders.induct)
     (auto simp: ensureFolderPath_def intro!: steps_intros books_parts)

lemma books_pre:
  "steps books_kept (validateOwnedFolder user folder)" "steps books_kept (MaxBatchBytes cfg)"
  unfolding validateOwnedFolder_def MaxBatchBytes_def by (intro steps_intros quiet_books)+

text \<open>What a call of \<open>CreateBatch\<close> that succeeds has done.\<close>

definition batch_made :: "config \<Rightarrow> uuid \<Rightarrow> manifest_file list \<Rightarrow> world \<Rightarrow> batch_row \<times> session_row list \<Rightarrow> world \<Rightarrow> bool" where
  "batch_made cfg user fs w = (\<lambda>(b, ss) w'.
     fresh w \<le> b_id b \<and> b_id b < fresh w' \<and> b_user b = user \<and> b_status b = BOpen
   \<and> b_total b = sum_list (map ExpectedSize fs) \<and> b_reserved b = b_total b
   \<and> (\<exists>u \<in> set (users (db w)). u_id u = user \<and> u_used u + u_reserved u + b_total b \<le> u_quota u + u_bonus u)
   \<and> books (db w') = opened b ss (db w)
   \<and> map us_expected ss = map ExpectedSize fs \<and> distinct (map us_id ss) \<and> distinct (map (\<lambda>s. to_lower (us_rel s)) ss)
   \<and> (\<forall>s \<in> set ss. 0 \<le> us_expected s \<and> us_expected s \<le> MaxUploadBytes cfg \<and> fresh w \<le> us_id s \<and> us_id s < fresh w'
        \<and> us_batch s = b_id b \<and> us_user s = user \<and> us_status s = SOpen \<and> us_received s = 0
        \<and> files w' (us_key s) = Some []))"

lemma insert_batch_wp:
  "wp (insert_batch cfg user parent n k) (\<lambda>b w'. b_id b = fresh w \<and> fresh w' = Suc (fresh w) \<and> b_user b = user \<and> b_status b = BOpen
      \<and> b_total b = n \<and> b_reserved b = n \<and> books (db w') = (users (db w), batches (db w) @ [b], sessions (db w))) (\<lambda>_ _. True) w"
  by (simp add: insert_batch_def wp_simps Let_def books_def)

lemma batch_made_frame: "books_kept w w1 \<Longrightarrow> batch_made cfg user fs w1 x w2 \<Longrightarrow> batch_made cfg user fs w x w2"
  by (auto simp: batch_made_def books_kept_def books_def opened_def)

lemma wp_after:
  assumes "steps books_kept m" and "\<And>x w1. books_kept w w1 \<Longrightarrow> wp (f x) Q (\<lambda>_ _. True) w1"
  shows "wp (bnd m f) Q (\<lambda>_ _. True) w"
  unfolding wp_bnd by (rule wp_steps [OF assms(1)]) (use assms(2) in auto)

text \<open>The transaction of \<open>CreateBatch\<close>, once the manifest \<open>items\<close> is checked.\<close>

lemma batch_tx_wp:
  assumes items: "map ExpectedSize items = map ExpectedSize fs"
      "\<forall>f \<in> set items. 0 \<le> ExpectedSize f \<and> ExpectedSize f \<le> MaxUploadBytes cfg"
      "distinct (map (\<lambda>f. to_lower (RelativePath f)) items)"
    and u: "u \<in> set (users (db w))" "u_id u = user" "u_used u + u_reserved u + total_size items \<le> u_quota u + u_bonus u"
  shows "wp (bnd (insert_batch cfg user parent (total_size items) (length items)) (\<lambda>b.
       bnd (collect (create_session user (b_id b) cache) items) (\<lambda>ss.
       bnd (tx_stmt (upd (update_user user (add_reserved (total_size items))))) (\<lambda>_. ret (b, ss)))))
     (batch_made cfg user fs w) (\<lambda>_ _. True) w"
proof (rule wp_seq [OF insert_batch_wp], rule wp_seq [OF create_sessions_wp])
  fix b ss and w1 w2 :: world
  assume b: "b_id b = fresh w \<and> fresh w1 = Suc (fresh w) \<and> b_user b = user \<and> b_status b = BOpen
      \<and> b_total b = total_size items \<and> b_reserved b = total_size items
      \<and> books (db w1) = (users (db w), batches (db w) @ [b], sessions (db w))"
    and ss: "sessions_made user (b_id b) items w1 ss w2"
  have bk: "users (db w2) = users (db w)" "batches (db w2) = batches (db w) @ [b]" "sessions (db w2) = sessions (db w) @ ss"
    using b ss by (auto simp: sessions_made_def books_def)
  have paths: "map (\<lambda>s. to_lower (us_rel s)) ss = map (\<lambda>f. to_lower (RelativePath f)) items"
  proof -
    have "map us_rel ss = map RelativePath items" using ss by (simp add: sessions_made_def)
    then have "map to_lower (map us_rel ss) = map to_lower (map RelativePath items)" by simp
    then show ?thesis by (simp add: comp_def)
  qed
  have sizes: "0 \<le> us_expected s \<and> us_expected s \<le> MaxUploadBytes cfg" if "s \<in> set ss" for s
  proof -
    have "us_expected s \<in> set (map ExpectedSize items)"
      using that ss by (metis sessions_made_def image_set imageI)
    with items(2) show ?thesis by auto
  qed
  have op: "books (update_user user (add_reserved (total_size items)) (db w2)) = opened b ss (db w)"
    using b bk by (simp add: books_def update_user_def opened_def)
  have "batch_made cfg user fs w (b, ss) (w3\<lparr>db := update_user user (add_reserved (total_size items)) (db w2)\<rparr>)"
    if "files w3 = files w2" "fresh w3 = fresh w2" for w3
    using that b ss sizes paths op items u
    by (fastforce simp: batch_made_def sessions_made_def total_size_def)
  then show "wp (bnd (tx_stmt (upd (update_user user (add_reserved (total_size items))))) (\<lambda>_. ret (b, ss)))
       (batch_made cfg user fs w) (\<lambda>_ _. True) w2"
    by (simp add: wp_simps)
qed simp_all

lemma CreateBatch_wp: "wp (CreateBatch cfg user root parent fs) (batch_made cfg user fs w) (\<lambda>_ _. True) w"
proof -
  have quota: "\<exists>u \<in> set (users d). u_id u = user \<and> used = u_used u \<and> reserved = u_reserved u \<and> quota = u_quota u + u_bonus u"
    if "user_quota user d = Some (used, reserved, quota)" for d used reserved quota
    using that by (auto simp: user_quota_def user_of_def dest: find_set)
  have body: "wp (bnd (validateOwnedFolder user p) (\<lambda>_.
       bnd (tx_stmt (row (user_quota user))) (\<lambda>(used, reserved, quota).
       bnd (require (used + reserved + total_size items \<le> quota) (Msg ''quota exceeded'')) (\<lambda>_.
       bnd (ensure_folders user (the p) items ((\<lambda>_. None)([] \<mapsto> the p))) (\<lambda>cache.
       bnd (insert_batch cfg user p (total_size items) (length items)) (\<lambda>b.
       bnd (collect (create_session user (b_id b) cache) items) (\<lambda>ss.
       bnd (tx_stmt (upd (update_user user (add_reserved (total_size items))))) (\<lambda>_.
       ret (b, ss)))))))))
     (batch_made cfg user fs w) (\<lambda>_ _. True) w" (is "wp ?m _ _ _")
    if items: "check_files cfg {} fs = Inr items" for items p w
  proof (rule wp_after [OF books_pre(1)])
    fix x w1 assume w1: "books_kept w w1"
    have row: "wp (tx_stmt (row (user_quota user))) (\<lambda>x w2. user_quota user (db w1) = Some x \<and> books_kept w1 w2) (\<lambda>_ _. True) w1"
      by (auto simp: wp_tx_stmt row_def books_kept_def split: option.splits)
    show "wp (bnd (tx_stmt (row (user_quota user))) (\<lambda>(used, reserved, quota).
       bnd (require (used + reserved + total_size items \<le> quota) (Msg ''quota exceeded'')) (\<lambda>_.
       bnd (ensure_folders user (the p) items ((\<lambda>_. None)([] \<mapsto> the p))) (\<lambda>cache.
       bnd (insert_batch cfg user p (total_size items) (length items)) (\<lambda>b.
       bnd (collect (create_session user (b_id b) cache) items) (\<lambda>ss.
       bnd (tx_stmt (upd (update_user user (add_reserved (total_size items))))) (\<lambda>_.
       ret (b, ss))))))))
     (batch_made cfg user fs w) (\<lambda>_ _. True) w1"
    proof (rule wp_seq [OF row], clarify)
      fix used reserved quota w2
      assume q: "user_quota user (db w1) = Some (used, reserved, quota)" and w2: "books_kept w1 w2"
      obtain u where u: "u \<in> set (users (db w1))" "u_id u = user" "used = u_used u" "reserved = u_reserved u"
        "quota = u_quota u + u_bonus u" using quota [OF q] by blast
      have tx: "wp (bnd (insert_batch cfg user p (total_size items) (length items)) (\<lambda>b.
           bnd (collect (create_session user (b_id b) cache) items) (\<lambda>ss.
           bnd (tx_stmt (upd (update_user user (add_reserved (total_size items))))) (\<lambda>_. ret (b, ss)))))
         (batch_made cfg user fs w) (\<lambda>_ _. True) w3"
        if w3: "books_kept w2 w3" and le: "used + reserved + total_size items \<le> quota" for cache w3
      proof -
        have kept: "books_kept w w3" using w1 w2 w3 by (simp add: books_kept_def)
        have "u \<in> set (users (db w3))" using u(1) w2 w3 by (simp add: books_kept_def books_def)
        then show ?thesis
          using check_files_ok [OF items] u le
          by (intro wp_weaken [OF batch_tx_wp [where fs = fs and u = u]]) (auto intro: batch_made_frame [OF kept])
      qed
      show "wp (bnd (require (used + reserved + total_size items \<le> quota) (Msg ''quota exceeded'')) (\<lambda>_.
       bnd (ensure_folders user (the p) items ((\<lambda>_. None)([] \<mapsto> the p))) (\<lambda>cache.
       bnd (insert_batch cfg user p (total_size items) (length items)) (\<lambda>b.
       bnd (collect (create_session user (b_id b) cache) items) (\<lambda>ss.
       bnd (tx_stmt (upd (update_user user (add_reserved (total_size items))))) (\<lambda>_.
       ret (b, ss)))))))
        (batch_made cfg user fs w) (\<lambda>_ _. True) w2"
        using wp_after [OF books_folders tx] by (simp add: wp_bnd [of "require _ _"] wp_require)
    qed simp
  qed
  have keep: "batch_made cfg user fs w x (pop w2)"
    if "books_kept w w1" and "batch_made cfg user fs ((pop w1)\<lparr>aborted := False\<rparr>) x w2" for x w1 w2
    using that by (auto simp: batch_made_def books_kept_def books_def opened_def)
  note tx = wp_with_txI [OF body, where Q = "batch_made cfg user fs w" and E = "\<lambda>_ _. True"]
  show ?thesis
  proof (cases "check_files cfg {} fs")
    case (Inl e)
    have bnd_fail: "bnd (fail e) f = fail e" for f :: "manifest_file list \<Rightarrow> 'a srv"
      by (simp add: bnd_def fail_def)
    show ?thesis
      unfolding CreateBatch_def Let_def Inl sum.case bnd_fail
      by (intro wp_after steps_intros preorder_books_kept) (simp add: wp_fail)
  next
    case (Inr items)
    have bnd_ret: "bnd (ret items) f = f items" for f :: "manifest_file list \<Rightarrow> 'a srv"
      by (simp add: bnd_def ret_def)
    show ?thesis
      unfolding CreateBatch_def Let_def Inr sum.case bnd_ret
      apply (intro wp_after steps_intros books_pre preorder_books_kept)
      apply (rule tx [OF Inr])
        apply simp
       apply (rule conjI TrueI)+
       apply (erule keep [rotated], simp add: books_kept_def)
      apply simp
      done
  qed
qed

section \<open>The books\<close>

lemma with_tx_undoes: "wp (with_tx m) (\<lambda>_ _. True) (\<lambda>_ w'. db w' = db w) w"
  by (auto simp: wp_def with_tx_def split: prod.splits sum.splits)

lemma wp_after_err:
  assumes "steps books_kept m" and "\<And>x w1. books_kept w w1 \<Longrightarrow> wp (f x) (\<lambda>_ _. True) E w1"
    and "\<And>e w1. books_kept w w1 \<Longrightarrow> E e w1"
  shows "wp (bnd m f) (\<lambda>_ _. True) E w"
  unfolding wp_bnd by (rule wp_steps [OF assms(1)]) (use assms(2,3) in auto)

lemma CreateBatch_refused:
  "wp (CreateBatch cfg user root parent fs) (\<lambda>_ _. True) (\<lambda>_ w'. books (db w') = books (db w)) w"
proof -
  have tx: "wp (with_tx m) (\<lambda>_ _. True) (\<lambda>_ w'. books (db w') = books (db w)) w1" if "books_kept w w1" for m :: "'b srv" and w1
    by (rule wp_weaken [OF with_tx_undoes]) (use that in \<open>simp_all add: books_kept_def\<close>)
  have checked: "steps books_kept (case check_files cfg {} fs of Inl e \<Rightarrow> fail e | Inr items \<Rightarrow> ret items)"
    by (intro steps_intros)
  show ?thesis
    unfolding CreateBatch_def Let_def
    by (intro wp_after_err tx steps_intros books_pre preorder_books_kept checked) (simp_all add: books_kept_def)
qed

lemma books_older: "steps books_kept m \<Longrightarrow> steps older m"
  by (erule steps_weaken) (simp add: books_kept_def older_def)

lemma steps_collect: "preorder R \<Longrightarrow> (\<And>x. steps R (f x)) \<Longrightarrow> steps R (collect f xs)"
  by (induction xs) (auto intro!: steps_intros)

lemma older_session: "steps older (create_session user b cache f)"
  unfolding create_session_def Let_def insert_session_def
  by (intro steps_intros) (auto simp: Let_def split: option.splits if_splits)

lemma older_batch: "steps older (insert_batch cfg user p n k)"
  unfolding insert_batch_def by (intro steps_intros) (auto simp: Let_def)

lemma older_create: "steps older (CreateBatch cfg user root parent fs)"
  unfolding CreateBatch_def Let_def
  by (intro steps_intros books_pre [THEN books_older] books_folders [THEN books_older]
      older_session older_batch steps_collect)

lemma acct_create: "steps acct_kept (CreateBatch cfg user root parent fs)"
proof (rule steps_wpI)
  fix w
  have made: "acct_kept w w'" if "batch_made cfg user fs w x w'" for x w'
  proof -
    obtain b ss where x: "x = (b, ss)" by (cases x)
    from that [unfolded x batch_made_def prod.case]
    have "acct (fresh w) (books (db w)) \<longrightarrow> acct (fresh w') (opened b ss (db w))" and bk: "books (db w') = opened b ss (db w)"
        and "fresh w \<le> fresh w'"
      by (auto intro!: acct_opened)
    then show ?thesis by (simp add: acct_kept_def)
  qed
  have "wp (CreateBatch cfg user root parent fs) (\<lambda>x w'. (batch_made cfg user fs w x w' \<and> True) \<and> older w w')
     (\<lambda>_ w'. (True \<and> books (db w') = books (db w)) \<and> older w w') w"
    by (intro wp_conj CreateBatch_wp CreateBatch_refused) (rule wp_steps [OF older_create], simp_all)
  then show "wp (CreateBatch cfg user root parent fs) (\<lambda>_. acct_kept w) (\<lambda>_. acct_kept w) w"
    by (rule wp_weaken) (auto simp: older_def intro: made acct_same)
qed

text \<open>
  What a batch reserves: a call of \<open>CreateBatch\<close> that succeeds opens one batch with
  one session for every file of the manifest, in order, no two with the same path up to
  case; every session is ready to receive, from offset 0, a file no larger than allowed;
  the sum of the sizes is reserved for the user, and with what was used and reserved
  before it is within the quota.
\<close>

theorem batch_reserves:
  assumes "CreateBatch cfg user root parent fs w = (Inr (b, ss), w')"
  shows "map us_expected ss = map ExpectedSize fs \<and> distinct (map us_id ss) \<and> distinct (map (\<lambda>s. to_lower (us_rel s)) ss)
    \<and> (\<forall>s \<in> set ss. us_status s = SOpen \<and> us_received s = 0 \<and> us_batch s = b_id b
         \<and> 0 \<le> us_expected s \<and> us_expected s \<le> MaxUploadBytes cfg \<and> files w' (us_key s) = Some [])
    \<and> batches (db w') = batches (db w) @ [b] \<and> sessions (db w') = sessions (db w) @ ss
    \<and> b_reserved b = sum_list (map us_expected ss)
    \<and> users (db w') = map (\<lambda>u. if u_id u = user then add_reserved (b_reserved b) u else u) (users (db w))
    \<and> (\<exists>u \<in> set (users (db w)). u_id u = user \<and> u_used u + u_reserved u + b_reserved b \<le> u_quota u + u_bonus u)"
  using wp_InrD [OF CreateBatch_wp assms]
  by (auto simp: batch_made_def opened_def books_def)

end
