(* ===== verification/SyncClient.thy ===== *)
theory SyncClient
  imports Chunks
begin

text \<open>
  \<open>internal/syncclient/client.go\<close>: the upload loop of the desktop client. \<open>UploadFile\<close>
  reads the file chunk by chunk and sends each chunk with its offset; the answer of the
  server is the offset of the next one. What the client relies on is the interface
  \<open>chunk_sink\<close>; the server's \<open>AppendChunk\<close> provides it.
\<close>

section \<open>The loop\<close>

text \<open>\<open>f.ReadAt(buf, offset)\<close>: the bytes read, and whether the end of the file was reached.\<close>

definition ReadAt :: "string \<Rightarrow> nat \<Rightarrow> int \<Rightarrow> string \<times> bool" where
  "ReadAt file chunk offset =
     (let bs = take chunk (drop (nat offset) file) in (bs, length bs < chunk))"

definition chunkBytes :: "int \<Rightarrow> nat" where
  "chunkBytes n = (if n > 0 then nat n else 8 * 1024 * 1024)"

text \<open>
  The loop ends only if the offsets the server returns make it end, so it has fuel, one
  unit per round. \<open>put\<close> is \<open>PutChunk\<close> of the session.
\<close>

fun upload_loop :: "('s \<Rightarrow> int \<Rightarrow> string \<Rightarrow> ('e + int) \<times> 's) \<Rightarrow> nat \<Rightarrow> string \<Rightarrow> nat \<Rightarrow> int \<Rightarrow> 's
    \<Rightarrow> (('e + unit) \<times> 's) option" where
  "upload_loop put 0 file chunk offset w = None"
| "upload_loop put (Suc fuel) file chunk offset w =
     (if offset < int (length file) then
        (let (bs, eof) = ReadAt file chunk offset in
         if length bs > 0 then
           (case put w offset bs of
              (Inl e, w') \<Rightarrow> Some (Inl e, w')
            | (Inr next, w') \<Rightarrow>
                if eof then Some (Inr (), w') else upload_loop put fuel file chunk next w')
         else if eof then Some (Inr (), w)
         else upload_loop put fuel file chunk offset w)
      else Some (Inr (), w))"

section \<open>What the loop relies on\<close>

locale chunk_sink =
  fixes put :: "'s \<Rightarrow> int \<Rightarrow> string \<Rightarrow> ('e + int) \<times> 's"
    and ok :: "'s \<Rightarrow> bool"
    and got :: "'s \<Rightarrow> string"
  assumes accepted: "ok w \<Longrightarrow> put w offset bs = (Inr n, w') \<Longrightarrow>
      ok w' \<and> offset = int (length (got w)) \<and> n = offset + int (length bs) \<and> got w' = got w @ bs"
    and refused: "ok w \<Longrightarrow> put w offset bs = (Inl e, w') \<Longrightarrow> ok w' \<and> got w' = got w"
begin

text \<open>With the chunk size positive, the loop ends, within one round per byte that is left.\<close>

lemma loop_ends:
  assumes "ok w" and "0 < chunk" and "0 \<le> offset" and "nat (int (length file) - offset) < fuel"
  shows "upload_loop put fuel file chunk offset w \<noteq> None"
  using assms
proof (induction fuel arbitrary: offset w)
  case 0
  then show ?case by simp
next
  case (Suc fuel)
  show ?case
  proof (cases "offset < int (length file)")
    case False
    then show ?thesis by simp
  next
    case True
    let ?bs = "take chunk (drop (nat offset) file)"
    have ne: "0 < length ?bs" using True Suc.prems by simp
    have "upload_loop put fuel file chunk n w' \<noteq> None" if put: "put w offset ?bs = (Inr n, w')" for n w'
    proof -
      have n: "ok w'" "n = offset + int (length ?bs)" using accepted [OF Suc.prems(1) put] by auto
      have "nat (int (length file) - n) < fuel" using n(2) ne True Suc.prems(4) by linarith
      with n Suc.prems show ?thesis by (intro Suc.IH) auto
    qed
    with True ne show ?thesis
      by (auto simp: ReadAt_def Let_def split: prod.splits sum.splits)
  qed
qed

text \<open>When it reports success, the sink has the whole file.\<close>

lemma loop_complete:
  assumes "ok w" and "0 < chunk" and "got w = take (nat offset) file" and "0 \<le> offset" and "offset \<le> int (length file)"
    and "upload_loop put fuel file chunk offset w = Some (Inr (), w')"
  shows "ok w' \<and> got w' = file"
  using assms
proof (induction fuel arbitrary: offset w)
  case 0
  then show ?case by simp
next
  case (Suc fuel)
  show ?case
  proof (cases "offset < int (length file)")
    case False
    with Suc.prems show ?thesis by simp
  next
    case True
    let ?bs = "take chunk (drop (nat offset) file)"
    have ne: "0 < length ?bs" using True Suc.prems by simp
    obtain n w1 where put: "put w offset ?bs = (Inr n, w1)"
      using Suc.prems(6) True ne by (auto simp: ReadAt_def Let_def split: prod.splits sum.splits)
    have w1: "ok w1" "n = offset + int (length ?bs)" "got w1 = got w @ ?bs"
      using accepted [OF Suc.prems(1) put] by auto
    have "take (nat offset) file @ ?bs = take (nat offset + chunk) file"
      by (rule take_add [symmetric])
    then have got: "got w1 = take (nat offset + chunk) file" using w1(3) Suc.prems(3) by simp
    show ?thesis
    proof (cases "length ?bs < chunk")
      case eof: True
      then have "length file \<le> nat offset + chunk" using True Suc.prems(4) by simp
      with got have "got w1 = file" by simp
      moreover have "w' = w1" using Suc.prems(6) True ne put eof by (simp add: ReadAt_def Let_def split: if_splits)
      ultimately show ?thesis using w1(1) by simp
    next
      case False
      then have "length ?bs = chunk" by simp
      then have n: "n = offset + int chunk" "nat offset + chunk \<le> length file"
        using w1(2) True Suc.prems(2,4) by (auto simp: min_def split: if_splits)
      have rest: "upload_loop put fuel file chunk n w1 = Some (Inr (), w')"
        using Suc.prems(6) True ne put False by (simp add: ReadAt_def Let_def)
      show ?thesis
        by (rule Suc.IH [OF w1(1) Suc.prems(2) _ _ _ rest])
           (use n got Suc.prems(2,4) in \<open>auto simp: nat_add_distrib\<close>)
    qed
  qed
qed

text \<open>When it reports an error, the sink has a part of the file from the start.\<close>

lemma loop_partial:
  assumes "ok w" and "got w = take (nat offset) file" and "0 \<le> offset" and "offset \<le> int (length file)"
    and "upload_loop put fuel file chunk offset w = Some (Inl e, w')"
  shows "ok w' \<and> (\<exists>n. got w' = take n file)"
  using assms
proof (induction fuel arbitrary: offset w)
  case 0
  then show ?case by simp
next
  case (Suc fuel)
  let ?bs = "take chunk (drop (nat offset) file)"
  show ?case
  proof (cases "offset < int (length file) \<and> 0 < length ?bs")
    case False
    then show ?thesis
      using Suc.prems Suc.IH [of w offset]
      by (auto simp: ReadAt_def Let_def split: if_splits)
  next
    case True
    show ?thesis
    proof (cases "put w offset ?bs")
      case (Pair r w1)
      show ?thesis
      proof (cases r)
        case (Inl e')
        with Pair have "ok w1 \<and> got w1 = got w" using refused [OF Suc.prems(1)] by blast
        moreover have "w' = w1" using Suc.prems(5) True Pair Inl by (simp add: ReadAt_def Let_def)
        ultimately show ?thesis using Suc.prems(2) by auto
      next
        case (Inr n)
        with Pair have "put w offset ?bs = (Inr n, w1)" by simp
        from accepted [OF Suc.prems(1) this]
        have w1: "ok w1" "n = offset + int (length ?bs)" "got w1 = got w @ ?bs" by blast+
        have len: "length ?bs = min chunk (length file - nat offset)" by simp
        have "take (nat offset) file @ ?bs = take (nat offset + chunk) file"
          by (rule take_add [symmetric])
        also have "\<dots> = take (nat n) file"
          using w1(2) len Suc.prems(3,4) by (cases "chunk \<le> length file - nat offset") (auto simp: min_def nat_add_distrib)
        finally have got: "got w1 = take (nat n) file" using w1(3) Suc.prems(2) by simp
        have rest: "upload_loop put fuel file chunk n w1 = Some (Inl e, w')"
          using Suc.prems(5) True Pair Inr by (simp add: ReadAt_def Let_def split: if_splits)
        have le: "n \<le> int (length file)"
          using w1(2) len Suc.prems(3,4) by (simp add: min_def split: if_splits)
        show ?thesis
          by (rule Suc.IH [OF w1(1) got _ le rest]) (use w1(2) Suc.prems(3) in auto)
      qed
    qed
  qed
qed

end

section \<open>The server as a sink\<close>

text \<open>
  The admission of the load controller (\<open>pace.Acquire\<close>), as far as one call sees it: it
  refuses or not, as the load is.
\<close>

definition admit :: "unit srv" where
  "admit = map_err (\<lambda>_. ErrOverloaded) (oscall (ret ()))"

lemma quiet_admit [steps_intros]: "quiet admit"
  by (rule stepsI) (auto simp: admit_def map_err_def oscall_def ret_def)

definition put_chunk :: "config \<Rightarrow> uuid \<Rightarrow> uuid \<Rightarrow> world \<Rightarrow> int \<Rightarrow> string \<Rightarrow> ((int \<times> err) + int) \<times> world" where
  "put_chunk cfg user i w offset bs = AppendChunk cfg admit user i offset [Data bs] (int (length bs)) w"

definition sink_ready :: "uuid \<Rightarrow> world \<Rightarrow> bool" where
  "sink_ready i w \<longleftrightarrow> distinct (map us_id (sessions (db w))) \<and> (\<exists>s. receiving w i s)"

definition sink_got :: "uuid \<Rightarrow> world \<Rightarrow> string" where
  "sink_got i w = (case session_of (db w) i of None \<Rightarrow> [] | Some s \<Rightarrow> landed w s)"

lemma receiving_unique: "receiving w i s \<Longrightarrow> session_of (db w) i = Some s"
  by (simp add: receiving_def)

lemma landed_length: "receiving w i s \<Longrightarrow> int (length (landed w s)) = us_received s"
  by (auto simp: receiving_def landed_def)

lemma append_keeps_ids:
  assumes "distinct (map us_id (sessions (db w)))" and "receiving w i s" and "quiet pace"
  shows "distinct (map us_id (sessions (db (snd (AppendChunk cfg pace user i off body len w)))))"
proof -
  have upd: "map us_id (sessions (update_session i (\<lambda>s. s\<lparr>us_received := n\<rparr>) d)) = map us_id (sessions d)" for n d
    by (simp add: update_session_def)
  show ?thesis
  proof (cases "AppendChunk cfg pace user i off body len w")
    case (Pair r w')
    show ?thesis
    proof (cases r)
      case (Inl ke)
      then show ?thesis
        using wp_InlD [OF chunk_wp [OF assms], of cfg user off body len ke w'] Pair assms(1)
        by (cases ke) (simp add: same_session_def)
    next
      case (Inr n)
      then show ?thesis
        using wp_InrD [OF chunk_wp [OF assms], of cfg user off body len n w'] Pair assms(1) upd by simp
    qed
  qed
qed

interpretation server: chunk_sink "put_chunk cfg user i" "sink_ready i" "sink_got i" for cfg user i
proof unfold_locales
  fix w off bs n w'
  assume "sink_ready i w" and put: "put_chunk cfg user i w off bs = (Inr n, w')"
  then obtain s where d: "distinct (map us_id (sessions (db w)))" and s: "receiving w i s"
    by (auto simp: sink_ready_def)
  note run = put [unfolded put_chunk_def]
  have "let s' = s\<lparr>us_received := n\<rparr> in receiving w' i s' \<and> off = us_received s \<and> n = off + int (length bs)
      \<and> landed w' s' = landed w s @ bs"
    using chunk_effect [OF d s quiet_admit run] by simp
  moreover have "distinct (map us_id (sessions (db w')))"
    using append_keeps_ids [OF d s quiet_admit, of cfg user off "[Data bs]" "int (length bs)"] run by simp
  ultimately show "sink_ready i w' \<and> off = int (length (sink_got i w)) \<and> n = off + int (length bs)
      \<and> sink_got i w' = sink_got i w @ bs"
    using landed_length [OF s] receiving_unique [OF s] receiving_unique [of w' i "s\<lparr>us_received := n\<rparr>"]
    unfolding sink_ready_def sink_got_def Let_def by fastforce
next
  fix w off bs e w'
  assume "sink_ready i w" and put: "put_chunk cfg user i w off bs = (Inl e, w')"
  then obtain s where d: "distinct (map us_id (sessions (db w)))" and s: "receiving w i s"
    by (auto simp: sink_ready_def)
  note run = put [unfolded put_chunk_def]
  have "receiving w' i s \<and> landed w' s = landed w s"
    using chunk_effect [OF d s quiet_admit run] by (cases e) simp
  moreover have "distinct (map us_id (sessions (db w')))"
    using append_keeps_ids [OF d s quiet_admit, of cfg user off "[Data bs]" "int (length bs)"] run by simp
  ultimately show "sink_ready i w' \<and> sink_got i w' = sink_got i w"
    using receiving_unique [OF s] receiving_unique [of w' i s]
    unfolding sink_ready_def sink_got_def by auto
qed

definition UploadFile_loop :: "config \<Rightarrow> uuid \<Rightarrow> uuid \<Rightarrow> int \<Rightarrow> string \<Rightarrow> int \<Rightarrow> world \<Rightarrow> (((int \<times> err) + unit) \<times> world) option" where
  "UploadFile_loop cfg user i chunkSize file offset w =
     upload_loop (put_chunk cfg user i) (Suc (length file)) file (chunkBytes chunkSize) offset w"

lemma chunkBytes_pos: "0 < chunkBytes n"
  by (simp add: chunkBytes_def)

text \<open>
  C1: the upload of a file ends, whatever fails and however the chunks are cut: for a new
  session the loop always returns; when it reports success the server has received
  exactly the bytes of the file, and when it reports an error the server has received
  exactly a beginning of them.
\<close>

theorem upload_end_to_end:
  assumes "distinct (map us_id (sessions (db w)))" and "receiving w i s" and "us_received s = 0"
  shows "\<exists>r w'. UploadFile_loop cfg user i chunkSize file 0 w = Some (r, w')
    \<and> (r = Inr () \<longrightarrow> sink_got i w' = file) \<and> (\<exists>n. sink_got i w' = take n file)"
proof -
  have ok: "sink_ready i w" using assms(1,2) by (auto simp: sink_ready_def)
  have got: "sink_got i w = take (nat 0) file"
    using receiving_unique [OF assms(2)] landed_length [OF assms(2)] assms(3) by (simp add: sink_got_def)
  have "UploadFile_loop cfg user i chunkSize file 0 w \<noteq> None"
    unfolding UploadFile_loop_def by (rule server.loop_ends [OF ok chunkBytes_pos]) simp_all
  then obtain r w' where run: "UploadFile_loop cfg user i chunkSize file 0 w = Some (r, w')"
    by fast
  note run' = run [unfolded UploadFile_loop_def]
  show ?thesis
  proof (cases r)
    case (Inl e)
    with server.loop_partial [OF ok got _ _ run' [unfolded Inl]] run show ?thesis by auto
  next
    case (Inr u)
    then have r: "r = Inr ()" by simp
    have "sink_ready i w' \<and> sink_got i w' = file"
      by (rule server.loop_complete [OF ok chunkBytes_pos got _ _ run' [unfolded r]]) simp_all
    with run show ?thesis by (metis take_all_iff order_refl)
  qed
qed

end
