(* ===== verification/Requests.thy ===== *)
theory Requests
  imports Batches SyncClient
begin

text \<open>
  The services as state machines: a step is one request, with any parameters and any
  failures (the fault schedule is part of the state), or the passing of time. What every
  reachable state satisfies.
\<close>

section \<open>The upload service\<close>

inductive upload_step :: "config \<Rightarrow> (string \<Rightarrow> string) \<Rightarrow> world \<Rightarrow> world \<Rightarrow> bool" for cfg sha where
  create_batch: "CreateBatch cfg user root parent fs w = (r, w') \<Longrightarrow> upload_step cfg sha w w'"
| append_chunk: "AppendChunk cfg admit user i off body len w = (r, w') \<Longrightarrow> upload_step cfg sha w w'"
| complete_file: "CompleteFile sha user i w = (r, w') \<Longrightarrow> upload_step cfg sha w w'"
| abort_batch: "AbortBatch user i w = (r, w') \<Longrightarrow> upload_step cfg sha w w'"
| cleanup_expired: "CleanupExpired w = (r, w') \<Longrightarrow> upload_step cfg sha w w'"
| wait: "upload_step cfg sha w (w\<lparr>clock := n\<rparr>)"

inductive_cases upload_stepE: "upload_step cfg sha w w'"

definition upload_reaches :: "config \<Rightarrow> (string \<Rightarrow> string) \<Rightarrow> world \<Rightarrow> world \<Rightarrow> bool" where
  "upload_reaches cfg sha = (upload_step cfg sha)\<^sup>*\<^sup>*"

lemma upload_step_acct: "upload_step cfg sha w w' \<Longrightarrow> acct_kept w w'"
  by (erule upload_stepE)
     (auto dest: stepsD [OF acct_create] stepsD [OF acct_chunk [OF quiet_admit]] stepsD [OF acct_complete]
        stepsD [OF acct_abort] stepsD [OF acct_expire] intro: acct_same)

lemma upload_reaches_acct: "upload_reaches cfg sha w w' \<Longrightarrow> acct_kept w w'"
  unfolding upload_reaches_def
  by (induction rule: rtranclp_induct)
     (auto intro: preorder_refl [OF preorder_acct] preorder_trans [OF preorder_acct] upload_step_acct)


section \<open>The file service\<close>

inductive file_step :: "config \<Rightarrow> world \<Rightarrow> world \<Rightarrow> bool" for cfg where
  create_folder: "CreateFolder user role p name dev w = (r, w') \<Longrightarrow> file_step cfg w w'"
| upload: "Upload cfg admit user role p dev conflict file n name mime w = (r, w') \<Longrightarrow> file_step cfg w w'"
| upload_bytes: "UploadBytes cfg user role p name mime bs dev w = (r, w') \<Longrightarrow> file_step cfg w w'"
| upload_stream: "UploadStream cfg user role p name mime n src dev w = (r, w') \<Longrightarrow> file_step cfg w w'"
| download: "Download user role i w = (r, w') \<Longrightarrow> file_step cfg w w'"
| move: "Move user role i p dev w = (r, w') \<Longrightarrow> file_step cfg w w'"
| rename: "Rename user role i name dev w = (r, w') \<Longrightarrow> file_step cfg w w'"
| trash: "TrashEntry user role i dev w = (r, w') \<Longrightarrow> file_step cfg w w'"
| restore: "Restore user role i dev w = (r, w') \<Longrightarrow> file_step cfg w w'"
| purge: "Purge user i dev w = (r, w') \<Longrightarrow> file_step cfg w w'"
| cleanup_trash: "CleanupTrash n w = (r, w') \<Longrightarrow> file_step cfg w w'"
| wait: "file_step cfg w (w\<lparr>clock := n\<rparr>)"

inductive_cases file_stepE: "file_step cfg w w'"

definition file_reaches :: "config \<Rightarrow> world \<Rightarrow> world \<Rightarrow> bool" where
  "file_reaches cfg = (file_step cfg)\<^sup>*\<^sup>*"

lemma file_step_kept: "file_step cfg w w' \<Longrightarrow> entries_kept w w'"
  by (erule file_stepE)
     (auto dest: stepsD [OF kept_CreateFolder] stepsD [OF kept_Upload [OF quiet_admit]] stepsD [OF kept_UploadBytes]
        stepsD [OF kept_UploadStream] stepsD [OF kept_Download] stepsD [OF kept_Move] stepsD [OF kept_Rename]
        stepsD [OF kept_TrashEntry] stepsD [OF kept_Restore] stepsD [OF kept_Purge] stepsD [OF kept_CleanupTrash]
        intro: kept_same)

lemma file_reaches_kept: "file_reaches cfg w w' \<Longrightarrow> entries_kept w w'"
  unfolding file_reaches_def
  by (induction rule: rtranclp_induct)
     (auto intro: preorder_refl [OF preorder_kept] preorder_trans [OF preorder_kept] file_step_kept)


end
