(* ===== verification/LoadPace.thy ===== *)
theory LoadPace
  imports Names "HOL-Library.Word" Complex_Main
begin

text \<open>
  \<open>internal/loadpace/controller.go\<close>: the admission of uploads. The load of the processor
  is estimated from \<open>/proc/stat\<close>; clients are told a pace by it and by the number of
  uploads that run; a semaphore bounds that number. The counters are 64-bit words, which
  wrap; percentages are rationals (the code has \<open>float64\<close>, whose rounding is not
  modelled).
\<close>

section \<open>Reading the load\<close>

fun split_loop :: "string \<Rightarrow> string option \<Rightarrow> string list" where
  "split_loop [] None = []"
| "split_loop [] (Some f) = [f]"
| "split_loop (c # s) cur =
     (if c = CHR '' '' \<or> c = CHR 0x09
      then (case cur of None \<Rightarrow> split_loop s None | Some f \<Rightarrow> f # split_loop s None)
      else split_loop s (Some (case cur of None \<Rightarrow> [c] | Some f \<Rightarrow> f @ [c])))"

definition splitFields :: "string \<Rightarrow> string list" where
  "splitFields s = split_loop s None"

fun parse_loop :: "64 word \<Rightarrow> string \<Rightarrow> 64 word option" where
  "parse_loop n [] = Some n"
| "parse_loop n (c # s) =
     (if is_digit c then parse_loop (n * 10 + of_nat (byte c - 48)) s else None)"

definition parseUint :: "string \<Rightarrow> 64 word option" where
  "parseUint s = parse_loop 0 s"

fun parse_all :: "string list \<Rightarrow> 64 word list option" where
  "parse_all [] = Some []"
| "parse_all (f # fs) = (case parseUint f of None \<Rightarrow> None | Some v \<Rightarrow> map_option (Cons v) (parse_all fs))"

definition first_line :: "string \<Rightarrow> string" where
  "first_line s = (if CHR 0x0A \<in> set s then takeWhile (\<lambda>c. c \<noteq> CHR 0x0A) s else [])"

text \<open>\<open>None\<close> as input: not Linux, or the file could not be read.\<close>

definition readCPUTimes :: "string option \<Rightarrow> (64 word \<times> 64 word) option" where
  "readCPUTimes data =
     (case data of None \<Rightarrow> None
      | Some s \<Rightarrow>
          let line = first_line s in
          if length line < 4 \<or> take 3 line \<noteq> ''cpu'' then None
          else let fields = splitFields line in
            if length fields < 5 then None
            else (case parse_all (tl fields) of
                None \<Rightarrow> None
              | Some vals \<Rightarrow> Some (vals ! 3 + (if length vals > 4 then vals ! 4 else 0), sum_list vals)))"

section \<open>The controller\<close>

record controller =
  maxSlots :: nat
  sem :: nat
  active :: int
  cpuPercent :: rat
  prevIdle :: "64 word"
  prevTotal :: "64 word"
  haveSample :: bool

definition usage :: "controller \<Rightarrow> 64 word \<Rightarrow> 64 word \<Rightarrow> rat" where
  "usage c idle tot =
     (let idleDelta = of_nat (unat (idle - prevIdle c));
          totalDelta = of_nat (unat (tot - prevTotal c))
      in max 0 (min 100 ((1 - idleDelta / totalDelta) * 100)))"

definition sampleCPU :: "int \<Rightarrow> string option \<Rightarrow> controller \<Rightarrow> controller" where
  "sampleCPU goroutines data c =
     (case readCPUTimes data of
        None \<Rightarrow> c\<lparr>cpuPercent := min 100 (of_int goroutines / 2) * (15 / 100)\<rparr>
      | Some (idle, tot) \<Rightarrow>
          (if haveSample c \<and> prevTotal c < tot
           then let u = usage c idle tot
                in c\<lparr>cpuPercent := (if cpuPercent c \<le> 0 then u else cpuPercent c * (6 / 10) + u * (4 / 10))\<rparr>
           else c)\<lparr>prevIdle := idle, prevTotal := tot, haveSample := True\<rparr>)"

definition New :: "int \<Rightarrow> int \<Rightarrow> string option \<Rightarrow> controller" where
  "New maxConcurrent goroutines data = sampleCPU goroutines data
     \<lparr>maxSlots = (if maxConcurrent < 1 then 3 else nat maxConcurrent), sem = 0, active = 0, cpuPercent = 0,
      prevIdle = 0, prevTotal = 0, haveSample = False\<rparr>"

definition round1 :: "rat \<Rightarrow> rat" where
  "round1 v = of_int \<lfloor>v * 10 + 1 / 2\<rfloor> / 10"

record snapshot =
  CPUPercent :: rat
  ActiveUploads :: int
  MaxConcurrent :: nat
  DelayMs :: int
  Mode :: string
  AcceptUploads :: bool
  RetryAfterSec :: int
  RecommendedBatch :: int

definition occupancy :: "controller \<Rightarrow> rat" where
  "occupancy c = (if maxSlots c > 0 then of_int (active c) / of_nat (maxSlots c) else 0)"

definition Snapshot :: "controller \<Rightarrow> snapshot" where
  "Snapshot c =
     (let cpu = cpuPercent c; occ = occupancy c;
          answer = (\<lambda>mode delayMs accept retryAfter batch.
            \<lparr>CPUPercent = round1 cpu, ActiveUploads = active c, MaxConcurrent = maxSlots c, DelayMs = delayMs,
             Mode = mode, AcceptUploads = accept, RetryAfterSec = retryAfter, RecommendedBatch = batch\<rparr>)
      in if cpu \<ge> 92 \<or> (occ \<ge> 1 \<and> cpu \<ge> 80) then answer ''pause'' 3000 False 5 1
         else if cpu \<ge> 85 \<or> occ \<ge> 85 / 100 then answer ''slow'' 2000 True 2 2
         else if cpu \<le> 50 \<and> occ < 1 / 2 then answer ''fast'' 60 True 0 19
         else answer ''normal'' 300 True 0 10)"

text \<open>\<open>UploadPace\<close> of the file service, which may have no controller.\<close>

definition UploadPace :: "controller option \<Rightarrow> snapshot" where
  "UploadPace p = (case p of
     None \<Rightarrow> \<lparr>CPUPercent = 0, ActiveUploads = 0, MaxConcurrent = 3, DelayMs = 350, Mode = ''normal'',
             AcceptUploads = True, RetryAfterSec = 0, RecommendedBatch = 8\<rparr>
   | Some c \<Rightarrow> Snapshot c)"

section \<open>The pace follows the load\<close>

lemma usage_bounds: "0 \<le> usage c i t \<and> usage c i t \<le> 100"
  by (simp add: usage_def Let_def)

definition cpu_ok :: "controller \<Rightarrow> bool" where
  "cpu_ok c \<longleftrightarrow> 0 \<le> cpuPercent c \<and> cpuPercent c \<le> 100"

lemma sampleCPU_ok:
  assumes "cpu_ok c" and "0 \<le> n"
  shows "cpu_ok (sampleCPU n data c)"
proof -
  have idle: "min 100 (of_int n / 2) * (15 / 100) \<le> (100 :: rat)"
    using min.cobounded1 [of "100 :: rat" "of_int n / 2"] by linarith
  have "0 \<le> min 100 (of_int n / 2) * (15 / 100 :: rat)" using assms(2) by simp
  moreover have "cpuPercent c * (6 / 10) + usage c i t * (4 / 10) \<le> 100" "0 \<le> cpuPercent c * (6 / 10) + usage c i t * (4 / 10)" for i t
    using assms(1) usage_bounds [of c i t] by (auto simp: cpu_ok_def)
  ultimately show ?thesis
    using idle assms usage_bounds
    by (auto simp: sampleCPU_def cpu_ok_def Let_def split: option.splits)
qed

lemma sampleCPU_slots [simp]:
  "maxSlots (sampleCPU n data c) = maxSlots c" "sem (sampleCPU n data c) = sem c" "active (sampleCPU n data c) = active c"
  by (simp_all add: sampleCPU_def Let_def split: option.splits prod.splits)

text \<open>
  The advice follows the load: when the load is no lower and no fewer uploads run,
  a client is told to wait at least as long and to send at most as many files at once,
  and is not admitted where it was refused.
\<close>

theorem pace_monotone:
  assumes "maxSlots c' = maxSlots c" and "cpuPercent c \<le> cpuPercent c'" and "active c \<le> active c'"
  shows "DelayMs (Snapshot c) \<le> DelayMs (Snapshot c') \<and> RecommendedBatch (Snapshot c') \<le> RecommendedBatch (Snapshot c)
    \<and> (AcceptUploads (Snapshot c') \<longrightarrow> AcceptUploads (Snapshot c))"
proof -
  have "occupancy c \<le> occupancy c'"
    using assms(1,3) by (simp add: occupancy_def divide_right_mono)
  with assms(2) show ?thesis by (auto simp: Snapshot_def Let_def)
qed

theorem pace_monotone_witness:
  "DelayMs (Snapshot (New 3 0 None)) \<le> DelayMs (Snapshot ((New 3 0 None)\<lparr>active := 2, cpuPercent := 90\<rparr>))
    \<and> RecommendedBatch (Snapshot ((New 3 0 None)\<lparr>active := 2, cpuPercent := 90\<rparr>)) \<le> RecommendedBatch (Snapshot (New 3 0 None))"
  using pace_monotone [of "(New 3 0 None)\<lparr>active := 2, cpuPercent := 90\<rparr>" "New 3 0 None"]
  by (simp add: New_def sampleCPU_def readCPUTimes_def)

section \<open>The counters are read back\<close>

lemma parse_loop_append:
  "parse_loop m (s @ t) = (case parse_loop m s of None \<Rightarrow> None | Some k \<Rightarrow> parse_loop k t)"
  by (induction m s rule: parse_loop.induct) auto

lemma digit_byte: "d < 10 \<Longrightarrow> byte (char_of (48 + d :: nat)) = 48 + d" for d :: nat
  by (simp add: byte_def of_char_of)

lemma digit_char: "d < 10 \<Longrightarrow> is_digit (char_of (48 + d :: nat))" for d :: nat
  by (simp add: is_digit_def digit_byte)

lemma parse_show: "parse_loop 0 (show_nat n) = Some (of_nat n)"
proof (induction n rule: show_nat.induct)
  case (1 n)
  show ?case
  proof (cases "n < 10")
    case True
    then show ?thesis by (subst show_nat.simps) (simp add: digit_byte digit_char)
  next
    case False
    have "of_nat n = (of_nat (n div 10) * 10 + of_nat (n mod 10) :: 64 word)"
      by (metis div_mult_mod_eq of_nat_add of_nat_mult of_nat_numeral)
    with 1 False show ?thesis
      by (subst show_nat.simps) (simp add: parse_loop_append digit_byte digit_char)
  qed
qed

lemma show_nat_digits: "c \<in> set (show_nat n) \<Longrightarrow> is_digit c" and show_nat_ne: "show_nat n \<noteq> []"
proof (induction n rule: show_nat.induct)
  case (1 n)
  {
    case 1
    then show ?case
      using "1.IH"(1) by (subst (asm) show_nat.simps) (auto simp: digit_char split: if_splits)
  next
    case 2
    show ?case by (subst show_nat.simps) simp
  }
qed

lemma split_word:
  "(\<And>c. c \<in> set f \<Longrightarrow> c \<noteq> CHR '' '' \<and> c \<noteq> CHR 0x09) \<Longrightarrow> split_loop (f @ s) (Some g) = split_loop s (Some (g @ f))"
  by (induction f arbitrary: g) auto

text \<open>The line of the kernel: \<open>cpu\<close>, two blanks, the counters with a blank between.\<close>

definition proc_line :: "nat list \<Rightarrow> string" where
  "proc_line ns = ''cpu '' @ concat (map (\<lambda>n. CHR '' '' # show_nat n) ns)"

lemma no_blank: "c \<in> set (show_nat n) \<Longrightarrow> c \<noteq> CHR '' '' \<and> c \<noteq> CHR 0x09 \<and> c \<noteq> CHR 0x0A"
  using show_nat_digits [of c n] by (auto simp: is_digit_def byte_def)

lemma split_numbers:
  "split_loop (concat (map (\<lambda>n. CHR '' '' # show_nat n) ns)) (Some f) = f # map show_nat ns"
  "split_loop (concat (map (\<lambda>n. CHR '' '' # show_nat n) ns)) None = map show_nat ns"
proof -
  have word: "split_loop (show_nat n @ s) None = split_loop s (Some (show_nat n))" for n s
  proof (cases "show_nat n")
    case Nil
    then show ?thesis using show_nat_ne by blast
  next
    case (Cons c f)
    then have "c \<noteq> CHR '' '' \<and> c \<noteq> CHR 0x09" "\<And>d. d \<in> set f \<Longrightarrow> d \<noteq> CHR '' '' \<and> d \<noteq> CHR 0x09"
      using no_blank [of _ n] by auto
    with Cons show ?thesis by (simp add: split_word)
  qed
  have *: "split_loop (concat (map (\<lambda>n. CHR '' '' # show_nat n) ns)) (Some f) = f # map show_nat ns" for f ns
    by (induction ns arbitrary: f) (simp_all add: word)
  show "split_loop (concat (map (\<lambda>n. CHR '' '' # show_nat n) ns)) (Some f) = f # map show_nat ns" by (rule *)
  show "split_loop (concat (map (\<lambda>n. CHR '' '' # show_nat n) ns)) None = map show_nat ns"
    by (cases ns) (simp_all add: word *)
qed

lemma parse_numbers: "parse_all (map show_nat ns) = Some (map of_nat ns)"
  by (induction ns) (simp_all add: parseUint_def parse_show)

lemma read_proc_line:
  assumes "4 \<le> length ns"
  shows "readCPUTimes (Some (proc_line ns @ CHR 0x0A # rest))
    = Some (of_nat (ns ! 3 + (if length ns > 4 then ns ! 4 else 0)), of_nat (sum_list ns))"
proof -
  have "CHR 0x0A \<notin> set (show_nat n)" for n using no_blank by blast
  then have nl: "CHR 0x0A \<notin> set (proc_line ns)" by (auto simp: proc_line_def)
  have "takeWhile (\<lambda>c. c \<noteq> CHR 0x0A) (s @ CHR 0x0A # t) = s" if "CHR 0x0A \<notin> set s" for s t
    using that by (induction s) auto
  with nl have line: "first_line (proc_line ns @ CHR 0x0A # rest) = proc_line ns"
    by (simp add: first_line_def)
  obtain n ms where ns: "ns = n # ms" using assms by (cases ns) auto
  have fields: "splitFields (proc_line ns) = ''cpu'' # map show_nat ns"
    by (simp add: proc_line_def splitFields_def split_numbers)
  have long: "4 \<le> length (proc_line ns)" "take 3 (proc_line ns) = ''cpu''" by (simp_all add: proc_line_def)
  have sum: "sum_list (map of_nat ns) = (of_nat (sum_list ns) :: 64 word)"
    by (induction ns) simp_all
  show ?thesis
    using assms long by (simp add: readCPUTimes_def line fields parse_numbers sum Let_def)
qed

text \<open>
  The counters the kernel prints are read back: the total is their sum, the idle
  time that of idle and iowait, modulo \<open>2 ^ 64\<close>.
\<close>

theorem counters_read_back:
  assumes "4 \<le> length ns"
  shows "readCPUTimes (Some (proc_line ns @ CHR 0x0A # rest))
    = Some (of_nat (ns ! 3 + (if length ns > 4 then ns ! 4 else 0)), of_nat (sum_list ns))"
  by (rule read_proc_line [OF assms])

theorem counters_read_back_witness:
  "readCPUTimes (Some (proc_line [100, 0, 7, 10, 5] @ CHR 0x0A # ''intr 1'')) = Some (15, 122)"
  using counters_read_back [of "[100, 0, 7, 10, 5]" "''intr 1''"] by simp

definition after :: "nat list \<Rightarrow> controller \<Rightarrow> controller" where
  "after ns = sampleCPU 0 (Some (proc_line ns @ CHR 0x0A # []))"

lemma after_eq:
  "4 \<le> length ns \<Longrightarrow> after ns c =
     (let idle = of_nat (ns ! 3 + (if length ns > 4 then ns ! 4 else 0)); tot = of_nat (sum_list ns)
      in (if haveSample c \<and> prevTotal c < tot
           then let u = usage c idle tot
                in c\<lparr>cpuPercent := (if cpuPercent c \<le> 0 then u else cpuPercent c * (6 / 10) + u * (4 / 10))\<rparr>
           else c)\<lparr>prevIdle := idle, prevTotal := tot, haveSample := True\<rparr>)"
  by (simp only: after_def sampleCPU_def read_proc_line option.case prod.case Let_def)

lemma all_ones: "(unsigned (- 1 :: 64 word) :: rat) = 18446744073709551615"
proof -
  have "unat (- 1 :: 64 word) = 18446744073709551615"
    by (simp add: unsigned_minus_1_eq_mask mask_eq_exp_minus_1)
  then have "(of_nat (unat (- 1 :: 64 word)) :: rat) = 18446744073709551615" by (simp only: of_nat_numeral)
  then show ?thesis by simp
qed


end
