(* ===== verification/Slots.thy ===== *)
theory Slots
  imports LoadPace "HOL-Library.Multiset"
begin

text \<open>
  \<open>Acquire\<close> of \<open>internal/loadpace/controller.go\<close> with the function it returns, step by
  step, for any number of uploads at once: the channel \<open>sem\<close> and the counter \<open>active\<close>
  change in separate steps, between which any other upload may run.
\<close>

section \<open>Uploads and their steps\<close>

text \<open>Where an upload is. \<open>Snapped\<close> holds the snapshot it has taken.\<close>

datatype phase = Calling | Snapped snapshot | Passed | Queued | Took | Holding | Freed | Gone | Refused err

record slots =
  ctl :: controller
  procs :: "phase list"

definition hot :: "snapshot \<Rightarrow> controller \<Rightarrow> bool" where
  "hot s c \<longleftrightarrow> \<not> AcceptUploads s \<and> (active c \<ge> int (maxSlots c) \<or> CPUPercent s \<ge> 95)"

text \<open>What one upload does next, as a relation on the controller and its phase.\<close>

inductive acquire_step :: "controller \<Rightarrow> phase \<Rightarrow> controller \<Rightarrow> phase \<Rightarrow> bool" where
  take_snapshot: "acquire_step c Calling c (Snapped (Snapshot c))"
| refuse: "hot s c \<Longrightarrow> acquire_step c (Snapped s) c (Refused ErrOverloaded)"
| pass: "\<not> hot s c \<Longrightarrow> acquire_step c (Snapped s) c Passed"
| take_free: "sem c < maxSlots c \<Longrightarrow> acquire_step c Passed (c\<lparr>sem := sem c + 1\<rparr>) Took"
| enqueue: "sem c = maxSlots c \<Longrightarrow> acquire_step c Passed c Queued"
| take_queued: "sem c < maxSlots c \<Longrightarrow> acquire_step c Queued (c\<lparr>sem := sem c + 1\<rparr>) Took"
| cancel: "p = Passed \<or> p = Queued \<Longrightarrow> acquire_step c p c (Refused Fault)"
| timeout: "acquire_step c Queued c (Refused ErrOverloaded)"
| count_in: "acquire_step c Took (c\<lparr>active := active c + 1\<rparr>) Holding"
| give_back: "acquire_step c Holding (c\<lparr>sem := sem c - 1\<rparr>) Freed"
| count_out: "acquire_step c Freed (c\<lparr>active := active c - 1\<rparr>) Gone"

inductive slot_step :: "slots \<Rightarrow> slots \<Rightarrow> bool" where
  run: "i < length (procs s) \<Longrightarrow> acquire_step (ctl s) (procs s ! i) c p
     \<Longrightarrow> slot_step s (s\<lparr>ctl := c, procs := (procs s)[i := p]\<rparr>)"
| arrive: "slot_step s (s\<lparr>procs := procs s @ [Calling]\<rparr>)"
| sample: "0 \<le> n \<Longrightarrow> slot_step s (s\<lparr>ctl := sampleCPU n data (ctl s)\<rparr>)"

inductive_cases acquire_stepE: "acquire_step c p c' p'"
inductive_cases slot_stepE: "slot_step s s'"

inductive_simps acquire_done [simp]: "acquire_step c Gone c' p'" "acquire_step c (Refused e) c' p'"

section \<open>The invariant\<close>

definition in_sem :: "phase \<Rightarrow> bool" where
  "in_sem p \<longleftrightarrow> p = Took \<or> p = Holding"

definition counted :: "phase \<Rightarrow> bool" where
  "counted p \<longleftrightarrow> p = Holding \<or> p = Freed"

definition how_many :: "(phase \<Rightarrow> bool) \<Rightarrow> phase list \<Rightarrow> nat" where
  "how_many P ps = length (filter P ps)"

definition slots_ok :: "slots \<Rightarrow> bool" where
  "slots_ok s \<longleftrightarrow> sem (ctl s) = how_many in_sem (procs s) \<and> sem (ctl s) \<le> maxSlots (ctl s)
     \<and> active (ctl s) = int (how_many counted (procs s)) \<and> cpu_ok (ctl s)"

lemma how_many_upd:
  "i < length ps \<Longrightarrow> how_many P (ps[i := p]) + (if P (ps ! i) then 1 else 0) = how_many P ps + (if P p then 1 else 0)"
proof (induction ps arbitrary: i)
  case (Cons q ps)
  show ?case
  proof (cases i)
    case (Suc j)
    with Cons.prems Cons.IH [of j] show ?thesis by (auto simp: how_many_def)
  qed (simp add: how_many_def)
qed simp

lemma how_many_pos: "i < length ps \<Longrightarrow> P (ps ! i) \<Longrightarrow> 0 < how_many P ps"
  by (auto simp: how_many_def filter_empty_conv)

lemma run_ok:
  assumes "slots_ok s" and i: "i < length (procs s)" and "acquire_step (ctl s) (procs s ! i) c p"
  shows "slots_ok (s\<lparr>ctl := c, procs := (procs s)[i := p]\<rparr>) \<and> maxSlots c = maxSlots (ctl s)"
proof -
  note counts = how_many_upd [OF i, of in_sem p] how_many_upd [OF i, of counted p]
  have pos: "procs s ! i = Holding \<Longrightarrow> 0 < how_many in_sem (procs s)"
    by (rule how_many_pos [OF i]) (simp add: in_sem_def)
  from assms(3) show ?thesis
    by (cases rule: acquire_step.cases)
       (use assms(1) counts pos in \<open>auto simp: slots_ok_def in_sem_def counted_def cpu_ok_def\<close>)
qed

lemma slot_step_ok: "slot_step s s' \<Longrightarrow> slots_ok s \<Longrightarrow> slots_ok s' \<and> maxSlots (ctl s') = maxSlots (ctl s)"
proof (induction rule: slot_step.induct)
  case (run i s c p)
  with run_ok show ?case by simp
next
  case (arrive s)
  then show ?case by (simp add: slots_ok_def how_many_def in_sem_def counted_def)
next
  case (sample n s data)
  then show ?case by (simp add: slots_ok_def sampleCPU_ok)
qed

definition slots_reach :: "slots \<Rightarrow> slots \<Rightarrow> bool" where
  "slots_reach = slot_step\<^sup>*\<^sup>*"

lemma slots_reach_ok:
  "slots_reach s s' \<Longrightarrow> slots_ok s \<Longrightarrow> slots_ok s' \<and> maxSlots (ctl s') = maxSlots (ctl s)"
  unfolding slots_reach_def by (induction rule: rtranclp_induct) (auto dest: slot_step_ok)

definition slots_start :: "int \<Rightarrow> int \<Rightarrow> string option \<Rightarrow> slots" where
  "slots_start maxConcurrent goroutines data = \<lparr>ctl = New maxConcurrent goroutines data, procs = []\<rparr>"

lemma start_ok: "0 \<le> n \<Longrightarrow> slots_ok (slots_start m n data)"
proof -
  assume "0 \<le> n"
  then have "cpu_ok (New m n data)" unfolding New_def by (intro sampleCPU_ok) (simp_all add: cpu_ok_def)
  then show ?thesis by (simp only: slots_start_def slots_ok_def slots.simps) (simp add: New_def how_many_def)
qed

text \<open>
  C8: no more uploads run at once than there are slots, however their steps interleave:
  in every state reached from a new controller the uploads that hold a slot are at most
  \<open>maxSlots\<close> (3 where none or a negative number is configured), the semaphore has
  exactly one token for each of them, and the load is between 0 and 100 per cent.
\<close>

theorem slots_bounded:
  assumes "slots_reach (slots_start maxConcurrent n data) s" and "0 \<le> n"
  shows "how_many in_sem (procs s) = sem (ctl s)
    \<and> how_many in_sem (procs s) \<le> (if maxConcurrent < 1 then 3 else nat maxConcurrent)
    \<and> 0 \<le> cpuPercent (ctl s) \<and> cpuPercent (ctl s) \<le> 100"
  using slots_reach_ok [OF assms(1) start_ok [OF assms(2)]]
  by (auto simp: slots_ok_def cpu_ok_def slots_start_def New_def)

text \<open>
  The last upload gives everything back: once every upload is gone or refused, all
  slots are free and the counter of running uploads is 0, however their steps
  interleaved.
\<close>

theorem slots_given_back:
  assumes "slots_reach (slots_start maxConcurrent n data) s" and "0 \<le> n"
    and "\<forall>p \<in> set (procs s). p = Gone \<or> (\<exists>e. p = Refused e)"
  shows "sem (ctl s) = 0 \<and> active (ctl s) = 0"
proof -
  have "\<not> in_sem p \<and> \<not> counted p" if "p \<in> set (procs s)" for p
    using assms(3) that by (auto simp: in_sem_def counted_def)
  then have "filter in_sem (procs s) = []" "filter counted (procs s) = []"
    by (auto simp: filter_empty_conv)
  with slots_reach_ok [OF assms(1) start_ok [OF assms(2)]] show ?thesis
    by (simp add: slots_ok_def how_many_def)
qed

section \<open>An upload from its call to its end\<close>

lemma one_step: "acquire_step c p c' p' \<Longrightarrow> slot_step \<lparr>ctl = c, procs = [p]\<rparr> \<lparr>ctl = c', procs = [p']\<rparr>"
  using slot_step.run [of 0 "\<lparr>ctl = c, procs = [p]\<rparr>" c' p'] by simp

definition idle_ctl :: "nat \<Rightarrow> int \<Rightarrow> controller" where
  "idle_ctl n k = \<lparr>maxSlots = 1, sem = n, active = k, cpuPercent = 0, prevIdle = 0, prevTotal = 0, haveSample = False\<rparr>"

lemma idle_simps [simp]:
  "maxSlots (idle_ctl n k) = 1" "sem (idle_ctl n k) = n" "active (idle_ctl n k) = k" "cpuPercent (idle_ctl n k) = 0"
  "(idle_ctl n k)\<lparr>sem := n'\<rparr> = idle_ctl n' k" "(idle_ctl n k)\<lparr>active := k'\<rparr> = idle_ctl n k'"
  by (simp_all add: idle_ctl_def)

lemma start_idle: "slots_start 1 0 None = \<lparr>ctl = idle_ctl 0 0, procs = []\<rparr>"
  by (simp add: slots_start_def New_def sampleCPU_def readCPUTimes_def idle_ctl_def)

lemma slots_then: "slots_reach s t \<Longrightarrow> slot_step t u \<Longrightarrow> slots_reach s u"
  unfolding slots_reach_def by (rule rtranclp.rtrancl_into_rtrancl)

lemma example_holds: "slots_reach (slots_start 1 0 None) \<lparr>ctl = idle_ctl 1 1, procs = [Holding]\<rparr>"
proof -
  let ?c = "idle_ctl 0 0"
  have "slots_reach (slots_start 1 0 None) \<lparr>ctl = ?c, procs = [Calling]\<rparr>"
    using arrive [of "\<lparr>ctl = ?c, procs = []\<rparr>"] by (simp add: slots_reach_def start_idle r_into_rtranclp)
  then have "slots_reach (slots_start 1 0 None) \<lparr>ctl = ?c, procs = [Snapped (Snapshot ?c)]\<rparr>"
    by (rule slots_then) (intro one_step take_snapshot)
  then have "slots_reach (slots_start 1 0 None) \<lparr>ctl = ?c, procs = [Passed]\<rparr>"
    by (rule slots_then) (intro one_step pass, simp add: hot_def Snapshot_def Let_def occupancy_def)
  then have "slots_reach (slots_start 1 0 None) \<lparr>ctl = idle_ctl 1 0, procs = [Took]\<rparr>"
    by (rule slots_then) (use take_free [of ?c] in \<open>intro one_step, simp\<close>)
  then show ?thesis
    by (rule slots_then) (use count_in [of "idle_ctl 1 0"] in \<open>intro one_step, simp\<close>)
qed

lemma example_ends: "slots_reach (slots_start 1 0 None) \<lparr>ctl = idle_ctl 0 0, procs = [Gone]\<rparr>"
proof -
  have "slots_reach (slots_start 1 0 None) \<lparr>ctl = idle_ctl 0 1, procs = [Freed]\<rparr>"
    by (rule slots_then [OF example_holds]) (use give_back [of "idle_ctl 1 1"] in \<open>intro one_step, simp\<close>)
  then show ?thesis
    by (rule slots_then) (use count_out [of "idle_ctl 0 1"] in \<open>intro one_step, simp\<close>)
qed

theorem slots_bounded_witness:
  "how_many in_sem [Holding] = 1 \<and> how_many in_sem [Holding] \<le> 1 \<and> cpuPercent (idle_ctl 1 1) \<le> 100"
  using slots_bounded [OF example_holds] by simp

theorem slots_given_back_witness: "sem (idle_ctl 0 0) = 0 \<and> active (idle_ctl 0 0) = 0"
  using slots_given_back [OF example_ends] by simp

end
