(* ===== verification/SyncApi.thy ===== *)
theory SyncApi
  imports Files
begin

text \<open>
  \<open>internal/syncapi/service.go\<close>: what the sync clients read: a snapshot of the entries
  with a cursor, and pages of the change log after a cursor; and the file operations
  with a check of the version the client expects.
\<close>

section \<open>Operations\<close>

definition in_drive :: "database \<Rightarrow> uuid \<Rightarrow> uuid option \<Rightarrow> bool" where
  "in_drive d user drive \<longleftrightarrow> (\<exists>m \<in> set (members d). m_user m = user \<and> Some (m_drive m) = drive)"

definition change_visible :: "database \<Rightarrow> uuid \<Rightarrow> change_row \<Rightarrow> bool" where
  "change_visible d user c \<longleftrightarrow> c_user c = user \<or> in_drive d user (c_drive c)"

definition snapshot_entries :: "uuid \<Rightarrow> database \<Rightarrow> file_entry list" where
  "snapshot_entries user d = sort_key fe_created
     (filter (\<lambda>f. live f \<and> (fe_user f = user \<or> in_drive d user (fe_drive f))) (entries d))"

text \<open>\<open>coalesce(max(id), 0)\<close> and \<open>coalesce(min(id), 0)\<close>.\<close>

definition max_id :: "change_row list \<Rightarrow> int" where
  "max_id cs = (if cs = [] then 0 else Max (c_id ` set cs))"

definition min_id :: "change_row list \<Rightarrow> int" where
  "min_id cs = (if cs = [] then 0 else Min (c_id ` set cs))"

definition sync_Snapshot :: "uuid \<Rightarrow> (int \<times> file_entry list) srv" where
  "sync_Snapshot user =
     bnd (db_stmt (sel (snapshot_entries user))) (\<lambda>es.
     bnd (db_stmt (sel (\<lambda>d. max_id (filter (change_visible d user) (changes d))))) (\<lambda>cursor.
     ret (cursor, es)))"

definition normalizeLimit :: "int \<Rightarrow> int" where
  "normalizeLimit limit = (if limit \<le> 0 then 500 else if limit > 2000 then 2000 else limit)"

text \<open>The result: the page, the next cursor, and whether the client must start over.\<close>

definition Changes :: "uuid \<Rightarrow> int \<Rightarrow> int \<Rightarrow> (change_row list \<times> int \<times> bool) srv" where
  "Changes user cursor limit =
     bnd (db_stmt (sel (\<lambda>d. (min_id (changes d), max_id (changes d))))) (\<lambda>(minID, maxID).
     if cursor > 0 \<and> (minID = 0 \<or> cursor < minID - 1) then ret ([], maxID, True)
     else
       bnd (db_stmt (sel (\<lambda>d. take (nat (normalizeLimit limit))
         (sort_key c_id (filter (\<lambda>c. c_id c > cursor \<and> change_visible d user c) (changes d)))))) (\<lambda>page.
       ret (page, if page = [] then cursor else c_id (last page), False)))"

definition checkVersion :: "uuid \<Rightarrow> int option \<Rightarrow> unit srv" where
  "checkVersion i expected =
     (case expected of
        None \<Rightarrow> ret ()
      | Some v \<Rightarrow>
          bnd (map_err (no_rows (Msg ''file not found''))
            (db_stmt (row (\<lambda>d. map_option fe_version (find (\<lambda>f. fe_id f = i \<and> live f) (entries d)))))) (\<lambda>version.
          require (version = v) (Msg ''version conflict'')))"

definition sync_CreateFolder :: "uuid \<Rightarrow> string \<Rightarrow> uuid \<Rightarrow> string \<Rightarrow> uuid option \<Rightarrow> file_entry srv" where
  "sync_CreateFolder user role parent name device = CreateFolder user role parent name device"

definition sync_Rename :: "uuid \<Rightarrow> string \<Rightarrow> uuid \<Rightarrow> string \<Rightarrow> uuid option \<Rightarrow> int option \<Rightarrow> unit srv" where
  "sync_Rename user role i name device expected =
     bnd (checkVersion i expected) (\<lambda>_. Rename user role i name device)"

definition sync_Move :: "uuid \<Rightarrow> string \<Rightarrow> uuid \<Rightarrow> uuid \<Rightarrow> uuid option \<Rightarrow> int option \<Rightarrow> unit srv" where
  "sync_Move user role i parent device expected =
     bnd (checkVersion i expected) (\<lambda>_. Move user role i parent device)"

definition sync_Trash :: "uuid \<Rightarrow> string \<Rightarrow> uuid \<Rightarrow> uuid option \<Rightarrow> unit srv" where
  "sync_Trash user role i device = TrashEntry user role i device"

definition sync_Restore :: "uuid \<Rightarrow> string \<Rightarrow> uuid \<Rightarrow> uuid option \<Rightarrow> unit srv" where
  "sync_Restore user role i device = Restore user role i device"

definition sync_Purge :: "uuid \<Rightarrow> uuid \<Rightarrow> uuid option \<Rightarrow> unit srv" where
  "sync_Purge user i device = Purge user i device"

definition sync_ListTrash :: "uuid \<Rightarrow> file_entry list srv" where
  "sync_ListTrash user = ListTrash user"

section \<open>Reading a feed page by page\<close>

text \<open>
  The contract of a feed that is read in pages: \<open>page w c n\<close> is the page after cursor \<open>c\<close>
  with the next cursor, \<open>items w c\<close> everything after \<open>c\<close>. A client that starts at \<open>c\<close> and
  follows the cursors sees everything after \<open>c\<close>, once, in order.
\<close>

locale paged_feed =
  fixes page :: "'w \<Rightarrow> int \<Rightarrow> int \<Rightarrow> 'c list \<times> int"
    and items :: "'w \<Rightarrow> int \<Rightarrow> 'c list"
    and size_of :: "int \<Rightarrow> nat"
    and valid :: "'w \<Rightarrow> int \<Rightarrow> bool"
  assumes page_items: "valid w c \<Longrightarrow> page w c n = (p, c') \<Longrightarrow> p = take (size_of n) (items w c)"
    and page_rest: "valid w c \<Longrightarrow> page w c n = (p, c') \<Longrightarrow> items w c' = drop (length p) (items w c)"
    and page_valid: "valid w c \<Longrightarrow> page w c n = (p, c') \<Longrightarrow> valid w c'"
    and page_size: "0 < size_of n"
begin

fun read_pages :: "nat \<Rightarrow> 'w \<Rightarrow> int \<Rightarrow> int \<Rightarrow> 'c list \<times> int" where
  "read_pages 0 w c n = ([], c)"
| "read_pages (Suc k) w c n = (case page w c n of (p, c') \<Rightarrow>
     (case read_pages k w c' n of (r, c'') \<Rightarrow> (p @ r, c'')))"

lemma read_prefix:
  "valid w c \<Longrightarrow> read_pages k w c n = (r, c') \<Longrightarrow>
     r = take (k * size_of n) (items w c) \<and> items w c' = drop (length r) (items w c)"
proof (induction k arbitrary: c r c')
  case 0
  then show ?case by simp
next
  case (Suc k)
  obtain p c1 where p: "page w c n = (p, c1)" by (cases "page w c n")
  obtain r1 c2 where r1: "read_pages k w c1 n = (r1, c2)" by (cases "read_pages k w c1 n")
  with Suc.prems p have r: "r = p @ r1" "c' = c2" by simp_all
  note ih = Suc.IH [OF page_valid [OF Suc.prems(1) p] r1]
  have pi: "p = take (size_of n) (items w c)" by (rule page_items [OF Suc.prems(1) p])
  have rest: "items w c1 = drop (length p) (items w c)" by (rule page_rest [OF Suc.prems(1) p])
  have skip: "drop (length p) (items w c) = drop (size_of n) (items w c)"
    using pi by (cases "size_of n \<le> length (items w c)") simp_all
  have "take (size_of n + k * size_of n) (items w c) = p @ take (k * size_of n) (drop (size_of n) (items w c))"
    using pi by (simp add: take_add)
  then have "r = take (Suc k * size_of n) (items w c)" using ih rest skip r by simp
  moreover have "items w c' = drop (length r) (items w c)"
    using ih r rest by (simp add: add.commute)
  ultimately show ?case by blast
qed

lemma read_all:
  assumes "valid w c" and "length (items w c) \<le> k"
  shows "fst (read_pages k w c n) = items w c" and "items w (snd (read_pages k w c n)) = []"
proof -
  obtain r c' where r: "read_pages k w c n = (r, c')" by (cases "read_pages k w c n")
  have "k \<le> k * size_of n" using page_size [of n] by (cases "size_of n") auto
  with assms(2) have "length (items w c) \<le> k * size_of n" by linarith
  with read_prefix [OF assms(1) r] r
  show "fst (read_pages k w c n) = items w c" and "items w (snd (read_pages k w c n)) = []" by simp_all
qed

end

text \<open>The feed of a user, as the operations answer when nothing fails.\<close>

definition feed_items :: "uuid \<Rightarrow> database \<Rightarrow> int \<Rightarrow> change_row list" where
  "feed_items user d c = sort_key c_id (filter (\<lambda>x. c_id x > c \<and> change_visible d user x) (changes d))"

definition feed_page :: "uuid \<Rightarrow> world \<Rightarrow> int \<Rightarrow> int \<Rightarrow> change_row list \<times> int" where
  "feed_page user w c n = (case fst (Changes user c n w) of
      Inr (p, c', _) \<Rightarrow> (p, c') | Inl _ \<Rightarrow> ([], c))"

text \<open>A cursor that retention has not overtaken, in a log whose ids are as a
  sequence gives them.\<close>

definition feed_valid :: "world \<Rightarrow> int \<Rightarrow> bool" where
  "feed_valid w c \<longleftrightarrow> faults w = [] \<and> distinct (map c_id (changes (db w))) \<and> (\<forall>x \<in> set (changes (db w)). 0 < c_id x)
     \<and> \<not> (c > 0 \<and> (min_id (changes (db w)) = 0 \<or> c < min_id (changes (db w)) - 1))"

lemma Changes_run:
  assumes "feed_valid w c"
  shows "Changes user c n w = (let p = take (nat (normalizeLimit n)) (feed_items user (db w) c)
     in (Inr (p, if p = [] then c else c_id (last p), False), w))"
  using assms by (simp add: Changes_def feed_valid_def bnd_def db_stmt_def ret_def Let_def feed_items_def)

lemma strict_ids: "distinct (map c_id (changes d)) \<Longrightarrow> sorted_wrt (<) (map c_id (feed_items user d c))"
  unfolding strict_sorted_iff by (simp add: feed_items_def distinct_map_filter inj_on_def distinct_map)

lemma feed_items_set: "set (feed_items user d c) = {x \<in> set (changes d). c_id x > c \<and> change_visible d user x}"
  by (auto simp: feed_items_def)

lemma feed_after:
  assumes "distinct (map c_id (changes d))" and "feed_items user d c = p @ r" and "p \<noteq> []"
  shows "feed_items user d (c_id (last p)) = r"
proof -
  have srt: "sorted_wrt (<) (map c_id (p @ r))" using strict_ids [OF assms(1), of user c] assms(2) by simp
  obtain q x where p: "p = q @ [x]" using assms(3) by (cases p rule: rev_cases) auto
  have low: "\<forall>y \<in> set p. c_id y \<le> c_id x" and high: "\<forall>y \<in> set r. c_id x < c_id y"
    using srt p by (auto simp: sorted_wrt_append intro: less_imp_le)
  have gt: "c < c_id x" using feed_items_set [of user d c] assms(2) p by auto
  have eq: "feed_items user d (c_id x) = filter (\<lambda>y. c_id y > c_id x) (feed_items user d c)"
  proof -
    have "filter (\<lambda>y. c_id y > c_id x \<and> change_visible d user y) (changes d)
        = filter (\<lambda>y. c_id y > c_id x) (filter (\<lambda>y. c_id y > c \<and> change_visible d user y) (changes d))"
      using gt by (auto intro!: filter_cong)
    then show ?thesis by (simp add: feed_items_def filter_sort)
  qed
  have "filter (\<lambda>y. c_id y > c_id x) (p @ r) = r"
    using low high by (auto simp: filter_empty_conv filter_id_conv)
  with eq assms(2) p show ?thesis by simp
qed

lemma feed_page_run:
  assumes "feed_valid w c" and "feed_page user w c n = (p, c')"
  shows "p = take (nat (normalizeLimit n)) (feed_items user (db w) c)" and "c' = (if p = [] then c else c_id (last p))"
  using assms(2) by (simp_all add: feed_page_def Changes_run [OF assms(1)] Let_def del: take_eq_Nil) auto

interpretation feed: paged_feed "feed_page user" "\<lambda>w. feed_items user (db w)" "\<lambda>n. nat (normalizeLimit n)" feed_valid
  for user
proof (unfold_locales, goal_cases)
  case (1 w c n p c')
  then show ?case by (rule feed_page_run(1))
next
  case (2 w c n p c')
  note p = feed_page_run [OF 2]
  have split: "feed_items user (db w) c = p @ drop (length p) (feed_items user (db w) c)"
    using p(1) by (simp add: min_def)
  from 2(1) have "distinct (map c_id (changes (db w)))" by (simp add: feed_valid_def)
  from feed_after [OF this split] p(2) show ?case by auto
next
  case (3 w c n p c')
  note p = feed_page_run [OF 3]
  show ?case
  proof (cases "p = []")
    case True
    with 3 p show ?thesis by simp
  next
    case False
    then have "last p \<in> set (feed_items user (db w) c)" using p(1) by (metis in_set_takeD last_in_set)
    then have mem: "last p \<in> set (changes (db w))" "c < c_id (last p)" by (simp_all add: feed_items_set)
    then have "min_id (changes (db w)) \<le> c_id (last p)" by (auto simp: min_id_def)
    moreover have "min_id (changes (db w)) \<noteq> 0"
    proof -
      have "changes (db w) \<noteq> []" using mem by auto
      then have "min_id (changes (db w)) \<in> c_id ` set (changes (db w))" by (simp add: min_id_def)
      with 3(1) show ?thesis by (auto simp: feed_valid_def)
    qed
    ultimately show ?thesis using 3(1) False p(2) mem by (auto simp: feed_valid_def)
  qed
next
  case (4 n)
  then show ?case by (simp add: normalizeLimit_def)
qed

section \<open>The feed is complete\<close>

text \<open>A client that asks \<open>k\<close> times, from the cursor the last answer gave.\<close>

fun read_changes :: "uuid \<Rightarrow> nat \<Rightarrow> int \<Rightarrow> int \<Rightarrow> (change_row list \<times> int) srv" where
  "read_changes user 0 c n = ret ([], c)"
| "read_changes user (Suc k) c n =
     bnd (Changes user c n) (\<lambda>(p, c', reset).
     if reset then ret ([], c')
     else bnd (read_changes user k c' n) (\<lambda>(r, c''). ret (p @ r, c'')))"

lemma read_changes_run:
  "feed_valid w c \<Longrightarrow> read_changes user k c n w = (Inr (feed.read_pages user k w c n), w)"
proof (induction k arbitrary: c)
  case 0
  then show ?case by (simp add: ret_def)
next
  case (Suc k)
  obtain p c' where p: "feed_page user w c n = (p, c')" by (cases "feed_page user w c n")
  note run = Changes_run [OF Suc.prems, of user n]
  have "Changes user c n w = (Inr (p, c', False), w)"
    using run p by (simp add: feed_page_def Let_def)
  moreover note Suc.IH [OF feed.page_valid [OF Suc.prems p]]
  ultimately show ?case using p by (simp add: bnd_def ret_def split: prod.split)
qed

text \<open>
  C7: no change is missed or delivered twice: a client that reads pages of any size and
  goes on from the cursor of each answer receives, within as many requests as there are
  changes, exactly the changes after its cursor that it may see, in the order of their
  ids; then there is nothing after its cursor.
\<close>

theorem changes_once_in_order:
  assumes "feed_valid w c" and "length (feed_items user (db w) c) \<le> k"
  shows "\<exists>c'. read_changes user k c n w = (Inr (feed_items user (db w) c, c'), w) \<and> feed_items user (db w) c' = []"
  using read_changes_run [OF assms(1), of user k n] feed.read_all [OF assms, of n]
  by (metis prod.collapse)

text \<open>The daily retention: \<open>delete from file_changes where created_at < now() - ...\<close>.\<close>

definition cleanup_changes :: "int \<Rightarrow> unit srv" where
  "cleanup_changes retention = db_stmt (\<lambda>w. upd (\<lambda>d. d\<lparr>changes :=
     filter (\<lambda>x. clock w - retention \<le> c_created x) (changes d)\<rparr>) w)"

text \<open>A log whose times follow its ids.\<close>

definition in_order :: "change_row list \<Rightarrow> bool" where
  "in_order cs \<longleftrightarrow> (\<forall>x \<in> set cs. 0 < c_id x \<and> (\<forall>y \<in> set cs. c_created x < c_created y \<longrightarrow> c_id x < c_id y))"

text \<open>
  A client that retention has overtaken is told so: when the retention has removed
  a change after the client's cursor, the next request answers that the client must
  start over, and never a page with a hole.
\<close>

theorem retention_detected:
  assumes "faults w = []" and "in_order (changes (db w))" and "cleanup_changes retention w = (r, w')"
    and "0 < c" and "x \<in> set (changes (db w))" and "c < c_id x" and "x \<notin> set (changes (db w'))"
  shows "Changes user c n w' = (Inr ([], max_id (changes (db w')), True), w')"
proof -
  have w': "w' = w\<lparr>db := (db w)\<lparr>changes := filter (\<lambda>y. clock w - retention \<le> c_created y) (changes (db w))\<rparr>\<rparr>"
    using assms(1,3) by (simp add: cleanup_changes_def db_stmt_def)
  then have cs: "changes (db w') = filter (\<lambda>y. clock w - retention \<le> c_created y) (changes (db w))" and f: "faults w' = []"
    using assms(1) by simp_all
  have old: "c_created x < clock w - retention" using assms(5,7) cs by auto
  have "c < min_id (changes (db w')) - 1" if ne: "changes (db w') \<noteq> []"
  proof -
    have "min_id (changes (db w')) \<in> c_id ` set (changes (db w'))" using ne by (simp add: min_id_def)
    then obtain y where y: "y \<in> set (changes (db w'))" "min_id (changes (db w')) = c_id y" by auto
    then have "c_created x < c_created y" "y \<in> set (changes (db w))" using old cs by auto
    then have "c_id x < c_id y" using assms(2,5) by (auto simp: in_order_def)
    with y assms(6) show ?thesis by simp
  qed
  moreover have "min_id (changes (db w')) = 0" if "changes (db w') = []" using that by (simp add: min_id_def)
  ultimately show ?thesis
    using assms(4) f by (cases "changes (db w') = []")
      (simp_all add: Changes_def bnd_def db_stmt_def ret_def sel_def)
qed

end
