(* ===== verification/Witnesses.thy ===== *)
theory Witnesses
  imports Requests Slots SyncApi
begin

text \<open>
  Concrete states at which the properties of the development are applied: a site with
  one owner (1) and a guest (2), a root folder (10) with a subfolder (11) and a file
  (12), and an upload batch (50) with the sessions 51 and 52.
\<close>

section \<open>A small site\<close>

definition site_user :: "uuid \<Rightarrow> string \<Rightarrow> string \<Rightarrow> user_row" where
  "site_user i name role = (user_row i (name @ ''@x.y'') ''pw'' name role ''free'' 1000 0)\<lparr>u_root := Some 10\<rparr>"

definition site_file :: file_entry where
  "site_file = entry_row 12 1 (Some 20) (Some 11) ''a.txt'' File (UserKey 1 0 12) 5 ''text/plain'' 0"

definition site_entries :: "file_entry list" where
  "site_entries =
     [entry_row 10 1 (Some 20) None ''root'' Folder (RootKey 1) 0 ''inode/directory'' 0,
      entry_row 11 1 (Some 20) (Some 10) ''docs'' Folder (FolderKey 11) 0 ''inode/directory'' 0,
      site_file]"

definition site_batch :: batch_row where
  "site_batch = \<lparr>b_id = 50, b_user = 1, b_parent = Some 10, b_total = 7, b_reserved = 7, b_count = 2,
     b_status = BOpen, b_expires = 100, b_created = 0\<rparr>"

definition site_session :: "uuid \<Rightarrow> string \<Rightarrow> int \<Rightarrow> int \<Rightarrow> session_row" where
  "site_session i name n got = \<lparr>us_id = i, us_batch = 50, us_user = 1, us_parent = Some 10, us_rel = name, us_name = name,
     us_mime = ''text/plain'', us_expected = n, us_received = got, us_mtime = 0, us_key = TmpKey 1 50 i, us_target = None,
     us_expver = None, us_hash = [], us_cmod = None, us_device = None, us_status = SOpen\<rparr>"

definition site_db :: database where
  "site_db = empty_db\<lparr>
     users := [(site_user 1 ''ann'' ''user'')\<lparr>u_used := 5, u_reserved := 7\<rparr>, site_user 2 ''bob'' ''user''],
     entries := site_entries,
     drives := [\<lparr>d_id = 20, d_kind = Personal, d_name = ''My Drive'', d_owner = 1, d_root = Some 10, d_created = 0\<rparr>],
     members := [\<lparr>m_drive = 20, m_user = 1, m_role = ''manager'', m_created = 0\<rparr>],
     perms := [\<lparr>p_id = 30, p_entry = 11, p_grantee = 2, p_role = ''viewer'', p_created = 0\<rparr>],
     batches := [site_batch],
     sessions := [site_session 51 ''b.txt'' 4 0, site_session 52 ''c.txt'' 3 3]\<rparr>"

definition site :: world where
  "site = boot\<lparr>db := site_db, files := (\<lambda>_. None)(UserKey 1 0 12 \<mapsto> ''hello'', TmpKey 1 50 51 \<mapsto> [],
     TmpKey 1 50 52 \<mapsto> ''abc'')\<rparr>"

definition site_cfg :: config where
  "site_cfg = \<lparr>AppEnv = ''production'', HTTPAddr = '':8080'', DatabaseURL = ''db'', SessionSecret = ''0123456789abcdef'',
     DataDir = ''data'', PublicBaseURL = ''http://x'', FreeQuotaBytes = 1000, MaxUploadBytes = 100, MaxUploadBatchBytes = 200,
     UploadChunkBytes = 3, UploadSessionTTL = 50, MaxBatchFiles = 4, MaxConcurrentChunks = 2, MaxConcurrentUploads = 3,
     SessionTTL = 100, DeviceTokenTTL = 0, TrashRetention = 1000, FileChangeRetention = 1000, ShareTokenBytes = 24,
     SharePasswordSalt = ''salt'', AllowRegistration = True, UpdateManifestURL = [], UpdateChannel = ''stable'',
     LicenseVendorMode = False\<rparr>"

lemmas site_defs = site_def site_db_def site_entries_def site_file_def site_batch_def site_session_def site_user_def
  entry_row_def user_row_def empty_db_def boot_def

lemma site_simps [simp]: "faults site = []" "clock site = 0" "fresh site = 100"
  by (simp_all add: site_defs)

section \<open>Uploads\<close>

lemma site_receiving: "receiving site 51 (site_session 51 ''b.txt'' 4 0)"
  by (simp add: receiving_def session_of_def site_defs)

lemma site_ids: "distinct (map us_id (sessions (db site)))"
  by (simp add: site_defs)

theorem upload_end_to_end_witness:
  "\<exists>r w'. UploadFile_loop site_cfg 1 51 3 ''wxyz'' 0 site = Some (r, w')
    \<and> (r = Inr () \<longrightarrow> sink_got 51 w' = ''wxyz'') \<and> (\<exists>n. sink_got 51 w' = take n ''wxyz'')"
  by (rule upload_end_to_end [OF site_ids site_receiving]) (simp add: site_session_def)

lemma quiet_ret: "quiet (ret ())"
  by (intro steps_intros)

theorem chunk_exact_witness:
  "\<exists>r w'. AppendChunk site_cfg (ret ()) 1 51 0 [Data ''wx''] 2 site = (r, w')
     \<and> (case r of
      Inr n \<Rightarrow> let s' = (site_session 51 ''b.txt'' 4 0)\<lparr>us_received := n\<rparr> in
        receiving w' 51 s' \<and> 0 = us_received (site_session 51 ''b.txt'' 4 0) \<and> n = 0 + int (length (stream_bytes [Data ''wx'']))
        \<and> landed w' s' = landed site (site_session 51 ''b.txt'' 4 0) @ stream_bytes [Data ''wx'']
    | Inl (k, e) \<Rightarrow> receiving w' 51 (site_session 51 ''b.txt'' 4 0)
        \<and> landed w' (site_session 51 ''b.txt'' 4 0) = landed site (site_session 51 ''b.txt'' 4 0)
        \<and> (k = 0 \<or> k = us_received (site_session 51 ''b.txt'' 4 0)))"
proof (cases "AppendChunk site_cfg (ret ()) 1 51 0 [Data ''wx''] 2 site")
  case (Pair r w')
  from chunk_exact [OF site_ids site_receiving quiet_ret Pair] Pair show ?thesis by blast
qed

definition ok :: "'e + 'a \<Rightarrow> bool" where
  "ok r = (case r of Inl _ \<Rightarrow> False | Inr _ \<Rightarrow> True)"

lemma ok_run: "ok (fst (m w)) \<Longrightarrow> \<exists>x w'. m w = (Inr x, w')"
  by (cases "m w") (auto simp: ok_def split: sum.splits)

lemma site_completes: "ok (fst (CompleteFile id 1 52 site))"
  by code_simp

theorem complete_exact_witness:
  "\<exists>e w'. CompleteFile id 1 52 site = (Inr e, w') \<and> fe_hash e = ''abc'' \<and> files w' (fe_key e) = Some ''abc''"
proof -
  obtain e w' where run: "CompleteFile id 1 52 site = (Inr e, w')"
    using ok_run [of "CompleteFile id 1 52" site, OF site_completes] by blast
  have "tmp_keys (db site)" by (simp add: tmp_keys_def site_defs)
  from complete_exact [OF this run] obtain s c where "open_session 52 1 (db site) = Some s" "files site (us_key s) = Some c"
    "files w' (fe_key e) = Some c" "fe_hash e = id c" by blast
  then have "files w' (fe_key e) = Some ''abc''" "fe_hash e = ''abc''"
    by (auto simp: open_session_def batch_of_def site_defs)
  with run show ?thesis by blast
qed

lemma site_books: "acct (fresh site) (books (db site))"
  by (simp add: acct_def books_def reserved_in_def reserved_by_def has_open_def site_defs)

definition site_manifest :: "manifest_file list" where
  "site_manifest = [\<lparr>RelativePath = ''new/d.txt'', FileName = ''d.txt'', MimeType = [], ExpectedSize = 6, LastModifiedMs = 0,
     TargetEntryID = None, ExpectedVersion = None, ContentHash = [], ClientModifiedAt = None, DeviceID = None\<rparr>]"

lemma site_creates: "ok (fst (CreateBatch site_cfg 1 (Some 10) None site_manifest site))"
  by code_simp

theorem batch_reserves_witness:
  "\<exists>b ss w'. CreateBatch site_cfg 1 (Some 10) None site_manifest site = (Inr (b, ss), w')
     \<and> map us_expected ss = [6] \<and> b_reserved b = 6 \<and> batches (db w') = [site_batch, b]"
proof -
  obtain b ss w' where run: "CreateBatch site_cfg 1 (Some 10) None site_manifest site = (Inr (b, ss), w')"
    using ok_run [of "CreateBatch site_cfg 1 (Some 10) None site_manifest" site, OF site_creates] by auto
  from batch_reserves [OF run] have "map us_expected ss = [6]" "b_reserved b = sum_list (map us_expected ss)"
    "batches (db w') = [site_batch, b]"
    by (simp_all add: site_manifest_def site_def site_db_def)
  with run show ?thesis by simp
qed


section \<open>Access\<close>

lemma parent_rel_simps [simp]:
  "parent_rel [] = {}"
  "parent_rel (e # es) = (case fe_parent e of None \<Rightarrow> {} | Some p \<Rightarrow> {(fe_id e, p)}) \<union> parent_rel es"
  by (auto simp: parent_rel_def split: option.splits)

lemma site_parents: "parent_rel (entries site_db) = {(11, 10), (12, 11)}"
  by (simp add: site_defs insert_commute)

lemma site_forest: "forest (entries site_db)"
proof -
  have "acyclic {(11, 10), (12, 11 :: nat)}"
    by (rule acyclicI_order [where f = id]) auto
  then show ?thesis by (simp add: forest_def site_parents) (simp add: site_defs)
qed

theorem access_decides_witness:
  "Require 2 ''user'' 12 ActionView site = (Inr (), site) \<and> Require 2 ''user'' 12 ActionEdit site = (Inl (Msg ''forbidden''), site)"
proof -
  have wf: "access_wf (db site)"
    using site_forest by (simp add: access_wf_def) (simp add: site_defs)
  have e: "entry_of (db site) 12 = Some site_file" by (simp add: entry_of_def site_defs)
  note run = access_decides [OF site_simps(1) wf e, of 2 "''user''"]
  have rows: "users (db site) = users site_db" "db site = site_db" by (simp_all add: site_def)
  have up: "(12, 11) \<in> (parent_rel (entries site_db))\<^sup>*" unfolding site_parents by (rule r_into_rtrancl) simp
  have view: "1 \<in> grants (db site) 2 12"
  proof -
    have "\<lparr>p_id = 30, p_entry = 11, p_grantee = 2, p_role = ''viewer'', p_created = 0\<rparr> \<in> set (perms site_db)"
      "11 \<in> fe_id ` set (entries site_db)" by (simp_all add: site_defs)
    with up show ?thesis unfolding grants_def rows(2)
      by (intro UnI2 CollectI exI [of _ "\<lparr>p_id = 30, p_entry = 11, p_grantee = 2, p_role = ''viewer'', p_created = 0\<rparr>"])
         (simp add: roleLevel_def)
  qed
  have "g \<le> 1" if "g \<in> grants (db site) 2 12" for g
    using that by (auto simp: grants_def rows(2) roleLevel_def) (auto simp: site_defs)
  with view show ?thesis using run [of ActionView] run [of ActionEdit] by fastforce
qed

section \<open>Files\<close>

lemma site_tree: "entries_ok (sql_lower site) (fresh site) (entries (db site))"
proof -
  have "entries (db site) = entries site_db" by (simp add: site_def)
  moreover have "forest (entries site_db)" by (rule site_forest)
  moreover have "names_ok to_lower (entries site_db)" by code_simp
  moreover have "parents_ok (entries site_db)" by (auto simp: parents_ok_def live_def site_defs)
  ultimately show ?thesis by (simp add: entries_ok_def) (simp add: site_defs)
qed

lemma site_folder: "ok (fst (CreateFolder 1 ''user'' 11 ''new'' None site))"
  by code_simp


section \<open>The change feed\<close>

definition site_change :: "int \<Rightarrow> uuid \<Rightarrow> change_row" where
  "site_change i user = \<lparr>c_id = i, c_user = user, c_entry = 12, c_op = OpUpsert, c_name = ''a.txt'', c_parent = Some 11,
     c_kind = File, c_size = 5, c_mime = ''text/plain'', c_version = 1, c_hash = [], c_device = None, c_cmod = None,
     c_drive = None, c_created = i\<rparr>"

definition site_log :: world where
  "site_log = site\<lparr>db := site_db\<lparr>changes := map (\<lambda>(i, u). site_change i u) [(3, 1), (4, 2), (6, 1), (7, 1)]\<rparr>, clock := 9\<rparr>"

lemma site_log_simps [simp]:
  "faults site_log = []" "clock site_log = 9"
  "changes (db site_log) = [site_change 3 1, site_change 4 2, site_change 6 1, site_change 7 1]"
  "members (db site_log) = members site_db"
  by (simp_all add: site_log_def)

lemma site_change_simps [simp]:
  "c_id (site_change i u) = i" "c_created (site_change i u) = i" "c_user (site_change i u) = u" "c_drive (site_change i u) = None"
  by (simp_all add: site_change_def)

lemma site_feed_valid: "feed_valid site_log 2"
  by (simp add: feed_valid_def min_id_def)

lemma site_feed: "feed_items 1 (db site_log) 2 = [site_change 3 1, site_change 6 1, site_change 7 1]"
  by (simp add: feed_items_def change_visible_def in_drive_def)

theorem changes_once_in_order_witness:
  "\<exists>c'. read_changes 1 3 2 2 site_log = (Inr ([site_change 3 1, site_change 6 1, site_change 7 1], c'), site_log)
     \<and> feed_items 1 (db site_log) c' = []"
  using changes_once_in_order [OF site_feed_valid, of 1 3 2] by (simp add: site_feed del: One_nat_def)

theorem retention_detected_witness:
  "\<exists>w'. cleanup_changes 3 site_log = (Inr (), w') \<and> Changes 1 2 0 w' = (Inr ([], 7, True), w')"
proof -
  obtain w' where run: "cleanup_changes 3 site_log = (Inr (), w')"
    by (simp add: cleanup_changes_def db_stmt_def)
  then have cs: "changes (db w') = [site_change 6 1, site_change 7 1]"
    by (auto simp: cleanup_changes_def db_stmt_def)
  have "in_order (changes (db site_log))" by (simp add: in_order_def)
  moreover have "site_change 4 2 \<notin> {site_change 6 1, site_change 7 1}" by (simp add: site_change_def)
  ultimately have "Changes 1 2 0 w' = (Inr ([], max_id (changes (db w')), True), w')"
    by (intro retention_detected [OF site_log_simps(1) _ run, where x = "site_change 4 2"]) (simp_all add: cs)
  with run cs show ?thesis by (simp add: max_id_def)
qed

end
