(* ===== verification/SyncStore.thy ===== *)
theory SyncStore
  imports Database "HOL-Library.AList"
begin

text \<open>
  \<open>internal/syncstore/store.go\<close>: what the sync client keeps on disk, an SQLite database
  with its roots, the nodes it has synced, the queue of jobs and a log of activities.
  \<open>client\<close> is the whole machine of the client: its files, this database, its clock (in
  milliseconds), and the server behind the API, of any type.
\<close>

section \<open>Tables\<close>

record root_row =
  rt_id :: string
  rt_path :: string
  rt_parent :: string
  rt_cursor :: int
  rt_paused :: bool

record node_row =
  nd_id :: string
  nd_root :: string
  nd_rel :: string
  nd_remote :: string
  nd_kind :: string
  nd_hash :: string
  nd_state :: string
  nd_size :: int
  nd_mtime :: int
  nd_version :: int

text \<open>
  The payload of a job, which the code keeps as the JSON text of a map of strings: the
  file to upload with its hash, or the entry to move to the trash.
\<close>

datatype payload = UploadJob string string string | TrashJob string

record job_row =
  j_id :: int
  j_root :: string
  j_kind :: string
  j_payload :: payload
  j_attempts :: int
  j_next :: int
  j_error :: string
  j_created :: int

record act_row =
  ac_id :: int
  ac_root :: string
  ac_kind :: string
  ac_path :: string
  ac_message :: string
  ac_created :: int

record cstore =
  meta :: "(string \<times> string) list"
  roots :: "root_row list"
  nodes :: "node_row list"
  jobs :: "job_row list"
  job_seq :: int
  acts :: "act_row list"
  act_seq :: int

record 's client = "string disk" +
  folders :: "string list"
  mtimes :: "string \<Rightarrow> int"
  st :: cstore
  now_ms :: int
  remote :: 's

text \<open>A statement of the client's database, and a transaction.\<close>

definition sq :: "(cstore \<Rightarrow> err + ('a \<times> cstore)) \<Rightarrow> (('s, 'z) client_scheme, err, 'a) io" where
  "sq f = oscall (\<lambda>w. case f (st w) of Inl e \<Rightarrow> (Inl e, w) | Inr (x, d) \<Rightarrow> (Inr x, w\<lparr>st := d\<rparr>))"

definition sq_get :: "(cstore \<Rightarrow> 'a) \<Rightarrow> (('s, 'z) client_scheme, err, 'a) io" where
  "sq_get g = sq (\<lambda>d. Inr (g d, d))"

definition sq_set :: "(cstore \<Rightarrow> cstore) \<Rightarrow> (('s, 'z) client_scheme, err, unit) io" where
  "sq_set g = sq (\<lambda>d. Inr ((), g d))"

definition sq_tx :: "(('s, 'z) client_scheme, err, 'a) io \<Rightarrow> (('s, 'z) client_scheme, err, 'a) io" where
  "sq_tx body = bnd (getw st) (\<lambda>d.
     bnd (oscall (ret ())) (\<lambda>_.
     on_err (bnd body (\<lambda>x. bnd (oscall (ret ())) (\<lambda>_. ret x))) (modw (\<lambda>w. w\<lparr>st := d\<rparr>))))"

section \<open>Settings and roots\<close>

definition SetMeta :: "string \<Rightarrow> string \<Rightarrow> (('s, 'z) client_scheme, err, unit) io" where
  "SetMeta key v = sq_set (\<lambda>d. d\<lparr>meta := AList.update key v (meta d)\<rparr>)"

definition GetMeta :: "string \<Rightarrow> (('s, 'z) client_scheme, err, string) io" where
  "GetMeta key = sq_get (\<lambda>d. case map_of (meta d) key of None \<Rightarrow> [] | Some v \<Rightarrow> v)"

definition AddRoot :: "root_row \<Rightarrow> (('s, 'z) client_scheme, err, unit) io" where
  "AddRoot r = sq_set (\<lambda>d. d\<lparr>roots :=
     (if \<exists>x \<in> set (roots d). rt_id x = rt_id r
      then map (\<lambda>x. if rt_id x = rt_id r then x\<lparr>rt_path := rt_path r, rt_parent := rt_parent r\<rparr> else x) (roots d)
      else roots d @ [r])\<rparr>)"

definition ListRoots :: "(('s, 'z) client_scheme, err, root_row list) io" where
  "ListRoots = sq_get (\<lambda>d. sort_by (\<lambda>a b. bytes_le (rt_path a) (rt_path b)) (roots d))"

definition set_root :: "string \<Rightarrow> (root_row \<Rightarrow> root_row) \<Rightarrow> cstore \<Rightarrow> cstore" where
  "set_root i f d = d\<lparr>roots := map (\<lambda>r. if rt_id r = i then f r else r) (roots d)\<rparr>"

definition SetCursor :: "string \<Rightarrow> int \<Rightarrow> (('s, 'z) client_scheme, err, unit) io" where
  "SetCursor i cursor = sq_set (set_root i (\<lambda>r. r\<lparr>rt_cursor := cursor\<rparr>))"

definition SetPaused :: "string \<Rightarrow> bool \<Rightarrow> (('s, 'z) client_scheme, err, unit) io" where
  "SetPaused i paused = sq_set (set_root i (\<lambda>r. r\<lparr>rt_paused := paused\<rparr>))"

definition RemoveRoot :: "string \<Rightarrow> (('s, 'z) client_scheme, err, unit) io" where
  "RemoveRoot i = sq_tx (each sq_set
     [\<lambda>d. d\<lparr>nodes := filter (\<lambda>n. nd_root n \<noteq> i) (nodes d)\<rparr>,
      \<lambda>d. d\<lparr>jobs := filter (\<lambda>j. j_root j \<noteq> i) (jobs d)\<rparr>,
      \<lambda>d. d\<lparr>roots := filter (\<lambda>r. rt_id r \<noteq> i) (roots d)\<rparr>])"

section \<open>Nodes\<close>

text \<open>
  \<open>INSERT ... ON CONFLICT(root_id,local_rel) DO UPDATE\<close>: the row with the same place is
  overwritten, otherwise one is added; in both cases the primary key \<open>id\<close> must remain
  unique.
\<close>

definition at_place :: "node_row \<Rightarrow> node_row \<Rightarrow> bool" where
  "at_place n m \<longleftrightarrow> nd_root m = nd_root n \<and> nd_rel m = nd_rel n"

definition upsert_node :: "node_row \<Rightarrow> cstore \<Rightarrow> err + (unit \<times> cstore)" where
  "upsert_node n d =
     (if \<exists>m \<in> set (nodes d). nd_id m = nd_id n \<and> \<not> at_place n m then Inl Constraint
      else Inr ((), d\<lparr>nodes :=
        (if \<exists>m \<in> set (nodes d). at_place n m then map (\<lambda>m. if at_place n m then n else m) (nodes d)
         else nodes d @ [n])\<rparr>))"

definition UpsertNode :: "node_row \<Rightarrow> (('s, 'z) client_scheme, err, unit) io" where
  "UpsertNode n = sq (upsert_node n)"

text \<open>The zero value \<open>Node\{\}\<close>, which stands for no row.\<close>

definition no_node :: node_row where
  "no_node = \<lparr>nd_id = [], nd_root = [], nd_rel = [], nd_remote = [], nd_kind = [], nd_hash = [], nd_state = [],
     nd_size = 0, nd_mtime = 0, nd_version = 0\<rparr>"

definition scanNode :: "node_row option \<Rightarrow> node_row" where
  "scanNode r = (case r of None \<Rightarrow> no_node | Some n \<Rightarrow> n)"

definition GetNodeByRel :: "string \<Rightarrow> string \<Rightarrow> (('s, 'z) client_scheme, err, node_row) io" where
  "GetNodeByRel i rel = sq_get (\<lambda>d. scanNode (find (\<lambda>n. nd_root n = i \<and> nd_rel n = rel) (nodes d)))"

definition GetNodeByRemote :: "string \<Rightarrow> string \<Rightarrow> (('s, 'z) client_scheme, err, node_row) io" where
  "GetNodeByRemote i r = sq_get (\<lambda>d. scanNode (find (\<lambda>n. nd_root n = i \<and> nd_remote n = r) (nodes d)))"

definition DeleteNode :: "string \<Rightarrow> string \<Rightarrow> (('s, 'z) client_scheme, err, unit) io" where
  "DeleteNode i r = sq_set (\<lambda>d. d\<lparr>nodes := filter (\<lambda>n. \<not> (nd_root n = i \<and> nd_remote n = r)) (nodes d)\<rparr>)"

section \<open>Jobs\<close>

definition EnqueueJob :: "string \<Rightarrow> string \<Rightarrow> payload \<Rightarrow> (('s, 'z) client_scheme, err, int) io" where
  "EnqueueJob i kind p =
     bnd (sq_get (\<lambda>d. find (\<lambda>j. j_root j = i \<and> j_kind j = kind \<and> j_payload j = p) (jobs d))) (\<lambda>old.
     case old of Some j \<Rightarrow> ret (j_id j)
     | None \<Rightarrow>
         bnd (getw now_ms) (\<lambda>now.
         sq (\<lambda>d. let n = job_seq d + 1 in Inr (n, d\<lparr>job_seq := n, jobs := jobs d @
           [\<lparr>j_id = n, j_root = i, j_kind = kind, j_payload = p, j_attempts = 0, j_next = now, j_error = [],
             j_created = now\<rparr>]\<rparr>))))"

definition CountPendingJobs :: "(('s, 'z) client_scheme, err, int) io" where
  "CountPendingJobs = sq_get (\<lambda>d. int (length (jobs d)))"

definition limit50 :: "int \<Rightarrow> nat" where
  "limit50 n = nat (if n \<le> 0 then 50 else n)"

definition ListFailedJobs :: "int \<Rightarrow> (('s, 'z) client_scheme, err, job_row list) io" where
  "ListFailedJobs limit = sq_get (\<lambda>d. take (limit50 limit)
     (rev (sort_key j_id (filter (\<lambda>j. j_attempts j > 0 \<and> j_error j \<noteq> []) (jobs d)))))"

definition ListDueJobs :: "int \<Rightarrow> (('s, 'z) client_scheme, err, job_row list) io" where
  "ListDueJobs limit = bnd (getw now_ms) (\<lambda>now.
     sq_get (\<lambda>d. take (limit50 limit) (sort_key j_id (filter (\<lambda>j. j_next j \<le> now) (jobs d)))))"

definition MarkJobDone :: "int \<Rightarrow> (('s, 'z) client_scheme, err, unit) io" where
  "MarkJobDone i = sq_set (\<lambda>d. d\<lparr>jobs := filter (\<lambda>j. j_id j \<noteq> i) (jobs d)\<rparr>)"

text \<open>\<open>1 << uint(shift)\<close> seconds, which is 0 for a negative \<open>shift\<close>.\<close>

definition backoff :: "int \<Rightarrow> int" where
  "backoff attempts = (let shift = min attempts 8 in if shift < 0 then 0 else 2 ^ nat shift * 1000)"

definition MarkJobRetry :: "int \<Rightarrow> int \<Rightarrow> string \<Rightarrow> (('s, 'z) client_scheme, err, unit) io" where
  "MarkJobRetry i attempts msg = bnd (getw now_ms) (\<lambda>now.
     sq_set (\<lambda>d. d\<lparr>jobs := map (\<lambda>j. if j_id j = i
       then j\<lparr>j_attempts := attempts, j_next := now + backoff attempts, j_error := msg\<rparr> else j) (jobs d)\<rparr>))"

section \<open>Activities\<close>

text \<open>\<open>ORDER BY created_at DESC, id DESC\<close>.\<close>

definition newest :: "act_row list \<Rightarrow> act_row list" where
  "newest = sort_by (\<lambda>a b. ac_created a > ac_created b \<or> (ac_created a = ac_created b \<and> ac_id a \<ge> ac_id b))"

definition AddActivity :: "string \<Rightarrow> string \<Rightarrow> string \<Rightarrow> string \<Rightarrow> (('s, 'z) client_scheme, err, unit) io" where
  "AddActivity i kind path msg = sq_tx (
     bnd (getw now_ms) (\<lambda>now.
     bnd (sq_set (\<lambda>d. let n = act_seq d + 1 in d\<lparr>act_seq := n, acts := acts d @
       [\<lparr>ac_id = n, ac_root = i, ac_kind = kind, ac_path = path, ac_message = msg, ac_created = now\<rparr>]\<rparr>)) (\<lambda>_.
     sq_set (\<lambda>d. d\<lparr>acts := filter (\<lambda>a. ac_id a \<in> ac_id ` set (take 200 (newest (acts d)))) (acts d)\<rparr>))))"

definition ListActivities :: "int \<Rightarrow> (('s, 'z) client_scheme, err, act_row list) io" where
  "ListActivities limit = sq_get (\<lambda>d. take (limit50 limit) (newest (acts d)))"

section \<open>The invariant\<close>

text \<open>
  What every state of the database satisfies: the keys are unique, no place holds two
  nodes, no job is queued twice, ids come from their sequences, and the log of
  activities has at most 200 rows.
\<close>

definition job_key :: "job_row \<Rightarrow> string \<times> string \<times> payload" where
  "job_key j = (j_root j, j_kind j, j_payload j)"

definition store_ok :: "cstore \<Rightarrow> bool" where
  "store_ok d \<longleftrightarrow> distinct (map rt_id (roots d)) \<and> distinct (map nd_id (nodes d))
     \<and> distinct (map (\<lambda>n. (nd_root n, nd_rel n)) (nodes d))
     \<and> distinct (map j_id (jobs d)) \<and> distinct (map job_key (jobs d)) \<and> (\<forall>j \<in> set (jobs d). j_id j \<le> job_seq d)
     \<and> distinct (map ac_id (acts d)) \<and> (\<forall>a \<in> set (acts d). ac_id a \<le> act_seq d) \<and> length (acts d) \<le> 200"

definition store_kept :: "('s, 'z) client_scheme \<Rightarrow> ('s, 'z) client_scheme \<Rightarrow> bool" where
  "store_kept w w' \<longleftrightarrow> (store_ok (st w) \<longrightarrow> store_ok (st w'))"

lemma preorder_store_kept [steps_intros]: "preorder store_kept"
  by (rule preorderI) (auto simp: store_kept_def)

lemma pop_st [simp]: "st (pop w) = st w"
  by (simp add: pop_def)

lemma steps_sq:
  assumes "\<And>d x d'. f d = Inr (x, d') \<Longrightarrow> store_ok d \<Longrightarrow> store_ok d'"
  shows "steps store_kept (sq f)"
  using assms by (auto intro!: stepsI simp: store_kept_def sq_def oscall_def split: sum.splits)

lemma steps_sq_get [steps_intros]: "steps store_kept (sq_get g)"
  unfolding sq_get_def by (rule steps_sq) simp

lemma steps_sq_set: "(\<And>d. store_ok d \<Longrightarrow> store_ok (g d)) \<Longrightarrow> steps store_kept (sq_set g)"
  unfolding sq_set_def by (rule steps_sq) auto

lemma steps_oscall_ret [steps_intros]: "steps store_kept (oscall (ret ()))"
  by (rule stepsI) (simp add: store_kept_def oscall_def ret_def)

text \<open>In a transaction only the state at the commit counts.\<close>

lemma steps_sq_tx:
  assumes "\<And>w x w'. body w = (Inr x, w') \<Longrightarrow> store_ok (st w) \<Longrightarrow> store_ok (st w')"
  shows "steps store_kept (sq_tx body)"
proof (rule stepsI)
  fix w
  show "store_kept w (snd (sq_tx body w))"
    using assms
    by (auto simp: store_kept_def sq_tx_def bnd_def getw_def on_err_def oscall_def ret_def modw_def
          split: sum.splits prod.splits if_splits)
qed

section \<open>Every operation keeps it\<close>

lemma keyed_map: "(\<And>x. k (f x) = k x) \<Longrightarrow> map k (map (\<lambda>x. if P x then f x else x) xs) = map k xs"
  by (induction xs) auto

lemma stays_SetMeta [steps_intros]: "steps store_kept (SetMeta k v)"
  unfolding SetMeta_def by (rule steps_sq_set) (simp add: store_ok_def)

lemma stays_AddRoot [steps_intros]: "steps store_kept (AddRoot r)"
  unfolding AddRoot_def
  by (rule steps_sq_set) (auto simp: store_ok_def keyed_map simp del: map_map)

lemma stays_SetCursor [steps_intros]: "steps store_kept (SetCursor i c)"
  unfolding SetCursor_def by (rule steps_sq_set) (simp add: store_ok_def set_root_def keyed_map del: map_map)

lemma stays_SetPaused [steps_intros]: "steps store_kept (SetPaused i b)"
  unfolding SetPaused_def by (rule steps_sq_set) (simp add: store_ok_def set_root_def keyed_map del: map_map)

lemma run_sq_set: "sq_set g w = (Inr x, w') \<Longrightarrow> w' = (pop w)\<lparr>st := g (st w)\<rparr>"
  by (auto simp: sq_set_def sq_def oscall_def split: if_splits)

lemma stays_RemoveRoot [steps_intros]: "steps store_kept (RemoveRoot i)"
  unfolding RemoveRoot_def
proof (rule steps_sq_tx)
  fix w :: "('s, 'z) client_scheme" and x w'
  assume "each sq_set [\<lambda>d. d\<lparr>nodes := filter (\<lambda>n. nd_root n \<noteq> i) (nodes d)\<rparr>,
      \<lambda>d. d\<lparr>jobs := filter (\<lambda>j. j_root j \<noteq> i) (jobs d)\<rparr>,
      \<lambda>d. d\<lparr>roots := filter (\<lambda>r. rt_id r \<noteq> i) (roots d)\<rparr>] w = (Inr x, w')" and "store_ok (st w)"
  then show "store_ok (st w')"
    by (auto simp: bnd_def ret_def store_ok_def distinct_map_filter split: prod.splits sum.splits dest!: run_sq_set)
qed

lemma upsert_node_ok:
  assumes "upsert_node n d = Inr (x, d')" and "store_ok d"
  shows "store_ok d'"
proof -
  let ?p = "\<lambda>n. (nd_root n, nd_rel n)"
  have other: "\<forall>m \<in> set (nodes d). nd_id m = nd_id n \<longrightarrow> at_place n m"
    and d': "d' = d\<lparr>nodes := (if \<exists>m \<in> set (nodes d). at_place n m then map (\<lambda>m. if at_place n m then n else m) (nodes d)
         else nodes d @ [n])\<rparr>"
    using assms(1) by (auto simp: upsert_node_def split: if_splits)
  have at: "at_place n m \<longleftrightarrow> ?p m = ?p n" for m by (auto simp: at_place_def)
  have places: "map ?p (map (\<lambda>m. if at_place n m then n else m) ns) = map ?p ns" for ns
    by (induction ns) (auto simp: at_place_def)
  have ids: "distinct (map nd_id (map (\<lambda>m. if at_place n m then n else m) ns))"
    if "distinct (map nd_id ns)" "distinct (map ?p ns)" "\<forall>m \<in> set ns. nd_id m = nd_id n \<longrightarrow> at_place n m" for ns
    using that
  proof (induction ns)
    case Nil
    then show ?case by simp
  next
    case (Cons a ns)
    show ?case
    proof (cases "at_place n a")
      case True
      then have none: "\<not> at_place n m" if "m \<in> set ns" for m
        using Cons.prems(2) that by (auto simp: at_place_def image_iff)
      then have "map (\<lambda>m. if at_place n m then n else m) ns = ns" by (simp add: map_idI)
      moreover have "nd_id n \<notin> nd_id ` set ns" using none Cons.prems(3) by force
      ultimately show ?thesis using True Cons.prems(1) by (simp del: map_map)
    next
      case False
      then have "nd_id a \<noteq> nd_id n" using Cons.prems(3) by auto
      with False Cons show ?thesis by (auto split: if_splits)
    qed
  qed
  show ?thesis
  proof (cases "\<exists>m \<in> set (nodes d). at_place n m")
    case True
    then show ?thesis using assms(2) places ids [of "nodes d"] other by (simp add: d' store_ok_def del: map_map)
  next
    case False
    then have "nd_id n \<notin> nd_id ` set (nodes d)" "?p n \<notin> ?p ` set (nodes d)" using other by (force simp: at)+
    with False assms(2) show ?thesis by (auto simp: d' store_ok_def)
  qed
qed

lemma stays_UpsertNode [steps_intros]: "steps store_kept (UpsertNode n)"
  unfolding UpsertNode_def by (rule steps_sq) (rule upsert_node_ok)

lemma stays_DeleteNode [steps_intros]: "steps store_kept (DeleteNode i r)"
  unfolding DeleteNode_def by (rule steps_sq_set) (simp add: store_ok_def distinct_map_filter)

lemma stays_EnqueueJob [steps_intros]: "steps store_kept (EnqueueJob i kind p)"
proof (rule stepsI)
  fix w :: "('s, 'z) client_scheme"
  let ?new = "\<lparr>j_id = job_seq (st w) + 1, j_root = i, j_kind = kind, j_payload = p, j_attempts = 0, j_next = now_ms (pop w),
    j_error = [], j_created = now_ms (pop w)\<rparr>"
  have fresh: "job_key ?new \<notin> job_key ` set (jobs (st w))"
    if "find (\<lambda>j. j_root j = i \<and> j_kind j = kind \<and> j_payload j = p) (jobs (st w)) = None"
    using that by (auto simp: find_None_iff job_key_def)
  show "store_kept w (snd (EnqueueJob i kind p w))"
    using fresh
    by (auto simp: store_kept_def EnqueueJob_def bnd_def getw_def ret_def sq_get_def sq_def oscall_def Let_def store_ok_def
        split: sum.splits prod.splits if_splits option.splits)
qed

lemma stays_MarkJobDone [steps_intros]: "steps store_kept (MarkJobDone i)"
  unfolding MarkJobDone_def by (rule steps_sq_set) (simp add: store_ok_def distinct_map_filter)

lemma retry_ok:
  assumes "store_ok d" and f: "\<And>j. j_id (f j) = j_id j" "\<And>j. job_key (f j) = job_key j"
  shows "store_ok (d\<lparr>jobs := map (\<lambda>j. if P j then f j else j) (jobs d)\<rparr>)"
  using assms(1) f by (auto simp: store_ok_def keyed_map simp del: map_map)

lemma stays_MarkJobRetry [steps_intros]: "steps store_kept (MarkJobRetry i a msg)"
  unfolding MarkJobRetry_def
  by (intro steps_intros steps_sq_set) (rule retry_ok, simp_all add: job_key_def)

lemma stays_lists [steps_intros]:
  "steps store_kept (GetMeta k)" "steps store_kept ListRoots" "steps store_kept (GetNodeByRel i r)"
  "steps store_kept (GetNodeByRemote i r)" "steps store_kept CountPendingJobs" "steps store_kept (ListFailedJobs n)"
  "steps store_kept (ListDueJobs n)" "steps store_kept (ListActivities n)"
  unfolding GetMeta_def ListRoots_def GetNodeByRel_def GetNodeByRemote_def CountPendingJobs_def ListFailedJobs_def
    ListDueJobs_def ListActivities_def by (intro steps_intros)+

lemma newest_perm: "mset (newest xs) = mset xs"
  by (simp add: newest_def)

lemma keep_newest:
  assumes "distinct (map ac_id xs)"
  shows "length (filter (\<lambda>a. ac_id a \<in> ac_id ` set (take n (newest xs))) xs) \<le> n"
proof -
  let ?keep = "ac_id ` set (take n (newest xs))"
  have "distinct (map ac_id (filter (\<lambda>a. ac_id a \<in> ?keep) xs))" using assms by (rule distinct_map_filter)
  then have "length (filter (\<lambda>a. ac_id a \<in> ?keep) xs) = card (ac_id ` set (filter (\<lambda>a. ac_id a \<in> ?keep) xs))"
    by (metis distinct_card length_map set_map)
  also have "\<dots> \<le> card ?keep" by (rule card_mono) auto
  also have "\<dots> \<le> length (take n (newest xs))" by (metis card_length length_map set_map)
  finally show ?thesis by simp
qed

lemma stays_AddActivity [steps_intros]: "steps store_kept (AddActivity i k p m)"
  unfolding AddActivity_def
proof (rule steps_sq_tx)
  fix w :: "('s, 'z) client_scheme" and x w'
  let ?add = "\<lambda>now d. let n = act_seq d + 1 in d\<lparr>act_seq := n, acts := acts d @
       [\<lparr>ac_id = n, ac_root = i, ac_kind = k, ac_path = p, ac_message = m, ac_created = now\<rparr>]\<rparr>"
  let ?cut = "\<lambda>d. d\<lparr>acts := filter (\<lambda>a. ac_id a \<in> ac_id ` set (take 200 (newest (acts d)))) (acts d)\<rparr>"
  assume run: "bnd (getw now_ms) (\<lambda>now. bnd (sq_set (?add now)) (\<lambda>_. sq_set ?cut)) w = (Inr x, w')" and ok: "store_ok (st w)"
  then have w': "st w' = ?cut (?add (now_ms w) (st w))"
    by (auto simp: bnd_def getw_def split: prod.splits sum.splits dest!: run_sq_set)
  let ?d = "?add (now_ms w) (st w)"
  have d: "distinct (map ac_id (acts ?d))" "\<forall>a \<in> set (acts ?d). ac_id a \<le> act_seq ?d"
    using ok by (fastforce simp: store_ok_def Let_def)+
  have rest: "roots (?cut ?d) = roots (st w)" "nodes (?cut ?d) = nodes (st w)" "jobs (?cut ?d) = jobs (st w)"
    "job_seq (?cut ?d) = job_seq (st w)" "act_seq (?cut ?d) = act_seq ?d"
    by (simp_all add: Let_def)
  have cut: "acts (?cut ?d) = filter (\<lambda>a. ac_id a \<in> ac_id ` set (take 200 (newest (acts ?d)))) (acts ?d)" by simp
  have "length (acts (?cut ?d)) \<le> 200" unfolding cut by (rule keep_newest [OF d(1)])
  moreover have "distinct (map ac_id (acts (?cut ?d)))" unfolding cut by (rule distinct_map_filter [OF d(1)])
  moreover have "\<forall>a \<in> set (acts (?cut ?d)). ac_id a \<le> act_seq ?d" using d(2) unfolding cut by auto
  ultimately show "store_ok (st w')" using ok unfolding w' store_ok_def rest by blast
qed

section \<open>Properties\<close>

inductive store_step :: "('s, 'z) client_scheme \<Rightarrow> ('s, 'z) client_scheme \<Rightarrow> bool" where
  meta: "SetMeta k v w = (r, w') \<Longrightarrow> store_step w w'"
| add_root: "AddRoot rt w = (r, w') \<Longrightarrow> store_step w w'"
| set_cursor: "SetCursor i c w = (r, w') \<Longrightarrow> store_step w w'"
| set_paused: "SetPaused i b w = (r, w') \<Longrightarrow> store_step w w'"
| remove_root: "RemoveRoot i w = (r, w') \<Longrightarrow> store_step w w'"
| upsert: "UpsertNode n w = (r, w') \<Longrightarrow> store_step w w'"
| delete_node: "DeleteNode i e w = (r, w') \<Longrightarrow> store_step w w'"
| enqueue: "EnqueueJob i k p w = (r, w') \<Longrightarrow> store_step w w'"
| job_done: "MarkJobDone j w = (r, w') \<Longrightarrow> store_step w w'"
| job_retry: "MarkJobRetry j a msg w = (r, w') \<Longrightarrow> store_step w w'"
| activity: "AddActivity i k p m w = (r, w') \<Longrightarrow> store_step w w'"
| other: "st w' = st w \<Longrightarrow> store_step w w'"

inductive_cases store_stepE: "store_step w w'"

lemma store_step_kept: "store_step w w' \<Longrightarrow> store_kept w w'"
  by (erule store_stepE)
     (auto dest: stepsD [OF stays_SetMeta] stepsD [OF stays_AddRoot] stepsD [OF stays_SetCursor] stepsD [OF stays_SetPaused]
        stepsD [OF stays_RemoveRoot] stepsD [OF stays_UpsertNode] stepsD [OF stays_DeleteNode] stepsD [OF stays_EnqueueJob]
        stepsD [OF stays_MarkJobDone] stepsD [OF stays_MarkJobRetry] stepsD [OF stays_AddActivity], simp add: store_kept_def)

definition new_store :: cstore where
  "new_store = \<lparr>meta = [], roots = [], nodes = [], jobs = [], job_seq = 0, acts = [], act_seq = 0\<rparr>"

lemma new_store_ok: "store_ok new_store"
  by (simp add: store_ok_def new_store_def)

lemma store_reach_ok: "store_step\<^sup>*\<^sup>* w w' \<Longrightarrow> store_ok (st w) \<Longrightarrow> store_ok (st w')"
  by (induction rule: rtranclp_induct) (auto dest: store_step_kept simp: store_kept_def)

text \<open>
  C12: the client's database is consistent: after any operations, in any order and with
  any failures, from an empty database, no place of a root holds two nodes, no job is
  queued twice, all ids are unique, and the log holds at most 200 activities.
\<close>

theorem store_consistent:
  assumes "st w = new_store" and "store_step\<^sup>*\<^sup>* w w'"
  shows "distinct (map (\<lambda>n. (nd_root n, nd_rel n)) (nodes (st w'))) \<and> distinct (map nd_id (nodes (st w')))
    \<and> distinct (map job_key (jobs (st w'))) \<and> distinct (map j_id (jobs (st w'))) \<and> distinct (map rt_id (roots (st w')))
    \<and> length (acts (st w')) \<le> 200"
  using store_reach_ok [OF assms(2)] new_store_ok assms(1) by (simp add: store_ok_def)

lemma backoff_bounds: "1 \<le> a \<Longrightarrow> 2000 \<le> backoff a \<and> backoff a \<le> 256000"
proof -
  assume "1 \<le> a"
  then obtain n where n: "nat (min a 8) = n" "1 \<le> n" "n \<le> 8" by (auto simp: nat_le_iff le_nat_iff min_def)
  then have "(2::int) ^ 1 \<le> 2 ^ n" "(2::int) ^ n \<le> 2 ^ 8" by (intro power_increasing; simp)+
  with n \<open>1 \<le> a\<close> show ?thesis by (simp add: backoff_def Let_def)
qed

text \<open>
  A failed job is retried, and not too soon: after its failure it stays in the queue
  with its error, and it is due again after at least 2 seconds and at most 256 seconds,
  however often it has failed.
\<close>

theorem retry_waits:
  assumes "MarkJobRetry i a msg w = (Inr (), w')" and "1 \<le> a" and "j \<in> set (jobs (st w))" and "j_id j = i"
  shows "\<exists>j' \<in> set (jobs (st w')). j_id j' = i \<and> job_key j' = job_key j \<and> j_attempts j' = a \<and> j_error j' = msg
    \<and> now_ms w + 2000 \<le> j_next j' \<and> j_next j' \<le> now_ms w + 256000"
proof -
  have w': "jobs (st w') = map (\<lambda>j. if j_id j = i
       then j\<lparr>j_attempts := a, j_next := now_ms w + backoff a, j_error := msg\<rparr> else j) (jobs (st w))"
    using assms(1) by (auto simp: MarkJobRetry_def bnd_def getw_def dest!: run_sq_set)
  let ?j = "j\<lparr>j_attempts := a, j_next := now_ms w + backoff a, j_error := msg\<rparr>"
  have "?j \<in> set (jobs (st w'))" using assms(3,4) by (force simp: w')
  then show ?thesis using backoff_bounds [OF assms(2)] assms(4) by (intro bexI [of _ ?j]) (auto simp: job_key_def)
qed

definition new_client :: "'s \<Rightarrow> 's client" where
  "new_client s = \<lparr>files = \<lambda>_. None, faults = [], folders = [], mtimes = \<lambda>_. 0, st = new_store, now_ms = 0, remote = s\<rparr>"

theorem store_consistent_witness:
  "\<exists>n w'. EnqueueJob ''r'' ''upload'' (TrashJob ''e'') (new_client ()) = (Inr n, w') \<and> distinct (map job_key (jobs (st w')))"
proof -
  obtain r w' where run: "EnqueueJob ''r'' ''upload'' (TrashJob ''e'') (new_client ()) = (r, w')"
    by (cases "EnqueueJob ''r'' ''upload'' (TrashJob ''e'') (new_client ())")
  then have "r = Inr 1"
    by (auto simp: EnqueueJob_def new_client_def new_store_def bnd_def sq_get_def sq_def oscall_def getw_def ret_def faulty_def pop_def Let_def)
  moreover have "store_step\<^sup>*\<^sup>* (new_client ()) w'" using run by (intro r_into_rtranclp) (rule enqueue)
  then have "distinct (map job_key (jobs (st w')))"
    using store_consistent [of "new_client ()" w'] by (simp add: new_client_def)
  ultimately show ?thesis using run by blast
qed

definition failing :: "unit client" where
  "failing = (new_client ())\<lparr>st := new_store\<lparr>jobs := [\<lparr>j_id = 1, j_root = ''r'', j_kind = ''upload'', j_payload = TrashJob ''e'',
     j_attempts = 8, j_next = 0, j_error = [], j_created = 0\<rparr>]\<rparr>\<rparr>"

theorem retry_waits_witness:
  "\<exists>w'. MarkJobRetry 1 9 ''offline'' failing = (Inr (), w')
     \<and> (\<exists>j \<in> set (jobs (st w')). j_attempts j = 9 \<and> 2000 \<le> j_next j \<and> j_next j \<le> 256000)"
proof -
  obtain w' where run: "MarkJobRetry 1 9 ''offline'' failing = (Inr (), w')"
    by (simp add: MarkJobRetry_def bnd_def getw_def sq_set_def sq_def oscall_def faulty_def failing_def new_client_def)
  have "hd (jobs (st failing)) \<in> set (jobs (st failing))" "j_id (hd (jobs (st failing))) = 1" "now_ms failing = 0"
    by (simp_all add: failing_def new_client_def)
  with retry_waits [OF run _ this(1,2)] run show ?thesis by auto
qed

end
