(* ===== verification/SyncEngine.thy ===== *)
theory SyncEngine
  imports SyncStore
begin

text \<open>
  \<open>internal/syncengine/engine.go\<close> (with \<open>trash_other.go\<close>): the desktop client's engine.
  It watches the local folders, queues jobs for what changes there, works the queue off
  against the server, and applies the server's changes to the local folders. One call of
  \<open>process\<close> or \<open>pull\<close> is what a tick of the loop runs. Watchers, goroutines and locks
  appear by their effect on the engine's fields.
\<close>

section \<open>What the server tells the client\<close>

record centry =
  ce_id :: string
  ce_parent :: "string option"
  ce_name :: string
  ce_kind :: string
  ce_bytes :: int
  ce_cver :: int
  ce_hash :: string
  ce_deleted :: "string option"
  ce_size :: int
  ce_ver :: int

record cchange =
  cg_cursor :: int
  cg_id :: string
  cg_op :: string
  cg_name :: string
  cg_parent :: "string option"
  cg_kind :: string
  cg_bytes :: int
  cg_cver :: int
  cg_hash :: string
  cg_type :: string
  cg_entry :: centry

definition normalize_entry :: "centry \<Rightarrow> centry" where
  "normalize_entry e = e\<lparr>ce_size := ce_bytes e, ce_ver := ce_cver e\<rparr>"

definition normalize_change :: "cchange \<Rightarrow> cchange" where
  "normalize_change c = c\<lparr>cg_type := cg_op c, cg_entry :=
     \<lparr>ce_id = cg_id c, ce_parent = cg_parent c, ce_name = cg_name c, ce_kind = cg_kind c, ce_bytes = cg_bytes c,
      ce_cver = cg_cver c, ce_hash = cg_hash c,
      ce_deleted = (if cg_op c = ''trash'' \<or> cg_op c = ''purge'' then Some ''true'' else None),
      ce_size = cg_bytes c, ce_ver = cg_cver c\<rparr>\<rparr>"

text \<open>The interface \<open>API\<close>; \<open>'w\<close> is the machine it runs on.\<close>

record cmanifest =
  cm_rel :: string
  cm_name :: string
  cm_bytes :: int
  cm_mtime :: int
  cm_hash :: string

record 'w api =
  api_Snapshot :: "('w, err, int \<times> centry list) io"
  api_Changes :: "int \<Rightarrow> int \<Rightarrow> ('w, err, int \<times> cchange list \<times> bool) io"
  api_UploadFile :: "string \<Rightarrow> string \<Rightarrow> cmanifest \<Rightarrow> ('w, err, centry) io"
  api_Trash :: "string \<Rightarrow> ('w, err, unit) io"
  api_Download :: "string \<Rightarrow> string \<Rightarrow> bool \<Rightarrow> ('w, err, unit) io"

section \<open>The engine's state\<close>

record status =
  State :: string
  LastError :: string
  CurrentFile :: string
  BytesSynced :: int
  BytesTotal :: int
  BytesDone :: int
  PendingJobs :: int
  Percent :: int
  Message :: string

record event =
  ev_type :: string
  ev_status :: status
  ev_activity :: "act_row option"

text \<open>A listener is a buffered channel; a full one misses the event.\<close>

record listener =
  l_id :: nat
  l_cap :: nat
  l_queue :: "event list"

record 's engine = "'s client" +
  estatus :: status
  listeners :: "listener list"
  watched :: "string list"
  running :: bool
  pausedAll :: bool

record econfig =
  DeviceName :: string
  today :: string
  sha256hex :: "string \<Rightarrow> string"

type_synonym ('s, 'a) act = "('s engine, err, 'a) io"

definition emit_to :: "event \<Rightarrow> listener \<Rightarrow> listener" where
  "emit_to ev l = (if length (l_queue l) < l_cap l then l\<lparr>l_queue := l_queue l @ [ev]\<rparr> else l)"

definition emit :: "event \<Rightarrow> ('s, unit) act" where
  "emit ev = modw (\<lambda>w. w\<lparr>listeners := map (emit_to ev) (listeners w)\<rparr>)"

definition Subscribe :: "nat \<Rightarrow> int \<Rightarrow> ('s, unit) act" where
  "Subscribe i buffer = modw (\<lambda>w. w\<lparr>listeners := listeners w @ [\<lparr>l_id = i, l_cap = nat buffer, l_queue = []\<rparr>]\<rparr>)"

definition Unsubscribe :: "nat \<Rightarrow> ('s, unit) act" where
  "Unsubscribe i = modw (\<lambda>w. w\<lparr>listeners := filter (\<lambda>l. l_id l \<noteq> i) (listeners w)\<rparr>)"

definition set_and_emit :: "string \<Rightarrow> (status \<Rightarrow> status) \<Rightarrow> ('s, unit) act" where
  "set_and_emit typ f =
     bnd (modw (\<lambda>w. w\<lparr>estatus := f (estatus w)\<rparr>)) (\<lambda>_.
     bnd (getw estatus) (\<lambda>s. emit \<lparr>ev_type = typ, ev_status = s, ev_activity = None\<rparr>))"

definition setStatus :: "(status \<Rightarrow> status) \<Rightarrow> ('s, unit) act" where
  "setStatus = set_and_emit ''status''"

definition setProgress :: "(status \<Rightarrow> status) \<Rightarrow> ('s, unit) act" where
  "setProgress = set_and_emit ''progress''"

text \<open>\<open>err.Error()\<close>; the texts of failures outside the program are not modelled.\<close>

fun error_text :: "err \<Rightarrow> string" where
  "error_text (Msg s) = s"
| "error_text NotExist = ''file does not exist''"
| "error_text NoRows = ''no rows in result set''"
| "error_text _ = ''failed''"

definition failed_with :: "string \<Rightarrow> err \<Rightarrow> ('s, unit) act" where
  "failed_with state e = setStatus (\<lambda>s. s\<lparr>State := state, LastError := error_text e\<rparr>)"

text \<open>\<open>x, _ := m()\<close>, with \<open>d\<close> the value that comes with an error.\<close>

definition or_zero :: "('w, 'e, 'a) io \<Rightarrow> 'a \<Rightarrow> ('w, 'e, 'a) io" where
  "or_zero m d = bnd (result m) (\<lambda>r. case r of Inl _ \<Rightarrow> ret d | Inr x \<Rightarrow> ret x)"

section \<open>Local files\<close>

definition inside :: "string \<Rightarrow> string \<Rightarrow> bool" where
  "inside dir p \<longleftrightarrow> p = dir \<or> has_prefix p (dir @ ''/'')"

text \<open>The directories on the way to a path, itself included.\<close>

definition path_and_above :: "string \<Rightarrow> string list" where
  "path_and_above p = (let cs = split_at CHR ''/'' p in
     filter (\<lambda>d. d \<noteq> []) (map (\<lambda>i. join_with CHR ''/'' (take (Suc i) cs)) [0..<length cs]))"

definition os_stat :: "string \<Rightarrow> (('s, 'z) client_scheme, err, int \<times> int \<times> bool) io" where
  "os_stat p = oscall (\<lambda>w. case files w p of
      Some c \<Rightarrow> (Inr (int (length c), mtimes w p, False), w)
    | None \<Rightarrow> if p \<in> set (folders w) then (Inr (0, mtimes w p, True), w) else (Inl NotExist, w))"

definition MkdirAll :: "string \<Rightarrow> (('s, 'z) client_scheme, err, unit) io" where
  "MkdirAll p = oscall (\<lambda>w.
     if \<exists>d \<in> set (path_and_above p). files w d \<noteq> None then (Inl Fault, w)
     else (Inr (), w\<lparr>folders := folders w @ filter (\<lambda>d. d \<notin> set (folders w)) (path_and_above p)\<rparr>))"

definition RemoveAll :: "string \<Rightarrow> (('s, 'z) client_scheme, err, unit) io" where
  "RemoveAll p = oscall (modw (\<lambda>w. w\<lparr>files := (\<lambda>q. if inside p q then None else files w q),
     folders := filter (\<lambda>d. \<not> inside p d) (folders w)\<rparr>))"

definition moveToTrash :: "string \<Rightarrow> (('s, 'z) client_scheme, err, unit) io" where
  "moveToTrash p = bnd (result (os_stat p)) (\<lambda>r. if r = Inl NotExist then ret () else RemoveAll p)"

definition fileHash :: "econfig \<Rightarrow> string \<Rightarrow> (('s, 'z) client_scheme, err, string) io" where
  "fileHash cfg p = bnd (os_read p) (\<lambda>c. ret (sha256hex cfg c))"

definition conflictPath :: "econfig \<Rightarrow> string \<Rightarrow> string" where
  "conflictPath cfg path =
     (let device = (if DeviceName cfg = [] then ''device'' else DeviceName cfg);
          ext = go_ext path; base = trim_suffix path ext
      in base @ '' ('' @ [CHR 0xC3, CHR 0xA7] @ ''ak'' @ [CHR 0xC4, CHR 0xB1, CHR 0xC5, CHR 0x9F] @ ''an kopya - ''
         @ device @ '' - '' @ today cfg @ '')'' @ ext)"

section \<open>Activities\<close>

definition addActivity :: "string \<Rightarrow> string \<Rightarrow> string \<Rightarrow> string \<Rightarrow> ('s, unit) act" where
  "addActivity rootID kind path msg =
     bnd (result (AddActivity rootID kind path msg)) (\<lambda>r. case r of Inl _ \<Rightarrow> ret () | Inr _ \<Rightarrow>
     bnd (result (ListActivities 1)) (\<lambda>l. case l of Inl _ \<Rightarrow> ret () | Inr found \<Rightarrow>
     if length found = 1 then
       bnd (getw estatus) (\<lambda>s. emit \<lparr>ev_type = ''activity'', ev_status = s, ev_activity = Some (hd found)\<rparr>)
     else ret ()))"

section \<open>From local changes to jobs\<close>

definition queueUpload :: "econfig \<Rightarrow> root_row \<Rightarrow> string \<Rightarrow> ('s, unit) act" where
  "queueUpload cfg root rel =
     (let path = go_join (rt_path root) rel in
      bnd (result (os_stat path)) (\<lambda>info. case info of
        Inl _ \<Rightarrow> ret ()
      | Inr (size1, mtime, isDir) \<Rightarrow>
          if isDir then ret ()
          else
            bnd (result (fileHash cfg path)) (\<lambda>h. case h of
              Inl _ \<Rightarrow> ret ()
            | Inr hash \<Rightarrow>
                bnd (or_zero (GetNodeByRel (rt_id root) rel) no_node) (\<lambda>n.
                if nd_state n = ''syncing'' \<and> nd_hash n = hash then ret ()
                else ignore (EnqueueJob (rt_id root) ''upload'' (UploadJob path rel hash))))))"

text \<open>\<open>scan\<close>; \<open>walked\<close> are the relative paths of the files \<open>filepath.WalkDir\<close> comes to.\<close>

definition scan :: "econfig \<Rightarrow> root_row \<Rightarrow> string list \<Rightarrow> ('s, unit) act" where
  "scan cfg root walked = each (queueUpload cfg root) walked"

definition localEvent :: "econfig \<Rightarrow> root_row \<Rightarrow> string \<Rightarrow> string \<Rightarrow> ('s, unit) act" where
  "localEvent cfg root rel op =
     (if rel = [] then ret ()
      else if op = ''remove'' \<or> op = ''rename'' then
        bnd (result (GetNodeByRel (rt_id root) rel)) (\<lambda>r. case r of
          Inl _ \<Rightarrow> ret ()
        | Inr n \<Rightarrow> if nd_remote n \<noteq> []
            then ignore (EnqueueJob (rt_id root) ''trash_remote'' (TrashJob (nd_remote n))) else ret ())
      else queueUpload cfg root rel)"

section \<open>Starting and stopping\<close>

definition Stop :: "('s, unit) act" where
  "Stop = bnd (modw (\<lambda>w. w\<lparr>running := False, watched := [], pausedAll := False\<rparr>)) (\<lambda>_.
     setStatus (\<lambda>s. s\<lparr>State := ''stopped''\<rparr>))"

definition AddRootWatch :: "root_row \<Rightarrow> ('s, unit) act" where
  "AddRootWatch root = bnd (getw watched) (\<lambda>ws.
     if rt_id root \<in> set ws then ret ()
     else bnd (oscall (ret ())) (\<lambda>_. modw (\<lambda>w. w\<lparr>watched := watched w @ [rt_id root]\<rparr>)))"

definition RemoveRootWatch :: "string \<Rightarrow> ('s, unit) act" where
  "RemoveRootWatch i = bnd (modw (\<lambda>w. w\<lparr>watched := filter (\<lambda>x. x \<noteq> i) (watched w)\<rparr>)) (\<lambda>_. RemoveRoot i)"

definition Start :: "('s, unit) act" where
  "Start = bnd ListRoots (\<lambda>rs. bnd (getw running) (\<lambda>already.
     if already then ret ()
     else
       bnd (modw (\<lambda>w. w\<lparr>running := True\<rparr>)) (\<lambda>_.
       bnd (setStatus (\<lambda>s. s\<lparr>State := ''connecting'', LastError := [], Message := []\<rparr>)) (\<lambda>_.
       bnd (each (\<lambda>r. if rt_paused r then ret () else on_err (AddRootWatch r) Stop) rs) (\<lambda>_.
       setStatus (\<lambda>s. s\<lparr>State := ''syncing''\<rparr>))))))"

definition Pause :: "string \<Rightarrow> ('s, unit) act" where
  "Pause i =
     bnd (SetPaused i True) (\<lambda>_.
     bnd (modw (\<lambda>w. w\<lparr>watched := filter (\<lambda>x. x \<noteq> i) (watched w)\<rparr>)) (\<lambda>_.
     bnd ListRoots (\<lambda>rs.
     let allPaused = (rs \<noteq> [] \<and> (\<forall>r \<in> set rs. rt_paused r)) in
     bnd (modw (\<lambda>w. w\<lparr>pausedAll := allPaused\<rparr>)) (\<lambda>_.
     if allPaused then setStatus (\<lambda>s. s\<lparr>State := ''paused'', Message := ''All folders are paused''\<rparr>) else ret ()))))"

definition Resume :: "string \<Rightarrow> ('s, unit) act" where
  "Resume i =
     bnd (SetPaused i False) (\<lambda>_.
     bnd ListRoots (\<lambda>rs.
     case find (\<lambda>r. rt_id r = i) rs of
       None \<Rightarrow> ret ()
     | Some r \<Rightarrow>
         bnd (getw running) (\<lambda>on.
         bnd (if on then AddRootWatch r else ret ()) (\<lambda>_.
         bnd (modw (\<lambda>w. w\<lparr>pausedAll := False\<rparr>)) (\<lambda>_.
         setStatus (\<lambda>s. s\<lparr>State := ''syncing'', Message := []\<rparr>))))))"

section \<open>Working off the queue\<close>

definition upload_fields :: "payload \<Rightarrow> string \<times> string \<times> string" where
  "upload_fields p = (case p of UploadJob path rel hash \<Rightarrow> (path, rel, hash) | TrashJob _ \<Rightarrow> ([], [], []))"

definition trash_field :: "payload \<Rightarrow> string" where
  "trash_field p = (case p of UploadJob _ _ _ \<Rightarrow> [] | TrashJob r \<Rightarrow> r)"

definition run_upload :: "'s engine api \<Rightarrow> root_row \<Rightarrow> job_row \<Rightarrow> ('s, unit) act" where
  "run_upload api root j =
     (let (path, rel, hash) = upload_fields (j_payload j) in
      bnd (os_stat path) (\<lambda>(size1, mtime, isDir).
      bnd (setProgress (\<lambda>s. s\<lparr>State := ''syncing'', CurrentFile := path, BytesTotal := size1, BytesDone := 0, Percent := 0\<rparr>)) (\<lambda>_.
      bnd (api_UploadFile api (rt_parent root) path
            \<lparr>cm_rel = rel, cm_name = base_of path, cm_bytes = size1, cm_mtime = mtime, cm_hash = hash\<rparr>) (\<lambda>entry.
      bnd (ignore (UpsertNode \<lparr>nd_id = ce_id entry, nd_root = j_root j, nd_rel = rel, nd_remote = ce_id entry, nd_kind = ''file'',
            nd_hash = hash, nd_state = ''synced'', nd_size = size1, nd_mtime = mtime, nd_version = ce_ver entry\<rparr>)) (\<lambda>_.
      bnd (setProgress (\<lambda>s. s\<lparr>BytesSynced := BytesSynced s + size1, BytesDone := size1, Percent := 100\<rparr>)) (\<lambda>_.
      addActivity (j_root j) ''upload'' rel ''Uploaded file''))))))"

definition run_trash :: "'s engine api \<Rightarrow> job_row \<Rightarrow> ('s, unit) act" where
  "run_trash api j =
     bnd (api_Trash api (trash_field (j_payload j))) (\<lambda>_.
     addActivity (j_root j) ''trash'' (trash_field (j_payload j)) ''Moved remote item to trash'')"

definition run_job :: "'s engine api \<Rightarrow> root_row list \<Rightarrow> job_row \<Rightarrow> ('s, unit) act" where
  "run_job api rs j =
     (case map_of (map (\<lambda>r. (rt_id r, r)) (rev rs)) (j_root j) of
        None \<Rightarrow> ret ()
      | Some root \<Rightarrow>
          if rt_paused root then ret ()
          else
            bnd (result (if j_kind j = ''upload'' then run_upload api root j
                  else if j_kind j = ''trash_remote'' then run_trash api j else ret ())) (\<lambda>r.
            case r of
              Inr _ \<Rightarrow> ignore (MarkJobDone (j_id j))
            | Inl e \<Rightarrow> bnd (ignore (MarkJobRetry (j_id j) (j_attempts j + 1) (error_text e))) (\<lambda>_. failed_with ''error'' e)))"

definition process :: "'s engine api \<Rightarrow> ('s, unit) act" where
  "process api =
     bnd (result (ListDueJobs 20)) (\<lambda>due. case due of Inl _ \<Rightarrow> ret () | Inr js \<Rightarrow>
     bnd (or_zero ListRoots []) (\<lambda>rs.
     bnd (each (run_job api rs) js) (\<lambda>_.
     bnd (result CountPendingJobs) (\<lambda>c. case c of Inl _ \<Rightarrow> ret () | Inr pending \<Rightarrow>
     setProgress (\<lambda>s. let s' = s\<lparr>PendingJobs := pending\<rparr> in
       if pending = 0 \<and> LastError s' = [] \<and> State s' \<noteq> ''paused'' \<and> State s' \<noteq> ''stopped''
       then s'\<lparr>State := ''synced'', CurrentFile := [], BytesTotal := 0, BytesDone := 0, Percent := 0\<rparr> else s')))))"

section \<open>Applying the server's changes\<close>

definition resolveLocalRel :: "root_row \<Rightarrow> cchange \<Rightarrow> node_row \<Rightarrow> ('s, string) act" where
  "resolveLocalRel r c n =
     (if nd_rel n \<noteq> [] then ret (nd_rel n)
      else
        let name = (if ce_name (cg_entry c) = [] then cg_name c else ce_name (cg_entry c)) in
        case ce_parent (cg_entry c) of
          None \<Rightarrow> ret name
        | Some p \<Rightarrow>
            if p = [] then ret name
            else
              bnd (result (GetNodeByRemote (rt_id r) p)) (\<lambda>parent. case parent of
                Inl _ \<Rightarrow> ret name
              | Inr m \<Rightarrow> if nd_rel m \<noteq> [] then ret (go_join (nd_rel m) name) else ret name))"

definition is_removal :: "cchange \<Rightarrow> bool" where
  "is_removal c \<longleftrightarrow> ce_deleted (cg_entry c) \<noteq> None \<or> cg_type c = ''trash'' \<or> cg_type c = ''purge''"

definition apply_removal :: "root_row \<Rightarrow> cchange \<Rightarrow> string \<Rightarrow> string \<Rightarrow> ('s, unit) act" where
  "apply_removal r c rel path =
     bnd (result (moveToTrash path)) (\<lambda>m. case m of
       Inl e \<Rightarrow> failed_with ''error'' e
     | Inr _ \<Rightarrow>
         bnd (ignore (DeleteNode (rt_id r) (ce_id (cg_entry c)))) (\<lambda>_.
         addActivity (rt_id r) ''trash'' rel ''Removed local item''))"

definition save_conflict :: "econfig \<Rightarrow> root_row \<Rightarrow> string \<Rightarrow> ('s, unit) act" where
  "save_conflict cfg r path =
     (let conflict = conflictPath cfg path in
      bnd (ignore (os_rename path conflict)) (\<lambda>_.
      queueUpload cfg r (trim_prefix conflict (rt_path r @ ''/''))))"

definition synced_node :: "root_row \<Rightarrow> cchange \<Rightarrow> string \<Rightarrow> string \<Rightarrow> int \<Rightarrow> int \<Rightarrow> node_row" where
  "synced_node r c rel kind size1 mtime = \<lparr>nd_id = ce_id (cg_entry c), nd_root = rt_id r, nd_rel = rel,
     nd_remote = ce_id (cg_entry c), nd_kind = kind, nd_hash = [], nd_state = ''synced'', nd_size = size1, nd_mtime = mtime,
     nd_version = ce_ver (cg_entry c)\<rparr>"

definition apply_folder :: "root_row \<Rightarrow> cchange \<Rightarrow> string \<Rightarrow> string \<Rightarrow> ('s, unit) act" where
  "apply_folder r c rel path =
     bnd (result (MkdirAll path)) (\<lambda>m. case m of
       Inl e \<Rightarrow> failed_with ''error'' e
     | Inr _ \<Rightarrow>
         bnd (ignore (UpsertNode (synced_node r c rel ''folder'' 0 0))) (\<lambda>_.
         addActivity (rt_id r) ''mkdir'' rel ''Created local folder''))"

definition apply_file :: "'s engine api \<Rightarrow> root_row \<Rightarrow> cchange \<Rightarrow> string \<Rightarrow> string \<Rightarrow> ('s, unit) act" where
  "apply_file api r c rel path =
     bnd (result (MkdirAll (dir_of path))) (\<lambda>m. case m of
       Inl e \<Rightarrow> failed_with ''error'' e
     | Inr _ \<Rightarrow>
     bnd (result (api_Download api (ce_id (cg_entry c)) path True)) (\<lambda>d. case d of
       Inl e \<Rightarrow> failed_with ''offline'' e
     | Inr _ \<Rightarrow>
     bnd (or_zero (os_stat path) (0, 0, False)) (\<lambda>(size1, mtime, isDir).
     bnd (ignore (UpsertNode (synced_node r c rel ''file'' size1 mtime))) (\<lambda>_.
     bnd (setProgress (\<lambda>s. s\<lparr>BytesSynced := BytesSynced s + size1, BytesTotal := size1, BytesDone := size1, Percent := 100\<rparr>)) (\<lambda>_.
     addActivity (rt_id r) ''download'' rel ''Downloaded file'')))))"

definition apply_change :: "econfig \<Rightarrow> 's engine api \<Rightarrow> root_row \<Rightarrow> cchange \<Rightarrow> ('s, unit) act" where
  "apply_change cfg api r c =
     bnd (or_zero (GetNodeByRemote (rt_id r) (ce_id (cg_entry c))) no_node) (\<lambda>n.
     bnd (resolveLocalRel r c n) (\<lambda>rel.
     let path = go_join (rt_path r) rel in
     if is_removal c then apply_removal r c rel path
     else
       bnd (if nd_state n = ''dirty'' then save_conflict cfg r path else ret ()) (\<lambda>_.
       bnd (setProgress (\<lambda>s. s\<lparr>State := ''syncing'', CurrentFile := path, BytesTotal := 0, BytesDone := 0, Percent := 0\<rparr>)) (\<lambda>_.
       if ce_kind (cg_entry c) = ''folder'' then apply_folder r c rel path
       else apply_file api r c rel path))))"

definition snapshot_change :: "int \<Rightarrow> centry \<Rightarrow> cchange" where
  "snapshot_change cursor e = \<lparr>cg_cursor = cursor, cg_id = ce_id e, cg_op = ''upsert'', cg_name = ce_name e, cg_parent = ce_parent e,
     cg_kind = ce_kind e, cg_bytes = ce_bytes e, cg_cver = ce_cver e, cg_hash = ce_hash e, cg_type = [], cg_entry = e\<rparr>"

definition bootstrap :: "econfig \<Rightarrow> 's engine api \<Rightarrow> root_row \<Rightarrow> ('s, unit) act" where
  "bootstrap cfg api r =
     bnd (api_Snapshot api) (\<lambda>(cursor, es).
     bnd (each (\<lambda>e. apply_change cfg api r (snapshot_change cursor e)) es) (\<lambda>_.
     SetCursor (rt_id r) cursor))"

definition or_offline :: "('s, unit) act \<Rightarrow> ('s, unit) act" where
  "or_offline m = bnd (result m) (\<lambda>x. case x of Inl e \<Rightarrow> failed_with ''offline'' e | Inr _ \<Rightarrow> ret ())"

definition pull_root :: "econfig \<Rightarrow> 's engine api \<Rightarrow> root_row \<Rightarrow> ('s, unit) act" where
  "pull_root cfg api r =
     (if rt_paused r then ret ()
      else if rt_cursor r = 0 then or_offline (bootstrap cfg api r)
      else
        bnd (result (api_Changes api (rt_cursor r) 200)) (\<lambda>x. case x of
          Inl e \<Rightarrow> failed_with ''offline'' e
        | Inr (cursor, cs, reset) \<Rightarrow>
            if reset then or_offline (bootstrap cfg api r)
            else
              bnd (setStatus (\<lambda>s. s\<lparr>State := ''syncing'', LastError := []\<rparr>)) (\<lambda>_.
              bnd (each (apply_change cfg api r) cs) (\<lambda>_.
              if cursor > rt_cursor r then ignore (SetCursor (rt_id r) cursor) else ret ()))))"

definition pull :: "econfig \<Rightarrow> 's engine api \<Rightarrow> ('s, unit) act" where
  "pull cfg api = bnd (result ListRoots) (\<lambda>rs. case rs of Inl _ \<Rightarrow> ret () | Inr rs \<Rightarrow> each (pull_root cfg api) rs)"

end
