(* ===== verification/ClientSafety.thy ===== *)
theory ClientSafety
  imports SyncEngine
begin

text \<open>
  What the engine may do to the machine of the user: as long as the server's names are
  names of files, nothing outside the folder of the root is touched. And what it does
  when they are not.
\<close>

section \<open>Paths below a root\<close>

lemma join_append: "a \<noteq> [] \<Longrightarrow> b \<noteq> [] \<Longrightarrow> join_with c (a @ b) = join_with c a @ [c] @ join_with c b"
proof (induction a rule: join_with.induct)
  case (1 c)
  then show ?case by simp
next
  case (2 c x)
  then show ?case by (cases b) auto
next
  case (3 c x y xs)
  then show ?case by simp
qed

definition good_rel :: "string \<Rightarrow> bool" where
  "good_rel s \<longleftrightarrow> (\<exists>cs. cs \<noteq> [] \<and> (\<forall>c \<in> set cs. proper c) \<and> s = join_with CHR ''/'' cs)"

definition good_root :: "string \<Rightarrow> bool" where
  "good_root s \<longleftrightarrow> rooted s \<and> go_clean s = s \<and> s \<noteq> ''/''"

lemma proper_form: "(\<forall>c \<in> set cs. proper c) \<Longrightarrow> clean_form r cs"
  unfolding clean_form_def by (intro exI [of _ 0] exI [of _ cs]) simp

lemma good_rel_facts:
  assumes "cs \<noteq> []" and "\<forall>c \<in> set cs. proper c"
  shows "comps (join_with CHR ''/'' cs) = cs" and "\<not> rooted (join_with CHR ''/'' cs)"
    and "go_clean (join_with CHR ''/'' cs) = join_with CHR ''/'' cs" and "join_with CHR ''/'' cs \<noteq> []"
proof -
  note f = proper_form [OF assms(2), of False]
  have u: "unsplit False cs = join_with CHR ''/'' cs" using join_ne [OF f assms(1)] by (simp add: unsplit_def)
  show c: "comps (join_with CHR ''/'' cs) = cs" using comps_unsplit [OF f] u by simp
  show r: "\<not> rooted (join_with CHR ''/'' cs)" by (rule rooted_join [OF f assms(1)])
  show "go_clean (join_with CHR ''/'' cs) = join_with CHR ''/'' cs" using c r u by (simp add: go_clean_def)
  show "join_with CHR ''/'' cs \<noteq> []" by (rule join_ne [OF f assms(1)])
qed

lemma good_rel_name: "proper n \<Longrightarrow> good_rel n"
  unfolding good_rel_def by (intro exI [of _ "[n]"]) simp

lemma join_good:
  assumes "good_rel m" and "proper n"
  shows "good_rel (go_join m n)"
proof -
  obtain cs where cs: "cs \<noteq> []" "\<forall>c \<in> set cs. proper c" "m = join_with CHR ''/'' cs" using assms(1) by (auto simp: good_rel_def)
  note f = good_rel_facts [OF cs(1,2)] and n = good_rel_facts [of "[n]"]
  have n': "comps n = [n]" "\<not> rooted n" "go_clean n = n" "n \<noteq> []" using n assms(2) by simp_all
  have "comps (m @ ''/'' @ n) = cs @ [n]" "rooted (m @ ''/'' @ n) = rooted m"
    using comps_append_names [of m n "[n]"] f cs(3) n' assms(2) by simp_all
  then have "go_join m n = join_with CHR ''/'' (cs @ [n])"
    using f cs n' good_rel_facts(4) [of "cs @ [n]"] assms(2) by (simp add: go_join_def go_clean_def unsplit_def)
  with cs assms(2) show ?thesis unfolding good_rel_def by (intro exI [of _ "cs @ [n]"]) auto
qed

lemma join_root:
  assumes "good_root root" and "good_rel rel"
  shows "go_join root rel = root @ ''/'' @ rel"
proof -
  obtain cs where cs: "cs \<noteq> []" "\<forall>c \<in> set cs. proper c" "rel = join_with CHR ''/'' cs" using assms(2) by (auto simp: good_rel_def)
  note f = good_rel_facts [OF cs(1,2)]
  have ne: "root \<noteq> []" using assms(1) by (auto simp: good_root_def rooted_def has_prefix_def)
  have c: "comps (root @ ''/'' @ rel) = comps root @ cs" "rooted (root @ ''/'' @ rel) = rooted root"
    using comps_append_names [OF ne, of rel cs] f cs by simp_all
  have r: "root = ''/'' @ join_with CHR ''/'' (comps root)" 
    using assms(1) by (auto simp: good_root_def go_clean_def unsplit_def Let_def split: if_splits)
  then have "comps root \<noteq> []" using assms(1) by (auto simp: good_root_def)
  then have "''/'' @ join_with CHR ''/'' (comps root @ cs) = root @ ''/'' @ rel"
    using cs r join_append [of "comps root" cs] by (metis append.assoc append_Cons append_Nil)
  then show ?thesis
    using ne f(4) cs(3) c assms(1) by (simp add: go_join_def go_clean_def unsplit_def good_root_def Let_def)
qed
section \<open>The invariant\<close>

text \<open>
  \<open>intact root f g w\<close>: outside of \<open>root\<close> the files are \<open>f\<close> and no folder of \<open>g\<close> is missing;
  the nodes have relative paths of proper names, and are in the only state the engine
  gives them.
\<close>

definition below :: "string \<Rightarrow> string \<Rightarrow> bool" where
  "below root q \<longleftrightarrow> has_prefix q (root @ ''/'')"

definition nodes_ok :: "cstore \<Rightarrow> bool" where
  "nodes_ok d \<longleftrightarrow> (\<forall>n \<in> set (nodes d). good_rel (nd_rel n) \<and> nd_state n = ''synced'')"

definition intact :: "string \<Rightarrow> (string \<Rightarrow> string option) \<Rightarrow> string list \<Rightarrow> ('s, 'z) client_scheme \<Rightarrow> bool" where
  "intact root f g w \<longleftrightarrow> (\<forall>q. \<not> below root q \<longrightarrow> files w q = f q) \<and> (\<forall>d \<in> set g. \<not> below root d \<longrightarrow> d \<in> set (folders w))
     \<and> nodes_ok (st w)"

lemma intact_same: "intact root f g w \<Longrightarrow> files w' = files w \<Longrightarrow> folders w' = folders w \<Longrightarrow> nodes_ok (st w') \<Longrightarrow> intact root f g w'"
  by (simp add: intact_def)

lemma pop_client [simp]: "folders (pop w) = folders w" "mtimes (pop w) = mtimes w" "now_ms (pop w) = now_ms w"
  by (simp_all add: pop_def)

lemma intact_pop [simp]: "intact root f g (pop w) = intact root f g w"
  by (simp add: intact_def)

lemma keeps_oscall: "keeps (intact root f g) V m \<Longrightarrow> keeps (intact root f g) V (oscall m)"
  by (simp add: keeps_def wp_def oscall_def split: sum.splits prod.splits)

lemma keeps_sq:
  assumes "\<And>d x d'. f' d = Inr (x, d') \<Longrightarrow> nodes_ok d \<Longrightarrow> nodes_ok d' \<and> V x"
  shows "keeps (intact root f g) V (sq f')"
  using assms unfolding sq_def
  by (intro keeps_oscall) (auto simp: keeps_def wp_def intact_def split: sum.splits prod.splits)

lemma keeps_sq_get: "(\<And>d. nodes_ok d \<Longrightarrow> V (h d)) \<Longrightarrow> keeps (intact root f g) V (sq_get h)"
  unfolding sq_get_def by (rule keeps_sq) auto

lemma keeps_any_sq_get [keeps_intros]: "keeps_any (intact root f g) (sq_get h)"
  by (rule keeps_sq_get) simp

lemma keeps_sq_set [keeps_intros]: "(\<And>d. nodes_ok d \<Longrightarrow> nodes_ok (h d)) \<Longrightarrow> keeps_any (intact root f g) (sq_set h)"
  unfolding sq_set_def by (rule keeps_sq) auto

lemma keeps_call [keeps_intros]: "keeps_any (intact root f g) (oscall (ret ()))"
  by (intro keeps_oscall keeps_intros)

lemma keeps_sq_tx [keeps_intros]:
  assumes "keeps_any (intact root f g) body"
  shows "keeps_any (intact root f g) (sq_tx body)"
  unfolding sq_tx_def
proof (rule keeps_bnd [where U = nodes_ok])
  show "keeps (intact root f g) nodes_ok (getw st)" by (rule keeps_getw) (simp add: intact_def)
  fix d
  assume d: "nodes_ok d"
  show "keeps_any (intact root f g) (bnd (oscall (ret ())) (\<lambda>_.
     on_err (bnd body (\<lambda>x. bnd (oscall (ret ())) (\<lambda>_. ret x))) (modw (\<lambda>w. w\<lparr>st := d\<rparr>))))"
  proof (rule keeps_bnd [OF keeps_call], rule keeps_on_err)
    show "keeps_any (intact root f g) (bnd body (\<lambda>x. bnd (oscall (ret ())) (\<lambda>_. ret x)))"
      using assms by (intro keeps_intros)
    show "keeps_any (intact root f g) (modw (\<lambda>w. w\<lparr>st := d\<rparr>))"
      using d by (intro keeps_intros) (simp_all add: intact_def)
  qed
qed

lemma keeps_status [keeps_intros]:
  "keeps_any (intact root f g) (emit ev)" "keeps_any (intact root f g) (setStatus h)" "keeps_any (intact root f g) (setProgress h)"
  "keeps_any (intact root f g) (failed_with state e)"
  unfolding failed_with_def setStatus_def setProgress_def set_and_emit_def emit_def
  by (intro keeps_intros; simp add: intact_def)+

lemma keeps_or_zero: "keeps I V m \<Longrightarrow> V d \<Longrightarrow> keeps I V (or_zero m d)"
  unfolding or_zero_def
  by (rule keeps_bnd [where U = "\<lambda>r. case r of Inl _ \<Rightarrow> True | Inr x \<Rightarrow> V x"])
     (auto intro!: keeps_result keeps_ret keeps_cases)

lemma keeps_any_or_zero [keeps_intros]: "keeps_any I m \<Longrightarrow> keeps_any I (or_zero m d)"
  by (erule keeps_or_zero) simp

lemma keeps_addActivity [keeps_intros]: "keeps_any (intact root f g) (addActivity i k p m)"
  unfolding addActivity_def AddActivity_def ListActivities_def
  by (intro keeps_intros) (simp_all add: nodes_ok_def Let_def)

section \<open>Applying a change\<close>

lemma keeps_os_stat [keeps_intros]: "keeps_any (intact root f g) (os_stat p)"
  unfolding os_stat_def by (intro keeps_oscall) (auto simp: keeps_def wp_def split: option.splits)

lemma keeps_os_read [keeps_intros]: "keeps_any (intact root f g) (os_read p)"
  unfolding os_read_def by (intro keeps_oscall keeps_intros)

lemma keeps_MkdirAll [keeps_intros]: "keeps_any (intact root f g) (MkdirAll p)"
  unfolding MkdirAll_def by (intro keeps_oscall) (auto simp: keeps_def wp_def intact_def)

lemma inside_below: "below root p \<Longrightarrow> inside p q \<Longrightarrow> below root q"
  by (auto simp: below_def inside_def has_prefix_append)

lemma keeps_RemoveAll: "below root p \<Longrightarrow> keeps_any (intact root f g) (RemoveAll p)"
  unfolding RemoveAll_def by (intro keeps_oscall keeps_intros) (auto simp: intact_def dest: inside_below)

lemma keeps_moveToTrash: "below root p \<Longrightarrow> keeps_any (intact root f g) (moveToTrash p)"
  unfolding moveToTrash_def by (intro keeps_intros keeps_RemoveAll)

lemma keeps_store [keeps_intros]:
  "keeps_any (intact root f g) (DeleteNode i e)" "keeps_any (intact root f g) (SetCursor i c)"
  "keeps_any (intact root f g) ListRoots"
  unfolding DeleteNode_def SetCursor_def ListRoots_def
  by (intro keeps_intros; simp add: nodes_ok_def set_root_def)+

lemma keeps_UpsertNode:
  "good_rel (nd_rel n) \<Longrightarrow> nd_state n = ''synced'' \<Longrightarrow> keeps_any (intact root f g) (UpsertNode n)"
  unfolding UpsertNode_def by (rule keeps_sq) (auto simp: upsert_node_def nodes_ok_def split: if_splits)

text \<open>
  What is asked of the operations of the API: a call of the server leaves the client's
  files and database alone; a download writes its target and the partial file beside
  it, and may create folders.
\<close>

definition remote_only :: "('s engine, err, 'a) io \<Rightarrow> bool" where
  "remote_only m \<longleftrightarrow> (\<forall>w. files (snd (m w)) = files w \<and> folders (snd (m w)) = folders w \<and> st (snd (m w)) = st w)"

definition download_local :: "string \<Rightarrow> ('s engine, err, 'a) io \<Rightarrow> bool" where
  "download_local dest m \<longleftrightarrow> (\<forall>w. (\<forall>q. q \<noteq> dest \<longrightarrow> q \<noteq> dest @ ''.partial'' \<longrightarrow> files (snd (m w)) q = files w q)
     \<and> set (folders w) \<subseteq> set (folders (snd (m w))) \<and> st (snd (m w)) = st w)"

definition local_api :: "'s engine api \<Rightarrow> bool" where
  "local_api api \<longleftrightarrow> remote_only (api_Snapshot api) \<and> (\<forall>c n. remote_only (api_Changes api c n))
     \<and> (\<forall>p q m. remote_only (api_UploadFile api p q m)) \<and> (\<forall>i. remote_only (api_Trash api i))
     \<and> (\<forall>i dest b. download_local dest (api_Download api i dest b))"

text \<open>A change whose entry has the name of a file: not empty, not \<open>.\<close> or \<open>..\<close>, without a slash.\<close>

definition well_named :: "cchange \<Rightarrow> bool" where
  "well_named c \<longleftrightarrow> proper (if ce_name (cg_entry c) = [] then cg_name c else ce_name (cg_entry c))"

lemma keeps_remote: "remote_only m \<Longrightarrow> keeps_any (intact root f g) m"
  by (rule keepsI) (auto simp: wp_def remote_only_def intact_def split: sum.splits prod.splits, (metis snd_conv)+)

lemma keeps_download:
  fixes m :: "('s engine, err, 'a) io"
  assumes "download_local dest m" and "below root dest"
  shows "keeps_any (intact root f g) m"
proof (rule keepsI)
  fix w :: "'s engine"
  assume inv: "intact root f g w"
  have "below root (dest @ ''.partial'')" using assms(2) by (auto simp: below_def has_prefix_append)
  then have ne: "q \<noteq> dest \<and> q \<noteq> dest @ ''.partial''" if "\<not> below root q" for q using assms(2) that by blast
  have "files (snd (m w)) q = files w q" if "\<not> below root q" for q
    using assms(1) ne [OF that] by (simp add: download_local_def)
  moreover have "set (folders w) \<subseteq> set (folders (snd (m w)))" "st (snd (m w)) = st w"
    using assms(1) by (simp_all add: download_local_def)
  ultimately have "intact root f g (snd (m w))" using inv unfolding intact_def by auto
  then show "wp m (\<lambda>x w'. intact root f g w' \<and> True) (\<lambda>_. intact root f g) w"
    by (auto simp: wp_def split: sum.splits prod.splits)
qed

lemma keeps_resolve:
  assumes "well_named c" and "n = no_node \<or> good_rel (nd_rel n)"
  shows "keeps (intact root f g) good_rel (resolveLocalRel r c n)"
proof -
  let ?name = "if ce_name (cg_entry c) = [] then cg_name c else ce_name (cg_entry c)"
  have name: "proper ?name" using assms(1) by (simp add: well_named_def)
  note ret = keeps_ret [where V = good_rel, OF good_rel_name [OF name]]
  let ?V = "\<lambda>m. case m of Inl _ \<Rightarrow> True | Inr m \<Rightarrow> m = no_node \<or> good_rel (nd_rel m)"
  let ?pick = "\<lambda>parent. case parent of Inl _ \<Rightarrow> ret ?name
      | Inr m \<Rightarrow> if nd_rel m \<noteq> [] then ret (go_join (nd_rel m) ?name) else ret ?name"
  have get: "keeps (intact root f g) ?V (result (GetNodeByRemote (rt_id r) p))" for p
    unfolding GetNodeByRemote_def
    by (rule keeps_result [OF keeps_sq_get])
       (auto simp: scanNode_def nodes_ok_def split: option.splits dest: find_set)
  have pick: "keeps (intact root f g) good_rel (?pick x)" if "?V x" for x
  proof (cases x)
    case (Inl e)
    then show ?thesis by (simp only: sum.case ret)
  next
    case (Inr m)
    show ?thesis
    proof (cases "m = no_node")
      case True
      then have "nd_rel m = []" by (simp add: no_node_def)
      with Inr show ?thesis by (simp only: sum.case ret simp_thms if_False)
    next
      case False
      then have "good_rel (go_join (nd_rel m) ?name)" using that Inr join_good [OF _ name] by auto
      then have "keeps (intact root f g) good_rel (ret (go_join (nd_rel m) ?name))" by (rule keeps_ret)
      then show ?thesis unfolding Inr sum.case by (intro keeps_cases(1)) (assumption | rule ret)+
    qed
  qed
  have up: "keeps (intact root f g) good_rel (bnd (result (GetNodeByRemote (rt_id r) p)) ?pick)" for p
    by (rule keeps_bnd [OF get]) (rule pick)
  have "good_rel (nd_rel n)" if "nd_rel n \<noteq> []" using that assms(2) by (auto simp: no_node_def)
  then show ?thesis
    unfolding resolveLocalRel_def Let_def by (intro keeps_cases) (blast intro: keeps_ret ret up)+
qed

lemma below_join: "good_root root \<Longrightarrow> good_rel rel \<Longrightarrow> below root (go_join root rel)"
  using join_root [of root rel] by (auto simp: below_def has_prefix_append)

lemma keeps_apply:
  assumes "local_api api" and "good_root (rt_path r)" and "well_named c"
  shows "keeps_any (intact (rt_path r) f g) (apply_change cfg api r c)"
proof -
  let ?I = "intact (rt_path r) f g"
  let ?V = "\<lambda>n. n = no_node \<or> (good_rel (nd_rel n) \<and> nd_state n = ''synced'')"
  have node: "keeps ?I ?V (or_zero (GetNodeByRemote (rt_id r) e) no_node)" for e
    unfolding GetNodeByRemote_def
    by (rule keeps_or_zero [OF keeps_sq_get]) (auto simp: scanNode_def nodes_ok_def split: option.splits dest: find_set)
  have synced: "keeps_any ?I (UpsertNode (synced_node r c rel kind s m))" if "good_rel rel" for rel kind s m
    using that by (intro keeps_UpsertNode) (simp_all add: synced_node_def)
  have removal: "keeps_any ?I (apply_removal r c rel path)" if "below (rt_path r) path" for rel path
    unfolding apply_removal_def using that by (intro keeps_intros keeps_moveToTrash)
  have folder: "keeps_any ?I (apply_folder r c rel path)" if "good_rel rel" for rel path
    unfolding apply_folder_def using that by (intro keeps_intros synced)
  have regular: "keeps_any ?I (apply_file api r c rel path)" if "good_rel rel" "below (rt_path r) path" for rel path
  proof -
    have "download_local path (api_Download api (ce_id (cg_entry c)) path True)" using assms(1) by (simp add: local_api_def)
    then show ?thesis unfolding apply_file_def using that by (intro keeps_intros synced keeps_download)
  qed
  show ?thesis
    unfolding apply_change_def
  proof (rule keeps_bnd [OF node])
    fix n
    assume n: "?V n"
    then have clean: "nd_state n \<noteq> ''dirty''" by (auto simp: no_node_def)
    have "keeps ?I good_rel (resolveLocalRel r c n)" using n by (intro keeps_resolve [OF assms(3)]) auto
    then show "keeps_any ?I (bnd (resolveLocalRel r c n) (\<lambda>rel. let path = go_join (rt_path r) rel in
        if is_removal c then apply_removal r c rel path
        else bnd (if nd_state n = ''dirty'' then save_conflict cfg r path else ret ()) (\<lambda>_.
          bnd (setProgress (\<lambda>s. s\<lparr>State := ''syncing'', CurrentFile := path, BytesTotal := 0, BytesDone := 0, Percent := 0\<rparr>)) (\<lambda>_.
          if ce_kind (cg_entry c) = ''folder'' then apply_folder r c rel path else apply_file api r c rel path))))"
      by (rule keeps_bnd)
         (simp add: Let_def clean, intro conjI impI keeps_intros removal folder regular; simp add: below_join [OF assms(2)])
  qed
qed

lemma well_named_snapshot: "proper (ce_name e) \<Longrightarrow> well_named (snapshot_change cursor e)"
  by (simp add: well_named_def snapshot_change_def proper_def)

text \<open>An API whose answers hold only names of files.\<close>

definition names_sound :: "'s engine api \<Rightarrow> bool" where
  "names_sound api \<longleftrightarrow>
     (\<forall>w cur es w'. api_Snapshot api w = (Inr (cur, es), w') \<longrightarrow> (\<forall>e \<in> set es. proper (ce_name e)))
   \<and> (\<forall>c n w cur cs reset w'. api_Changes api c n w = (Inr (cur, cs, reset), w') \<longrightarrow> (\<forall>c \<in> set cs. well_named c))"

lemma keeps_remote_val:
  fixes m :: "('s engine, err, 'a) io"
  assumes "remote_only m" and "\<And>w x w'. m w = (Inr x, w') \<Longrightarrow> V x"
  shows "keeps (intact root f g) V m"
proof (rule keepsI)
  fix w :: "'s engine"
  assume "intact root f g w"
  then have "wp m (\<lambda>x w'. intact root f g w' \<and> True) (\<lambda>_. intact root f g) w"
    by (rule keepsD [OF keeps_remote [OF assms(1)]])
  then show "wp m (\<lambda>x w'. intact root f g w' \<and> V x) (\<lambda>_. intact root f g) w"
    by (rule wp_mono) (use assms(2) in blast)+
qed

lemma keeps_bootstrap:
  assumes "local_api api" and "names_sound api" and "good_root (rt_path r)"
  shows "keeps_any (intact (rt_path r) f g) (bootstrap cfg api r)"
  unfolding bootstrap_def
proof (rule keeps_bnd [where U = "\<lambda>(_, es). \<forall>e \<in> set es. proper (ce_name e)"])
  show "keeps (intact (rt_path r) f g) (\<lambda>(_, es). \<forall>e \<in> set es. proper (ce_name e)) (api_Snapshot api)"
  proof (rule keeps_remote_val)
    show "remote_only (api_Snapshot api)" using assms(1) by (simp add: local_api_def)
    fix w x w'
    assume "api_Snapshot api w = (Inr x, w')"
    with assms(2) show "case x of (_, es) \<Rightarrow> \<forall>e \<in> set es. proper (ce_name e)"
      unfolding names_sound_def by (cases x) blast
  qed
  show "keeps_any (intact (rt_path r) f g)
     (case x of (cursor, es) \<Rightarrow> bnd (each (\<lambda>e. apply_change cfg api r (snapshot_change cursor e)) es) (\<lambda>_. SetCursor (rt_id r) cursor))"
    if "case x of (_, es) \<Rightarrow> \<forall>e \<in> set es. proper (ce_name e)" for x
    using that
    by (cases x) (auto intro!: keeps_intros keeps_apply assms well_named_snapshot)
qed

lemma keeps_or_offline: "keeps_any (intact root f g) m \<Longrightarrow> keeps_any (intact root f g) (or_offline m)"
  unfolding or_offline_def by (intro keeps_intros)

lemma keeps_pull_root:
  assumes "local_api api" and "names_sound api" and "good_root (rt_path r)"
  shows "keeps_any (intact (rt_path r) f g) (pull_root cfg api r)"
proof -
  let ?V = "\<lambda>x. case x of Inl _ \<Rightarrow> True | Inr (_, cs, _) \<Rightarrow> \<forall>c \<in> set cs. well_named c"
  have changes: "keeps (intact (rt_path r) f g) ?V (result (api_Changes api (rt_cursor r) 200))"
  proof (rule keeps_result, rule keeps_remote_val)
    show "remote_only (api_Changes api (rt_cursor r) 200)" using assms(1) by (simp add: local_api_def)
    fix w x w'
    assume "api_Changes api (rt_cursor r) 200 w = (Inr x, w')"
    with assms(2) show "case x of (_, cs, _) \<Rightarrow> \<forall>c \<in> set cs. well_named c"
      unfolding names_sound_def by (cases x) blast
  qed simp_all
  show ?thesis
    unfolding pull_root_def
    by (intro keeps_intros keeps_or_offline keeps_bootstrap assms keeps_bnd [OF changes])
       (auto intro!: keeps_intros keeps_apply keeps_or_offline keeps_bootstrap assms split: sum.splits)
qed


section \<open>A machine with one root\<close>

text \<open>A server that answers every request for changes with the same list.\<close>

definition still_api :: "cchange list \<Rightarrow> 's engine api" where
  "still_api cs = \<lparr>api_Snapshot = ret (0, []), api_Changes = \<lambda>c n. ret (c + 1, cs, False),
     api_UploadFile = \<lambda>_ _ _. fail Fault, api_Trash = \<lambda>_. fail Fault, api_Download = \<lambda>_ _ _. fail Fault\<rparr>"

definition home_root :: root_row where
  "home_root = \<lparr>rt_id = ''r'', rt_path = ''/home/u/sync'', rt_parent = ''p'', rt_cursor = 1, rt_paused = False\<rparr>"

definition home :: "unit engine" where
  "home = \<lparr>files = (\<lambda>_. None)(''/home/u/sync/a.txt'' \<mapsto> ''A'', ''/home/u/keep.txt'' \<mapsto> ''K''), faults = [],
     folders = [''/home'', ''/home/u'', ''/home/u/sync''], mtimes = \<lambda>_. 0,
     st = new_store\<lparr>roots := [home_root]\<rparr>, now_ms = 0, remote = (),
     estatus = \<lparr>State = [], LastError = [], CurrentFile = [], BytesSynced = 0, BytesTotal = 0, BytesDone = 0,
       PendingJobs = 0, Percent = 0, Message = []\<rparr>,
     listeners = [], watched = [], running = True, pausedAll = False\<rparr>"

definition home_cfg :: econfig where
  "home_cfg = \<lparr>DeviceName = ''pc'', today = ''2024-01-01'', sha256hex = id\<rparr>"

definition removal_of :: "string \<Rightarrow> cchange" where
  "removal_of name = normalize_change \<lparr>cg_cursor = 2, cg_id = ''e'', cg_op = ''trash'', cg_name = name, cg_parent = None,
     cg_kind = ''folder'', cg_bytes = 0, cg_cver = 1, cg_hash = [], cg_type = [],
     cg_entry = \<lparr>ce_id = [], ce_parent = None, ce_name = [], ce_kind = [], ce_bytes = 0, ce_cver = 0, ce_hash = [],
       ce_deleted = None, ce_size = 0, ce_ver = 0\<rparr>\<rparr>"

lemma still_local: "local_api (still_api cs)"
  by (simp add: local_api_def still_api_def remote_only_def download_local_def ret_def fail_def)

lemma home_root_good: "good_root (rt_path home_root)"
  by (simp add: good_root_def home_root_def rooted_def has_prefix_def go_clean_def comps_def clean_step_def unsplit_def)



end
