(* ===== verification/Defects.thy ===== *)
theory Defects
  imports Witnesses ClientSafety
begin

text \<open>
  Places where the code does not do what it means to, as theorems about the model: a
  general statement where there is one, otherwise the run of the model at a small state.
\<close>

section \<open>The server\<close>

lemma wp_run: "m w = (Inr x, w') \<Longrightarrow> wp m Q E w = Q x w'"
  by (simp add: wp_def)

lemma quiet_blobs:
  assumes "faults w = []" and "k \<noteq> NoKey" and "files w k = Some c"
  shows "wp (blob_size k) Q E w = Q (int (length c)) w"
    and "wp (hashStorageKey sha k) Qs E w = Qs (sha c) w"
    and "k' \<noteq> NoKey \<Longrightarrow> wp (blob_finalize k k') Q' E w = Q' () (w\<lparr>files := (files w)(k := None, k' \<mapsto> c)\<rparr>)"
  using assms
  by (simp_all add: wp_def blob_defs hashStorageKey_def st_size_def st_open_def os_read_def st_finalize_def os_mkdir_def os_rename_def
      oscall_def bnd_def result_def ret_def getw_def modw_def)

lemma quiet_delete:
  assumes "faults w = []" and "k \<noteq> NoKey"
  shows "wp (blob_delete k) Q E w = Q () (w\<lparr>files := (files w)(k := None)\<rparr>)"
  using assms st_delete_ok [of w k] by (simp add: wp_def blob_defs)

lemma name_taken_wp:
  assumes "faults w = []" and "open_session i user (db w) = Some s" and "us_target s = None"
    and "us_received s = us_expected s" and "files w (us_key s) = Some c" and "int (length c) = us_expected s" and "us_hash s = []"
    and "us_key s = TmpKey x y z"
    and "e \<in> set (entries (db w))" and "live e" and "fe_user e = user" and "fe_parent e = us_parent s"
    and "sql_lower w (fe_name e) = sql_lower w (us_name s)"
  shows "wp (CompleteFile sha user i) (\<lambda>_ _. False)
    (\<lambda>err w'. err = Constraint \<and> db w' = db w \<and> files w' = (files w)(us_key s := None, UserKey user (day_of (clock w)) (fresh w) := None)) w"
proof -
  have taken: "insert_entry (sql_lower w) ((entry_row n user drive (us_parent s) (us_name s) File key k mime now)\<lparr>fe_hash := h, fe_cmod := m\<rparr>) (db w) = None"
    for n drive key k mime now h m
  proof -
    have "(user, us_parent s, sql_lower w (us_name s)) \<in> set (live_names (sql_lower w) (entries (db w)))"
      using assms(9-13) by (force simp: live_names_def)
    then have "\<not> names_ok (sql_lower w) (entries (db w) @ [(entry_row n user drive (us_parent s) (us_name s) File key k mime now)\<lparr>fe_hash := h, fe_cmod := m\<rparr>])"
      by (simp add: names_ok_def live_names_def live_def entry_row_def)
    then show ?thesis by (simp add: insert_entry_def)
  qed
  show ?thesis
    using assms
    by (simp add: CompleteFile_def complete_tx_def complete_check_def complete_old_def complete_entry_def create_entry_def wp_simps row_def
        quiet_blobs quiet_delete Let_def taken split: option.split)
qed

text \<open>
  C13: a name that is taken destroys the upload: when a file has been received whole and
  an entry with its name appears before it is completed, \<open>CompleteFile\<close> fails, rolls
  back, and deletes the received bytes: nothing holds them any more, while the session
  is still open, says that everything was received and keeps its reservation.
\<close>

theorem taken_name_destroys_upload:
  assumes "faults w = []" and "open_session i user (db w) = Some s" and "us_target s = None"
    and "us_received s = us_expected s" and "files w (us_key s) = Some c" and "int (length c) = us_expected s" and "us_hash s = []"
    and "us_key s = TmpKey x y z"
    and "e \<in> set (entries (db w))" and "live e" and "fe_user e = user" and "fe_parent e = us_parent s"
    and "sql_lower w (fe_name e) = sql_lower w (us_name s)"
    and "CompleteFile sha user i w = (r, w')"
  shows "r = Inl Constraint \<and> db w' = db w \<and> open_session i user (db w') = Some s
    \<and> files w' (us_key s) = None \<and> (\<forall>k. files w' k = None \<or> files w' k = files w k)"
proof -
  note run = name_taken_wp [OF assms(1-13), of sha]
  obtain err where r: "r = Inl err" using run assms(14) by (cases r) (auto dest: wp_InrD)
  with run assms(14) have "err = Constraint \<and> db w' = db w
      \<and> files w' = (files w)(us_key s := None, UserKey user (day_of (clock w)) (fresh w) := None)"
    by (auto dest: wp_InlD)
  with r assms(2) show ?thesis by simp
qed

definition taken :: world where
  "taken = site\<lparr>db := site_db\<lparr>entries := site_entries @
     [entry_row 13 1 (Some 20) (Some 10) ''C.txt'' File (UserKey 1 0 13) 0 ''text/plain'' 0]\<rparr>\<rparr>"

theorem taken_name_destroys_upload_witness:
  "\<exists>w'. CompleteFile id 1 52 taken = (Inl Constraint, w') \<and> files taken (TmpKey 1 50 52) = Some ''abc''
     \<and> files w' (TmpKey 1 50 52) = None"
proof -
  obtain r w' where run: "CompleteFile id 1 52 taken = (r, w')" by (cases "CompleteFile id 1 52 taken")
  have low: "lower_byte CHR ''C'' = lower_byte CHR ''c''" by code_simp
  have files: "files taken (TmpKey 1 50 52) = Some ''abc''" by (simp add: taken_def site_def)
  have "r = Inl Constraint \<and> db w' = db taken \<and> open_session 52 1 (db w') = Some (site_session 52 ''c.txt'' 3 3)
    \<and> files w' (us_key (site_session 52 ''c.txt'' 3 3)) = None \<and> (\<forall>k. files w' k = None \<or> files w' k = files taken k)"
    by (rule taken_name_destroys_upload [OF _ _ _ _ _ _ _ _ _ _ _ _ _ run,
          where e = "entry_row 13 1 (Some 20) (Some 10) ''C.txt'' File (UserKey 1 0 13) 0 ''text/plain'' 0" and c = "''abc''"])
       (simp_all add: taken_def open_session_def batch_of_def live_def site_defs low)
  with run files show ?thesis by (simp add: site_session_def)
qed

section \<open>The client\<close>

definition entry_named :: "string \<Rightarrow> string \<Rightarrow> string option \<Rightarrow> string \<Rightarrow> centry" where
  "entry_named i kind parent name = normalize_entry \<lparr>ce_id = i, ce_parent = parent, ce_name = name, ce_kind = kind, ce_bytes = 1,
     ce_cver = 1, ce_hash = [], ce_deleted = None, ce_size = 0, ce_ver = 0\<rparr>"

text \<open>A server with a fixed snapshot and fixed changes, whose files all hold one byte.\<close>

definition copy_api :: "centry list \<Rightarrow> cchange list \<Rightarrow> unit engine api" where
  "copy_api es cs = (still_api cs)\<lparr>api_Snapshot := ret (7, es),
     api_Download := \<lambda>i dest resume. modw (\<lambda>w. w\<lparr>files := (files w)(dest \<mapsto> ''D'')\<rparr>)\<rparr>"

definition after_run :: "unit engine \<Rightarrow> (unit, 'a) act \<Rightarrow> unit engine" where
  "after_run w m = snd (m w)"

text \<open>
  A failed download is not repeated: the engine moves its cursor past a change whose
  file it could not download, so that the file is missing and no later pull asks for it.
\<close>

theorem failed_download_forgotten:
  "let w = after_run home (pull home_cfg (still_api [snapshot_change 2 (entry_named ''n'' ''file'' None ''n.txt'')]))
   in map rt_cursor (roots (st w)) = [2] \<and> files w ''/home/u/sync/n.txt'' = None \<and> nodes (st w) = [] \<and> jobs (st w) = []"
  by code_simp

text \<open>
  A remote rename is not applied: the engine keeps a known file at its old place,
  whatever its new name is on the server.
\<close>

theorem rename_not_applied:
  "let a = copy_api [] [snapshot_change 2 (entry_named ''n'' ''file'' None ''n.txt'')];
       b = copy_api [] [snapshot_change 3 (entry_named ''n'' ''file'' None ''renamed.txt'')];
       w = after_run (after_run home (pull home_cfg a)) (pull home_cfg b)
   in map rt_cursor (roots (st w)) = [3] \<and> files w ''/home/u/sync/n.txt'' = Some ''D'' \<and> files w ''/home/u/sync/renamed.txt'' = None"
  by code_simp

definition two_roots :: "unit engine" where
  "two_roots = home\<lparr>st := new_store\<lparr>roots :=
     [home_root\<lparr>rt_cursor := 0\<rparr>, home_root\<lparr>rt_id := ''s'', rt_path := ''/home/v'', rt_cursor := 0\<rparr>]\<rparr>\<rparr>"

text \<open>
  A second root is not synchronised: the key of a node is the id of the entry alone,
  so the nodes of the second root are refused. The file of a folder lands beside the
  folder, as its parent is not known.
\<close>

theorem second_root_misplaced:
  "let w = after_run two_roots (pull home_cfg (copy_api [entry_named ''d'' ''folder'' None ''docs'', entry_named ''f'' ''file'' (Some ''d'') ''f.txt''] []))
   in files w ''/home/u/sync/docs/f.txt'' = Some ''D'' \<and> files w ''/home/v/docs/f.txt'' = None \<and> files w ''/home/v/f.txt'' = Some ''D''
    \<and> map nd_root (nodes (st w)) = [''r'', ''r''] \<and> map rt_cursor (roots (st w)) = [7, 7]"
  by code_simp

text \<open>
  What has been downloaded is uploaded again: the engine queues an upload of a file
  it has just written, although its node is in state \<open>synced\<close>; nothing ever sets the
  state \<open>syncing\<close> that would stop it.
\<close>

theorem download_is_uploaded_again:
  "let w = after_run home (pull home_cfg (copy_api [] [snapshot_change 2 (entry_named ''n'' ''file'' None ''n.txt'')]));
       w' = after_run w (scan home_cfg home_root [''n.txt''])
   in map nd_state (nodes (st w)) = [''synced''] \<and> jobs (st w) = []
    \<and> map j_payload (jobs (st w')) = [UploadJob ''/home/u/sync/n.txt'' ''n.txt'' ''D'']"
  by code_simp

end
