(* ===== verification/ClientApi.thy ===== *)
theory ClientApi
  imports ClientSafety
begin

text \<open>
  \<open>internal/syncclient/client.go\<close>: the client's side of the HTTP API, over a server that
  is a parameter: \<open>http\<close> gives the decoded answer to a request, or its error.
  \<open>Download\<close> resumes a partial file with a range request; \<open>ServeContent\<close> is how the
  server (\<open>http.ServeContent\<close>) answers one.
\<close>

section \<open>Requests\<close>

text \<open>The answer to a download: the status, and the body as the client reads it.\<close>

record 'w http =
  get_snapshot :: "('w, err, int \<times> centry list) io"
  get_changes :: "int \<Rightarrow> int \<Rightarrow> ('w, err, int \<times> int \<times> cchange list \<times> bool) io"
  get_file :: "string \<Rightarrow> int \<Rightarrow> ('w, err, nat \<times> rd list) io"
  post_trash :: "string \<Rightarrow> ('w, err, unit) io"
  post_upload :: "string \<Rightarrow> string \<Rightarrow> cmanifest \<Rightarrow> ('w, err, centry) io"

definition client_Snapshot :: "'w http \<Rightarrow> ('w, err, int \<times> centry list) io" where
  "client_Snapshot h = bnd (get_snapshot h) (\<lambda>(cursor, es). ret (cursor, map normalize_entry es))"

definition client_Changes :: "'w http \<Rightarrow> int \<Rightarrow> int \<Rightarrow> ('w, err, int \<times> cchange list \<times> bool) io" where
  "client_Changes h cursor limit =
     bnd (get_changes h cursor limit) (\<lambda>(cur, next, cs, reset).
     ret (if next > 0 then next else cur, map normalize_change cs, reset))"

section \<open>Downloads\<close>

definition partial_of :: "string \<Rightarrow> string" where
  "partial_of dest = dest @ ''.partial''"

text \<open>\<open>os.OpenFile\<close> with \<open>O_CREATE|O_WRONLY\<close> and \<open>O_APPEND\<close> or \<open>O_TRUNC\<close>.\<close>

definition os_open_write :: "bool \<Rightarrow> string \<Rightarrow> (('s, 'z) client_scheme, err, unit) io" where
  "os_open_write app p = oscall (\<lambda>w.
     if p \<in> set (folders w) then (Inl Fault, w)
     else (Inr (), w\<lparr>files := (files w)(p \<mapsto> (if app then (case files w p of None \<Rightarrow> [] | Some c \<Rightarrow> c) else []))\<rparr>))"

definition touch :: "string \<Rightarrow> (('s, 'z) client_scheme, err, unit) io" where
  "touch p = modw (\<lambda>w. w\<lparr>mtimes := (mtimes w)(p := now_ms w)\<rparr>)"

definition finish :: "string \<Rightarrow> err + int \<Rightarrow> err + unit \<Rightarrow> (('s, 'z) client_scheme, err, unit) io" where
  "finish dest copyErr closeErr =
     bnd (case copyErr of Inl e \<Rightarrow> fail e | Inr _ \<Rightarrow> ret ()) (\<lambda>_.
     bnd (case closeErr of Inl e \<Rightarrow> fail e | Inr _ \<Rightarrow> ret ()) (\<lambda>_.
     bnd (os_rename (partial_of dest) dest) (\<lambda>_. touch dest)))"

definition store_body :: "string \<Rightarrow> int \<Rightarrow> rd list \<Rightarrow> (('s, 'z) client_scheme, err, unit) io" where
  "store_body dest offset body =
     bnd (os_open_write (offset > 0) (partial_of dest)) (\<lambda>_.
     bnd (result (copy_with_context (partial_of dest) body 0)) (\<lambda>copyErr.
     bnd (result (oscall (ret ()))) (\<lambda>closeErr. finish dest copyErr closeErr)))"

definition Download_to :: "('s, 'z) client_scheme http \<Rightarrow> string \<Rightarrow> string \<Rightarrow> bool \<Rightarrow> (('s, 'z) client_scheme, err, unit) io" where
  "Download_to h fileID dest resume =
     bnd (result (os_stat (partial_of dest))) (\<lambda>info.
     let offset = (if resume then (case info of Inl _ \<Rightarrow> 0 | Inr (size1, _, _) \<Rightarrow> size1) else 0) in
     bnd (get_file h fileID offset) (\<lambda>(code, body).
     bnd (require (200 \<le> code \<and> code \<le> 299) (Msg ''sync API'')) (\<lambda>_.
     bnd (MkdirAll (dir_of dest)) (\<lambda>_.
     store_body dest (if code = 200 then 0 else offset) body))))"

text \<open>
  The engine's API over HTTP. \<open>UploadFile\<close> is one request here; its chunk loop is the
  theory SyncClient.
\<close>

definition http_api :: "'s engine http \<Rightarrow> 's engine api" where
  "http_api h = \<lparr>api_Snapshot = client_Snapshot h, api_Changes = client_Changes h, api_UploadFile = post_upload h,
     api_Trash = post_trash h, api_Download = Download_to h\<rparr>"

definition remote_http :: "'s engine http \<Rightarrow> bool" where
  "remote_http h \<longleftrightarrow> remote_only (get_snapshot h) \<and> (\<forall>c n. remote_only (get_changes h c n))
     \<and> (\<forall>i off. remote_only (get_file h i off)) \<and> (\<forall>i. remote_only (post_trash h i))
     \<and> (\<forall>p q m. remote_only (post_upload h p q m))"

section \<open>The client changes only its target\<close>

definition near :: "string \<Rightarrow> 's engine \<Rightarrow> 's engine \<Rightarrow> bool" where
  "near dest w w' \<longleftrightarrow> (\<forall>q. q \<noteq> dest \<longrightarrow> q \<noteq> partial_of dest \<longrightarrow> files w' q = files w q)
     \<and> set (folders w) \<subseteq> set (folders w') \<and> st w' = st w"

lemma preorder_near [steps_intros]: "preorder (near dest)"
  by (rule preorderI) (auto simp: near_def)

lemma near_pop: "near dest w (pop w)"
  by (simp add: near_def)

lemma near_oscall: "steps (near dest) m \<Longrightarrow> steps (near dest) (oscall m)"
proof (rule stepsI)
  fix w
  assume "steps (near dest) m"
  then have "near dest (pop w) (snd (m (pop w)))" by (simp add: steps_def)
  with near_pop have "near dest w (snd (m (pop w)))" by (rule preorder_trans [OF preorder_near])
  then show "near dest w (snd (oscall m w))" by (simp add: oscall_def near_pop)
qed

lemma near_files: "q = dest \<or> q = partial_of dest \<Longrightarrow> near dest w (w\<lparr>files := (files w)(q := c)\<rparr>)"
  by (auto simp: near_def)

lemma near_append: "steps (near dest) (os_append (partial_of dest) bs)"
  unfolding os_append_def by (intro near_oscall stepsI) (simp add: modw_def near_files)

lemma near_copy: "steps (near dest) (copy_with_context (partial_of dest) body n)"
proof (induction body arbitrary: n)
  case (Cons r body)
  then show ?case by (cases r) (auto intro!: steps_intros near_append)
qed (auto intro: steps_intros)

lemma near_steps:
  "steps (near dest) (os_stat p)" "steps (near dest) (MkdirAll d)" "steps (near dest) (os_open_write b (partial_of dest))"
  "steps (near dest) (os_rename (partial_of dest) dest)"
  unfolding os_stat_def MkdirAll_def os_open_write_def os_rename_def
  by (intro near_oscall; auto intro!: stepsI simp: near_def modw_def ret_def bnd_def getw_def fail_def split: option.splits)+

lemma near_others: "steps (near dest) (touch dest)" "steps (near dest) (oscall (ret ()))"
  by (rule stepsI, simp add: touch_def modw_def near_def) (intro near_oscall steps_intros)

lemma near_remote: "remote_only m \<Longrightarrow> steps (near dest) m"
  by (simp add: steps_def near_def remote_only_def)

lemma download_near: "remote_http h \<Longrightarrow> download_local dest (Download_to h i dest b)"
proof -
  assume "remote_http h"
  then have get: "steps (near dest) (get_file h i off)" for off by (simp add: near_remote remote_http_def)
  have "steps (near dest) (Download_to h i dest b)"
    unfolding Download_to_def store_body_def finish_def by (intro steps_intros near_steps near_others near_copy get)
  then show ?thesis by (simp add: download_local_def steps_def near_def partial_of_def)
qed

lemma remote_bnd_ret: "remote_only m \<Longrightarrow> remote_only (bnd m (\<lambda>x. ret (f x)))"
  by (simp add: remote_only_def bnd_def ret_def split: prod.split sum.split) (metis snd_conv)

lemma http_local: "remote_http h \<Longrightarrow> local_api (http_api h)"
  using remote_bnd_ret [of "get_snapshot h" "\<lambda>(cursor, es). (cursor, map normalize_entry es)"]
    remote_bnd_ret [of "get_changes h c n" "\<lambda>(cur, next, cs, reset). (if next > 0 then next else cur, map normalize_change cs, reset)" for c n]
  by (simp add: local_api_def http_api_def client_Snapshot_def client_Changes_def remote_http_def download_near case_prod_unfold)

section \<open>Resuming a download\<close>

text \<open>
  \<open>http.ServeContent\<close> for a file with the content \<open>c\<close> and a range from \<open>offset\<close> to the
  end; the client sends no range for 0, and no condition on the version. Any number of
  reads may deliver the body, and the last of them may fail.
\<close>

definition serves :: "string \<Rightarrow> int \<Rightarrow> nat \<times> rd list \<Rightarrow> bool" where
  "serves c offset ans \<longleftrightarrow>
     (if offset \<le> 0 then fst ans = 200 else if offset < int (length c) then fst ans = 206 else fst ans = 416)
   \<and> (fst ans \<noteq> 416 \<longrightarrow> (\<exists>n. stream_bytes (snd ans) = take n (drop (nat offset) c))
        \<and> (sound (snd ans) \<longrightarrow> stream_bytes (snd ans) = drop (nat offset) c))"

definition file_server :: "string \<Rightarrow> string \<Rightarrow> 's engine http \<Rightarrow> bool" where
  "file_server i c h \<longleftrightarrow> (\<forall>offset w ans w'. get_file h i offset w = (Inr ans, w') \<longrightarrow> serves c offset ans)"

text \<open>The partial file is a beginning of the content.\<close>

definition resumable :: "string \<Rightarrow> string \<Rightarrow> ('s, 'z) client_scheme \<Rightarrow> bool" where
  "resumable c dest w \<longleftrightarrow> (case files w (partial_of dest) of None \<Rightarrow> True | Some p \<Rightarrow> \<exists>n. p = take n c)"

lemma wp_call: "wp (oscall m) Q E w = (if faulty w then E Fault (pop w) else wp m Q E (pop w))"
  by (simp add: wp_def oscall_def)

lemma copy_effect:
  assumes "files w k = Some p"
  shows "wp (copy_with_context k body n)
    (\<lambda>_ w'. sound body \<and> files w' k = Some (p @ stream_bytes body) \<and> (\<forall>q. q \<noteq> k \<longrightarrow> files w' q = files w q))
    (\<lambda>_ w'. (\<exists>j. files w' k = Some (p @ take j (stream_bytes body))) \<and> (\<forall>q. q \<noteq> k \<longrightarrow> files w' q = files w q)) w"
  using assms
proof (induction body arbitrary: n w p)
  case Nil
  then show ?case by (simp add: wp_simps sound_def)
next
  case (Cons r body)
  show ?case
  proof (cases r)
    case Broken
    with Cons.prems show ?thesis by (auto simp: wp_simps)
  next
    case (Data bs)
    let ?w = "(pop w)\<lparr>files := (files w)(k \<mapsto> p @ bs)\<rparr>"
    have "wp (copy_with_context k body (n + int (length bs)))
      (\<lambda>_ w'. sound body \<and> files w' k = Some ((p @ bs) @ stream_bytes body) \<and> (\<forall>q. q \<noteq> k \<longrightarrow> files w' q = files ?w q))
      (\<lambda>_ w'. (\<exists>j. files w' k = Some ((p @ bs) @ take j (stream_bytes body))) \<and> (\<forall>q. q \<noteq> k \<longrightarrow> files w' q = files ?w q)) ?w"
      by (rule Cons.IH) simp
    then have "wp (copy_with_context k body (n + int (length bs)))
      (\<lambda>_ w'. sound (r # body) \<and> files w' k = Some (p @ stream_bytes (r # body)) \<and> (\<forall>q. q \<noteq> k \<longrightarrow> files w' q = files w q))
      (\<lambda>_ w'. (\<exists>j. files w' k = Some (p @ take j (stream_bytes (r # body)))) \<and> (\<forall>q. q \<noteq> k \<longrightarrow> files w' q = files w q)) ?w"
    proof (rule wp_weaken)
      fix w'
      assume "(\<exists>j. files w' k = Some ((p @ bs) @ take j (stream_bytes body))) \<and> (\<forall>q. q \<noteq> k \<longrightarrow> files w' q = files ?w q)"
      then obtain j where "files w' k = Some (p @ (bs @ take j (stream_bytes body)))" "(\<forall>q. q \<noteq> k \<longrightarrow> files w' q = files w q)" by auto
      moreover have "bs @ take j (stream_bytes body) = take (length bs + j) (stream_bytes (r # body))" using Data by simp
      ultimately show "(\<exists>j. files w' k = Some (p @ take j (stream_bytes (r # body)))) \<and> (\<forall>q. q \<noteq> k \<longrightarrow> files w' q = files w q)" by auto
    qed (use Data in \<open>auto simp: sound_def\<close>)
    moreover have "\<exists>j. files w k = Some (p @ take j (stream_bytes (r # body)))"
      using Cons.prems by (intro exI [of _ 0]) simp
    ultimately show ?thesis using Data Cons.prems
      by (auto simp: os_append_def wp_simps wp_call)
  qed
qed

lemma wp_both: "wp m Q E w \<Longrightarrow> wp (result m) (\<lambda>r. case r of Inl e \<Rightarrow> E e | Inr x \<Rightarrow> Q x) E' w"
  by (simp add: wp_result)

lemma wp_then: "wp m P E w \<Longrightarrow> (\<And>x w'. P x w' \<Longrightarrow> wp (f x) Q E w') \<Longrightarrow> wp (bnd m f) Q E w"
  unfolding wp_bnd by (rule wp_weaken)

lemma prefix_more:
  assumes "p = take (nat off) c" and "\<exists>n. s = take n (drop (nat off) c)"
  shows "\<exists>n. p @ take j s = take n c"
proof -
  obtain n where "s = take n (drop (nat off) c)" using assms(2) by blast
  then have "p @ take j s = take (nat off + min j n) c" using assms(1) by (simp add: take_add)
  then show ?thesis by blast
qed

definition intact_or_done :: "string \<Rightarrow> string \<Rightarrow> 's engine \<Rightarrow> (err \<Rightarrow> 's engine \<Rightarrow> bool)" where
  "intact_or_done c dest w = (\<lambda>_ w'. files w' dest = files w dest \<and> resumable c dest w')"

lemma partial_ne [simp]: "partial_of dest \<noteq> dest" "dest \<noteq> partial_of dest"
  by (simp_all add: partial_of_def)

lemma finish_wp:
  fixes v :: "'s engine"
  assumes "resumable c dest v" and "files v dest = files w dest" and "case copyErr of Inl _ \<Rightarrow> True | Inr _ \<Rightarrow> files v (partial_of dest) = Some c"
  shows "wp (finish dest copyErr closeErr) (\<lambda>_ w'. files w' dest = Some c) (intact_or_done c dest w) v"
  using assms
  by (cases copyErr; cases closeErr)
     (auto simp: finish_def wp_simps os_rename_def wp_call touch_def intact_or_done_def resumable_def)

lemma store_wp:
  fixes v w :: "'s engine"
  assumes v: "files v = files w" and w: "resumable c dest w"
    and off: "off = 0 \<or> (\<exists>p. files w (partial_of dest) = Some p \<and> off = int (length p))"
    and s: "\<exists>n. stream_bytes body = take n (drop (nat off) c)" "sound body \<longrightarrow> stream_bytes body = drop (nat off) c"
  shows "wp (store_body dest off body) (\<lambda>_ w'. files w' dest = Some c) (intact_or_done c dest w) v"
proof -
  let ?k = "partial_of dest" and ?p = "take (nat off) c"
  let ?P = "\<lambda>u :: 's engine. files u ?k = Some ?p \<and> (\<forall>q. q \<noteq> ?k \<longrightarrow> files u q = files w q)"
  have "files w ?k = Some ?p" if "0 < off"
    using off that w by (auto simp: resumable_def min_def)
  then have opened: "wp (os_open_write (off > 0) ?k) (\<lambda>_. ?P) (intact_or_done c dest w) v"
    using v off w by (auto simp: os_open_write_def wp_def oscall_def intact_or_done_def resumable_def)
  have copied: "wp (bnd (result (copy_with_context ?k body 0)) (\<lambda>copyErr. bnd (result (oscall (ret ()))) (\<lambda>closeErr. finish dest copyErr closeErr)))
      (\<lambda>_ w'. files w' dest = Some c) (intact_or_done c dest w) u" if u: "?P u" for u
  proof (rule wp_then)
    let ?R = "\<lambda>r (u' :: 's engine). resumable c dest u' \<and> files u' dest = files w dest
        \<and> (case r of Inl _ \<Rightarrow> True | Inr _ \<Rightarrow> files u' ?k = Some c)"
    have "wp (copy_with_context ?k body 0) (\<lambda>x. ?R (Inr x)) (\<lambda>e. ?R (Inl e)) u"
    proof (rule wp_weaken [OF copy_effect])
      show "files u ?k = Some ?p" using u by simp
      fix x :: int and u' :: "'s engine"
      assume "sound body \<and> files u' ?k = Some (?p @ stream_bytes body) \<and> (\<forall>q. q \<noteq> ?k \<longrightarrow> files u' q = files u q)"
      then show "?R (Inr x) u'" using s(2) u by (auto simp: resumable_def intro: exI [of _ "length c"])
    next
      fix e :: err and u' :: "'s engine"
      assume "(\<exists>j. files u' ?k = Some (?p @ take j (stream_bytes body))) \<and> (\<forall>q. q \<noteq> ?k \<longrightarrow> files u' q = files u q)"
      then show "?R (Inl e) u'" using prefix_more [OF refl s(1)] u by (auto simp: resumable_def)
    qed
    then show "wp (result (copy_with_context ?k body 0)) ?R (intact_or_done c dest w) u" by (simp add: wp_result)
    fix r :: "err + int" and u' :: "'s engine"
    assume R: "?R r u'"
    then have "?R r u''" if "files u'' = files u'" for u'' using that by (simp add: resumable_def split: sum.splits)
    then have "wp (finish dest r closeErr) (\<lambda>_ w'. files w' dest = Some c) (intact_or_done c dest w) u''" if "files u'' = files u'"
      for u'' closeErr using that by (intro finish_wp) blast+
    then show "wp (bnd (result (oscall (ret ()))) (finish dest r)) (\<lambda>_ w'. files w' dest = Some c) (intact_or_done c dest w) u'"
      by (auto simp: wp_simps wp_call)
  qed
  show ?thesis unfolding store_body_def by (rule wp_then [OF opened copied])
qed

lemma download_wp:
  fixes h :: "'s engine http" and w :: "'s engine"
  assumes "remote_http h" and "file_server i c h" and "resumable c dest w"
  shows "wp (Download_to h i dest resume) (\<lambda>_ w'. files w' dest = Some c) (intact_or_done c dest w) w"
proof -
  let ?k = "partial_of dest" and ?E = "intact_or_done c dest w"
  let ?off_ok = "\<lambda>off. off = 0 \<or> (\<exists>p. files w ?k = Some p \<and> off = int (length p))"
  have same: "?E e w'" if "files w' = files w" for e w' using that assms(3) by (simp add: intact_or_done_def resumable_def)
  have stat: "wp (result (os_stat ?k)) (\<lambda>info v. files v = files w
      \<and> ?off_ok (if resume then (case info of Inl _ \<Rightarrow> 0 | Inr (n, _, _) \<Rightarrow> n) else 0)) ?E w"
    by (auto simp: os_stat_def wp_def result_def oscall_def split: option.splits)
  have get: "wp (get_file h i off) (\<lambda>ans v. files v = files w \<and> serves c off ans) ?E u" if "files u = files w" for u :: "'s engine" and off
  proof -
    have "remote_only (get_file h i off)" using assms(1) by (simp add: remote_http_def)
    then have "files (snd (get_file h i off u)) = files w" using that by (simp add: remote_only_def)
    moreover have "serves c off ans" if "get_file h i off u = (Inr ans, u')" for ans u'
      using assms(2) that unfolding file_server_def by blast
    ultimately show ?thesis using same by (auto simp: wp_def split: sum.splits prod.splits)
  qed
  show ?thesis
    unfolding Download_to_def Let_def
  proof (rule wp_then [OF stat], rule wp_then [OF get])
    fix info :: "err + int \<times> int \<times> bool" and ans and v u :: "'s engine"
    let ?off = "if resume then (case info of Inl _ \<Rightarrow> 0 | Inr (n, _, _) \<Rightarrow> n) else 0"
    assume v: "files v = files w \<and> ?off_ok ?off"
    then show "files v = files w" by simp
    assume u: "files u = files w \<and> serves c ?off ans"
    obtain code body where ans: "ans = (code, body)" by (cases ans)
    let ?off' = "if code = 200 then 0 else ?off"
    show "wp (case ans of (code, body) \<Rightarrow> bnd (require (200 \<le> code \<and> code \<le> 299) (Msg ''sync API'')) (\<lambda>_.
        bnd (MkdirAll (dir_of dest)) (\<lambda>_. store_body dest (if code = 200 then 0 else ?off) body))) (\<lambda>_ w'. files w' dest = Some c) ?E u"
    proof (cases "200 \<le> code \<and> code \<le> 299")
      case True
      have s: "\<exists>n. stream_bytes body = take n (drop (nat ?off') c)" "sound body \<longrightarrow> stream_bytes body = drop (nat ?off') c"
        using u True unfolding ans by (auto simp: serves_def split: if_splits)
      have ok: "?off_ok ?off'" using v by simp
      have dir: "wp (MkdirAll (dir_of dest)) (\<lambda>_ u'. files u' = files w) ?E u"
        using u same by (auto simp: MkdirAll_def wp_def oscall_def)
      show ?thesis unfolding ans prod.case wp_bnd [of "require _ _"] wp_require if_P [OF True]
        by (rule wp_then [OF dir]) (rule store_wp [OF _ assms(3) ok s])
    next
      case False
      show ?thesis unfolding ans prod.case wp_bnd [of "require _ _"] wp_require if_not_P [OF False]
        using u same by blast
    qed
  qed
qed

text \<open>
  C11: an interrupted download is resumed exactly: as long as the file does not change on
  the server, an attempt that succeeds leaves exactly its content at the target, however
  many attempts were cut off before and wherever; one that fails leaves the target as it
  was and a partial file from which the next can go on.
\<close>

theorem download_exact:
  assumes "remote_http h" and "file_server i c h" and "resumable c dest w" and "Download_to h i dest resume w = (r, w')"
  shows "(case r of Inr _ \<Rightarrow> files w' dest = Some c | Inl _ \<Rightarrow> files w' dest = files w dest \<and> resumable c dest w')"
  using wp_InrD [OF download_wp [OF assms(1-3)]] wp_InlD [OF download_wp [OF assms(1-3)]] assms(4)
  by (cases r) (auto simp: intact_or_done_def)

text \<open>
  A partial file that is complete blocks the file: when an attempt got all bytes but
  ended before the rename, every later attempt asks for the range after the end, is
  refused (416), fails, and leaves the partial file as it is.
\<close>

theorem complete_partial_blocks:
  assumes "remote_http h" and "file_server i c h" and "faults w = []" and "files w (partial_of dest) = Some c" and "c \<noteq> []"
    and "Download_to h i dest True w = (r, w')"
  shows "(\<exists>e. r = Inl e) \<and> files w' = files w"
proof -
  let ?off = "int (length c)"
  have stat: "os_stat (partial_of dest) w = (Inr (?off, mtimes w (partial_of dest), False), w)"
    using assms(3,4) by (simp add: os_stat_def oscall_def)
  have only: "files (snd (get_file h i ?off w)) = files w"
    using assms(1) by (simp add: remote_http_def remote_only_def)
  have refused: "fst ans = 416" if "get_file h i ?off w = (Inr ans, v)" for ans v
  proof -
    have "serves c ?off ans" using assms(2) that unfolding file_server_def by blast
    with assms(5) show ?thesis by (simp add: serves_def)
  qed
  show ?thesis
  proof (cases "get_file h i ?off w")
    case (Pair g v)
    with only have v: "files v = files w" by simp
    show ?thesis
    proof (cases g)
      case (Inl e)
      with Pair v assms(6) show ?thesis by (auto simp: Download_to_def bnd_def result_def stat Let_def)
    next
      case (Inr ans)
      with Pair refused have "fst ans = 416" by blast
      with Inr Pair v assms(6) show ?thesis
        by (cases ans) (auto simp: Download_to_def bnd_def result_def stat Let_def require_def fail_def)
    qed
  qed
qed

definition serve_content :: "string \<Rightarrow> int \<Rightarrow> nat \<times> rd list" where
  "serve_content c off =
     (if off \<le> 0 then (200, [Data c]) else if off < int (length c) then (206, [Data (drop (nat off) c)]) else (416, []))"

definition static_http :: "string \<Rightarrow> 's engine http" where
  "static_http c = \<lparr>get_snapshot = ret (0, []), get_changes = \<lambda>c n. ret (c, c, [], False),
     get_file = \<lambda>i off. ret (serve_content c off), post_trash = \<lambda>i. ret (), post_upload = \<lambda>p q m. fail Fault\<rparr>"

lemma static_remote: "remote_http (static_http c)"
  by (simp add: remote_http_def static_http_def remote_only_def ret_def fail_def)

lemma static_serves: "file_server i c (static_http c)"
proof -
  have "\<exists>n. drop (nat off) c = take n (drop (nat off) c)" "\<exists>n. c = take n c" for off
    by (rule exI [of _ "length c"], simp)+
  then show ?thesis
    by (auto simp: file_server_def static_http_def ret_def serves_def serve_content_def sound_def split: if_splits)
qed

definition half :: "string \<Rightarrow> unit engine" where
  "half p = home\<lparr>files := (files home)(''/home/u/sync/n.txt.partial'' \<mapsto> p)\<rparr>"

theorem download_exact_witness:
  "\<exists>w'. Download_to (static_http ''content'') ''n'' ''/home/u/sync/n.txt'' True (half ''con'') = (Inr (), w')
     \<and> files w' ''/home/u/sync/n.txt'' = Some ''content''"
proof -
  have "''con'' = take 3 ''content''" by simp
  then have part: "resumable ''content'' ''/home/u/sync/n.txt'' (half ''con'')"
    by (auto simp: resumable_def partial_of_def half_def intro: exI [of _ 3])
  have "fst (Download_to (static_http ''content'') ''n'' ''/home/u/sync/n.txt'' True (half ''con'')) = Inr ()" by code_simp
  then obtain w' where run: "Download_to (static_http ''content'') ''n'' ''/home/u/sync/n.txt'' True (half ''con'') = (Inr (), w')"
    by (metis prod.collapse)
  with download_exact [OF static_remote static_serves part run] show ?thesis by simp
qed

theorem complete_partial_blocks_witness:
  "\<exists>e w'. Download_to (static_http ''content'') ''n'' ''/home/u/sync/n.txt'' True (half ''content'') = (Inl e, w')
     \<and> files w' ''/home/u/sync/n.txt'' = None"
proof -
  obtain r w' where run: "Download_to (static_http ''content'') ''n'' ''/home/u/sync/n.txt'' True (half ''content'') = (r, w')"
    by (cases "Download_to (static_http ''content'') ''n'' ''/home/u/sync/n.txt'' True (half ''content'')")
  have "faults (half ''content'') = []" "files (half ''content'') (partial_of ''/home/u/sync/n.txt'') = Some ''content''"
    "files (half ''content'') ''/home/u/sync/n.txt'' = None"
    by (simp_all add: half_def home_def partial_of_def)
  with complete_partial_blocks [OF static_remote static_serves this(1,2) _ run] run show ?thesis by auto
qed

text \<open>
  A file that changes between two attempts is mixed up: the range request carries no
  condition on the version, so the beginning of the old content and the end of the new
  one are put together, and reported as downloaded.
\<close>

theorem changed_file_mixed:
  "fst (Download_to (static_http ''newnewnew'') ''n'' ''/home/u/sync/n.txt'' True (half ''old'')) = Inr ()
 \<and> files (snd (Download_to (static_http ''newnewnew'') ''n'' ''/home/u/sync/n.txt'' True (half ''old''))) ''/home/u/sync/n.txt''
     = Some ''oldnewnew''"
  by (intro conjI; code_simp)

end
