(* ===== verification/Drives.thy ===== *)
theory Drives
  imports Blobs
begin

text \<open>
  \<open>internal/drives/service.go\<close>: the drives of a user, shared drives and their members.
\<close>

section \<open>Drives\<close>

text \<open>A drive with the caller's role in it.\<close>

type_synonym drive_view = "drive_row \<times> string"

definition drive_le :: "world \<Rightarrow> drive_view \<Rightarrow> drive_view \<Rightarrow> bool" where
  "drive_le w a b \<longleftrightarrow>
     (if d_kind (fst a) \<noteq> d_kind (fst b) then d_kind (fst a) = Shared
      else sql_le w (sql_lower w (d_name (fst a))) (sql_lower w (d_name (fst b))))"

definition my_drives :: "uuid \<Rightarrow> database \<Rightarrow> drive_view list" where
  "my_drives user d = concat (map (\<lambda>r.
     map (\<lambda>m. (r, m_role m)) (filter (\<lambda>m. m_drive m = d_id r \<and> m_user m = user) (members d)))
     (filter (\<lambda>r. d_kind r = Shared \<or> d_owner r = user) (drives d)))"

definition drives_List :: "uuid \<Rightarrow> drive_view list srv" where
  "drives_List user = db_stmt (look (\<lambda>w. sort_by (drive_le w) (my_drives user (db w))))"

definition PersonalDriveID :: "uuid \<Rightarrow> uuid srv" where
  "PersonalDriveID user = db_stmt (row (\<lambda>d. map_option d_id (find (\<lambda>r. d_owner r = user \<and> d_kind r = Personal) (drives d))))"

definition insert_drive :: "drive_row \<Rightarrow> world \<Rightarrow> (unit \<times> world) option" where
  "insert_drive r w =
     (if user_of (db w) (d_owner r) \<noteq> None \<and> text_ok (d_name r)
       \<and> \<not> (d_kind r = Personal \<and> (\<exists>x \<in> set (drives (db w)). d_kind x = Personal \<and> d_owner x = d_owner r))
      then Some ((), w\<lparr>db := (db w)\<lparr>drives := drives (db w) @ [r]\<rparr>\<rparr>) else None)"

definition member_roles :: "string list" where
  "member_roles = [''viewer'', ''commenter'', ''contributor'', ''content_manager'', ''manager'']"

text \<open>\<open>insert into drive_members ... on conflict do update set role\<close>; without the clause a conflict is refused.\<close>

definition put_member :: "bool \<Rightarrow> member_row \<Rightarrow> world \<Rightarrow> (unit \<times> world) option" where
  "put_member upsert m w =
     (let same = (\<lambda>x. m_drive x = m_drive m \<and> m_user x = m_user m); ms = members (db w) in
      if drive_of (db w) (m_drive m) = None \<or> user_of (db w) (m_user m) = None \<or> m_role m \<notin> set member_roles then None
      else if \<exists>x \<in> set ms. same x then
        (if upsert then Some ((), w\<lparr>db := (db w)\<lparr>members := map (\<lambda>x. if same x then x\<lparr>m_role := m_role m\<rparr> else x) ms\<rparr>\<rparr>) else None)
      else Some ((), w\<lparr>db := (db w)\<lparr>members := ms @ [m]\<rparr>\<rparr>))"

definition CreateShared :: "uuid \<Rightarrow> string \<Rightarrow> drive_view srv" where
  "CreateShared owner rawName =
     (let name = trim_space rawName in
      bnd (require (name \<noteq> []) (Msg ''name is required'')) (\<lambda>_.
      with_tx (
        bnd new_uuid (\<lambda>driveID. bnd new_uuid (\<lambda>rootID.
        bnd (getw clock) (\<lambda>now.
        let r = \<lparr>d_id = driveID, d_kind = Shared, d_name = name, d_owner = owner, d_root = None, d_created = now\<rparr> in
        bnd (tx_stmt (checked (insert_drive r))) (\<lambda>_.
        bnd (tx_stmt (\<lambda>w. try_upd (insert_entry (sql_lower w)
          (entry_row rootID owner (Some driveID) None name Folder (DriveKey driveID) 0 ''inode/directory'' now)) w)) (\<lambda>_.
        bnd (tx_stmt (upd (\<lambda>d. d\<lparr>drives := map (\<lambda>x. if d_id x = driveID then x\<lparr>d_root := Some rootID\<rparr> else x) (drives d)\<rparr>))) (\<lambda>_.
        bnd (tx_stmt (checked (put_member False \<lparr>m_drive = driveID, m_user = owner, m_role = ''manager'', m_created = now\<rparr>))) (\<lambda>_.
        ret (r\<lparr>d_root := Some rootID\<rparr>, ''manager'')))))))))))"

text \<open>\<open>ok, err := CanDrive(...); if err != nil ...; if !ok \{ forbidden \}\<close>.\<close>

definition RequireDrive :: "uuid \<Rightarrow> string \<Rightarrow> uuid \<Rightarrow> action \<Rightarrow> unit srv" where
  "RequireDrive user role drive act = bnd (CanDrive user role drive act) (\<lambda>ok. require ok (Msg ''forbidden''))"

definition drives_Get :: "uuid \<Rightarrow> string \<Rightarrow> uuid \<Rightarrow> drive_view srv" where
  "drives_Get user userRole drive =
     bnd (RequireDrive user userRole drive ActionView) (\<lambda>_.
     db_stmt (row (\<lambda>d. map_option (\<lambda>r. (r, case member_of d drive user of None \<Rightarrow> [] | Some m \<Rightarrow> m_role m)) (drive_of d drive))))"

definition drives_Rename :: "uuid \<Rightarrow> string \<Rightarrow> uuid \<Rightarrow> string \<Rightarrow> unit srv" where
  "drives_Rename user userRole drive rawName =
     bnd (RequireDrive user userRole drive ActionAdminDrive) (\<lambda>_.
     let name = trim_space rawName in
     bnd (require (name \<noteq> []) (Msg ''name is required'')) (\<lambda>_.
     db_stmt (try_upd (\<lambda>d.
       if \<not> text_ok name then None
       else Some (d\<lparr>drives := map (\<lambda>r. if d_id r = drive \<and> d_kind r = Shared then r\<lparr>d_name := name\<rparr> else r) (drives d)\<rparr>)))))"

definition drives_Delete :: "uuid \<Rightarrow> string \<Rightarrow> uuid \<Rightarrow> unit srv" where
  "drives_Delete user userRole drive =
     bnd (RequireDrive user userRole drive ActionAdminDrive) (\<lambda>_.
     bnd (db_stmt (row (\<lambda>d. map_option d_kind (drive_of d drive)))) (\<lambda>k.
     bnd (require (k = Shared) (Msg ''cannot delete personal drive'')) (\<lambda>_.
     db_stmt (upd (delete_drive drive)))))"

section \<open>Members\<close>

text \<open>The join of the members with their users, ordered by address.\<close>

definition member_list :: "uuid \<Rightarrow> world \<Rightarrow> (user_row \<times> member_row) list" where
  "member_list drive w = sort_by (\<lambda>a b. sql_le w (sql_lower w (u_email (fst a))) (sql_lower w (u_email (fst b))))
     (concat (map (\<lambda>m. case user_of (db w) (m_user m) of None \<Rightarrow> [] | Some u \<Rightarrow> [(u, m)])
        (filter (\<lambda>m. m_drive m = drive) (members (db w)))))"

definition ListMembers :: "uuid \<Rightarrow> string \<Rightarrow> uuid \<Rightarrow> (user_row \<times> member_row) list srv" where
  "ListMembers user userRole drive =
     bnd (RequireDrive user userRole drive ActionView) (\<lambda>_. db_stmt (look (member_list drive)))"

text \<open>
  The user meant by an address or a display name: an address comes first, then any user
  with the display name.
\<close>

definition user_meant :: "(string \<Rightarrow> string) \<Rightarrow> string \<Rightarrow> user_row list \<Rightarrow> user_row option" where
  "user_meant low q us =
     (case find (\<lambda>u. low (u_email u) = q) us of
        Some u \<Rightarrow> Some u
      | None \<Rightarrow> find (\<lambda>u. low (u_name u) = q) us)"

definition insert_notification :: "uuid \<Rightarrow> string \<Rightarrow> string \<Rightarrow> string \<Rightarrow> uuid option \<Rightarrow> uuid option \<Rightarrow> unit stmt" where
  "insert_notification user kind title body entry drive = checked (\<lambda>w.
     if user_of (db w) user = None \<or> \<not> text_ok body then None
     else Some ((), w\<lparr>fresh := Suc (fresh w), db := (db w)\<lparr>notifications := notifications (db w) @
       [\<lparr>n_id = fresh w, n_user = user, n_kind = kind, n_title = title, n_body = body, n_entry = entry, n_drive = drive,
         n_read = None, n_created = clock w\<rparr>]\<rparr>\<rparr>))"

definition AddMember :: "uuid \<Rightarrow> string \<Rightarrow> uuid \<Rightarrow> string \<Rightarrow> string \<Rightarrow> unit srv" where
  "AddMember actor actorRole drive email rawRole =
     bnd (RequireDrive actor actorRole drive ActionAdminDrive) (\<lambda>_.
     let role = normalizeDriveRole rawRole in
     bnd (require (role \<noteq> []) (Msg ''invalid role'')) (\<lambda>_.
     let q = to_lower (trim_space email) in
     bnd (map_err (no_rows (Msg ''user not found'')) (db_stmt (ask_row (\<lambda>w.
       map_option u_id (user_meant (sql_lower w) q (users (db w))))))) (\<lambda>user.
     bnd (db_stmt (checked (\<lambda>w. put_member True \<lparr>m_drive = drive, m_user = user, m_role = role, m_created = clock w\<rparr> w))) (\<lambda>_.
     ignore (db_stmt (insert_notification user ''drive_invite'' ''Ortak alana eklendiniz''
       ''Bir ortak alana uye olarak eklendiniz.'' None (Some drive)))))))"

definition RemoveMember :: "uuid \<Rightarrow> string \<Rightarrow> uuid \<Rightarrow> uuid \<Rightarrow> unit srv" where
  "RemoveMember actor actorRole drive member =
     bnd (RequireDrive actor actorRole drive ActionAdminDrive) (\<lambda>_.
     bnd (result (db_stmt (row (\<lambda>d. map_option d_owner (drive_of d drive))))) (\<lambda>owner.
     bnd (require (owner \<noteq> Inr member) (Msg ''cannot remove drive owner'')) (\<lambda>_.
     db_stmt (upd (\<lambda>d. d\<lparr>members := filter (\<lambda>m. \<not> (m_drive m = drive \<and> m_user m = member)) (members d)\<rparr>)))))"

section \<open>Who may administer a drive\<close>

definition drive_admin :: "database \<Rightarrow> uuid \<Rightarrow> string \<Rightarrow> uuid \<Rightarrow> bool" where
  "drive_admin d user role drive \<longleftrightarrow> role = ''admin'' \<or> (\<exists>r \<in> set (drives d). d_id r = drive \<and> d_owner r = user)
     \<or> (\<exists>m \<in> set (members d). m_drive m = drive \<and> m_user m = user \<and> m_role m \<in> {''manager'', ''owner''})"

lemma roleLevel_admin: "5 \<le> roleLevel r \<Longrightarrow> r = ''manager'' \<or> r = ''owner''"
  by (simp add: roleLevel_def split: if_splits)

lemma RequireDrive_wp:
  "wp (RequireDrive user role drive ActionAdminDrive)
     (\<lambda>_ w'. drive_admin (db w) user role drive \<and> used_faults w w') (\<lambda>_ w'. used_faults w w') w"
proof (cases "role = ''admin''")
  case True
  then show ?thesis by (simp add: RequireDrive_def CanDrive_def drive_admin_def wp_simps)
next
  case False
  have "drive_admin (db w) user role drive"
    if r: "drive_of (db w) drive = Some r" and
      l: "5 \<le> (let level = (if d_owner r = user then roleLevel ''owner'' else 0);
              level = (if memberRole \<noteq> [] then max level (roleLevel memberRole) else level);
              level = (if d_kind r = Personal \<and> d_owner r = user then roleLevel ''owner'' else level) in level)"
      and m: "memberRole = (case member_of (db w) drive user of None \<Rightarrow> [] | Some m \<Rightarrow> m_role m)" for r memberRole
  proof (cases "d_owner r = user")
    case True
    with r show ?thesis by (auto simp: drive_admin_def drive_of_def dest!: find_set)
  next
    case False
    with l have five: "5 \<le> roleLevel memberRole" by (simp add: Let_def split: if_splits)
    then have adm: "memberRole = ''manager'' \<or> memberRole = ''owner''" by (rule roleLevel_admin)
    then obtain x where "member_of (db w) drive user = Some x" "m_role x = memberRole"
      using m by (auto split: option.splits)
    with adm show ?thesis by (auto simp: drive_admin_def member_of_def dest!: find_set)
  qed
  with False show ?thesis
    by (auto simp: RequireDrive_def CanDrive_def wp_simps row_def Let_def split: option.splits)
qed

lemma denied:
  assumes "\<not> drive_admin (db w) user role drive"
  shows "wp (bnd (RequireDrive user role drive ActionAdminDrive) f) (\<lambda>_ _. False) (\<lambda>_ w'. db w' = db w) w"
  unfolding wp_bnd
  by (rule wp_weaken [OF RequireDrive_wp]) (use assms in \<open>auto simp: used_faults_def\<close>)

text \<open>
  C16: only an administrator of a drive changes it: a caller who is neither an
  administrator of the site, nor the owner of the drive, nor a member in the role
  \<open>manager\<close> cannot rename or delete it, add a member or remove one: every such call
  returns an error and changes nothing, whatever fails.
\<close>

theorem drive_admin_only:
  assumes "\<not> drive_admin (db w) user role drive"
  shows "(\<exists>e. fst (drives_Rename user role drive name w) = Inl e) \<and> db (snd (drives_Rename user role drive name w)) = db w
    \<and> (\<exists>e. fst (drives_Delete user role drive w) = Inl e) \<and> db (snd (drives_Delete user role drive w)) = db w
    \<and> (\<exists>e. fst (AddMember user role drive email newRole w) = Inl e) \<and> db (snd (AddMember user role drive email newRole w)) = db w
    \<and> (\<exists>e. fst (RemoveMember user role drive member w) = Inl e) \<and> db (snd (RemoveMember user role drive member w)) = db w"
proof -
  have "(\<exists>e. fst (m w) = Inl e) \<and> db (snd (m w)) = db w"
    if "m = bnd (RequireDrive user role drive ActionAdminDrive) f" for m :: "unit srv" and f
  proof (cases "m w")
    case (Pair r w')
    note d = denied [OF assms, of f, folded that]
    show ?thesis using Pair wp_InrD [OF d] wp_InlD [OF d] by (cases r) auto
  qed
  from this [OF drives_Rename_def] this [OF drives_Delete_def] this [OF AddMember_def] this [OF RemoveMember_def]
  show ?thesis by blast
qed

section \<open>A new shared drive\<close>

lemma CreateShared_wp:
  "wp (CreateShared owner name)
    (\<lambda>(r, role) w'. r = \<lparr>d_id = fresh w, d_kind = Shared, d_name = trim_space name, d_owner = owner, d_root = Some (Suc (fresh w)),
           d_created = clock w\<rparr>
       \<and> drives (db w') = map (\<lambda>x. if d_id x = fresh w then x\<lparr>d_root := Some (Suc (fresh w))\<rparr> else x) (drives (db w)) @ [r]
       \<and> members (db w') = members (db w) @ [\<lparr>m_drive = fresh w, m_user = owner, m_role = ''manager'', m_created = clock w\<rparr>]
       \<and> entries (db w') = entries (db w) @ [entry_row (Suc (fresh w)) owner (Some (fresh w)) None (trim_space name) Folder
           (DriveKey (fresh w)) 0 ''inode/directory'' (clock w)]
       \<and> names_ok (sql_lower w) (entries (db w')))
    (\<lambda>_ w'. db w' = db w) w"
  by (auto simp: CreateShared_def Let_def wp_simps checked_def insert_drive_def try_upd_def insert_entry_def put_member_def
      split: option.splits)

text \<open>
  C17: a shared drive comes into being whole: a call that succeeds adds one drive, one
  root folder in it and one member, the owner as its manager; a call that fails, at
  whatever statement, adds nothing.
\<close>

theorem shared_drive_whole:
  assumes "CreateShared owner name w = (res, w')"
  shows "case res of
      Inl _ \<Rightarrow> db w' = db w
    | Inr (r, role) \<Rightarrow> role = ''manager'' \<and> d_owner r = owner \<and> d_kind r = Shared \<and> d_root r \<noteq> None
        \<and> length (drives (db w')) = Suc (length (drives (db w))) \<and> last (drives (db w')) = r
        \<and> members (db w') = members (db w) @ [\<lparr>m_drive = d_id r, m_user = owner, m_role = ''manager'', m_created = clock w\<rparr>]
        \<and> (\<exists>f. entries (db w') = entries (db w) @ [f] \<and> d_root r = Some (fe_id f) \<and> fe_drive f = Some (d_id r)
              \<and> fe_kind f = Folder \<and> fe_parent f = None)"
proof (cases res)
  case (Inl e)
  with wp_InlD [OF CreateShared_wp assms [unfolded Inl]] show ?thesis by simp
next
  case (Inr p)
  obtain r role where p: "p = (r, role)" by (cases p)
  have "role = ''manager''"
    using assms unfolding Inr p
    by (auto simp: CreateShared_def Let_def bnd_def ret_def with_tx_def require_def fail_def split: if_splits prod.splits sum.splits)
  with wp_InrD [OF CreateShared_wp assms [unfolded Inr]] show ?thesis
    by (auto simp: Inr p entry_row_def)
qed

end
