(* ===== verification/Collab.thy ===== *)
theory Collab
  imports Drives Files
begin

text \<open>
  \<open>internal/collab/service.go\<close>: sharing with users, stars, recent entries, search,
  comments, versions, activities and notifications. The Turkish texts of messages are
  given in English or without diacritics.
\<close>

section \<open>Permissions\<close>

definition acl_roles_allowed :: "string list" where
  "acl_roles_allowed = [''viewer'', ''commenter'', ''editor'']"

text \<open>\<open>insert into file_permissions ... on conflict do update set role ... returning\<close>.\<close>

definition put_permission :: "uuid \<Rightarrow> uuid \<Rightarrow> string \<Rightarrow> world \<Rightarrow> (perm_row \<times> world) option" where
  "put_permission entry grantee role w =
     (let same = (\<lambda>p. p_entry p = entry \<and> p_grantee p = grantee); ps = perms (db w) in
      if entry_of (db w) entry = None \<or> user_of (db w) grantee = None \<or> role \<notin> set acl_roles_allowed then None
      else (case find same ps of
          Some p \<Rightarrow> Some (p\<lparr>p_role := role\<rparr>, w\<lparr>db := (db w)\<lparr>perms := map (\<lambda>p. if same p then p\<lparr>p_role := role\<rparr> else p) ps\<rparr>\<rparr>)
        | None \<Rightarrow> let p = \<lparr>p_id = fresh w, p_entry = entry, p_grantee = grantee, p_role = role, p_created = clock w\<rparr>
                   in Some (p, w\<lparr>fresh := Suc (fresh w), db := (db w)\<lparr>perms := ps @ [p]\<rparr>\<rparr>)))"

definition insert_activity :: "uuid \<Rightarrow> uuid \<Rightarrow> string \<Rightarrow> uuid option \<Rightarrow> string \<Rightarrow> unit stmt" where
  "insert_activity user actor kind entry msg = checked (\<lambda>w.
     if user_of (db w) user = None \<or> user_of (db w) actor = None then None
     else Some ((), w\<lparr>fresh := Suc (fresh w), db := (db w)\<lparr>activities := activities (db w) @
       [\<lparr>a_id = fresh w, a_user = user, a_actor = actor, a_kind = kind, a_entry = entry, a_drive = None, a_message = msg,
         a_created = clock w\<rparr>]\<rparr>\<rparr>))"

definition Grant :: "uuid \<Rightarrow> string \<Rightarrow> uuid \<Rightarrow> string \<Rightarrow> string \<Rightarrow> (perm_row \<times> user_row) srv" where
  "Grant actor actorRole entry email rawRole =
     bnd (Require actor actorRole entry ActionManage) (\<lambda>_.
     let role = normalizeACL rawRole in
     bnd (require (role \<noteq> []) (Msg ''invalid role'')) (\<lambda>_.
     let q = to_lower (trim_space email) in
     bnd (require (q \<noteq> []) (Msg ''address or display name required'')) (\<lambda>_.
     bnd (map_err (no_rows (Msg ''user not found'')) (db_stmt (ask_row (\<lambda>w. user_meant (sql_lower w) q (users (db w)))))) (\<lambda>grantee.
     bnd (require (u_id grantee \<noteq> actor) (Msg ''cannot share with yourself'')) (\<lambda>_.
     bnd (db_stmt (checked (put_permission entry (u_id grantee) role))) (\<lambda>p.
     bnd (ignore (db_stmt (insert_notification (u_id grantee) ''share'' ''Dosya paylasildi''
       ''Sizinle bir dosya/klasor paylasildi.'' (Some entry) None))) (\<lambda>_.
     bnd (ignore (db_stmt (insert_activity (u_id grantee) actor ''share'' (Some entry) ''Sizinle paylasildi''))) (\<lambda>_.
     ret (p, grantee)))))))))"

definition Revoke :: "uuid \<Rightarrow> string \<Rightarrow> uuid \<Rightarrow> uuid \<Rightarrow> unit srv" where
  "Revoke actor actorRole entry grantee =
     bnd (Require actor actorRole entry ActionManage) (\<lambda>_.
     db_stmt (upd (\<lambda>d. d\<lparr>perms := filter (\<lambda>p. \<not> (p_entry p = entry \<and> p_grantee p = grantee)) (perms d)\<rparr>)))"

definition ListPermissions :: "uuid \<Rightarrow> string \<Rightarrow> uuid \<Rightarrow> (perm_row \<times> user_row) list srv" where
  "ListPermissions actor actorRole entry =
     bnd (Require actor actorRole entry ActionView) (\<lambda>_.
     db_stmt (look (\<lambda>w. sort_by (\<lambda>a b. sql_le w (sql_lower w (u_email (snd a))) (sql_lower w (u_email (snd b))))
       (concat (map (\<lambda>p. case user_of (db w) (p_grantee p) of None \<Rightarrow> [] | Some u \<Rightarrow> [(p, u)])
         (filter (\<lambda>p. p_entry p = entry) (perms (db w))))))))"

text \<open>Entries of a join, newest first by a column.\<close>

definition newest_first :: "(file_entry \<Rightarrow> int) \<Rightarrow> file_entry list \<Rightarrow> file_entry list" where
  "newest_first col es = rev (sort_key col es)"

definition SharedWithMe :: "uuid \<Rightarrow> file_entry list srv" where
  "SharedWithMe user = db_stmt (sel (\<lambda>d. newest_first fe_updated (remdups
     (concat (map (\<lambda>p. filter (\<lambda>f. fe_id f = p_entry p \<and> live f) (entries d))
        (filter (\<lambda>p. p_grantee p = user) (perms d)))))))"

section \<open>Stars, recent entries, search\<close>

definition SetStar :: "uuid \<Rightarrow> string \<Rightarrow> uuid \<Rightarrow> bool \<Rightarrow> unit srv" where
  "SetStar user userRole entry starred =
     bnd (Require user userRole entry ActionView) (\<lambda>_.
     if starred then db_stmt (checked (\<lambda>w.
         if user_of (db w) user = None \<or> entry_of (db w) entry = None then None
         else if \<exists>x \<in> set (stars (db w)). st_user x = user \<and> st_entry x = entry then Some ((), w)
         else Some ((), w\<lparr>db := (db w)\<lparr>stars := stars (db w) @ [\<lparr>st_user = user, st_entry = entry, st_created = clock w\<rparr>]\<rparr>\<rparr>)))
     else db_stmt (upd (\<lambda>d. d\<lparr>stars := filter (\<lambda>x. \<not> (st_user x = user \<and> st_entry x = entry)) (stars d)\<rparr>)))"

definition ListStarred :: "uuid \<Rightarrow> file_entry list srv" where
  "ListStarred user = db_stmt (sel (\<lambda>d. concat (map (\<lambda>x. filter (\<lambda>f. fe_id f = st_entry x \<and> live f) (entries d))
     (rev (sort_key st_created (filter (\<lambda>x. st_user x = user) (stars d)))))))"

definition TouchOpened :: "uuid \<Rightarrow> unit srv" where
  "TouchOpened entry = ignore (db_stmt (\<lambda>w. upd (update_entry entry (\<lambda>f. f\<lparr>fe_opened := Some (clock w)\<rparr>)) w))"

text \<open>
  What the lists of a user may show: own entries, those of a drive of the user, those
  shared on the entry or above it. The recursive query does not end on a cycle.
\<close>

definition granted_above :: "database \<Rightarrow> uuid \<Rightarrow> file_entry \<Rightarrow> err + bool" where
  "granted_above d user f = (case ancestors (\<lambda>_. True) (entries d) (fe_id f) of
      None \<Rightarrow> Inl Diverges
    | Some chain \<Rightarrow> Inr (\<exists>c \<in> set chain. \<exists>p \<in> set (perms d). p_entry p = fe_id c \<and> p_grantee p = user))"

definition listed_for :: "database \<Rightarrow> uuid \<Rightarrow> file_entry \<Rightarrow> err + bool" where
  "listed_for d user f =
     (if fe_user f = user \<or> (\<exists>m \<in> set (members d). m_user m = user \<and> Some (m_drive m) = fe_drive f) then Inr True
      else granted_above d user f)"

fun keep_if :: "('a \<Rightarrow> err + bool) \<Rightarrow> 'a list \<Rightarrow> err + 'a list" where
  "keep_if P [] = Inr []"
| "keep_if P (x # xs) = (case P x of Inl e \<Rightarrow> Inl e | Inr b \<Rightarrow>
     (case keep_if P xs of Inl e \<Rightarrow> Inl e | Inr ys \<Rightarrow> Inr (if b then x # ys else ys)))"

definition ListRecent :: "uuid \<Rightarrow> file_entry list srv" where
  "ListRecent user = db_stmt (query (\<lambda>d.
     map_sum id (\<lambda>es. take 50 (newest_first (\<lambda>f. the (fe_opened f)) es))
       (keep_if (listed_for d user) (filter (\<lambda>f. live f \<and> fe_kind f = File \<and> fe_opened f \<noteq> None) (entries d)))))"

text \<open>\<open>like\<close>: a percent sign for anything, an underscore for one rune, a backslash before a literal.\<close>

function like :: "string \<Rightarrow> string \<Rightarrow> bool" where
  "like [] s \<longleftrightarrow> s = []"
| "like (p # ps) s \<longleftrightarrow>
     (if p = CHR 0x25 then like ps s \<or> (if s = [] then False else like (p # ps) (tl s))
      else if p = CHR 0x5F then s \<noteq> [] \<and> like ps (drop (max 1 (rune_width s)) s)
      else if p = CHR 0x5C then (case ps of [] \<Rightarrow> False | q # qs \<Rightarrow> s \<noteq> [] \<and> hd s = q \<and> like qs (tl s))
      else s \<noteq> [] \<and> hd s = p \<and> like ps (tl s))"
  by pat_completeness auto
termination
  by (relation "measure (\<lambda>(p, s). length p + length s)") auto

declare like.simps [simp del]

definition Search :: "uuid \<Rightarrow> string \<Rightarrow> string \<Rightarrow> file_entry list srv" where
  "Search user userRole rawQuery =
     (let q = trim_space rawQuery; pat = [CHR 0x25] @ to_lower q @ [CHR 0x25] in
      bnd (require (1 \<le> length q) (Msg ''query required'')) (\<lambda>_.
      db_stmt (ask (\<lambda>w.
        let hits = filter (\<lambda>f. live f \<and> like pat (sql_lower w (fe_name f))) (entries (db w)) in
        map_sum id (\<lambda>es. take 100 (sort_by (\<lambda>a b. sql_le w (sql_lower w (fe_name a)) (sql_lower w (fe_name b))) es))
          (if userRole = ''admin'' then Inr hits else keep_if (listed_for (db w) user) hits)))))"

section \<open>Comments\<close>

definition AddComment :: "user_row \<Rightarrow> uuid \<Rightarrow> string \<Rightarrow> comment_row srv" where
  "AddComment user entry rawBody =
     bnd (Require (u_id user) (u_role user) entry ActionComment) (\<lambda>_.
     let body = trim_space rawBody in
     bnd (require (body \<noteq> []) (Msg ''comment required'')) (\<lambda>_.
     bnd (db_stmt (checked (\<lambda>w.
       if entry_of (db w) entry = None \<or> user_of (db w) (u_id user) = None \<or> \<not> text_ok body then None
       else let c = \<lparr>cm_id = fresh w, cm_entry = entry, cm_user = u_id user, cm_body = body, cm_created = clock w\<rparr>
            in Some (c, w\<lparr>fresh := Suc (fresh w), db := (db w)\<lparr>comments := comments (db w) @ [c]\<rparr>\<rparr>)))) (\<lambda>c.
     bnd (result (db_stmt (row (\<lambda>d. map_option fe_user (entry_of d entry))))) (\<lambda>owner.
     bnd (case owner of Inl _ \<Rightarrow> ret () | Inr o' \<Rightarrow>
       if o' \<noteq> u_id user then ignore (db_stmt (insert_notification o' ''comment'' ''Yeni yorum''
         (u_name user @ '': '' @ body) (Some entry) None)) else ret ()) (\<lambda>_.
     ret c)))))"

definition ListComments :: "uuid \<Rightarrow> string \<Rightarrow> uuid \<Rightarrow> (comment_row \<times> user_row) list srv" where
  "ListComments user userRole entry =
     bnd (Require user userRole entry ActionView) (\<lambda>_.
     db_stmt (sel (\<lambda>d. concat (map (\<lambda>c. case user_of d (cm_user c) of None \<Rightarrow> [] | Some u \<Rightarrow> [(c, u)])
       (sort_key cm_created (filter (\<lambda>c. cm_entry c = entry) (comments d)))))))"

section \<open>Versions\<close>

definition SnapshotVersion :: "file_entry \<Rightarrow> uuid option \<Rightarrow> unit srv" where
  "SnapshotVersion f actor =
     (if fe_kind f \<noteq> File \<or> fe_key f = NoKey then ret ()
      else
        bnd (db_stmt (checked (\<lambda>w.
          if entry_of (db w) (fe_id f) = None then None
          else if \<exists>v \<in> set (versions (db w)). v_entry v = fe_id f \<and> v_version v = fe_version f then Some ((), w)
          else Some ((), w\<lparr>fresh := Suc (fresh w), db := (db w)\<lparr>versions := versions (db w) @
            [\<lparr>v_id = fresh w, v_entry = fe_id f, v_version = fe_version f, v_key = fe_key f, v_size = fe_size f,
              v_mime = fe_mime f, v_hash = fe_hash f, v_by = actor, v_created = clock w\<rparr>]\<rparr>\<rparr>)))) (\<lambda>_.
        PruneVersions (fe_id f) 20))"

definition ListVersions :: "uuid \<Rightarrow> string \<Rightarrow> uuid \<Rightarrow> version_row list srv" where
  "ListVersions user userRole entry =
     bnd (Require user userRole entry ActionView) (\<lambda>_.
     db_stmt (sel (\<lambda>d. rev (sort_key v_version (filter (\<lambda>v. v_entry v = entry) (versions d))))))"

text \<open>The columns a restored version sets.\<close>

definition restored :: "version_row \<Rightarrow> int \<Rightarrow> file_entry \<Rightarrow> file_entry" where
  "restored v now f = f\<lparr>fe_key := v_key v, fe_size := v_size v, fe_mime := v_mime v, fe_hash := v_hash v,
     fe_version := fe_version f + 1, fe_updated := now\<rparr>"

definition RestoreVersion :: "uuid \<Rightarrow> string \<Rightarrow> uuid \<Rightarrow> uuid \<Rightarrow> unit srv" where
  "RestoreVersion user userRole entry version =
     bnd (Require user userRole entry ActionEdit) (\<lambda>_.
     bnd (db_stmt (row (\<lambda>d. find (\<lambda>v. v_id v = version \<and> v_entry v = entry) (versions d)))) (\<lambda>v.
     bnd (db_stmt (row (\<lambda>d. entry_of d entry))) (\<lambda>cur.
     bnd (ignore (SnapshotVersion cur (Some user))) (\<lambda>_.
     db_stmt (\<lambda>w. upd (update_entry entry (restored v (clock w))) w)))))"

section \<open>Activities and notifications\<close>

definition ListActivities_of :: "uuid \<Rightarrow> int \<Rightarrow> (activity_row \<times> string) list srv" where
  "ListActivities_of user limit =
     db_stmt (sel (\<lambda>d. map (\<lambda>a. (a, case user_of d (a_actor a) of None \<Rightarrow> [] | Some u \<Rightarrow> u_name u))
       (take (nat (if limit \<le> 0 then 50 else limit))
         (rev (sort_key a_created (filter (\<lambda>a. a_user a = user) (activities d)))))))"

definition ListNotifications :: "uuid \<Rightarrow> bool \<Rightarrow> notification_row list srv" where
  "ListNotifications user unreadOnly =
     db_stmt (sel (\<lambda>d. take 100 (rev (sort_key n_created
       (filter (\<lambda>n. n_user n = user \<and> (unreadOnly \<longrightarrow> n_read n = None)) (notifications d))))))"

definition mark_read :: "(notification_row \<Rightarrow> bool) \<Rightarrow> unit stmt" where
  "mark_read P = (\<lambda>w. upd (\<lambda>d. d\<lparr>notifications := map (\<lambda>n. if P n then n\<lparr>n_read := Some (clock w)\<rparr> else n) (notifications d)\<rparr>) w)"

definition MarkNotificationsRead :: "uuid \<Rightarrow> uuid list \<Rightarrow> unit srv" where
  "MarkNotificationsRead user ids =
     (if ids = [] then db_stmt (mark_read (\<lambda>n. n_user n = user \<and> n_read n = None))
      else each (\<lambda>i. ignore (db_stmt (mark_read (\<lambda>n. n_id n = i \<and> n_user n = user)))) ids)"

section \<open>Who shares\<close>

lemma Require_wp:
  assumes "access_wf (db w)" and "entry_of (db w) i = Some f"
  shows "wp (Require user r i a)
    (\<lambda>_ w'. (r = ''admin'' \<or> (\<exists>g \<in> grants (db w) user i. requiredLevel a \<le> g)) \<and> used_faults w w')
    (\<lambda>_. used_faults w) w"
proof -
  obtain chain where chain: "ancestors (\<lambda>_. True) (entries (db w)) i = Some chain"
    using assms(1) ancestors_terminates [of "entries (db w)" "\<lambda>_. True" i] by (auto simp: access_wf_def)
  let ?L = "max (direct_level (db w) user f) (acl_level (top_by acl_rank (acl_roles user (db w) chain)))"
  have owner: "roleLevel ''owner'' = 6" "roleLevel [] = 0" by (simp_all add: roleLevel_def)
  have "wp (effectiveLevel user i) (\<lambda>l _. l = ?L) (\<lambda>_ _. True) w"
    using assms(2) chain roleLevel_le
    by (auto simp: effectiveLevel_def aclRoleOnAncestors_def wp_simps row_def query_def level_row_def direct_level_def
        acl_level_def Let_def owner max_def split: option.splits)
  then have "wp (Require user r i a) (\<lambda>_ _. r = ''admin'' \<or> (\<exists>g \<in> grants (db w) user i. requiredLevel a \<le> g)) (\<lambda>_ _. True) w"
    unfolding Require_def Can_def using grants_ge [OF assms chain requiredLevel_pos, of a]
    by (auto simp: wp_simps elim!: wp_weaken)
  moreover have "wp (Require user r i a) (\<lambda>_. used_faults w) (\<lambda>_. used_faults w) w"
    by (rule wp_steps [OF quiet_access(3)]) simp_all
  ultimately show ?thesis
    by (rule wp_weaken [OF wp_conj]) simp_all
qed

lemma acl_stays_low:
  assumes "access_wf d" and "entry_of d i = Some f" and "fe_user f \<noteq> user"
    and "\<forall>m \<in> set (members d). m_user m = user \<longrightarrow> fe_drive f \<noteq> Some (m_drive m)" and "g \<in> grants d user i"
  shows "g \<le> 3"
proof -
  have self: "f' \<in> set (entries d) \<and> fe_id f' = i \<longleftrightarrow> f' = f" for f'
    using entry_of_iff [of d i f'] assms(1,2) by (auto simp: access_wf_def forest_def)
  from assms(5) consider f' where "f' \<in> set (entries d)" "fe_id f' = i" "fe_user f' = user"
    | f' m where "f' \<in> set (entries d)" "fe_id f' = i" "m \<in> set (members d)" "fe_drive f' = Some (m_drive m)" "m_user m = user"
    | p where "p \<in> set (perms d)" "g = roleLevel (p_role p)"
    unfolding grants_def by blast
  then show ?thesis
  proof cases
    case 3
    with assms(1) have "p_role p \<in> {''viewer'', ''commenter'', ''editor''}" by (auto simp: access_wf_def)
    with 3 show ?thesis by (auto simp: roleLevel_def)
  qed (use self assms(3,4) in metis)+
qed

lemma may_not_manage:
  assumes "access_wf (db w)" and "entry_of (db w) entry = Some f" and "fe_user f \<noteq> user" and "role \<noteq> ''admin''"
    and "\<forall>m \<in> set (members (db w)). m_user m = user \<longrightarrow> fe_drive f \<noteq> Some (m_drive m)"
  shows "wp (bnd (Require user role entry ActionManage) k) (\<lambda>_ _. False) (\<lambda>_ w'. db w' = db w) w"
  unfolding wp_bnd
  by (rule wp_weaken [OF Require_wp [OF assms(1,2)]])
     (use acl_stays_low [OF assms(1,2,3,5)] assms(4) in \<open>fastforce simp: used_faults_def\<close>)+

lemma manage_refused:
  assumes "access_wf (db w)" and "entry_of (db w) entry = Some f" and "fe_user f \<noteq> user" and "role \<noteq> ''admin''"
    and "\<forall>m \<in> set (members (db w)). m_user m = user \<longrightarrow> fe_drive f \<noteq> Some (m_drive m)"
    and "m = bnd (Require user role entry ActionManage) k"
  shows "(\<exists>e. fst (m w) = Inl e) \<and> db (snd (m w)) = db w"
proof (cases "m w")
  case (Pair r w')
  note d = may_not_manage [OF assms(1-5), of k, folded assms(6)]
  show ?thesis using Pair wp_InrD [OF d] wp_InlD [OF d] by (cases r) auto
qed

text \<open>
  C18: access does not spread by itself: a user who reaches an entry only by permissions
  on files, in whatever role and on whatever ancestor, cannot give access to it nor take
  it from others. The calls return an error and change nothing, whatever fails.
\<close>

theorem guest_cannot_share:
  assumes "access_wf (db w)" and "entry_of (db w) entry = Some f" and "fe_user f \<noteq> user" and "role \<noteq> ''admin''"
    and "\<forall>m \<in> set (members (db w)). m_user m = user \<longrightarrow> fe_drive f \<noteq> Some (m_drive m)"
  shows "(\<exists>e. fst (Grant user role entry email newRole w) = Inl e) \<and> db (snd (Grant user role entry email newRole w)) = db w
    \<and> (\<exists>e. fst (Revoke user role entry grantee w) = Inl e) \<and> db (snd (Revoke user role entry grantee w)) = db w"
  using manage_refused [OF assms Grant_def] manage_refused [OF assms Revoke_def] by blast

section \<open>Granting and revoking\<close>

text \<open>The permissions on an entry of everybody but one user.\<close>

definition others :: "uuid \<Rightarrow> uuid \<Rightarrow> perm_row list \<Rightarrow> perm_row list" where
  "others entry grantee ps = filter (\<lambda>p. \<not> (p_entry p = entry \<and> p_grantee p = grantee)) ps"

lemma put_permission_Some:
  assumes "put_permission entry grantee role w = Some (p, w')"
  shows "p_entry p = entry \<and> p_grantee p = grantee \<and> p_role p = role \<and> p \<in> set (perms (db w'))
   \<and> others entry grantee (perms (db w')) = others entry grantee (perms (db w)) \<and> users (db w') = users (db w)"
proof -
  have "others entry grantee (map (\<lambda>p. if p_entry p = entry \<and> p_grantee p = grantee then p\<lparr>p_role := role\<rparr> else p) ps)
    = others entry grantee ps" for ps
    unfolding others_def by (induction ps) auto
  then show ?thesis
    using assms by (auto simp: put_permission_def Let_def others_def split: if_splits option.splits dest!: find_set)
qed

lemma messages_keep:
  "wp (ignore (db_stmt (insert_notification u k t b e d))) (\<lambda>_ w'. perms (db w') = perms (db w)) (\<lambda>_ _. False) w"
  "wp (ignore (db_stmt (insert_activity u a k e b))) (\<lambda>_ w'. perms (db w') = perms (db w)) (\<lambda>_ _. False) w"
  by (auto simp: wp_simps insert_notification_def insert_activity_def checked_def split: option.splits)

lemma Grant_wp:
  "wp (Grant actor actorRole entry email rawRole)
    (\<lambda>(p, u) w'. p_entry p = entry \<and> p_grantee p = u_id u \<and> p_role p = normalizeACL rawRole \<and> p \<in> set (perms (db w'))
       \<and> u_id u \<noteq> actor \<and> others entry (u_id u) (perms (db w')) = others entry (u_id u) (perms (db w))) (\<lambda>_ _. True) w"
proof -
  have q: "wp (Require actor actorRole entry ActionManage) (\<lambda>_ w'. db w' = db w) (\<lambda>_ _. True) w"
    by (rule wp_steps [OF quiet_access(3)]) (auto simp: used_faults_def)
  have send: "wp (ignore (db_stmt (insert_notification u k t b e d))) (\<lambda>_. Q) (\<lambda>_ _. True) w"
    "wp (ignore (db_stmt (insert_activity u a k e b))) (\<lambda>_. Q) (\<lambda>_ _. True) w"
    if "\<And>w'. perms (db w') = perms (db w) \<Longrightarrow> Q w'" for u k t b e d a Q w
    by (rule wp_weaken [OF messages_keep(1)] wp_weaken [OF messages_keep(2)]; use that in simp)+
  show ?thesis
    unfolding Grant_def wp_bnd
    by (rule wp_weaken [OF q])
      (auto simp: wp_require Let_def wp_map_err wp_db_stmt wp_ret wp_bnd checked_def ask_row_def split: option.split
        intro!: send dest: put_permission_Some)
qed

text \<open>
  C19: granting and revoking are inverse. A grant that succeeds leaves the permission it
  returns in the table, in the normalised role, never for the caller, and all other
  permissions as they were; revoking it then leaves exactly the permissions of the
  others, so that a first grant and its revocation restore the table.
\<close>

theorem grant_then_revoke:
  assumes "Grant actor actorRole entry email rawRole w = (Inr (p, u), w1)"
    and "Revoke actor' actorRole' entry (u_id u) w1 = (Inr (), w2)"
  shows "p \<in> set (perms (db w1)) \<and> p_entry p = entry \<and> p_grantee p = u_id u \<and> p_role p = normalizeACL rawRole \<and> u_id u \<noteq> actor
    \<and> others entry (u_id u) (perms (db w1)) = others entry (u_id u) (perms (db w))
    \<and> perms (db w2) = others entry (u_id u) (perms (db w))"
proof -
  have "wp (Revoke actor' actorRole' entry (u_id u)) (\<lambda>_ w'. perms (db w') = others entry (u_id u) (perms (db w1))) (\<lambda>_ _. True) w1"
    unfolding Revoke_def wp_bnd
    by (rule wp_steps [OF quiet_access(3)]) (auto simp: wp_simps others_def used_faults_def)
  from wp_InrD [OF this assms(2)] wp_InrD [OF Grant_wp assms(1)] show ?thesis by simp
qed

section \<open>Search\<close>

lemma keep_if_Inr: "keep_if P xs = Inr ys \<Longrightarrow> ys = filter (\<lambda>x. P x = Inr True) xs"
  by (induction xs arbitrary: ys) (auto split: sum.splits if_splits)

lemma listed_for_grants:
  assumes "access_wf d" and "f \<in> set (entries d)" and "\<forall>m \<in> set (members d). 1 \<le> roleLevel (m_role m)"
  shows "listed_for d user f = Inr (\<exists>g \<in> grants d user (fe_id f). 1 \<le> g)"
proof -
  have wf: "forest (entries d)" "distinct (map fe_id (entries d))" using assms(1) by (auto simp: access_wf_def forest_def)
  obtain chain where chain: "ancestors (\<lambda>_. True) (entries d) (fe_id f) = Some chain"
    using ancestors_terminates [OF wf(1), of "\<lambda>_. True" "fe_id f"] by auto
  have entry: "entry_of d (fe_id f) = Some f" using entry_of_iff [OF wf(2)] assms(2) by blast
  have members: "distinct (map (\<lambda>m. (m_drive m, m_user m)) (members d))" using assms(1) by (simp add: access_wf_def)
  have roles: "r \<in> set (acl_roles user d chain) \<Longrightarrow> roleLevel r = acl_rank r \<and> 1 \<le> roleLevel r" for r
    using assms(1) by (auto simp: acl_roles_set access_wf_def roleLevel_def acl_rank_def)
  have "(\<exists>g \<in> grants d user (fe_id f). 1 \<le> g)
    \<longleftrightarrow> 1 \<le> direct_level d user f \<or> 1 \<le> acl_level (top_by acl_rank (acl_roles user d chain))"
    using grants_ge [OF assms(1) entry chain, of 1] by (simp add: le_max_iff_disj)
  also have "1 \<le> acl_level (top_by acl_rank (acl_roles user d chain)) \<longleftrightarrow> acl_roles user d chain \<noteq> []"
    proof -
    have "1 \<le> acl_level (top_by acl_rank (acl_roles user d chain)) \<longleftrightarrow> (\<exists>r \<in> set (acl_roles user d chain). 1 \<le> roleLevel r)"
      using roles by (intro acl_level_ge) auto
    also have "\<dots> \<longleftrightarrow> acl_roles user d chain \<noteq> []"
      using roles hd_in_set [of "acl_roles user d chain"] by (metis empty_iff list.set(1))
    finally show ?thesis .
  qed
  also have "1 \<le> direct_level d user f \<longleftrightarrow>
      fe_user f = user \<or> (\<exists>m \<in> set (members d). m_user m = user \<and> Some (m_drive m) = fe_drive f)"
    using direct_level_ge [OF members, of 1] assms(3) by fastforce
  finally show ?thesis
    by (auto simp: listed_for_def granted_above_def chain acl_roles_def filter_empty_conv)
qed

text \<open>
  C20: search shows what the access check lets the caller see: every entry found is live,
  matches the query by name and may be viewed by the caller, and unless the limit of 100
  rows is reached, every such entry is found.
\<close>

theorem search_is_access:
  assumes "faults w = []" and "access_wf (db w)" and "\<forall>m \<in> set (members (db w)). 1 \<le> roleLevel (m_role m)"
    and "Search user role rawQuery w = (Inr es, w')"
  defines "pat \<equiv> [CHR 0x25] @ to_lower (trim_space rawQuery) @ [CHR 0x25]"
  defines "visible \<equiv> {f \<in> set (entries (db w)). live f \<and> like pat (sql_lower w (fe_name f))
      \<and> Require user role (fe_id f) ActionView w = (Inr (), w)}"
  shows "set es \<subseteq> visible \<and> (length es < 100 \<longrightarrow> set es = visible)"
proof -
  let ?hits = "filter (\<lambda>f. live f \<and> like pat (sql_lower w (fe_name f))) (entries (db w))"
  have dist: "distinct (map fe_id (entries (db w)))" using assms(2) by (auto simp: access_wf_def forest_def)
  have seen: "Require user role (fe_id f) ActionView w = (Inr (), w) \<longleftrightarrow> role = ''admin'' \<or> listed_for (db w) user f = Inr True"
    if "f \<in> set (entries (db w))" for f
    using that Require_run [OF assms(1,2), of "fe_id f" f user role ActionView] entry_of_iff [OF dist]
      listed_for_grants [OF assms(2) that assms(3)] by auto
  have "wp (Search user role rawQuery) (\<lambda>es _. \<exists>found le. es = take 100 (sort_by le found) \<and> set found = visible) (\<lambda>_ _. True) w"
    using seen assms(1)
    by (auto simp: Search_def Let_def wp_simps ask_def pat_def visible_def map_sum_def dest!: keep_if_Inr split: sum.splits)
  from wp_InrD [OF this assms(4)] obtain found le where es: "es = take 100 (sort_by le found)" "set found = visible" by blast
  then have "set es \<subseteq> visible" using set_take_subset [of 100 "sort_by le found"] by auto
  moreover have "set es = visible" if "length es < 100"
    using es that by (cases "length (sort_by le found) < 100") auto
  ultimately show ?thesis by blast
qed


section \<open>Restoring a version\<close>

lemma versions_quiet: "steps (\<lambda>a b. entries (db b) = entries (db a)) (SnapshotVersion f actor)"
proof -
  have pre: "preorder (\<lambda>a b :: world. entries (db b) = entries (db a))" by (rule preorderI) simp_all
  have gc: "steps (\<lambda>a b. entries (db b) = entries (db a)) (DeleteUnreferenced keys)" for keys
    by (rule steps_weaken [OF gc_steps]) (simp add: gc_step_def)
  show ?thesis
    unfolding SnapshotVersion_def PruneVersions_def
    by (intro steps_intros pre gc)
       (auto simp: steps_def db_stmt_def checked_def Let_def split: sum.splits option.splits)
qed

text \<open>
  Restoring a version writes what it means to: after a call that succeeds, the entry
  carries the key, size, type and hash of the version asked for and the next content
  version, and no other column and no other entry has changed.
\<close>

theorem restore_points_at_version:
  assumes "RestoreVersion user role entry version w = (Inr (), w')"
  shows "\<exists>v t. v \<in> set (versions (db w)) \<and> v_id v = version \<and> v_entry v = entry
    \<and> entries (db w') = map (\<lambda>f. if fe_id f = entry then restored v t f else f) (entries (db w))"
proof -
  have req: "wp (Require user role entry ActionEdit) (\<lambda>_ w'. db w' = db w) (\<lambda>_ _. True) w"
    by (rule wp_steps [OF quiet_access(3)]) (auto simp: used_faults_def)
  have snap: "wp (SnapshotVersion f a) (\<lambda>_. Q) (\<lambda>_. Q) x"
    if "\<And>w'. entries (db w') = entries (db x) \<Longrightarrow> Q w'" for f a Q x
    by (rule wp_steps [OF versions_quiet]) (use that in simp_all)
  have "wp (RestoreVersion user role entry version) (\<lambda>_ w'. \<exists>v t. v \<in> set (versions (db w)) \<and> v_id v = version \<and> v_entry v = entry
    \<and> entries (db w') = map (\<lambda>f. if fe_id f = entry then restored v t f else f) (entries (db w))) (\<lambda>_ _. True) w"
    unfolding RestoreVersion_def wp_bnd
    by (rule wp_weaken [OF req])
      (auto simp: wp_simps row_def update_entry_def split: option.split intro!: snap dest!: find_set, blast)
  from wp_InrD [OF this assms] show ?thesis .
qed

end
