(* ===== verification/TeamExamples.thy ===== *)
theory TeamExamples
  imports Witnesses Collab
begin

text \<open>
  Shared drives and sharing, at the small site: each property applied to a concrete
  state, and what restoring a version does to an entry with twenty versions.
\<close>

section \<open>Drives\<close>

lemma ok_fst: "m w = (r, w') \<Longrightarrow> ok (fst (m w)) \<Longrightarrow> \<exists>x. r = Inr x"
  by (cases r) (simp_all add: ok_def)

lemma bob_no_drive_admin: "\<not> drive_admin (db site) 2 ''user'' 20"
  by (simp add: drive_admin_def site_defs)

theorem drive_admin_only_witness:
  "(\<exists>e. fst (AddMember 2 ''user'' 20 ''bob@x.y'' ''manager'' site) = Inl e) \<and> db (snd (AddMember 2 ''user'' 20 ''bob@x.y'' ''manager'' site)) = site_db"
  using drive_admin_only [OF bob_no_drive_admin, of "''x''" "''bob@x.y''" "''manager''" 1] by (simp add: site_def)

lemma site_shares_drive: "ok (fst (CreateShared 1 ''Team'' site))"
  by code_simp

theorem shared_drive_whole_witness:
  "\<exists>r role w'. CreateShared 1 ''Team'' site = (Inr (r, role), w') \<and> length (drives (db w')) = 2 \<and> length (entries (db w')) = 4"
proof -
  obtain r role w' where run: "CreateShared 1 ''Team'' site = (Inr (r, role), w')"
    using ok_run [of "CreateShared 1 ''Team''" site, OF site_shares_drive] by auto
  with shared_drive_whole [OF run] show ?thesis by (auto simp: site_defs)
qed

section \<open>Sharing\<close>

lemma site_wf: "access_wf (db site)"
  using site_forest by (simp add: access_wf_def) (simp add: site_defs)

lemma site_file_of: "entry_of (db site) 12 = Some site_file"
  by (simp add: entry_of_def site_defs)

theorem guest_cannot_share_witness:
  "\<exists>e. fst (Grant 2 ''user'' 12 ''ann@x.y'' ''editor'' site) = Inl e"
  using guest_cannot_share [OF site_wf site_file_of, of 2 "''user''" "''ann@x.y''" "''editor''" 1]
  by (simp add: site_defs)

lemma site_grants: "ok (fst (Grant 1 ''user'' 12 ''bob@x.y'' ''Editor'' site))"
  by code_simp

lemma site_revokes: "ok (fst (Revoke 1 ''user'' 12 2 (snd (Grant 1 ''user'' 12 ''bob@x.y'' ''Editor'' site))))"
  by code_simp

lemma site_grantee: "map_sum id (u_id \<circ> snd) (fst (Grant 1 ''user'' 12 ''bob@x.y'' ''Editor'' site)) = Inr 2"
  by code_simp

theorem grant_then_revoke_witness:
  "\<exists>p u w1 w2. Grant 1 ''user'' 12 ''bob@x.y'' ''Editor'' site = (Inr (p, u), w1) \<and> Revoke 1 ''user'' 12 (u_id u) w1 = (Inr (), w2)
     \<and> p_role p = normalizeACL ''Editor'' \<and> perms (db w2) = perms (db site)"
proof -
  obtain p u w1 where run: "Grant 1 ''user'' 12 ''bob@x.y'' ''Editor'' site = (Inr (p, u), w1)"
    using ok_run [of "Grant 1 ''user'' 12 ''bob@x.y'' ''Editor''" site, OF site_grants] by auto
  with site_grantee site_revokes have u: "u_id u = 2" "ok (fst (Revoke 1 ''user'' 12 2 w1))" by simp_all
  obtain w2 where undo: "Revoke 1 ''user'' 12 (u_id u) w1 = (Inr (), w2)"
    using ok_run [of "Revoke 1 ''user'' 12 2" w1, OF u(2)] u(1) by auto
  have "others 12 2 (perms (db site)) = perms (db site)" by (simp add: others_def site_defs)
  with grant_then_revoke [OF run undo] run undo u(1) show ?thesis by auto
qed

lemma site_finds: "ok (fst (Search 2 ''user'' '' A.T '' site))"
  by code_simp

lemma site_found: "map_sum id (map fe_id) (fst (Search 2 ''user'' '' A.T '' site)) = Inr [12]"
  by code_simp

theorem search_is_access_witness:
  "\<exists>es w'. Search 2 ''user'' '' A.T '' site = (Inr es, w') \<and> map fe_id es = [12]
     \<and> (\<forall>f \<in> set es. Require 2 ''user'' (fe_id f) ActionView site = (Inr (), site))"
proof -
  obtain es w' where run: "Search 2 ''user'' '' A.T '' site = (Inr es, w')"
    using ok_run [of "Search 2 ''user'' '' A.T ''" site, OF site_finds] by blast
  have "\<forall>m \<in> set (members (db site)). 1 \<le> roleLevel (m_role m)" by (simp add: site_defs roleLevel_def)
  from search_is_access [OF site_simps(1) site_wf this run] run site_found show ?thesis by auto
qed

section \<open>Versions\<close>

definition old_version :: "nat \<Rightarrow> version_row" where
  "old_version n = \<lparr>v_id = 200 + n, v_entry = 12, v_version = int n, v_key = UserKey 1 1 n, v_size = 3, v_mime = ''text/plain'',
     v_hash = [], v_by = Some 1, v_created = 0\<rparr>"

text \<open>The file of the site after twenty overwrites, each of which kept the version before.\<close>

definition kept_twenty :: world where
  "kept_twenty = site\<lparr>db := site_db\<lparr>entries := map (\<lambda>f. if fe_id f = 12 then f\<lparr>fe_version := 21\<rparr> else f) site_entries,
     versions := map old_version [1..<21]\<rparr>, files := (\<lambda>k. case k of UserKey u d n \<Rightarrow> if u = 1 \<and> d \<le> 1 then Some ''old'' else None | _ \<Rightarrow> None)\<rparr>"

lemma kept_twenty_restores: "ok (fst (RestoreVersion 1 ''user'' 12 205 kept_twenty))"
  by code_simp

theorem restore_points_at_version_witness:
  "\<exists>w' f. RestoreVersion 1 ''user'' 12 205 kept_twenty = (Inr (), w') \<and> f \<in> set (entries (db w')) \<and> fe_key f = UserKey 1 1 5 \<and> fe_version f = 22"
proof -
  obtain w' where run: "RestoreVersion 1 ''user'' 12 205 kept_twenty = (Inr (), w')"
    using ok_run [of "RestoreVersion 1 ''user'' 12 205" kept_twenty, OF kept_twenty_restores] by auto
  from restore_points_at_version [OF run] obtain v t where v: "v \<in> set (versions (db kept_twenty))" "v_id v = 205"
    and es: "entries (db w') = map (\<lambda>f. if fe_id f = 12 then restored v t f else f) (entries (db kept_twenty))" by blast
  have "v_key v = UserKey 1 1 5" using v by (auto simp: kept_twenty_def old_version_def)
  moreover have "restored v t (site_file\<lparr>fe_version := 21\<rparr>) \<in> set (entries (db w'))"
    unfolding es by (simp add: kept_twenty_def site_entries_def) (simp add: site_defs)
  ultimately show ?thesis using run by (auto simp: restored_def intro!: exI [of _ "restored v t (site_file\<lparr>fe_version := 21\<rparr>)"])
qed

text \<open>
  Restoring the oldest of twenty versions loses it: \<open>RestoreVersion\<close> first keeps the
  current content as version twenty-one and prunes to twenty, which deletes the version
  asked for and its blob, and then points the entry at the deleted blob. The call
  reports success; the entry has no content any more.
\<close>

theorem restore_oldest_loses_content:
  "\<exists>w' f. RestoreVersion 1 ''user'' 12 201 kept_twenty = (Inr (), w') \<and> files kept_twenty (UserKey 1 1 1) = Some ''old''
     \<and> entry_of (db w') 12 = Some f \<and> fe_key f = UserKey 1 1 1 \<and> files w' (fe_key f) = None"
proof -
  have run: "(let (r, w') = RestoreVersion 1 ''user'' 12 201 kept_twenty in
     ok r \<and> map_option fe_key (entry_of (db w') 12) = Some (UserKey 1 1 1) \<and> files w' (UserKey 1 1 1) = None
     \<and> files kept_twenty (UserKey 1 1 1) = Some ''old'')"
    by code_simp
  then show ?thesis
    by (cases "RestoreVersion 1 ''user'' 12 201 kept_twenty") (auto simp: ok_def split: sum.splits)
qed

end
