(* ===== verification/Encodings.thy ===== *)
theory Encodings
  imports Names
begin

text \<open>
  The encodings of bytes as text that the services use: \<open>encoding/hex\<close>, and
  \<open>encoding/base64\<close> and \<open>encoding/base32\<close> without padding. Each is shown to read back what
  it has written.
\<close>

definition of_byte :: "nat \<Rightarrow> char" where
  "of_byte n = char_of n"

lemma of_byte_byte [simp]: "of_byte (byte c) = c"
  by (simp add: of_byte_def byte_def)

lemma byte_of_byte [simp]: "n < 256 \<Longrightarrow> byte (of_byte n) = n"
  by (simp add: of_byte_def byte_def)

lemma byte_less [simp]: "byte c < 256"
  by (simp add: byte_def)

text \<open>An alphabet and its inverse: the index of a character.\<close>

fun index_of :: "'a \<Rightarrow> 'a list \<Rightarrow> nat option" where
  "index_of x [] = None"
| "index_of x (y # ys) = (if x = y then Some 0 else map_option Suc (index_of x ys))"

lemma index_of_nth: "distinct ys \<Longrightarrow> i < length ys \<Longrightarrow> index_of (ys ! i) ys = Some i"
proof (induction ys arbitrary: i)
  case Nil
  then show ?case by simp
next
  case (Cons y ys)
  then show ?case by (cases i) (auto simp: nth_mem)
qed

lemma index_of_less: "index_of x ys = Some i \<Longrightarrow> i < length ys \<and> ys ! i = x"
  by (induction ys arbitrary: i) (auto split: if_splits)

definition digits_of :: "string \<Rightarrow> string \<Rightarrow> nat list option" where
  "digits_of alphabet s = those (map (\<lambda>c. index_of c alphabet) s)"

lemma those_map_Some: "(\<And>x. x \<in> set xs \<Longrightarrow> f x = Some (g x)) \<Longrightarrow> those (map f xs) = Some (map g xs)"
  by (induction xs) auto

lemma digits_of_text:
  assumes "distinct alphabet" and "\<forall>n \<in> set ns. n < length alphabet"
  shows "digits_of alphabet (map ((!) alphabet) ns) = Some ns"
  using those_map_Some [of ns "\<lambda>n. index_of (alphabet ! n) alphabet" id] assms
  by (simp add: digits_of_def comp_def index_of_nth)

section \<open>Hexadecimal\<close>

definition hex_digits :: string where
  "hex_digits = ''0123456789abcdef''"

definition hex_encode :: "string \<Rightarrow> string" where
  "hex_encode s = concat (map (\<lambda>c. [hex_digits ! (byte c div 16), hex_digits ! (byte c mod 16)]) s)"

text \<open>\<open>hex.DecodeString\<close>: both cases of the letters, an even number of digits.\<close>

definition from_hex :: "char \<Rightarrow> nat option" where
  "from_hex c =
     (let n = byte c in
      if 48 \<le> n \<and> n \<le> 57 then Some (n - 48)
      else if 97 \<le> n \<and> n \<le> 102 then Some (n - 87)
      else if 65 \<le> n \<and> n \<le> 70 then Some (n - 55)
      else None)"

fun hex_decode :: "string \<Rightarrow> string option" where
  "hex_decode [] = Some []"
| "hex_decode [c] = None"
| "hex_decode (c # d # s) = (case (from_hex c, from_hex d) of
     (Some m, Some n) \<Rightarrow> map_option ((#) (of_byte (16 * m + n))) (hex_decode s)
   | _ \<Rightarrow> None)"

lemma from_hex_digit: "n < 16 \<Longrightarrow> from_hex (hex_digits ! n) = Some n"
proof -
  have "\<forall>n \<in> set [0..<16]. from_hex (hex_digits ! n) = Some n" by code_simp
  then show "n < 16 \<Longrightarrow> from_hex (hex_digits ! n) = Some n" by simp
qed

lemma hex_decode_defined: "even (length s) \<Longrightarrow> \<forall>c \<in> set s. from_hex c \<noteq> None \<Longrightarrow> hex_decode s \<noteq> None"
  by (induction s rule: hex_decode.induct) auto

lemma hex_decode_encode: "hex_decode (hex_encode s) = Some s"
  by (induction s) (simp_all add: hex_encode_def from_hex_digit less_mult_imp_div_less)

lemma hex_encode_length: "length (hex_encode s) = 2 * length s"
  by (induction s) (simp_all add: hex_encode_def)

lemma hex_encode_chars: "set (hex_encode s) \<subseteq> set hex_digits"
proof -
  have "length hex_digits = 16" by (simp add: hex_digits_def)
  then show ?thesis by (auto simp: hex_encode_def less_mult_imp_div_less intro!: nth_mem)
qed

lemma hex_encode_inj: "hex_encode s = hex_encode t \<Longrightarrow> s = t"
  by (metis hex_decode_encode option.inject)

section \<open>Base 64\<close>

definition base64_std :: string where
  "base64_std = ''ABCDEFGHIJKLMNOPQRSTUVWXYZabcdefghijklmnopqrstuvwxyz0123456789+/''"

definition base64_url :: string where
  "base64_url = ''ABCDEFGHIJKLMNOPQRSTUVWXYZabcdefghijklmnopqrstuvwxyz0123456789-_''"

fun sextets :: "nat list \<Rightarrow> nat list" where
  "sextets [] = []"
| "sextets [a] = [a div 4, a mod 4 * 16]"
| "sextets [a, b] = [a div 4, a mod 4 * 16 + b div 16, b mod 16 * 4]"
| "sextets (a # b # c # s) = [a div 4, a mod 4 * 16 + b div 16, b mod 16 * 4 + c div 64, c mod 64] @ sextets s"

text \<open>The bits left over at the end are not looked at.\<close>

fun from_sextets :: "nat list \<Rightarrow> nat list option" where
  "from_sextets [] = Some []"
| "from_sextets [p] = None"
| "from_sextets [p, q] = Some [p * 4 + q div 16]"
| "from_sextets [p, q, r] = Some [p * 4 + q div 16, q mod 16 * 16 + r div 4]"
| "from_sextets (p # q # r # s # t) =
     map_option ((@) [p * 4 + q div 16, q mod 16 * 16 + r div 4, r mod 4 * 64 + s]) (from_sextets t)"

definition base64_encode :: "string \<Rightarrow> string \<Rightarrow> string" where
  "base64_encode alphabet s = map ((!) alphabet) (sextets (map byte s))"

text \<open>\<open>DecodeString\<close> skips line ends.\<close>

definition newline :: "char \<Rightarrow> bool" where
  "newline c \<longleftrightarrow> c = CHR 0x0A \<or> c = CHR 0x0D"

definition base64_decode :: "string \<Rightarrow> string \<Rightarrow> string option" where
  "base64_decode alphabet s =
     (case digits_of alphabet (filter (\<lambda>c. \<not> newline c) s) of
        None \<Rightarrow> None
      | Some ns \<Rightarrow> map_option (map of_byte) (from_sextets ns))"

lemma sextets_less: "\<forall>n \<in> set bs. n < 256 \<Longrightarrow> \<forall>n \<in> set (sextets bs). n < 64"
  by (induction bs rule: sextets.induct) auto

lemma from_sextets_sextets: "\<forall>n \<in> set bs. n < 256 \<Longrightarrow> from_sextets (sextets bs) = Some bs"
proof (induction bs rule: sextets.induct)
  case (3 a b)
  then have "a div 4 * 4 + (a mod 4 * 16 + b div 16) div 16 = a" "(a mod 4 * 16 + b div 16) mod 16 * 16 + b mod 16 * 4 div 4 = b"
    by auto
  then show ?case by simp
next
  case (4 a b c s)
  then have "a div 4 * 4 + (a mod 4 * 16 + b div 16) div 16 = a"
    "(a mod 4 * 16 + b div 16) mod 16 * 16 + (b mod 16 * 4 + c div 64) div 4 = b"
    "(b mod 16 * 4 + c div 64) mod 4 * 64 + c mod 64 = c"
    by auto
  with 4 show ?case by simp
qed simp_all

text \<open>What both alphabets have in common.\<close>

definition alphabet64 :: "string \<Rightarrow> bool" where
  "alphabet64 al \<longleftrightarrow> length al = 64 \<and> distinct al \<and> (\<forall>c \<in> set al. \<not> newline c)"

lemma alphabets64: "alphabet64 base64_std" "alphabet64 base64_url"
  by (simp_all add: alphabet64_def base64_std_def base64_url_def newline_def)

lemma base64_encode_chars:
  assumes "alphabet64 al" shows "set (base64_encode al s) \<subseteq> set al"
  using assms sextets_less [of "map byte s"] by (auto simp: base64_encode_def alphabet64_def)

lemma base64_decode_encode:
  assumes "alphabet64 al" shows "base64_decode al (base64_encode al s) = Some s"
proof -
  have "filter (\<lambda>c. \<not> newline c) (base64_encode al s) = base64_encode al s"
    using base64_encode_chars [OF assms, of s] assms by (intro filter_True) (auto simp: alphabet64_def)
  moreover have "digits_of al (base64_encode al s) = Some (sextets (map byte s))"
    using assms sextets_less [of "map byte s"] unfolding base64_encode_def
    by (intro digits_of_text) (auto simp: alphabet64_def)
  ultimately show ?thesis by (simp add: base64_decode_def from_sextets_sextets comp_def)
qed

text \<open>\<open>base64.StdEncoding\<close>, with padding.\<close>

definition base64_padded :: "string \<Rightarrow> string option" where
  "base64_padded s =
     (let t = filter (\<lambda>c. \<not> newline c) s; body = takeWhile (\<lambda>c. c \<noteq> CHR ''='') t; pad = drop (length body) t in
      if length t mod 4 = 0 \<and> length pad \<le> 2 \<and> set pad \<subseteq> {CHR ''=''} then base64_decode base64_std body else None)"

section \<open>Base 32\<close>

definition base32_std :: string where
  "base32_std = ''ABCDEFGHIJKLMNOPQRSTUVWXYZ234567''"

fun quintets :: "nat list \<Rightarrow> nat list" where
  "quintets [] = []"
| "quintets [a] = [a div 8, a mod 8 * 4]"
| "quintets [a, b] = [a div 8, a mod 8 * 4 + b div 64, b div 2 mod 32, b mod 2 * 16]"
| "quintets [a, b, c] = [a div 8, a mod 8 * 4 + b div 64, b div 2 mod 32, b mod 2 * 16 + c div 16, c mod 16 * 2]"
| "quintets [a, b, c, d] = [a div 8, a mod 8 * 4 + b div 64, b div 2 mod 32, b mod 2 * 16 + c div 16,
     c mod 16 * 2 + d div 128, d div 4 mod 32, d mod 4 * 8]"
| "quintets (a # b # c # d # e # s) = [a div 8, a mod 8 * 4 + b div 64, b div 2 mod 32, b mod 2 * 16 + c div 16,
     c mod 16 * 2 + d div 128, d div 4 mod 32, d mod 4 * 8 + e div 32, e mod 32] @ quintets s"

text \<open>The bytes of a group of digits; one, three or six digits at the end give none.\<close>

definition byte1 :: "nat \<Rightarrow> nat \<Rightarrow> nat" where
  "byte1 p q = p * 8 + q div 4"

definition byte2 :: "nat \<Rightarrow> nat \<Rightarrow> nat \<Rightarrow> nat" where
  "byte2 q r s = q mod 4 * 64 + r * 2 + s div 16"

definition byte3 :: "nat \<Rightarrow> nat \<Rightarrow> nat" where
  "byte3 s t = s mod 16 * 16 + t div 2"

definition byte4 :: "nat \<Rightarrow> nat \<Rightarrow> nat \<Rightarrow> nat" where
  "byte4 t u v = t mod 2 * 128 + u * 4 + v div 8"

definition byte5 :: "nat \<Rightarrow> nat \<Rightarrow> nat" where
  "byte5 v x = v mod 8 * 32 + x"

fun from_quintets :: "nat list \<Rightarrow> nat list" where
  "from_quintets (p # q # r # s # t # u # v # x # xs) =
     [byte1 p q, byte2 q r s, byte3 s t, byte4 t u v, byte5 v x] @ from_quintets xs"
| "from_quintets [p, q, r, s, t, u, v] = [byte1 p q, byte2 q r s, byte3 s t, byte4 t u v]"
| "from_quintets [p, q, r, s, t] = [byte1 p q, byte2 q r s, byte3 s t]"
| "from_quintets [p, q, r, s] = [byte1 p q, byte2 q r s]"
| "from_quintets [p, q] = [byte1 p q]"
| "from_quintets _ = []"

definition base32_encode :: "string \<Rightarrow> string" where
  "base32_encode s = map ((!) base32_std) (quintets (map byte s))"

definition base32_decode :: "string \<Rightarrow> string option" where
  "base32_decode s = map_option (map of_byte \<circ> from_quintets) (digits_of base32_std (filter (\<lambda>c. \<not> newline c) s))"

lemma joined: "y < k \<Longrightarrow> (x * k + y) div k = x" "y < k \<Longrightarrow> (x * k + y) mod k = y" for x y k :: nat
  by simp_all

lemma halves:
  "b div 64 * 64 + b div 2 mod 32 * 2 + b mod 2 = b"
  "d div 128 * 128 + d div 4 mod 32 * 4 + d mod 4 = d" for b d :: nat
proof -
  have "b div 64 = b div 2 div 32" "d div 128 = d div 4 div 32" by (simp_all flip: div_mult2_eq)
  then show "b div 64 * 64 + b div 2 mod 32 * 2 + b mod 2 = b" "d div 128 * 128 + d div 4 mod 32 * 4 + d mod 4 = d"
    using div_mult_mod_eq [of "b div 2" 32] div_mult_mod_eq [of b 2] div_mult_mod_eq [of "d div 4" 32] div_mult_mod_eq [of d 4]
    by linarith+
qed

lemma quintet_bytes:
  "a < 256 \<Longrightarrow> byte1 (a div 8) (a mod 8 * 4) = a"
  "a < 256 \<Longrightarrow> b < 256 \<Longrightarrow> byte1 (a div 8) (a mod 8 * 4 + b div 64) = a"
  "b < 256 \<Longrightarrow> byte2 (a mod 8 * 4 + b div 64) (b div 2 mod 32) (b mod 2 * 16) = b"
  "b < 256 \<Longrightarrow> c < 256 \<Longrightarrow> byte2 (a mod 8 * 4 + b div 64) (b div 2 mod 32) (b mod 2 * 16 + c div 16) = b"
  "c < 256 \<Longrightarrow> byte3 (b mod 2 * 16 + c div 16) (c mod 16 * 2) = c"
  "c < 256 \<Longrightarrow> d < 256 \<Longrightarrow> byte3 (b mod 2 * 16 + c div 16) (c mod 16 * 2 + d div 128) = c"
  "d < 256 \<Longrightarrow> byte4 (c mod 16 * 2 + d div 128) (d div 4 mod 32) (d mod 4 * 8) = d"
  "d < 256 \<Longrightarrow> e < 256 \<Longrightarrow> byte4 (c mod 16 * 2 + d div 128) (d div 4 mod 32) (d mod 4 * 8 + e div 32) = d"
  "e < 256 \<Longrightarrow> byte5 (d mod 4 * 8 + e div 32) (e mod 32) = e"
  by (simp_all add: byte1_def byte2_def byte3_def byte4_def byte5_def joined halves)

lemma quintets_less: "\<forall>n \<in> set bs. n < 256 \<Longrightarrow> \<forall>n \<in> set (quintets bs). n < 32"
  by (induction bs rule: quintets.induct) auto

lemma from_quintets_quintets: "\<forall>n \<in> set bs. n < 256 \<Longrightarrow> from_quintets (quintets bs) = bs"
  by (induction bs rule: quintets.induct) (simp_all add: quintet_bytes)

lemma alphabet32: "length base32_std = 32" "distinct base32_std" "\<forall>c \<in> set base32_std. \<not> newline c"
  by (simp_all add: base32_std_def newline_def)

lemma base32_encode_chars: "set (base32_encode s) \<subseteq> set base32_std"
  using quintets_less [of "map byte s"] by (auto simp: base32_encode_def alphabet32(1))

lemma base32_decode_encode: "base32_decode (base32_encode s) = Some s"
proof -
  have "filter (\<lambda>c. \<not> newline c) (base32_encode s) = base32_encode s"
    using base32_encode_chars [of s] alphabet32(3) by (intro filter_True) auto
  moreover have "digits_of base32_std (base32_encode s) = Some (quintets (map byte s))"
    using quintets_less [of "map byte s"] unfolding base32_encode_def
    by (intro digits_of_text alphabet32(2)) (simp add: alphabet32(1))
  ultimately show ?thesis by (simp add: base32_decode_def from_quintets_quintets comp_def)
qed


end
