(* ===== verification/Secrets.thy ===== *)
theory Secrets
  imports Encodings Database "HOL-Library.Word"
begin

unbundle bit_operations_syntax

text \<open>
  Passwords, tokens and one-time codes: the pure parts of \<open>internal/auth/service.go\<close>,
  \<open>internal/auth/otp.go\<close>, \<open>internal/shares/password.go\<close> and \<open>internal/totp/totp.go\<close>.

  The primitives of the cryptographic libraries are a parameter, the record \<open>crypto\<close>;
  \<open>crypto_ok\<close> states what the code relies on: the sizes of the results, and that
  AES-GCM opens what it has sealed.
\<close>

record crypto =
  sha256 :: "string \<Rightarrow> string"
  hmac_sha256 :: "string \<Rightarrow> string \<Rightarrow> string"
  hmac_sha1 :: "string \<Rightarrow> string \<Rightarrow> string"
  argon2id :: "string \<Rightarrow> string \<Rightarrow> nat \<Rightarrow> nat \<Rightarrow> nat \<Rightarrow> nat \<Rightarrow> string"
  gcm_seal :: "string \<Rightarrow> string \<Rightarrow> string \<Rightarrow> string"
  gcm_open :: "string \<Rightarrow> string \<Rightarrow> string \<Rightarrow> string option"

definition crypto_ok :: "crypto \<Rightarrow> bool" where
  "crypto_ok cr \<longleftrightarrow>
     (\<forall>p s t m n len. length (argon2id cr p s t m n len) = len)
   \<and> (\<forall>k m. length (hmac_sha1 cr k m) = 20)
   \<and> (\<forall>k n x. gcm_open cr k n (gcm_seal cr k n x) = Some x)"

section \<open>Random bytes\<close>

definition rand_read :: "nat \<Rightarrow> string srv" where
  "rand_read n = (\<lambda>w. case entropy w of
       [] \<Rightarrow> (Inl Fault, w)
     | None # es \<Rightarrow> (Inl Fault, w\<lparr>entropy := es\<rparr>)
     | Some f # es \<Rightarrow> (Inr (map f [0..<n]), w\<lparr>entropy := es\<rparr>))"

lemma wp_rand_read [wp_simps]:
  "wp (rand_read n) Q E w = (case entropy w of
       [] \<Rightarrow> E Fault w
     | None # es \<Rightarrow> E Fault (w\<lparr>entropy := es\<rparr>)
     | Some f # es \<Rightarrow> Q (map f [0..<n]) (w\<lparr>entropy := es\<rparr>))"
  by (simp add: wp_def rand_read_def split: list.split option.split)

definition hashToken :: "crypto \<Rightarrow> string \<Rightarrow> string" where
  "hashToken cr token = hex_encode (sha256 cr token)"

definition newSessionToken :: "crypto \<Rightarrow> (string \<times> string) srv" where
  "newSessionToken cr = bnd (rand_read 32) (\<lambda>raw.
     let token = base64_encode base64_url raw in ret (token, hashToken cr token))"

definition randomToken :: "nat \<Rightarrow> string srv" where
  "randomToken n = bnd (rand_read n) (\<lambda>buf. ret (base64_encode base64_url buf))"

section \<open>Passwords of users\<close>

definition hashPassword :: "crypto \<Rightarrow> string \<Rightarrow> string srv" where
  "hashPassword cr password = bnd (rand_read 16) (\<lambda>salt.
     ret (hex_encode salt @ '':'' @ hex_encode (argon2id cr password salt 1 (64 * 1024) 2 32)))"

definition byte_word :: "char \<Rightarrow> 8 word" where
  "byte_word c = word_of_nat (byte c)"

definition subtleCompare :: "string \<Rightarrow> string \<Rightarrow> bool" where
  "subtleCompare a b \<longleftrightarrow>
     (if length a \<noteq> length b then False
      else foldl (\<lambda>diff (x, y). diff OR (byte_word x XOR byte_word y)) 0 (zip a b) = 0)"

definition verifyPassword :: "crypto \<Rightarrow> string \<Rightarrow> string \<Rightarrow> bool" where
  "verifyPassword cr password encoded =
     (case split_at CHR '':'' encoded of
        [a, b] \<Rightarrow> (case (hex_decode a, hex_decode b) of
            (Some salt, Some expected) \<Rightarrow> subtleCompare expected (argon2id cr password salt 1 (64 * 1024) 2 32)
          | _ \<Rightarrow> False)
      | _ \<Rightarrow> False)"

lemma byte_word_eq: "byte_word x = byte_word y \<longleftrightarrow> x = y"
proof
  assume "byte_word x = byte_word y"
  then have "byte x = byte y"
    using byte_less [of x] byte_less [of y] by (simp add: byte_word_def word_of_nat_eq_iff take_bit_nat_eq_self)
  then show "x = y" by (metis of_byte_byte)
qed simp

lemma subtleCompare_eq: "subtleCompare a b \<longleftrightarrow> a = b"
proof -
  have zero: "d OR e = 0 \<longleftrightarrow> d = 0 \<and> e = 0" for d e :: "8 word"
    by (auto simp: bit_eq_iff bit_simps)
  have same: "byte_word x XOR byte_word y = 0 \<longleftrightarrow> x = y" for x y
    by (metis byte_word_eq xor.right_neutral xor_self_eq xor.assoc)
  have "foldl (\<lambda>diff (x, y). diff OR (byte_word x XOR byte_word y)) d (zip a b) = 0 \<longleftrightarrow> d = 0 \<and> a = b"
    if "length a = length b" for d
    using that
  proof (induction a b arbitrary: d rule: list_induct2)
    case Nil
    then show ?case by simp
  next
    case (Cons x xs y ys)
    then show ?case by (simp only: zip_Cons_Cons foldl_Cons case_prod_conv zero same list.inject conj_assoc)
  qed
  then show ?thesis by (auto simp: subtleCompare_def)
qed

text \<open>The hash of a password accepts exactly the passwords with the same derived key.\<close>

lemma colon_free: "CHR '':'' \<notin> set (hex_encode s)"
  using hex_encode_chars [of s] by (auto simp: hex_digits_def)

lemma verify_hashed:
  "verifyPassword cr q (hex_encode salt @ '':'' @ hex_encode key) \<longleftrightarrow> argon2id cr q salt 1 (64 * 1024) 2 32 = key"
  by (auto simp: verifyPassword_def split_at_append_sep split_at_none colon_free hex_decode_encode subtleCompare_eq)

text \<open>
  C22: a user's password hash accepts that password, and in general exactly the passwords
  with the same derived key: hashing and verifying agree through the text
  \<open>salt:key\<close> in hexadecimal.
\<close>

theorem password_hash_exact:
  assumes "hashPassword cr p w = (Inr h, w')"
  shows "verifyPassword cr p h \<and> (\<exists>salt. length salt = 16 \<and>
     (\<forall>q. verifyPassword cr q h \<longleftrightarrow> argon2id cr q salt 1 (64 * 1024) 2 32 = argon2id cr p salt 1 (64 * 1024) 2 32))"
proof -
  from assms obtain f where h: "h = hex_encode (map f [0..<16]) @ '':'' @ hex_encode (argon2id cr p (map f [0..<16]) 1 (64 * 1024) 2 32)"
    by (auto simp: hashPassword_def bnd_def ret_def rand_read_def split: list.splits option.splits)
  show ?thesis unfolding h verify_hashed by (intro conjI exI [of _ "map f [0..<16]"]) simp_all
qed

section \<open>Passwords of share links\<close>

definition hashSharePassword :: "crypto \<Rightarrow> string \<Rightarrow> string srv" where
  "hashSharePassword cr password = bnd (rand_read 16) (\<lambda>salt.
     let key = argon2id cr password salt 1 (64 * 1024) 4 32 in
     ret (''argon2id$v=19$m=65536,t=1,p=4$'' @ base64_encode base64_std salt @ ''$'' @ base64_encode base64_std key))"

text \<open>\<open>strconv.ParseUint(s, 10, 32)\<close>.\<close>

definition parse_uint32 :: "string \<Rightarrow> nat option" where
  "parse_uint32 s = (if s \<noteq> [] \<and> (\<forall>c \<in> set s. is_digit c) \<and> digits_value s < 2 ^ 32 then Some (nat (digits_value s)) else None)"

text \<open>\<open>strings.SplitN(s, c, 2)\<close> when there are two parts.\<close>

definition split_once :: "char \<Rightarrow> string \<Rightarrow> (string \<times> string) option" where
  "split_once c s = (if c \<in> set s then Some (takeWhile (\<lambda>x. x \<noteq> c) s, tl (dropWhile (\<lambda>x. x \<noteq> c) s)) else None)"

fun parse_params :: "string list \<Rightarrow> (string \<Rightarrow> nat) \<Rightarrow> (string \<Rightarrow> nat) option" where
  "parse_params [] ps = Some ps"
| "parse_params (item # items) ps =
     (case split_once CHR ''='' item of
        None \<Rightarrow> None
      | Some (k, v) \<Rightarrow> (case parse_uint32 v of None \<Rightarrow> None | Some n \<Rightarrow> parse_params items (ps(k := n))))"

definition verifySharePassword :: "crypto \<Rightarrow> string \<Rightarrow> string \<Rightarrow> string \<Rightarrow> bool \<times> bool" where
  "verifySharePassword cr password stored legacySalt =
     (if has_prefix stored ''argon2id$'' then
        (case split_at CHR ''$'' stored of
           [_, _, params, a, b] \<Rightarrow>
             (case parse_params (split_at CHR '','' params) (\<lambda>_. 0) of
                None \<Rightarrow> (False, False)
              | Some ps \<Rightarrow>
                  let memory = ps ''m''; time = ps ''t''; threads = ps ''p'' in
                  if memory = 0 \<or> time = 0 \<or> threads = 0 then (False, False)
                  else (case (base64_decode base64_std a, base64_decode base64_std b) of
                      (Some salt, Some want) \<Rightarrow>
                        (argon2id cr password salt time memory (threads mod 256) (length want) = want, False)
                    | _ \<Rightarrow> (False, False)))
         | _ \<Rightarrow> (False, False))
      else (hex_encode (sha256 cr (legacySalt @ '':'' @ password)) = stored, True))"

definition shareUnlockProof :: "crypto \<Rightarrow> string \<Rightarrow> string \<Rightarrow> string \<Rightarrow> string" where
  "shareUnlockProof cr secret linkID passwordHash =
     hex_encode (hmac_sha256 cr secret (''trdriver-share:'' @ linkID @ '':'' @ passwordHash))"

definition validShareUnlockProof :: "crypto \<Rightarrow> string \<Rightarrow> string \<Rightarrow> string \<Rightarrow> string \<Rightarrow> bool" where
  "validShareUnlockProof cr secret linkID passwordHash proof =
     (if passwordHash = [] \<or> proof = [] then False else shareUnlockProof cr secret linkID passwordHash = proof)"

lemma no_dollar: "CHR ''$'' \<notin> set (base64_encode base64_std s)"
  using base64_encode_chars [OF alphabets64(1), of s] by (auto simp: base64_std_def)

lemmas number_defs = split_once_def parse_uint32_def digits_value_def is_digit_def byte_def

lemma verify_shared:
  assumes "crypto_ok cr"
  shows "verifySharePassword cr q (''argon2id$v=19$m=65536,t=1,p=4$'' @ base64_encode base64_std salt @ ''$''
      @ base64_encode base64_std (argon2id cr p salt 1 65536 4 32)) legacy
    = (argon2id cr q salt 1 65536 4 32 = argon2id cr p salt 1 65536 4 32, False)"
proof -
  have "split_at CHR ''$'' (''argon2id$v=19$m=65536,t=1,p=4$'' @ base64_encode base64_std salt @ ''$'' @ x)
    = [''argon2id'', ''v=19'', ''m=65536,t=1,p=4''] @ split_at CHR ''$'' (base64_encode base64_std salt) @ split_at CHR ''$'' x" for x
    using split_at_append_sep [of "CHR ''$''" "base64_encode base64_std salt" x] by simp
  then have parts: "split_at CHR ''$'' (''argon2id$v=19$m=65536,t=1,p=4$'' @ base64_encode base64_std salt @ ''$'' @ base64_encode base64_std k)
    = [''argon2id'', ''v=19'', ''m=65536,t=1,p=4'', base64_encode base64_std salt, base64_encode base64_std k]" for k
    by (simp add: split_at_none no_dollar)
  have pre: "has_prefix (''argon2id$v=19$m=65536,t=1,p=4$'' @ x) ''argon2id$''" for x by (simp add: has_prefix_def)
  have len: "length (argon2id cr p salt (Suc 0) 65536 4 32) = 32" using assms by (simp add: crypto_ok_def)
  show ?thesis
    unfolding verifySharePassword_def parts
    using pre by (simp add: number_defs base64_decode_encode alphabets64 len)
qed

text \<open>
  A new hash of a share link's password accepts exactly the passwords with the same
  derived key and is never taken for a legacy hash, whatever the legacy salt: salt, key
  and parameters are read back from the text as they were written.
\<close>

theorem share_hash_exact:
  assumes "crypto_ok cr" and "hashSharePassword cr p w = (Inr h, w')"
  shows "verifySharePassword cr p h legacy = (True, False) \<and> (\<exists>salt. length salt = 16 \<and>
     (\<forall>q. verifySharePassword cr q h legacy = (argon2id cr q salt 1 65536 4 32 = argon2id cr p salt 1 65536 4 32, False)))"
proof -
  from assms(2) obtain f where h: "h = ''argon2id$v=19$m=65536,t=1,p=4$'' @ base64_encode base64_std (map f [0..<16]) @ ''$''
      @ base64_encode base64_std (argon2id cr p (map f [0..<16]) 1 65536 4 32)"
    by (auto simp: hashSharePassword_def bnd_def ret_def rand_read_def split: list.splits option.splits)
  show ?thesis unfolding h verify_shared [OF assms(1)] by (intro conjI exI [of _ "map f [0..<16]"]) simp_all
qed

section \<open>One-time codes by mail\<close>

abbreviation otpDigits :: nat where "otpDigits \<equiv> 6"

abbreviation maxOTPAttempts :: int where "maxOTPAttempts \<equiv> 5"

text \<open>\<open>fmt.Sprintf("%06d", n)\<close> for a number that is not negative.\<close>

definition pad6 :: "nat \<Rightarrow> string" where
  "pad6 n = (let s = show_nat n in replicate (6 - length s) CHR ''0'' @ s)"

text \<open>
  \<open>rand.Int\<close> returns a uniform number below the bound; here it is made of as many random
  bytes, which is all the code relies on.
\<close>

definition rand_int :: "nat \<Rightarrow> nat srv" where
  "rand_int bound = bnd (rand_read 8) (\<lambda>bs. ret (foldl (\<lambda>n c. 256 * n + byte c) 0 bs mod bound))"

definition generateOTPCode :: "string srv" where
  "generateOTPCode = bnd (rand_int 1000000) (\<lambda>n. ret (pad6 n))"

definition hashOTP :: "crypto \<Rightarrow> string \<Rightarrow> string \<Rightarrow> string" where
  "hashOTP cr secret code = ''hmac-sha256:'' @ hex_encode (hmac_sha256 cr secret (''trdriver-otp:'' @ code))"

definition generateChallengeToken :: "crypto \<Rightarrow> (string \<times> string) srv" where
  "generateChallengeToken cr = newSessionToken cr"

section \<open>Time-based codes\<close>

text \<open>
  \<open>strings.ToUpper\<close> on ASCII letters and on the two other runes whose upper case is an
  ASCII letter, U+0131 and U+017F: other runes never end up in the base 32 alphabet.
\<close>

definition upper_byte :: "char \<Rightarrow> char" where
  "upper_byte c = (let n = byte c in if 97 \<le> n \<and> n \<le> 122 then of_byte (n - 32) else c)"

fun to_upper :: "string \<Rightarrow> string" where
  "to_upper (a # b # s) =
     (if a = CHR 0xC4 \<and> b = CHR 0xB1 then CHR ''I'' # to_upper s
      else if a = CHR 0xC5 \<and> b = CHR 0xBF then CHR ''S'' # to_upper s
      else upper_byte a # to_upper (b # s))"
| "to_upper [a] = [upper_byte a]"
| "to_upper [] = []"

definition GenerateSecret :: "string srv" where
  "GenerateSecret = bnd (rand_read 20) (\<lambda>buf. ret (base32_encode buf))"

text \<open>\<open>binary.BigEndian.PutUint64(msg, uint64(counter))\<close>.\<close>

definition be_bytes :: "64 word \<Rightarrow> string" where
  "be_bytes x = map (\<lambda>i. of_byte (unat (drop_bit (8 * i) x AND 0xFF))) (rev [0..<8])"

text \<open>The dynamic truncation: four bytes of the digest from an offset in its last byte.\<close>

definition truncated :: "string \<Rightarrow> 32 word" where
  "truncated digest =
     (let offset = unat (word_of_nat (byte (last digest)) AND 0x0f :: 8 word);
          b = (\<lambda>i. word_of_nat (byte (digest ! (offset + i))) :: 32 word)
      in push_bit 24 (b 0 AND 0x7f) OR push_bit 16 (b 1) OR push_bit 8 (b 2) OR b 3)"

definition Code :: "crypto \<Rightarrow> string \<Rightarrow> int \<Rightarrow> string option" where
  "Code cr secret counter =
     map_option (\<lambda>key. pad6 (unat (truncated (hmac_sha1 cr key (be_bytes (word_of_int counter))) mod 1000000)))
       (base32_decode (to_upper (trim_space secret)))"

fun match_loop :: "crypto \<Rightarrow> string \<Rightarrow> string \<Rightarrow> int \<Rightarrow> int list \<Rightarrow> int option" where
  "match_loop cr secret code lastCounter [] = None"
| "match_loop cr secret code lastCounter (counter # cs) =
     (if counter \<le> lastCounter then match_loop cr secret code lastCounter cs
      else (case Code cr secret counter of
          None \<Rightarrow> None
        | Some want \<Rightarrow> if want = code then Some counter else match_loop cr secret code lastCounter cs))"

definition Match :: "crypto \<Rightarrow> string \<Rightarrow> string \<Rightarrow> int \<Rightarrow> int \<Rightarrow> int option" where
  "Match cr secret rawCode now lastCounter =
     (let code = trim_space rawCode; current = now div 30 in
      if length code \<noteq> 6 then None
      else match_loop cr secret code lastCounter [current - 1, current, current + 1])"

definition sealKey :: "crypto \<Rightarrow> string \<Rightarrow> string" where
  "sealKey cr key = sha256 cr (''trdriver-totp:'' @ key)"

definition Seal :: "crypto \<Rightarrow> string \<Rightarrow> string \<Rightarrow> string srv" where
  "Seal cr secret key = bnd (rand_read 12) (\<lambda>nonce.
     ret (base64_encode base64_std (nonce @ gcm_seal cr (sealKey cr key) nonce secret)))"

definition Unseal :: "crypto \<Rightarrow> string \<Rightarrow> string \<Rightarrow> string option" where
  "Unseal cr sealed key =
     (case base64_decode base64_std sealed of
        None \<Rightarrow> None
      | Some raw \<Rightarrow> if length raw < 12 then None else gcm_open cr (sealKey cr key) (take 12 raw) (drop 12 raw))"


lemma Unseal_Seal:
  assumes "crypto_ok cr" and "Seal cr secret key w = (Inr sealed, w')"
  shows "Unseal cr sealed key = Some secret"
proof -
  from assms(2) obtain f where "sealed = base64_encode base64_std (map f [0..<12] @ gcm_seal cr (sealKey cr key) (map f [0..<12]) secret)"
    by (auto simp: Seal_def bnd_def ret_def rand_read_def split: list.splits option.splits)
  with assms(1) show ?thesis
    by (simp add: Unseal_def base64_decode_encode alphabets64 crypto_ok_def)
qed

lemma to_upper_base32: "set s \<subseteq> set base32_std \<Longrightarrow> to_upper s = s"
proof (induction s rule: to_upper.induct)
  case (1 a b s)
  have up: "upper_byte c = c" "c \<noteq> CHR 0xC4" "c \<noteq> CHR 0xC5" if "c \<in> set base32_std" for c
    using that by (auto simp: base32_std_def upper_byte_def byte_def)
  from 1 show ?case by (simp add: up)
next
  case (2 a)
  then show ?case by (auto simp: base32_std_def upper_byte_def byte_def)
qed simp

lemma strip_plain: "set s \<inter> set (concat pats) = {} \<Longrightarrow> strip pats s = s"
proof (subst strip.simps)
  assume s: "set s \<inter> set (concat pats) = {}"
  have "\<not> (e \<noteq> [] \<and> has_prefix s e)" if "e \<in> set pats" for e
  proof
    assume e: "e \<noteq> [] \<and> has_prefix s e"
    then obtain t where "s = e @ t" by (auto simp: has_prefix_append)
    with e have "hd e \<in> set s" "hd e \<in> set e" by auto
    with that s show False by auto
  qed
  then have "find (\<lambda>e. e \<noteq> [] \<and> has_prefix s e) pats = None" by (auto simp: find_None_iff)
  then show "(case find (\<lambda>e. e \<noteq> [] \<and> has_prefix s e) pats of None \<Rightarrow> s | Some e \<Rightarrow> strip pats (drop (length e) s)) = s" by simp
qed

lemma trim_space_plain: "set s \<inter> set (concat spaces) = {} \<Longrightarrow> trim_space s = s"
  using strip_plain [of s spaces] strip_plain [of "rev s" "map rev spaces"]
  by (simp add: trim_space_def)

text \<open>The key in a generated secret is read back as it was drawn.\<close>

lemma secret_key: "base32_decode (to_upper (trim_space (base32_encode buf))) = Some buf"
proof -
  have "set base32_std \<inter> set (concat spaces) = {}" by (simp add: base32_std_def spaces_chars)
  then have "trim_space (base32_encode buf) = base32_encode buf"
    using base32_encode_chars [of buf] by (intro trim_space_plain) blast
  then show ?thesis by (simp add: to_upper_base32 base32_encode_chars base32_decode_encode)
qed

section \<open>The truncation is that of RFC 6238\<close>

lemma or_plus: "0 \<le> x \<Longrightarrow> x < 2 ^ k \<Longrightarrow> push_bit k y OR x = y * 2 ^ k + x" for x y :: int
  using concat_bit_eq [of k x y] by (simp add: concat_bit_def or.commute push_bit_eq_mult take_bit_int_eq_self add.commute)

lemma word_of_bytes:
  "push_bit 24 (word_of_int a) OR push_bit 16 (word_of_int b) OR push_bit 8 (word_of_int c) OR word_of_int d
    = (word_of_int (a * 2 ^ 24 + b * 2 ^ 16 + c * 2 ^ 8 + d) :: 32 word)"
  if "0 \<le> b" "b < 256" "0 \<le> c" "c < 256" "0 \<le> d" "d < 256"
proof -
  have "push_bit 24 a OR push_bit 16 b OR push_bit 8 c OR d = a * 2 ^ 24 + (b * 2 ^ 16 + (c * 2 ^ 8 + d))"
    using that by (simp add: or_plus or.assoc)
  then have "push_bit 24 (word_of_int a) OR push_bit 16 (word_of_int b) OR push_bit 8 (word_of_int c) OR word_of_int d
    = (word_of_int (a * 2 ^ 24 + (b * 2 ^ 16 + (c * 2 ^ 8 + d))) :: 32 word)"
    by (simp flip: of_int_or_eq of_int_push_bit)
  then show ?thesis by (simp add: add.assoc)
qed

lemma low_bits: "n AND 127 = n mod 128" "n AND 15 = n mod 16" for n :: nat
  using take_bit_eq_mask [of 7 n] take_bit_eq_mask [of 4 n] by (simp_all add: take_bit_eq_mod mask_eq_exp_minus_1)

definition digest_offset :: "string \<Rightarrow> nat" where
  "digest_offset digest = byte (last digest) mod 16"

lemma truncated_offset: "unat (word_of_nat (byte (last digest)) AND 0x0f :: 8 word) = digest_offset digest"
proof -
  have "(word_of_nat (byte (last digest)) AND 0x0f :: 8 word) = word_of_nat (byte (last digest) AND 15)"
    by (simp add: of_nat_and_eq)
  also have "\<dots> = word_of_nat (byte (last digest) mod 16)" by (simp only: low_bits)
  finally show ?thesis by (simp add: digest_offset_def unat_of_nat)
qed

lemma four_bytes: "a < 128 \<Longrightarrow> b < 256 \<Longrightarrow> c < 256 \<Longrightarrow> d < 256 \<Longrightarrow> a * 2 ^ 24 + b * 2 ^ 16 + c * 2 ^ 8 + d < 2 ^ 32" for a b c d :: nat
  by simp

lemma small_word: "n < 2 ^ 32 \<Longrightarrow> unat (word_of_nat n :: 32 word) = n"
  by (simp add: unat_of_nat)

lemma truncated_value:
  "unat (truncated digest) = (let o' = digest_offset digest; b = (\<lambda>i. byte (digest ! (o' + i)))
     in b 0 mod 128 * 2 ^ 24 + b 1 * 2 ^ 16 + b 2 * 2 ^ 8 + b 3)"
proof -
  let ?b = "\<lambda>i. byte (digest ! (digest_offset digest + i))"
  have top: "(word_of_nat (?b 0) AND 0x7f :: 32 word) = word_of_nat (?b 0 mod 128)"
    by (simp flip: low_bits add: of_nat_and_eq)
  have less: "?b i < 256" for i by simp
  have "truncated digest = push_bit 24 (word_of_int (int (?b 0 mod 128))) OR push_bit 16 (word_of_int (int (?b 1)))
      OR push_bit 8 (word_of_int (int (?b 2))) OR word_of_int (int (?b 3))"
    by (simp only: truncated_def truncated_offset Let_def top of_int_of_nat_eq)
  also have "\<dots> = word_of_int (int (?b 0 mod 128) * 2 ^ 24 + int (?b 1) * 2 ^ 16 + int (?b 2) * 2 ^ 8 + int (?b 3))"
    by (rule word_of_bytes) (use less in \<open>simp_all flip: of_nat_less_iff\<close>)
  also have "\<dots> = word_of_nat (?b 0 mod 128 * 2 ^ 24 + ?b 1 * 2 ^ 16 + ?b 2 * 2 ^ 8 + ?b 3)"
    by simp
  finally have "unat (truncated digest) = unat (word_of_nat (?b 0 mod 128 * 2 ^ 24 + ?b 1 * 2 ^ 16 + ?b 2 * 2 ^ 8 + ?b 3) :: 32 word)"
    by simp
  moreover
  have "?b 0 mod 128 * 2 ^ 24 + ?b 1 * 2 ^ 16 + ?b 2 * 2 ^ 8 + ?b 3 < 2 ^ 32"
    by (rule four_bytes) simp_all
  then have "unat (word_of_nat (?b 0 mod 128 * 2 ^ 24 + ?b 1 * 2 ^ 16 + ?b 2 * 2 ^ 8 + ?b 3) :: 32 word)
    = ?b 0 mod 128 * 2 ^ 24 + ?b 1 * 2 ^ 16 + ?b 2 * 2 ^ 8 + ?b 3"
    by (rule small_word)
  ultimately show ?thesis by (simp only: Let_def)
qed

text \<open>
  \<open>totp_value\<close> is the definition of RFC 6238 and RFC 4226 over the key itself: the digest of
  the counter, four bytes of it as a number in 31 bits, the last six decimal digits.
\<close>

definition totp_value :: "crypto \<Rightarrow> string \<Rightarrow> int \<Rightarrow> nat" where
  "totp_value cr key counter =
     (let digest = hmac_sha1 cr key (be_bytes (word_of_int counter)); i = byte (last digest) mod 16
      in (byte (digest ! i) mod 128 * 2 ^ 24 + byte (digest ! (i + 1)) * 2 ^ 16
          + byte (digest ! (i + 2)) * 2 ^ 8 + byte (digest ! (i + 3))) mod 10 ^ 6)"

lemma Code_value:
  "base32_decode (to_upper (trim_space secret)) = Some key \<Longrightarrow> Code cr secret counter = Some (pad6 (totp_value cr key counter))"
  by (simp add: Code_def totp_value_def truncated_value unat_mod digest_offset_def Let_def)

lemma pad6_length: "n < 10 ^ 6 \<Longrightarrow> length (pad6 n) = 6"
proof -
  have "length (show_nat n) \<le> k" if "n < 10 ^ k" "0 < k" for n k
    using that
  proof (induction k arbitrary: n)
    case 0
    then show ?case by simp
  next
    case (Suc k)
    show ?case
    proof (cases "n < 10")
      case True
      then show ?thesis by (simp add: show_nat.simps)
    next
      case False
      with Suc.prems have "n div 10 < 10 ^ k" "0 < k"
        by (auto simp: less_mult_imp_div_less mult.commute intro: ccontr)
      with Suc.IH [of "n div 10"] False show ?thesis by (simp add: show_nat.simps [of n])
    qed
  qed
  from this [of n 6] show "n < 10 ^ 6 \<Longrightarrow> length (pad6 n) = 6" by (simp add: pad6_def Let_def)
qed

lemma trim_space_digits: "trim_space (pad6 n) = pad6 n"
proof (rule trim_space_plain)
  have "set (pad6 n) \<subseteq> set ''0123456789''" using show_nat_chars [of n] by (auto simp: pad6_def Let_def)
  then show "set (pad6 n) \<inter> set (concat spaces) = {}" by (auto simp: spaces_chars)
qed

lemma match_loop_Some:
  "match_loop cr secret code l cs = Some c \<Longrightarrow> c \<in> set cs \<and> l < c \<and> Code cr secret c = Some code"
  by (induction cs) (auto split: if_splits option.splits)

lemma match_loop_None:
  "match_loop cr secret code l cs = None \<Longrightarrow> \<forall>c \<in> set cs. Code cr secret c \<noteq> None \<Longrightarrow> \<forall>c \<in> set cs. l < c \<longrightarrow> Code cr secret c \<noteq> Some code"
  by (induction cs) (auto split: if_splits option.splits)

text \<open>
  C24: time-based codes are those of RFC 6238. For a secret that \<open>GenerateSecret\<close> made of
  twenty random bytes, \<open>Match\<close> accepts a code exactly when it is, after trimming, the six
  digits of the standard's value for one of the three 30 second windows around now that
  is newer than the last counter used; the counter returned is such a window. No code is
  accepted for a counter used before.
\<close>

theorem totp_is_rfc6238:
  assumes "GenerateSecret w = (Inr secret, w')"
  shows "\<exists>key. length key = 20 \<and>
    (\<forall>code now l. case Match cr secret code now l of
        Some c \<Rightarrow> l < c \<and> c \<in> {now div 30 - 1 .. now div 30 + 1} \<and> trim_space code = pad6 (totp_value cr key c)
      | None \<Rightarrow> \<forall>c \<in> {now div 30 - 1 .. now div 30 + 1}. l < c \<longrightarrow> trim_space code \<noteq> pad6 (totp_value cr key c))"
proof -
  from assms obtain f where "secret = base32_encode (map f [0..<20])"
    by (auto simp: GenerateSecret_def bnd_def ret_def rand_read_def split: list.splits option.splits)
  then have code: "Code cr secret c = Some (pad6 (totp_value cr (map f [0..<20]) c))" for c
    by (simp add: Code_value secret_key)
  have digits: "length (pad6 (totp_value cr (map f [0..<20]) c)) = 6" for c
    by (rule pad6_length) (simp add: totp_value_def Let_def)
  have window: "set [now div 30 - 1, now div 30, now div 30 + 1] = {now div 30 - 1 .. now div 30 + 1}" for now :: int
    by auto
  have "case Match cr secret t now l of
        Some c \<Rightarrow> l < c \<and> c \<in> {now div 30 - 1 .. now div 30 + 1} \<and> trim_space t = pad6 (totp_value cr (map f [0..<20]) c)
      | None \<Rightarrow> \<forall>c \<in> {now div 30 - 1 .. now div 30 + 1}. l < c \<longrightarrow> trim_space t \<noteq> pad6 (totp_value cr (map f [0..<20]) c)" for t now l
  proof (cases "length (trim_space t) = 6")
    case False
    with digits show ?thesis by (auto simp: Match_def Let_def)
  next
    case True
    have m: "Match cr secret t now l = match_loop cr secret (trim_space t) l [now div 30 - 1, now div 30, now div 30 + 1]"
      using True by (simp only: Match_def Let_def if_not_P not_not simp_thms)
    show ?thesis
    proof (cases "match_loop cr secret (trim_space t) l [now div 30 - 1, now div 30, now div 30 + 1]")
      case None
      from match_loop_None [OF this] show ?thesis unfolding m None window by (auto simp: code)
    next
      case (Some c)
      from match_loop_Some [OF this] show ?thesis unfolding m Some window by (auto simp: code)
    qed
  qed
  then show ?thesis by (intro exI [of _ "map f [0..<20]"]) simp
qed

end
