(* ===== verification/Accounts.thy ===== *)
theory Accounts
  imports Secrets Drives Uploads
begin

text \<open>
  \<open>internal/auth/service.go\<close> and the admission of \<open>internal/license/service.go\<close>:
  registration, sign-in by password, browser sessions, device tokens, and the limit on
  failed attempts. \<open>mail.ParseAddress\<close> is a parameter: \<open>parse_address s\<close> is the address in
  \<open>s\<close>.
\<close>

section \<open>The limit on attempts\<close>

definition pruneAfter :: "int \<Rightarrow> int list \<Rightarrow> int list" where
  "pruneAfter after items = filter (\<lambda>t. after < t) items"

definition sweep :: "int \<Rightarrow> limiter \<Rightarrow> limiter" where
  "sweep now l =
     (if now - swept l < 60 then l
      else \<lparr>tried = (\<lambda>k. case tried l k of
                None \<Rightarrow> None
              | Some es \<Rightarrow> let es' = pruneAfter (now - 600) es in if es' = [] then None else Some es'),
            swept = now\<rparr>)"

definition attempts_of :: "limiter \<Rightarrow> string \<Rightarrow> int list" where
  "attempts_of l key = (case tried l key of None \<Rightarrow> [] | Some es \<Rightarrow> es)"

definition lim_blocked :: "int \<Rightarrow> string \<Rightarrow> limiter \<Rightarrow> bool \<times> limiter" where
  "lim_blocked now key l0 =
     (let l = sweep now l0; es = pruneAfter (now - 600) (attempts_of l key)
      in (10 \<le> length es, l\<lparr>tried := (tried l)(key \<mapsto> es)\<rparr>))"

definition lim_add :: "int \<Rightarrow> string \<Rightarrow> limiter \<Rightarrow> limiter" where
  "lim_add now key l0 =
     (let l = sweep now l0; es = pruneAfter (now - 600) (attempts_of l key) @ [now]
      in l\<lparr>tried := (tried l)(key \<mapsto> es)\<rparr>)"

definition blocked :: "string \<Rightarrow> bool srv" where
  "blocked key = (\<lambda>w. let (b, l) = lim_blocked (clock w) key (login_limiter w) in (Inr b, w\<lparr>login_limiter := l\<rparr>))"

definition limiter_add :: "string \<Rightarrow> unit srv" where
  "limiter_add key = modw (\<lambda>w. w\<lparr>login_limiter := lim_add (clock w) key (login_limiter w)\<rparr>)"

text \<open>
  What the limiter is for: \<open>recent hist now\<close> are the attempts of a key in the last ten
  minutes. A history is a list of operations, each with its time and key.
\<close>

datatype lim_op = Probe | Failed

definition times :: "(lim_op \<times> int \<times> string) list \<Rightarrow> int list" where
  "times ops = map (\<lambda>(_, t, _). t) ops"

lemma times_simps [simp]: "times [] = []" "times ((p, t, k) # ops) = t # times ops"
  by (simp_all add: times_def)

fun lim_run :: "(lim_op \<times> int \<times> string) list \<Rightarrow> limiter \<Rightarrow> limiter" where
  "lim_run [] l = l"
| "lim_run ((Probe, t, k) # ops) l = lim_run ops (snd (lim_blocked t k l))"
| "lim_run ((Failed, t, k) # ops) l = lim_run ops (lim_add t k l)"

definition failures :: "string \<Rightarrow> (lim_op \<times> int \<times> string) list \<Rightarrow> int list" where
  "failures key ops = times (filter (\<lambda>(p, t, k). p = Failed \<and> k = key) ops)"

definition tracks :: "(string \<Rightarrow> int list) \<Rightarrow> int \<Rightarrow> limiter \<Rightarrow> bool" where
  "tracks hist t0 l \<longleftrightarrow> (\<forall>key t. t0 \<le> t \<longrightarrow> pruneAfter (t - 600) (attempts_of l key) = pruneAfter (t - 600) (hist key))"

lemma pruneAfter_twice: "a \<le> b \<Longrightarrow> pruneAfter b (pruneAfter a xs) = pruneAfter b xs"
  by (auto simp: pruneAfter_def intro!: filter_cong)

lemma tracks_later: "tracks hist t0 l \<Longrightarrow> t0 \<le> t1 \<Longrightarrow> tracks hist t1 l"
  by (simp add: tracks_def)

lemma attempts_of_upd [simp]: "attempts_of (l\<lparr>tried := (tried l)(key \<mapsto> es)\<rparr>) k = (if k = key then es else attempts_of l k)"
  by (simp add: attempts_of_def)

lemma sweep_attempts: "attempts_of (sweep now l) key = attempts_of l key \<or> attempts_of (sweep now l) key = pruneAfter (now - 600) (attempts_of l key)"
  by (auto simp: sweep_def attempts_of_def Let_def pruneAfter_def split: option.split)

lemma tracks_sweep: "tracks hist t l \<Longrightarrow> tracks hist t (sweep t l)"
  unfolding tracks_def
proof (intro allI impI)
  fix key u
  assume tr: "\<forall>key ta. t \<le> ta \<longrightarrow> pruneAfter (ta - 600) (attempts_of l key) = pruneAfter (ta - 600) (hist key)" and "t \<le> u"
  then have "pruneAfter (u - 600) (attempts_of (sweep t l) key) = pruneAfter (u - 600) (attempts_of l key)"
    using sweep_attempts [of t l key] by (auto simp: pruneAfter_twice)
  with tr \<open>t \<le> u\<close> show "pruneAfter (u - 600) (attempts_of (sweep t l) key) = pruneAfter (u - 600) (hist key)" by simp
qed

lemma tracks_blocked:
  assumes "tracks hist t l"
  shows "tracks hist t (snd (lim_blocked t k l))" and "fst (lim_blocked t k l) \<longleftrightarrow> 10 \<le> length (pruneAfter (t - 600) (hist k))"
  using tracks_sweep [OF assms] by (auto simp: lim_blocked_def Let_def tracks_def pruneAfter_twice)

lemma pruneAfter_append [simp]: "pruneAfter a (xs @ ys) = pruneAfter a xs @ pruneAfter a ys"
  by (simp add: pruneAfter_def)

lemma tracks_add: "tracks hist t l \<Longrightarrow> tracks (hist(k := hist k @ [t])) t (lim_add t k l)"
  using tracks_sweep [of hist t l] by (auto simp: lim_add_def Let_def tracks_def pruneAfter_twice)

lemma lim_run_tracks:
  assumes "tracks hist t0 l" and "sorted (t0 # times ops)"
  shows "tracks (\<lambda>k. hist k @ failures k ops) (last (t0 # times ops)) (lim_run ops l)"
  using assms
proof (induction ops arbitrary: hist t0 l)
  case Nil
  then show ?case by (simp add: failures_def)
next
  case (Cons op ops)
  obtain p t k where op: "op = (p, t, k)" by (cases op)
  with Cons.prems have le: "t0 \<le> t" "sorted (t # times ops)" by auto
  note tr = tracks_later [OF Cons.prems(1) le(1)]
  show ?case
  proof (cases p)
    case Probe
    have "(\<lambda>k'. hist k' @ failures k' ((Probe, t, k) # ops)) = (\<lambda>k'. hist k' @ failures k' ops)"
      by (auto simp: failures_def)
    with Cons.IH [OF tracks_blocked(1) [OF tr, of k] le(2)] show ?thesis by (simp add: op Probe)
  next
    case Failed
    have "(\<lambda>k'. hist k' @ failures k' ((Failed, t, k) # ops)) = (\<lambda>k'. (hist(k := hist k @ [t])) k' @ failures k' ops)"
      by (auto simp: failures_def)
    with Cons.IH [OF tracks_add [OF tr, of k] le(2)] show ?thesis by (simp add: op Failed)
  qed
qed

text \<open>
  C37: the limiter is a sliding window. After any history of probes and failed attempts,
  of any keys, in the order of their times, a key is refused exactly when ten or more of
  its attempts failed in the ten minutes before: sweeping and pruning forget nothing
  that still counts, and no key suffers from the attempts of another.
\<close>

theorem limiter_is_window:
  assumes "sorted (times ops @ [now])"
  shows "fst (lim_blocked now key (lim_run ops \<lparr>tried = (\<lambda>_. None), swept = s\<rparr>))
    \<longleftrightarrow> 10 \<le> length (filter (\<lambda>t. now - 600 < t) (failures key ops))"
proof -
  let ?ts = "times ops"
  obtain t0 where t0: "sorted (t0 # ?ts @ [now])"
  proof (cases "?ts")
    case Nil
    then show ?thesis using that [of now] by simp
  next
    case (Cons t ts)
    then show ?thesis using that [of t] assms by auto
  qed
  have "tracks (\<lambda>_. []) t0 \<lparr>tried = (\<lambda>_. None), swept = s\<rparr>" by (simp add: tracks_def attempts_of_def pruneAfter_def)
  with t0 have "tracks (\<lambda>k. [] @ failures k ops) (last (t0 # ?ts)) (lim_run ops \<lparr>tried = (\<lambda>_. None), swept = s\<rparr>)"
    by (intro lim_run_tracks) (auto simp: sorted_append)
  moreover have "last (t0 # ?ts) \<le> now" using t0 last_in_set [of ?ts] by (auto simp: sorted_append)
  ultimately have "tracks (\<lambda>k. failures k ops) now (lim_run ops \<lparr>tried = (\<lambda>_. None), swept = s\<rparr>)"
    by (auto intro: tracks_later)
  from tracks_blocked(2) [OF this] show ?thesis by (simp add: pruneAfter_def)
qed

section \<open>Who is signed in\<close>

text \<open>\<open>domain.User\<close> as the services fill it in.\<close>

record account =
  acc_user :: user_row
  acc_quota :: int
  acc_batch :: int
  acc_chunk :: int
  acc_drive :: "uuid option"
  acc_device :: "uuid option"

definition maxBatchBytes :: "config \<Rightarrow> int srv" where
  "maxBatchBytes cfg =
     bnd (result (db_stmt (row (\<lambda>d. map_of (settings d) ''max_upload_batch_bytes'')))) (\<lambda>r.
     ret (case r of
        Inl _ \<Rightarrow> MaxUploadBatchBytes cfg
      | Inr raw \<Rightarrow> (case parse_int64 raw of
            None \<Rightarrow> MaxUploadBatchBytes cfg
          | Some n \<Rightarrow> if n \<le> 0 then MaxUploadBatchBytes cfg else n)))"

definition account_of :: "config \<Rightarrow> user_row \<Rightarrow> account srv" where
  "account_of cfg u = bnd (maxBatchBytes cfg) (\<lambda>mb.
     ret \<lparr>acc_user = u, acc_quota = u_quota u + u_bonus u, acc_batch = mb, acc_chunk = UploadChunkBytes cfg,
       acc_drive = None, acc_device = None\<rparr>)"

text \<open>A row of \<open>users\<close> read into the struct: a null root folder cannot be read.\<close>

definition user_query :: "(world \<Rightarrow> user_row option) \<Rightarrow> user_row stmt" where
  "user_query g = (\<lambda>w. case g w of
       None \<Rightarrow> Inl NoRows
     | Some u \<Rightarrow> if u_root u = None then Inl (Msg ''cannot scan NULL'') else Inr (u, w))"

definition user_by_email :: "string \<Rightarrow> database \<Rightarrow> user_row option" where
  "user_by_email email d = find (\<lambda>u. u_email u = email) (users d)"

definition insert_session :: "uuid \<Rightarrow> string \<Rightarrow> int \<Rightarrow> unit stmt" where
  "insert_session user tokenHash expires = checked (\<lambda>w.
     if user_of (db w) user = None then None
     else Some ((), w\<lparr>db := (db w)\<lparr>web_sessions := web_sessions (db w) @
       [\<lparr>ws_user = user, ws_token = tokenHash, ws_expires = expires\<rparr>]\<rparr>\<rparr>))"

section \<open>Registration\<close>

function rune_count :: "string \<Rightarrow> nat" where
  "rune_count [] = 0"
| "rune_count (c # s) = Suc (rune_count (drop (max 1 (rune_width (c # s))) (c # s)))"
  by pat_completeness auto
termination
  by (relation "measure length") auto

text \<open>The \<open>LicenseGate\<close>: the licence service of the repository never limits the seats.\<close>

definition RegistrationAllowed :: "bool \<Rightarrow> unit srv" where
  "RegistrationAllowed allowed =
     (if allowed then ret ()
      else bnd (result (db_stmt (sel (\<lambda>d. length (users d))))) (\<lambda>r.
        require (case r of Inl _ \<Rightarrow> True | Inr n \<Rightarrow> n = 0) (Msg ''public registration is disabled'')))"

definition EnsureCanAddUser :: "unit srv" where
  "EnsureCanAddUser = ret ()"

definition defaultQuotaBytes :: "config \<Rightarrow> int srv" where
  "defaultQuotaBytes cfg =
     bnd (result (db_stmt (row (\<lambda>d. map_of (settings d) ''default_quota_bytes'')))) (\<lambda>r.
     let fallback = (if 0 < FreeQuotaBytes cfg then FreeQuotaBytes cfg else 5 * 1024 * 1024 * 1024) in
     ret (case r of
        Inl _ \<Rightarrow> fallback
      | Inr raw \<Rightarrow> (case parse_int64 (trim_space raw) of None \<Rightarrow> fallback | Some n \<Rightarrow> if 0 \<le> n then n else fallback)))"

text \<open>The new row: the first user of a site without an administrator becomes one.\<close>

definition insert_user :: "string \<Rightarrow> string \<Rightarrow> string \<Rightarrow> int \<Rightarrow> user_row stmt" where
  "insert_user email pw name quota = checked (\<lambda>w.
     let d = db w; role = (if \<exists>u \<in> set (users d). u_role u = ''admin'' then ''user'' else ''admin'');
         u = user_row (fresh w) email pw name role ''free'' quota (clock w)
     in if (\<exists>x \<in> set (users d). u_email x = email) \<or> (\<forall>p \<in> set (plans d). pl_code p \<noteq> ''free'')
          \<or> \<not> text_ok email \<or> \<not> text_ok name then None
        else Some (u, w\<lparr>fresh := Suc (fresh w), db := d\<lparr>users := users d @ [u]\<rparr>\<rparr>))"

definition register_tx :: "crypto \<Rightarrow> config \<Rightarrow> bool option \<Rightarrow> string \<Rightarrow> string \<Rightarrow> string \<Rightarrow> (account \<times> string) srv" where
  "register_tx cr cfg license email pw name =
     bnd (tx_stmt (sel (\<lambda>_. ()))) (\<lambda>_.
     bnd (if license = None then ret () else EnsureCanAddUser) (\<lambda>_.
     bnd (defaultQuotaBytes cfg) (\<lambda>quota.
     bnd (tx_stmt (insert_user email pw name quota)) (\<lambda>u.
     bnd new_uuid (\<lambda>rootID.
     bnd (getw clock) (\<lambda>now.
     bnd (tx_stmt (\<lambda>w. try_upd (insert_entry (sql_lower w)
       (entry_row rootID (u_id u) None None ''/'' Folder (RootKey (u_id u)) 0 ''inode/directory'' now)) w)) (\<lambda>_.
     bnd new_uuid (\<lambda>driveID.
     bnd (tx_stmt (checked (insert_drive \<lparr>d_id = driveID, d_kind = Personal, d_name = ''My Drive'', d_owner = u_id u,
       d_root = Some rootID, d_created = now\<rparr>))) (\<lambda>_.
     bnd (tx_stmt (upd (update_entry rootID (\<lambda>f. f\<lparr>fe_drive := Some driveID\<rparr>)))) (\<lambda>_.
     bnd (tx_stmt (checked (put_member False \<lparr>m_drive = driveID, m_user = u_id u, m_role = ''manager'', m_created = now\<rparr>))) (\<lambda>_.
     bnd (tx_stmt (upd (update_user (u_id u) (\<lambda>u. u\<lparr>u_root := Some rootID\<rparr>)))) (\<lambda>_.
     bnd (newSessionToken cr) (\<lambda>(token, tokenHash).
     bnd (tx_stmt (insert_session (u_id u) tokenHash (now + SessionTTL cfg))) (\<lambda>_.
     ret (\<lparr>acc_user = u\<lparr>u_root := Some rootID\<rparr>, acc_quota = u_quota u, acc_batch = 0, acc_chunk = 0,
       acc_drive = Some driveID, acc_device = None\<rparr>, token)))))))))))))))"

definition Register :: "crypto \<Rightarrow> (string \<Rightarrow> string option) \<Rightarrow> config \<Rightarrow> bool option \<Rightarrow> string \<Rightarrow> string \<Rightarrow> string
    \<Rightarrow> (account \<times> string) srv" where
  "Register cr parse_address cfg license rawEmail password rawName =
     (let email = to_lower (trim_space rawEmail); name = trim_space rawName in
      bnd (require (email \<noteq> [] \<and> password \<noteq> [] \<and> name \<noteq> []) (Msg ''email, password and display name are required'')) (\<lambda>_.
      bnd (require (map_option to_lower (parse_address email) = Some email \<and> length email \<le> 254) (Msg ''invalid email address'')) (\<lambda>_.
      bnd (require (8 \<le> length password \<and> length password \<le> 128) (Msg ''password must be between 8 and 128 characters'')) (\<lambda>_.
      bnd (require (rune_count name \<le> 100) (Msg ''display name is too long'')) (\<lambda>_.
      bnd (case license of None \<Rightarrow> ret () | Some allowed \<Rightarrow> RegistrationAllowed allowed) (\<lambda>_.
      bnd (hashPassword cr password) (\<lambda>pw.
      with_tx (register_tx cr cfg license email pw name))))))))"

section \<open>Passwords and sessions\<close>

text \<open>\<open>net.SplitHostPort\<close>: the host, when the text has a host and a port.\<close>

definition split_host_port :: "string \<Rightarrow> string option" where
  "split_host_port s =
     (if CHR '':'' \<notin> set s then None
      else
        let n = length (takeWhile (\<lambda>c. c \<noteq> CHR '':'') (rev s)); i = length s - 1 - n in
        if has_prefix s ''['' then
          (let e = length (takeWhile (\<lambda>c. c \<noteq> CHR '']'') s); host = take (e - 1) (tl s); rest = drop (e + 1) s in
           if CHR '']'' \<notin> set s \<or> e + 1 \<noteq> i then None
           else if CHR ''['' \<in> set (tl s) \<or> CHR '']'' \<in> set rest then None
           else Some host)
        else if CHR '':'' \<in> set (take i s) \<or> CHR ''['' \<in> set s \<or> CHR '']'' \<in> set s then None
        else Some (take i s))"

definition authenticatePassword :: "crypto \<Rightarrow> config \<Rightarrow> string \<Rightarrow> string \<Rightarrow> string \<Rightarrow> account srv" where
  "authenticatePassword cr cfg remoteAddr email password =
     (let host = (case split_host_port remoteAddr of None \<Rightarrow> remoteAddr | Some h \<Rightarrow> h) in
      bnd (blocked host) (\<lambda>b.
      bnd (require (\<not> b) ErrRateLimited) (\<lambda>_.
      bnd (result (db_stmt (user_query (\<lambda>w. user_by_email (to_lower (trim_space email)) (db w))))) (\<lambda>r.
      case r of
        Inl e \<Rightarrow> bnd (limiter_add host) (\<lambda>_. fail (no_rows ErrInvalidCredentials e))
      | Inr u \<Rightarrow>
          bnd (account_of cfg u) (\<lambda>acc.
          if verifyPassword cr password (u_pw u) then ret acc
          else bnd (limiter_add host) (\<lambda>_. fail ErrInvalidCredentials))))))"

definition Logout :: "crypto \<Rightarrow> string \<Rightarrow> unit srv" where
  "Logout cr token = db_stmt (upd (\<lambda>d. d\<lparr>web_sessions := filter (\<lambda>s. ws_token s \<noteq> hashToken cr token) (web_sessions d)\<rparr>))"

text \<open>The join of the sessions with their users; the first row counts.\<close>

definition session_user :: "string \<Rightarrow> world \<Rightarrow> user_row option" where
  "session_user tokenHash w =
     (case concat (map (\<lambda>s. case user_of (db w) (ws_user s) of None \<Rightarrow> [] | Some u \<Rightarrow> [u])
        (filter (\<lambda>s. ws_token s = tokenHash \<and> clock w < ws_expires s) (web_sessions (db w)))) of
        [] \<Rightarrow> None
      | u # _ \<Rightarrow> Some u)"

definition UserBySession :: "crypto \<Rightarrow> config \<Rightarrow> string \<Rightarrow> account srv" where
  "UserBySession cr cfg token = bnd (db_stmt (user_query (session_user (hashToken cr token)))) (account_of cfg)"

section \<open>Devices\<close>

definition insert_device :: "uuid \<Rightarrow> string \<Rightarrow> string \<Rightarrow> int option \<Rightarrow> device_row stmt" where
  "insert_device user name tokenHash expires = checked (\<lambda>w.
     let d = db w; v = \<lparr>dv_id = fresh w, dv_user = user, dv_name = name, dv_token = tokenHash, dv_created = clock w,
       dv_seen = clock w, dv_expires = expires, dv_revoked = None\<rparr>
     in if user_of d user = None \<or> \<not> text_ok name \<or> (\<exists>x \<in> set (devices d). dv_token x = tokenHash) then None
        else Some (v, w\<lparr>fresh := Suc (fresh w), db := d\<lparr>devices := devices d @ [v]\<rparr>\<rparr>))"

definition CreateDevice :: "crypto \<Rightarrow> config \<Rightarrow> uuid \<Rightarrow> string \<Rightarrow> (device_row \<times> string) srv" where
  "CreateDevice cr cfg user rawName =
     (let name = trim_space rawName in
      bnd (require (name \<noteq> [] \<and> rune_count name \<le> 100) (Msg ''device name is required and must be at most 100 characters'')) (\<lambda>_.
      bnd (newSessionToken cr) (\<lambda>(token, tokenHash).
      bnd (getw clock) (\<lambda>now.
      let expires = (if 0 < DeviceTokenTTL cfg then Some (now + DeviceTokenTTL cfg) else None) in
      bnd (db_stmt (insert_device user name tokenHash expires)) (\<lambda>v. ret (v, token))))))"

definition ListDevices :: "uuid \<Rightarrow> device_row list srv" where
  "ListDevices user = db_stmt (sel (\<lambda>d. rev (sort_key dv_created (filter (\<lambda>v. dv_user v = user \<and> dv_revoked v = None) (devices d)))))"

text \<open>An update together with the number of rows it has changed.\<close>

definition revoke_devices :: "(device_row \<Rightarrow> bool) \<Rightarrow> nat stmt" where
  "revoke_devices P = (\<lambda>w. let hit = (\<lambda>v. P v \<and> dv_revoked v = None) in
     Inr (length (filter hit (devices (db w))),
       w\<lparr>db := (db w)\<lparr>devices := map (\<lambda>v. if hit v then v\<lparr>dv_revoked := Some (clock w)\<rparr> else v) (devices (db w))\<rparr>\<rparr>))"

definition RevokeDevice :: "uuid \<Rightarrow> uuid \<Rightarrow> unit srv" where
  "RevokeDevice user device =
     bnd (db_stmt (revoke_devices (\<lambda>v. dv_id v = device \<and> dv_user v = user))) (\<lambda>n.
     require (n \<noteq> 0) (Msg ''device not found''))"

definition live_device :: "int \<Rightarrow> device_row \<Rightarrow> bool" where
  "live_device now v \<longleftrightarrow> dv_revoked v = None \<and> (case dv_expires v of None \<Rightarrow> True | Some t \<Rightarrow> now < t)"

definition device_user :: "string \<Rightarrow> world \<Rightarrow> (user_row \<times> device_row) option" where
  "device_user tokenHash w =
     (case find (\<lambda>v. dv_token v = tokenHash \<and> live_device (clock w) v) (devices (db w)) of
        None \<Rightarrow> None
      | Some v \<Rightarrow> map_option (\<lambda>u. (u, v)) (user_of (db w) (dv_user v)))"

definition UserByDeviceToken :: "crypto \<Rightarrow> config \<Rightarrow> string \<Rightarrow> (account \<times> uuid) srv" where
  "UserByDeviceToken cr cfg token =
     bnd (with_tx (
       bnd (tx_stmt (\<lambda>w. case device_user (hashToken cr token) w of
           None \<Rightarrow> Inl NoRows
         | Some (u, v) \<Rightarrow> if u_root u = None then Inl (Msg ''cannot scan NULL'') else Inr ((u, v), w))) (\<lambda>(u, v).
       bnd (tx_stmt (\<lambda>w. upd (\<lambda>d. d\<lparr>devices := map (\<lambda>x. if dv_id x = dv_id v then x\<lparr>dv_seen := clock w\<rparr> else x) (devices d)\<rparr>) w)) (\<lambda>_.
       ret (u, v))))) (\<lambda>(u, v).
     bnd (account_of cfg u) (\<lambda>acc. ret (acc\<lparr>acc_device := Some (dv_id v)\<rparr>, dv_id v)))"


end
