(* ===== verification/SignIn.thy ===== *)
theory SignIn
  imports Accounts
begin

text \<open>
  \<open>internal/auth/security.go\<close>: the second factor by mail and by authenticator, the reset
  of a password, sign-in by QR code. A mail service is a parameter, the record \<open>mailer\<close>
  (the interface \<open>MailSender\<close>); there may be none. Texts of mails are given in English.
\<close>

record mailer =
  mail_configured :: "bool srv"
  mail_send :: "string \<Rightarrow> string \<Rightarrow> string \<Rightarrow> unit srv"

record login_result =
  lr_user :: "account option"
  lr_requires :: bool
  lr_method :: string
  lr_challenge :: string
  lr_session :: string

abbreviation signed_in :: "account option \<Rightarrow> string \<Rightarrow> login_result" where
  "signed_in u session \<equiv> \<lparr>lr_user = u, lr_requires = False, lr_method = [], lr_challenge = [], lr_session = session\<rparr>"

abbreviation second_factor :: "string \<Rightarrow> string \<Rightarrow> login_result" where
  "second_factor m challenge \<equiv> \<lparr>lr_user = None, lr_requires = True, lr_method = m, lr_challenge = challenge, lr_session = []\<rparr>"

section \<open>Settings of a user\<close>

definition SecurityStatus :: "mailer option \<Rightarrow> uuid \<Rightarrow> (bool \<times> bool \<times> bool) srv" where
  "SecurityStatus mail user =
     bnd (db_stmt (row (\<lambda>d. user_of d user))) (\<lambda>u.
     case mail of
       None \<Rightarrow> ret (u_email_2fa u, u_totp_enabled u, False)
     | Some m \<Rightarrow> bnd (result (mail_configured m)) (\<lambda>r.
         ret (u_email_2fa u, u_totp_enabled u, case r of Inl _ \<Rightarrow> False | Inr b \<Rightarrow> b)))"

definition mail_ready :: "mailer option \<Rightarrow> mailer srv" where
  "mail_ready mail = (case mail of
      None \<Rightarrow> fail ErrMailRequired
    | Some m \<Rightarrow> bnd (mail_configured m) (\<lambda>ok. bnd (require ok ErrMailRequired) (\<lambda>_. ret m)))"

definition SetEmail2FA :: "crypto \<Rightarrow> mailer option \<Rightarrow> uuid \<Rightarrow> string \<Rightarrow> bool \<Rightarrow> unit srv" where
  "SetEmail2FA cr mail user password enabled =
     bnd (db_stmt (row (\<lambda>d. user_of d user))) (\<lambda>u.
     bnd (require (verifyPassword cr password (u_pw u)) ErrInvalidCredentials) (\<lambda>_.
     bnd (if enabled then bnd (mail_ready mail) (\<lambda>_. ret ()) else ret ()) (\<lambda>_.
     db_stmt (upd (update_user user (\<lambda>u. u\<lparr>u_email_2fa := enabled\<rparr>))))))"

section \<open>Challenges\<close>

abbreviation otpTTL :: int where "otpTTL \<equiv> 600"

abbreviation qrLoginTTL :: int where "qrLoginTTL \<equiv> 180"

definition consume_open :: "uuid \<Rightarrow> string \<Rightarrow> unit stmt" where
  "consume_open user purpose = (\<lambda>w. upd (\<lambda>d. d\<lparr>challenges := map (\<lambda>c.
     if ch_user c = user \<and> ch_purpose c = purpose \<and> ch_consumed c = None then c\<lparr>ch_consumed := Some (clock w)\<rparr> else c) (challenges d)\<rparr>) w)"

definition insert_challenge :: "uuid \<Rightarrow> string \<Rightarrow> string \<Rightarrow> string \<Rightarrow> int \<Rightarrow> unit stmt" where
  "insert_challenge user purpose code tokenHash expires = checked (\<lambda>w.
     if user_of (db w) user = None then None
     else Some ((), w\<lparr>fresh := Suc (fresh w), db := (db w)\<lparr>challenges := challenges (db w) @
       [\<lparr>ch_id = fresh w, ch_user = user, ch_purpose = purpose, ch_code = code, ch_token = tokenHash, ch_expires = expires,
         ch_consumed = None, ch_attempts = 0, ch_created = clock w\<rparr>]\<rparr>\<rparr>))"

definition createChallenge :: "crypto \<Rightarrow> config \<Rightarrow> uuid \<Rightarrow> string \<Rightarrow> (string \<times> string) srv" where
  "createChallenge cr cfg user purpose =
     bnd generateOTPCode (\<lambda>code.
     bnd (generateChallengeToken cr) (\<lambda>(token, tokenHash).
     bnd (ignore (db_stmt (consume_open user purpose))) (\<lambda>_.
     bnd (getw clock) (\<lambda>now.
     bnd (db_stmt (insert_challenge user purpose (hashOTP cr (SessionSecret cfg) code) tokenHash (now + otpTTL))) (\<lambda>_.
     ret (code, token))))))"

text \<open>A challenge that is still open, and the updates of one row.\<close>

definition open_challenge :: "int \<Rightarrow> challenge_row \<Rightarrow> bool" where
  "open_challenge now c \<longleftrightarrow> ch_consumed c = None \<and> now < ch_expires c"

definition update_challenge :: "uuid \<Rightarrow> (challenge_row \<Rightarrow> challenge_row) \<Rightarrow> database \<Rightarrow> database" where
  "update_challenge i f d = d\<lparr>challenges := map (\<lambda>c. if ch_id c = i then f c else c) (challenges d)\<rparr>"

definition set_consumed :: "uuid \<Rightarrow> unit stmt" where
  "set_consumed i = (\<lambda>w. upd (update_challenge i (\<lambda>c. c\<lparr>ch_consumed := Some (clock w)\<rparr>)) w)"

definition add_attempt :: "uuid \<Rightarrow> unit stmt" where
  "add_attempt i = upd (update_challenge i (\<lambda>c. c\<lparr>ch_attempts := ch_attempts c + 1\<rparr>))"

definition consume_once :: "uuid \<Rightarrow> nat stmt" where
  "consume_once i = (\<lambda>w. let hit = (\<lambda>c. ch_id c = i \<and> ch_consumed c = None) in
     Inr (length (filter hit (challenges (db w))),
       w\<lparr>db := (db w)\<lparr>challenges := map (\<lambda>c. if hit c then c\<lparr>ch_consumed := Some (clock w)\<rparr> else c) (challenges (db w))\<rparr>\<rparr>))"

definition challenge_by_token :: "crypto \<Rightarrow> string \<Rightarrow> (string \<Rightarrow> bool) \<Rightarrow> world \<Rightarrow> challenge_row option" where
  "challenge_by_token cr token P w =
     find (\<lambda>c. ch_token c = hashToken cr token \<and> P (ch_purpose c) \<and> open_challenge (clock w) c) (challenges (db w))"

definition latest_challenge :: "uuid \<Rightarrow> string \<Rightarrow> world \<Rightarrow> challenge_row option" where
  "latest_challenge user purpose w =
     (case rev (sort_key ch_created (filter (\<lambda>c. ch_user c = user \<and> ch_purpose c = purpose \<and> open_challenge (clock w) c)
        (challenges (db w)))) of [] \<Rightarrow> None | c # _ \<Rightarrow> Some c)"

definition consumeChallenge :: "crypto \<Rightarrow> config \<Rightarrow> uuid \<Rightarrow> string \<Rightarrow> string \<Rightarrow> string \<Rightarrow> unit srv" where
  "consumeChallenge cr cfg user purpose token rawCode =
     (let code = trim_space rawCode in
      bnd (require (length code = otpDigits) ErrChallengeInvalid) (\<lambda>_.
      bnd (map_err (\<lambda>_. ErrChallengeInvalid) (db_stmt (ask_row (\<lambda>w.
        if token \<noteq> [] then challenge_by_token cr token (\<lambda>p. p = purpose) w else latest_challenge user purpose w)))) (\<lambda>c.
      if maxOTPAttempts \<le> ch_attempts c
      then bnd (ignore (db_stmt (set_consumed (ch_id c)))) (\<lambda>_. fail ErrChallengeInvalid)
      else if hashOTP cr (SessionSecret cfg) code \<noteq> ch_code c
      then bnd (ignore (db_stmt (add_attempt (ch_id c)))) (\<lambda>_. fail ErrChallengeInvalid)
      else
        bnd (result (db_stmt (row (\<lambda>d. map_option ch_user (find (\<lambda>x. ch_id x = ch_id c) (challenges d)))))) (\<lambda>owner.
        bnd (require (case owner of Inl _ \<Rightarrow> True | Inr o' \<Rightarrow> o' = user) ErrChallengeInvalid) (\<lambda>_.
        bnd (db_stmt (consume_once (ch_id c))) (\<lambda>n. require (n \<noteq> 0) ErrChallengeInvalid))))))"

section \<open>Passwords that were forgotten\<close>

definition code_mail :: "string \<Rightarrow> string" where
  "code_mail code = ''Your TR Driver code: '' @ code @ '' (valid for 10 minutes)''"

definition ForgotPassword :: "crypto \<Rightarrow> config \<Rightarrow> mailer option \<Rightarrow> string \<Rightarrow> string \<Rightarrow> unit srv" where
  "ForgotPassword cr cfg mail remoteAddr rawEmail =
     (let email = to_lower (trim_space rawEmail); key = remoteAddr @ '':reset'' in
      bnd (require (email \<noteq> []) (Msg ''email required'')) (\<lambda>_.
      bnd (blocked key) (\<lambda>b.
      bnd (require (\<not> b) ErrRateLimited) (\<lambda>_.
      bnd (limiter_add key) (\<lambda>_.
      bnd (result (db_stmt (row (user_by_email email)))) (\<lambda>r.
      case r of
        Inl e \<Rightarrow> if e = NoRows then ret () else fail e
      | Inr u \<Rightarrow>
          bnd (mail_ready mail) (\<lambda>m.
          bnd (createChallenge cr cfg (u_id u) ''password_reset'') (\<lambda>(code, _).
          mail_send m email ''TR Driver password reset'' (code_mail code)))))))))"

definition ResetPassword :: "crypto \<Rightarrow> config \<Rightarrow> string \<Rightarrow> string \<Rightarrow> string \<Rightarrow> string \<Rightarrow> unit srv" where
  "ResetPassword cr cfg remoteAddr rawEmail rawCode newPassword =
     (let email = to_lower (trim_space rawEmail); code = trim_space rawCode; key = remoteAddr @ '':reset-complete'' in
      bnd (require (email \<noteq> [] \<and> code \<noteq> []) ErrChallengeInvalid) (\<lambda>_.
      bnd (require (8 \<le> length newPassword \<and> length newPassword \<le> 128) (Msg ''password must be between 8 and 128 characters'')) (\<lambda>_.
      bnd (blocked key) (\<lambda>b.
      bnd (require (\<not> b) ErrRateLimited) (\<lambda>_.
      bnd (result (db_stmt (row (user_by_email email)))) (\<lambda>r.
      case r of
        Inl _ \<Rightarrow> bnd (limiter_add key) (\<lambda>_. fail ErrChallengeInvalid)
      | Inr u \<Rightarrow>
          bnd (on_err (consumeChallenge cr cfg (u_id u) ''password_reset'' [] code) (limiter_add key)) (\<lambda>_.
          bnd (hashPassword cr newPassword) (\<lambda>pw.
          bnd (db_stmt (upd (update_user (u_id u) (\<lambda>x. x\<lparr>u_pw := pw\<rparr>)))) (\<lambda>_.
          bnd (db_stmt (upd (\<lambda>d. d\<lparr>web_sessions := filter (\<lambda>s. ws_user s \<noteq> u_id u) (web_sessions d)\<rparr>))) (\<lambda>_.
          bnd (db_stmt (revoke_devices (\<lambda>v. dv_user v = u_id u))) (\<lambda>_. ret ())))))))))))"

section \<open>Sign-in\<close>

definition issueSession :: "crypto \<Rightarrow> config \<Rightarrow> uuid \<Rightarrow> string srv" where
  "issueSession cr cfg user =
     bnd (newSessionToken cr) (\<lambda>(token, tokenHash).
     bnd (getw clock) (\<lambda>now.
     bnd (db_stmt (insert_session user tokenHash (now + SessionTTL cfg))) (\<lambda>_.
     bnd (db_stmt (\<lambda>w. upd (update_user user (\<lambda>u. u\<lparr>u_last_login := clock w\<rparr>)) w)) (\<lambda>_.
     ret token))))"

definition userByID :: "config \<Rightarrow> uuid \<Rightarrow> account srv" where
  "userByID cfg user = bnd (db_stmt (user_query (\<lambda>w. user_of (db w) user))) (account_of cfg)"

definition startLogin2FA :: "crypto \<Rightarrow> config \<Rightarrow> mailer option \<Rightarrow> account \<Rightarrow> string srv" where
  "startLogin2FA cr cfg mail acc =
     bnd (mail_ready mail) (\<lambda>m.
     bnd (createChallenge cr cfg (u_id (acc_user acc)) ''login_2fa'') (\<lambda>(code, token).
     bnd (mail_send m (u_email (acc_user acc)) ''TR Driver sign-in code'' (code_mail code)) (\<lambda>_.
     ret token)))"

definition startTOTPLogin :: "crypto \<Rightarrow> uuid \<Rightarrow> string srv" where
  "startTOTPLogin cr user =
     bnd (generateChallengeToken cr) (\<lambda>(token, tokenHash).
     bnd (ignore (db_stmt (consume_open user ''login_totp''))) (\<lambda>_.
     bnd (getw clock) (\<lambda>now.
     bnd (db_stmt (insert_challenge user ''login_totp'' [] tokenHash (now + otpTTL))) (\<lambda>_.
     ret token))))"

definition Login :: "crypto \<Rightarrow> config \<Rightarrow> mailer option \<Rightarrow> string \<Rightarrow> string \<Rightarrow> string \<Rightarrow> login_result srv" where
  "Login cr cfg mail remoteAddr email password =
     bnd (authenticatePassword cr cfg remoteAddr email password) (\<lambda>acc.
     let u = acc_user acc in
     if u_totp_enabled u then bnd (startTOTPLogin cr (u_id u)) (\<lambda>token. ret (second_factor ''totp'' token))
     else if u_email_2fa u then bnd (startLogin2FA cr cfg mail acc) (\<lambda>token. ret (second_factor ''email'' token))
     else bnd (issueSession cr cfg (u_id u)) (\<lambda>session. ret (signed_in (Some acc) session)))"

definition BeginDeviceLogin :: "crypto \<Rightarrow> config \<Rightarrow> mailer option \<Rightarrow> string \<Rightarrow> string \<Rightarrow> string \<Rightarrow> login_result srv" where
  "BeginDeviceLogin cr cfg mail remoteAddr email password =
     bnd (authenticatePassword cr cfg remoteAddr email password) (\<lambda>acc.
     let u = acc_user acc in
     if u_totp_enabled u then bnd (startTOTPLogin cr (u_id u)) (\<lambda>token. ret (second_factor ''totp'' token))
     else if u_email_2fa u then bnd (startLogin2FA cr cfg mail acc) (\<lambda>token. ret (second_factor ''email'' token))
     else ret (signed_in (Some acc) []))"

definition set_counter :: "uuid \<Rightarrow> int \<Rightarrow> nat stmt" where
  "set_counter user counter = (\<lambda>w. let hit = (\<lambda>u. u_id u = user \<and> u_totp_last u < counter) in
     Inr (length (filter hit (users (db w))),
       w\<lparr>db := (db w)\<lparr>users := map (\<lambda>u. if hit u then u\<lparr>u_totp_last := counter\<rparr> else u) (users (db w))\<rparr>\<rparr>))"

definition consumeTOTPChallenge :: "crypto \<Rightarrow> config \<Rightarrow> uuid \<Rightarrow> string \<Rightarrow> string \<Rightarrow> unit srv" where
  "consumeTOTPChallenge cr cfg user token code =
     bnd (map_err (\<lambda>_. ErrChallengeInvalid) (db_stmt (ask_row (challenge_by_token cr token (\<lambda>p. p = ''login_totp''))))) (\<lambda>c.
     if maxOTPAttempts \<le> ch_attempts c
     then bnd (ignore (db_stmt (set_consumed (ch_id c)))) (\<lambda>_. fail ErrChallengeInvalid)
     else
       bnd (map_err (\<lambda>_. ErrChallengeInvalid) (db_stmt (row (\<lambda>d. user_of d user)))) (\<lambda>u.
       case Unseal cr (u_totp_secret u) (SessionSecret cfg) of
         None \<Rightarrow> fail ErrChallengeInvalid
       | Some secret \<Rightarrow>
           bnd (getw clock) (\<lambda>now.
           case Match cr secret code now (u_totp_last u) of
             None \<Rightarrow> bnd (ignore (db_stmt (add_attempt (ch_id c)))) (\<lambda>_. fail ErrChallengeInvalid)
           | Some counter \<Rightarrow>
               bnd (map_err (\<lambda>_. ErrChallengeInvalid) (db_stmt (set_counter user counter))) (\<lambda>n.
               bnd (require (n \<noteq> 0) ErrChallengeInvalid) (\<lambda>_.
               bnd (map_err (\<lambda>_. ErrChallengeInvalid) (db_stmt (consume_once (ch_id c)))) (\<lambda>m.
               require (m \<noteq> 0) ErrChallengeInvalid))))))"

definition CompleteLogin2FA :: "crypto \<Rightarrow> config \<Rightarrow> string \<Rightarrow> string \<Rightarrow> string \<Rightarrow> (account \<times> string) srv" where
  "CompleteLogin2FA cr cfg remoteAddr rawToken rawCode =
     (let key = remoteAddr @ '':2fa'' in
      bnd (blocked key) (\<lambda>b.
      bnd (require (\<not> b) ErrRateLimited) (\<lambda>_.
      let token = trim_space rawToken; code = trim_space rawCode in
      bnd (require (token \<noteq> [] \<and> code \<noteq> []) ErrChallengeInvalid) (\<lambda>_.
      bnd (result (db_stmt (ask_row (challenge_by_token cr token (\<lambda>p. p = ''login_2fa'' \<or> p = ''login_totp''))))) (\<lambda>r.
      case r of
        Inl _ \<Rightarrow> bnd (limiter_add key) (\<lambda>_. fail ErrChallengeInvalid)
      | Inr c \<Rightarrow>
          bnd (on_err (if ch_purpose c = ''login_totp'' then consumeTOTPChallenge cr cfg (ch_user c) token code
                       else consumeChallenge cr cfg (ch_user c) ''login_2fa'' token code) (limiter_add key)) (\<lambda>_.
          bnd (userByID cfg (ch_user c)) (\<lambda>acc.
          bnd (issueSession cr cfg (u_id (acc_user acc))) (\<lambda>session.
          ret (acc, session)))))))))"


section \<open>Sign-in by QR code\<close>

definition CreateQRLogin :: "crypto \<Rightarrow> uuid \<Rightarrow> (string \<times> int) srv" where
  "CreateQRLogin cr user =
     bnd (generateChallengeToken cr) (\<lambda>(token, tokenHash).
     bnd (getw clock) (\<lambda>now.
     bnd (ignore (db_stmt (consume_open user ''qr_login''))) (\<lambda>_.
     bnd (db_stmt (insert_challenge user ''qr_login'' (hashToken cr token) tokenHash (now + qrLoginTTL))) (\<lambda>_.
     ret (token, now + qrLoginTTL)))))"

definition RedeemQRLogin :: "crypto \<Rightarrow> config \<Rightarrow> string \<Rightarrow> string \<Rightarrow> (account \<times> string) srv" where
  "RedeemQRLogin cr cfg rawToken deviceName =
     (let token = trim_space rawToken in
      bnd (require (token \<noteq> []) ErrChallengeInvalid) (\<lambda>_.
      bnd (map_err (\<lambda>_. ErrChallengeInvalid) (db_stmt (ask_row (challenge_by_token cr token (\<lambda>p. p = ''qr_login''))))) (\<lambda>c.
      bnd (db_stmt (consume_once (ch_id c))) (\<lambda>n.
      bnd (require (n \<noteq> 0) ErrChallengeInvalid) (\<lambda>_.
      bnd (userByID cfg (ch_user c)) (\<lambda>acc.
      bnd (CreateDevice cr cfg (ch_user c) deviceName) (\<lambda>(_, deviceToken).
      ret (acc, deviceToken))))))))"

section \<open>The authenticator\<close>

text \<open>
  \<open>url.PathEscape\<close> and \<open>url.QueryEscape\<close>: every byte that is not left as it is becomes a
  percent sign and two hexadecimal digits; in a query a space becomes a plus sign.
\<close>

definition unreserved :: "char \<Rightarrow> bool" where
  "unreserved c \<longleftrightarrow> (let n = byte c in 48 \<le> n \<and> n \<le> 57 \<or> 65 \<le> n \<and> n \<le> 90 \<or> 97 \<le> n \<and> n \<le> 122) \<or> c \<in> set ''-_.~''"

definition escape :: "(char \<Rightarrow> bool) \<Rightarrow> string \<Rightarrow> string" where
  "escape keep s = concat (map (\<lambda>c. if keep c then [c]
     else [CHR 0x25, ''0123456789ABCDEF'' ! (byte c div 16), ''0123456789ABCDEF'' ! (byte c mod 16)]) s)"

definition path_escape :: "string \<Rightarrow> string" where
  "path_escape s = escape (\<lambda>c. unreserved c \<or> c \<in> set ''$&+:=@'') s"

definition query_escape :: "string \<Rightarrow> string" where
  "query_escape s = map (\<lambda>c. if c = CHR '' '' then CHR ''+'' else c) (escape (\<lambda>c. unreserved c \<or> c = CHR '' '') s)"

definition ProvisioningURI :: "string \<Rightarrow> string \<Rightarrow> string \<Rightarrow> string" where
  "ProvisioningURI issuer acct secret =
     ''otpauth://totp/'' @ path_escape (issuer @ '':'' @ acct) @ ''?secret='' @ secret @ ''&issuer='' @ query_escape issuer
     @ ''&algorithm=SHA1&digits=6&period=30''"

definition BeginTOTPSetup :: "crypto \<Rightarrow> config \<Rightarrow> uuid \<Rightarrow> string \<Rightarrow> (string \<times> string) srv" where
  "BeginTOTPSetup cr cfg user password =
     bnd (db_stmt (row (\<lambda>d. user_of d user))) (\<lambda>u.
     bnd (require (verifyPassword cr password (u_pw u)) ErrInvalidCredentials) (\<lambda>_.
     bnd (db_stmt (row (\<lambda>d. map_option u_totp_enabled (user_of d user)))) (\<lambda>enabled.
     bnd (require (\<not> enabled) (Msg ''TOTP is already on'')) (\<lambda>_.
     bnd GenerateSecret (\<lambda>secret.
     bnd (Seal cr secret (SessionSecret cfg)) (\<lambda>sealed.
     bnd (db_stmt (upd (update_user user (\<lambda>u. u\<lparr>u_totp_secret := sealed, u_totp_enabled := False, u_totp_last := -1\<rparr>)))) (\<lambda>_.
     ret (secret, ProvisioningURI ''TR Driver'' (u_email u) secret))))))))"

definition EnableTOTP :: "crypto \<Rightarrow> config \<Rightarrow> uuid \<Rightarrow> string \<Rightarrow> string \<Rightarrow> unit srv" where
  "EnableTOTP cr cfg user password code =
     bnd (db_stmt (row (\<lambda>d. user_of d user))) (\<lambda>u.
     bnd (require (verifyPassword cr password (u_pw u)) ErrInvalidCredentials) (\<lambda>_.
     if u_totp_enabled u then ret ()
     else
       bnd (require (u_totp_secret u \<noteq> []) ErrChallengeInvalid) (\<lambda>_.
       case Unseal cr (u_totp_secret u) (SessionSecret cfg) of
         None \<Rightarrow> fail ErrChallengeInvalid
       | Some secret \<Rightarrow>
           bnd (getw clock) (\<lambda>now.
           case Match cr secret code now (-1) of
             None \<Rightarrow> fail ErrChallengeInvalid
           | Some counter \<Rightarrow> db_stmt (upd (update_user user (\<lambda>u. u\<lparr>u_totp_enabled := True, u_totp_last := counter\<rparr>)))))))"

definition DisableTOTP :: "crypto \<Rightarrow> config \<Rightarrow> uuid \<Rightarrow> string \<Rightarrow> string \<Rightarrow> unit srv" where
  "DisableTOTP cr cfg user password code =
     bnd (db_stmt (row (\<lambda>d. user_of d user))) (\<lambda>u.
     bnd (require (verifyPassword cr password (u_pw u)) ErrInvalidCredentials) (\<lambda>_.
     bnd (if u_totp_enabled u then
            (case Unseal cr (u_totp_secret u) (SessionSecret cfg) of
               None \<Rightarrow> fail ErrChallengeInvalid
             | Some secret \<Rightarrow> bnd (getw clock) (\<lambda>now. require (Match cr secret code now (u_totp_last u) \<noteq> None) ErrChallengeInvalid))
          else ret ()) (\<lambda>_.
     db_stmt (upd (update_user user (\<lambda>u. u\<lparr>u_totp_enabled := False, u_totp_secret := [], u_totp_last := -1\<rparr>))))))"


end
