(* ===== verification/AccountExamples.thy ===== *)
theory AccountExamples
  imports TeamExamples SignIn
begin

text \<open>
  Accounts and sign-in at concrete states, with toy primitives in the place of the
  cryptographic ones: each property of \<open>Secrets\<close>, \<open>Accounts\<close> and \<open>SignIn\<close> applied.
\<close>

definition toy :: crypto where
  "toy = \<lparr>sha256 = id, hmac_sha256 = (\<lambda>k m. k @ m), hmac_sha1 = (\<lambda>k m. take 20 (k @ m @ replicate 20 CHR 0x00)),
     argon2id = (\<lambda>p s t m n len. take len (p @ replicate len CHR 0x00)), gcm_seal = (\<lambda>k n x. x), gcm_open = (\<lambda>k n x. Some x)\<rparr>"

lemma toy_ok: "crypto_ok toy"
  by (auto simp: crypto_ok_def toy_def min_def)

definition drawn :: "nat \<Rightarrow> world \<Rightarrow> world" where
  "drawn n w = w\<lparr>entropy := replicate n (Some of_byte)\<rparr>"

section \<open>Secrets\<close>

lemma toy_hashes: "ok (fst (hashPassword toy ''secret pw'' (drawn 1 site)))"
  by (simp add: ok_def hashPassword_def bnd_def rand_read_def ret_def drawn_def)

theorem password_hash_exact_witness:
  "\<exists>h w'. hashPassword toy ''secret pw'' (drawn 1 site) = (Inr h, w') \<and> verifyPassword toy ''secret pw'' h \<and> \<not> verifyPassword toy ''other'' h"
proof -
  obtain h w' where run: "hashPassword toy ''secret pw'' (drawn 1 site) = (Inr h, w')"
    using ok_run [of "hashPassword toy ''secret pw''" "drawn 1 site", OF toy_hashes] by blast
  have "argon2id toy ''other'' salt 1 (64 * 1024) 2 32 \<noteq> argon2id toy ''secret pw'' salt 1 (64 * 1024) 2 32" for salt
    by (simp add: toy_def)
  with password_hash_exact [OF run] run show ?thesis by blast
qed

lemma toy_share_hashes: "ok (fst (hashSharePassword toy ''pw'' (drawn 1 site)))"
  by (simp add: ok_def hashSharePassword_def bnd_def rand_read_def ret_def drawn_def Let_def)

theorem share_hash_exact_witness:
  "\<exists>h w'. hashSharePassword toy ''pw'' (drawn 1 site) = (Inr h, w') \<and> verifySharePassword toy ''pw'' h ''salt'' = (True, False)"
proof -
  obtain h w' where run: "hashSharePassword toy ''pw'' (drawn 1 site) = (Inr h, w')"
    using ok_run [of "hashSharePassword toy ''pw''" "drawn 1 site", OF toy_share_hashes] by blast
  with share_hash_exact [OF toy_ok run] show ?thesis by blast
qed

lemma toy_secret: "ok (fst (GenerateSecret (drawn 1 site)))"
  by (simp add: ok_def GenerateSecret_def bnd_def rand_read_def ret_def drawn_def)

theorem totp_is_rfc6238_witness:
  "\<exists>secret w' key. GenerateSecret (drawn 1 site) = (Inr secret, w') \<and> length key = 20
     \<and> Match toy secret (pad6 (totp_value toy key 2)) 60 1 \<noteq> None \<and> Match toy secret (pad6 (totp_value toy key 2)) 60 5 = None"
proof -
  obtain secret w' where run: "GenerateSecret (drawn 1 site) = (Inr secret, w')"
    using ok_run [of GenerateSecret "drawn 1 site", OF toy_secret] by blast
  from totp_is_rfc6238 [OF run, of toy] obtain key where key: "length key = 20"
    and m: "\<And>code now l. case Match toy secret code now l of
        Some c \<Rightarrow> l < c \<and> c \<in> {now div 30 - 1 .. now div 30 + 1} \<and> trim_space code = pad6 (totp_value toy key c)
      | None \<Rightarrow> \<forall>c \<in> {now div 30 - 1 .. now div 30 + 1}. l < c \<longrightarrow> trim_space code \<noteq> pad6 (totp_value toy key c)"
    by blast
  have plain: "trim_space (pad6 (totp_value toy key 2)) = pad6 (totp_value toy key 2)"
    by (rule trim_space_digits)
  have "Match toy secret (pad6 (totp_value toy key 2)) 60 1 \<noteq> None"
    using m [where code = "pad6 (totp_value toy key 2)" and now = 60 and l = 1] plain by (auto split: option.splits)
  moreover have "Match toy secret (pad6 (totp_value toy key 2)) 60 5 = None"
    using m [where code = "pad6 (totp_value toy key 2)" and now = 60 and l = 5] by (auto split: option.splits)
  ultimately show ?thesis using run key by blast
qed

section \<open>The limit on attempts\<close>

theorem limiter_is_window_witness:
  "\<not> fst (lim_blocked 300 ''a'' (lim_run (replicate 9 (Failed, 100, ''a'')) \<lparr>tried = (\<lambda>_. None), swept = 0\<rparr>))
   \<and> fst (lim_blocked 300 ''a'' (lim_run (replicate 10 (Failed, 100, ''a'')) \<lparr>tried = (\<lambda>_. None), swept = 0\<rparr>))
   \<and> \<not> fst (lim_blocked 700 ''a'' (lim_run (replicate 10 (Failed, 100, ''a'')) \<lparr>tried = (\<lambda>_. None), swept = 0\<rparr>))"
proof -
  have s: "sorted (times (replicate n (Failed, 100, k)) @ [300])" "sorted (times (replicate n (Failed, 100, k)) @ [700])" for n k
    by (auto simp: times_def sorted_append)
  show ?thesis
    unfolding limiter_is_window [OF s(1)] limiter_is_window [OF s(2)] by (simp add: failures_def times_def)
qed

end
