(* ===== verification/SignInSafety.thy ===== *)
theory SignInSafety
  imports SignIn
begin

text \<open>
  What sign-in guarantees: the number of guesses at a mailed code, the use of an
  authenticator code, who gets a session, and what a reset of the password ends.
\<close>

lemma wp_blocked [wp_simps]:
  "wp (blocked k) Q E w = (case lim_blocked (clock w) k (login_limiter w) of (b, l) \<Rightarrow> Q b (w\<lparr>login_limiter := l\<rparr>))"
  by (simp add: wp_def blocked_def split: prod.split)

lemma wp_limiter_add [wp_simps]:
  "wp (limiter_add k) Q E w = Q () (w\<lparr>login_limiter := lim_add (clock w) k (login_limiter w)\<rparr>)"
  by (simp add: limiter_add_def wp_simps)

section \<open>Five guesses\<close>

text \<open>\<open>worn n h p w\<close>: every challenge of the token with hash \<open>h\<close> has had \<open>n\<close> attempts, or is over.\<close>

definition worn :: "int \<Rightarrow> string \<Rightarrow> string \<Rightarrow> world \<Rightarrow> bool" where
  "worn n h p w \<longleftrightarrow> (\<forall>c \<in> set (challenges (db w)). ch_token c = h \<and> ch_purpose c = p \<and> open_challenge (clock w) c \<longrightarrow> n \<le> ch_attempts c)"

definition one_challenge :: "string \<Rightarrow> world \<Rightarrow> bool" where
  "one_challenge h w \<longleftrightarrow> (\<forall>c \<in> set (challenges (db w)). \<forall>d \<in> set (challenges (db w)). ch_token c = h \<longrightarrow> ch_token d = h \<longrightarrow> ch_id c = ch_id d)"

definition wrong :: "crypto \<Rightarrow> config \<Rightarrow> string \<Rightarrow> string \<Rightarrow> world \<Rightarrow> bool" where
  "wrong cr cfg h code w \<longleftrightarrow> length (trim_space code) = otpDigits
     \<and> (\<forall>c \<in> set (challenges (db w)). ch_token c = h \<longrightarrow> hashOTP cr (SessionSecret cfg) (trim_space code) \<noteq> ch_code c)"

text \<open>Consuming a challenge or counting an attempt leaves the tokens and codes alone.\<close>

definition aged :: "challenge_row \<Rightarrow> challenge_row \<Rightarrow> bool" where
  "aged c d \<longleftrightarrow> ch_id d = ch_id c \<and> ch_token d = ch_token c \<and> ch_code d = ch_code c \<and> ch_purpose d = ch_purpose c
     \<and> ch_expires d = ch_expires c \<and> (ch_consumed d = None \<longrightarrow> ch_consumed c = None)"

definition harmless :: "(challenge_row \<Rightarrow> challenge_row) \<Rightarrow> bool" where
  "harmless f \<longleftrightarrow> (\<forall>c. aged c (f c))"

lemma updated_row:
  assumes "harmless f" and "d \<in> set (challenges (update_challenge i f db0))"
  shows "\<exists>c \<in> set (challenges db0). aged c d \<and> (if ch_id c = i then d = f c else d = c)"
  using assms by (auto simp: update_challenge_def harmless_def aged_def)

lemma after_update:
  assumes "harmless f" and "one_challenge h w" and "w' = w\<lparr>db := update_challenge i f (db w)\<rparr>"
  shows "one_challenge h w'" and "wrong cr cfg h code w \<Longrightarrow> wrong cr cfg h code w'"
proof -
  have row: "\<exists>c \<in> set (challenges (db w)). aged c d" if "d \<in> set (challenges (db w'))" for d
    using updated_row [OF assms(1), of d i "db w"] that unfolding assms(3) by simp blast
  show "one_challenge h w'"
    unfolding one_challenge_def
  proof (intro ballI impI)
    fix c d assume "c \<in> set (challenges (db w'))" "d \<in> set (challenges (db w'))" "ch_token c = h" "ch_token d = h"
    with row obtain c' d' where rows: "c' \<in> set (challenges (db w))" "d' \<in> set (challenges (db w))" "aged c' c" "aged d' d" by blast
    with \<open>ch_token c = h\<close> \<open>ch_token d = h\<close> have "ch_token c' = h" "ch_token d' = h" by (auto simp: aged_def)
    with assms(2) rows(1,2) have "ch_id c' = ch_id d'" unfolding one_challenge_def by blast
    with rows(3,4) show "ch_id c = ch_id d" by (simp add: aged_def)
  qed
  show "wrong cr cfg h code w'" if wr: "wrong cr cfg h code w"
    unfolding wrong_def
  proof (intro conjI ballI impI)
    show "length (trim_space code) = otpDigits" using wr by (simp add: wrong_def)
    fix d assume "d \<in> set (challenges (db w'))" "ch_token d = h"
    with row obtain c where "c \<in> set (challenges (db w))" "aged c d" by blast
    with wr \<open>ch_token d = h\<close> show "hashOTP cr (SessionSecret cfg) (trim_space code) \<noteq> ch_code d"
      by (simp add: wrong_def aged_def)
  qed
qed

lemma worn_update:
  assumes "harmless f" and "one_challenge h w" and "worn n h p w" and "c \<in> set (challenges (db w))" and "ch_token c = h"
    and "\<And>x. n \<le> ch_attempts x \<Longrightarrow> ch_consumed (f x) = None \<Longrightarrow> n + 1 \<le> ch_attempts (f x)"
    and "w' = w\<lparr>db := update_challenge (ch_id c) f (db w)\<rparr>"
  shows "worn (n + 1) h p w'"
  unfolding worn_def
proof (intro ballI impI)
  fix y assume "y \<in> set (challenges (db w'))" and y: "ch_token y = h \<and> ch_purpose y = p \<and> open_challenge (clock w') y"
  then have "y \<in> set (challenges (update_challenge (ch_id c) f (db w)))" by (simp add: assms(7))
  from updated_row [OF assms(1) this] obtain x where x: "x \<in> set (challenges (db w))" "aged x y"
    "if ch_id x = ch_id c then y = f x else y = x" by blast
  with y have xh: "ch_token x = h" "ch_purpose x = p" "open_challenge (clock w) x"
    by (auto simp: aged_def open_challenge_def assms(7))
  with assms(2,4,5) x(1) have "ch_id x = ch_id c" unfolding one_challenge_def by blast
  with x(3) have yf: "y = f x" by simp
  from assms(3) x(1) xh have "n \<le> ch_attempts x" unfolding worn_def by blast
  moreover have "ch_consumed (f x) = None" using y by (simp add: yf open_challenge_def)
  ultimately show "n + 1 \<le> ch_attempts y" unfolding yf by (rule assms(6))
qed

lemma wrong_guess:
  assumes "faults w = []" and "token \<noteq> []" and "worn n h p w" and "one_challenge h w" and "wrong cr cfg h code w"
    and h: "h = hashToken cr token"
    and run: "consumeChallenge cr cfg user p token code w = (r, w')"
  shows "r = Inl ErrChallengeInvalid \<and> (\<exists>f i. harmless f \<and> w' = w\<lparr>db := update_challenge i f (db w)\<rparr>) \<and> worn (n + 1) h p w'"
proof (cases "challenge_by_token cr token (\<lambda>q. q = p) w")
  case None
  then have "worn (n + 1) h p w"
    by (auto simp: challenge_by_token_def worn_def h find_None_iff)
  moreover have "r = Inl ErrChallengeInvalid" "w' = w"
    using run assms(1,2,5) None
    by (auto simp: consumeChallenge_def Let_def wrong_def bnd_def map_err_def db_stmt_def ask_row_def require_def ret_def fail_def)
  moreover have "w = w\<lparr>db := update_challenge 0 (\<lambda>c. c) (db w)\<rparr>" by (simp add: update_challenge_def)
  moreover have "harmless (\<lambda>c. c)" by (simp add: harmless_def aged_def)
  ultimately show ?thesis by blast
next
  case (Some c)
  then have c: "c \<in> set (challenges (db w))" "ch_token c = h"
    by (auto simp: challenge_by_token_def h dest!: find_set)
  with assms(5) have bad: "hashOTP cr (SessionSecret cfg) (trim_space code) \<noteq> ch_code c" by (auto simp: wrong_def)
  let ?f = "if 5 \<le> ch_attempts c then (\<lambda>c. c\<lparr>ch_consumed := Some (clock w)\<rparr>) else (\<lambda>c. c\<lparr>ch_attempts := ch_attempts c + 1\<rparr>)"
  have "r = Inl ErrChallengeInvalid" and w': "w' = w\<lparr>db := update_challenge (ch_id c) ?f (db w)\<rparr>"
    using run assms(1,2,5) Some bad
    by (auto simp: consumeChallenge_def Let_def wrong_def bnd_def map_err_def db_stmt_def ask_row_def require_def ret_def fail_def
        ignore_def set_consumed_def add_attempt_def split: if_splits)
  moreover have safe: "harmless ?f" by (simp add: harmless_def aged_def)
  moreover have "worn (n + 1) h p w'"
    by (rule worn_update [OF safe assms(4,3) c _ w']) (auto split: if_splits)
  ultimately show ?thesis by blast
qed

lemma worn_out:
  assumes "faults w = []" and "token \<noteq> []" and "worn 5 (hashToken cr token) p w"
  shows "\<exists>w'. consumeChallenge cr cfg user p token code w = (Inl ErrChallengeInvalid, w')"
proof (cases "challenge_by_token cr token (\<lambda>q. q = p) w")
  case None
  then show ?thesis using assms(1,2)
    by (auto simp: consumeChallenge_def Let_def bnd_def map_err_def db_stmt_def ask_row_def require_def ret_def fail_def)
next
  case (Some c)
  then have "5 \<le> ch_attempts c" using assms(3)
    by (auto simp: challenge_by_token_def worn_def dest!: find_set)
  with Some show ?thesis using assms(1,2)
    by (auto simp: consumeChallenge_def Let_def bnd_def map_err_def db_stmt_def ask_row_def require_def ret_def fail_def ignore_def)
qed

lemma wrong_guesses:
  assumes "faults w = []" and "token \<noteq> []" and "worn n h p w" and "one_challenge h w" and "h = hashToken cr token"
    and "\<forall>code \<in> set codes. wrong cr cfg h code w"
  shows "\<exists>w'. each (\<lambda>code. ignore (consumeChallenge cr cfg user p token code)) codes w = (Inr (), w')
    \<and> faults w' = [] \<and> worn (n + int (length codes)) h p w'"
  using assms
proof (induction codes arbitrary: w n)
  case Nil
  then show ?case by (simp add: ret_def)
next
  case (Cons code codes)
  obtain r w1 where run: "consumeChallenge cr cfg user p token code w = (r, w1)" by fastforce
  have bad: "wrong cr cfg h code w" using Cons.prems(6) by simp
  from wrong_guess [OF Cons.prems(1-4) bad Cons.prems(5) run] obtain f i where f: "harmless f" "w1 = w\<lparr>db := update_challenge i f (db w)\<rparr>"
    and w1: "worn (n + 1) h p w1" by blast
  note keep = after_update [OF f(1) Cons.prems(4) f(2)]
  have "faults w1 = []" "\<forall>code \<in> set codes. wrong cr cfg h code w1"
    using Cons.prems(1,6) f(2) keep(2) by simp_all
  from Cons.IH [OF this(1) Cons.prems(2) w1 keep(1) Cons.prems(5) this(2)] run show ?case
    by (auto simp: bnd_def ignore_def algebra_simps)
qed


section \<open>An authenticator code is used once\<close>

text \<open>
  C33: every use of an authenticator raises the stored counter. A call that accepts a code,
  whatever fails meanwhile, has found it among the codes of the windows around now with a
  counter above the stored one and has stored that counter, so a code that was accepted
  for a counter is never accepted for it again.
\<close>

theorem totp_counter_rises:
  assumes "consumeTOTPChallenge cr cfg user token code w = (Inr (), w')"
  shows "\<exists>u u' secret. user_of (db w) user = Some u \<and> user_of (db w') user = Some u'
    \<and> Unseal cr (u_totp_secret u) (SessionSecret cfg) = Some secret
    \<and> Match cr secret code (clock w) (u_totp_last u) = Some (u_totp_last u') \<and> u_totp_last u < u_totp_last u'"
proof -
  have rises: "l < c" if "Match cr secret code now l = Some c" for secret now l c
    using that match_loop_Some [of cr secret "trim_space code" l "[now div 30 - 1, now div 30, now div 30 + 1]" c]
    by (auto simp only: Match_def Let_def split: if_splits)
  have stored: "find (\<lambda>x. u_id x = user) (map (\<lambda>x. if u_id x = user \<and> u_totp_last x < c then x\<lparr>u_totp_last := c\<rparr> else x) us)
      = Some (u\<lparr>u_totp_last := c\<rparr>)" if "find (\<lambda>x. u_id x = user) us = Some u" "u_totp_last u < c" for us u c
    using that by (induction us) (auto split: if_splits)
  have "wp (consumeTOTPChallenge cr cfg user token code)
    (\<lambda>_ w'. \<exists>u u' secret. user_of (db w) user = Some u \<and> user_of (db w') user = Some u'
      \<and> Unseal cr (u_totp_secret u) (SessionSecret cfg) = Some secret
      \<and> Match cr secret code (clock w) (u_totp_last u) = Some (u_totp_last u') \<and> u_totp_last u < u_totp_last u') (\<lambda>_ _. True) w"
    by (auto simp: consumeTOTPChallenge_def wp_simps ask_row_def row_def set_counter_def consume_once_def set_consumed_def add_attempt_def Let_def
        user_of_def stored rises
        split: option.split)
  from wp_InrD [OF this assms] show ?thesis .
qed


section \<open>Who gets a session\<close>

text \<open>A mail service does not write to the database of the site.\<close>

definition quiet_mail :: "mailer option \<Rightarrow> bool" where
  "quiet_mail mail = (case mail of None \<Rightarrow> True | Some m \<Rightarrow>
     steps (\<lambda>a b. web_sessions (db b) = web_sessions (db a)) (mail_configured m)
   \<and> (\<forall>to s b. steps (\<lambda>a b. web_sessions (db b) = web_sessions (db a)) (mail_send m to s b)))"

abbreviation no_session :: "'a srv \<Rightarrow> bool" where
  "no_session m \<equiv> steps (\<lambda>a b. web_sessions (db b) = web_sessions (db a)) m"

lemma preorder_no_session [steps_intros]: "preorder (\<lambda>a b :: world. web_sessions (db b) = web_sessions (db a))"
  by (rule preorderI) simp_all

lemma no_session_new_token [steps_intros]: "no_session (generateChallengeToken cr)" "no_session generateOTPCode"
  by (auto simp: steps_def generateChallengeToken_def newSessionToken_def generateOTPCode_def rand_int_def bnd_def ret_def rand_read_def
      Let_def split: list.split option.split)

lemma no_session_challenges [steps_intros]:
  "no_session (db_stmt (consume_open user purpose))" "no_session (db_stmt (insert_challenge user purpose code h e))"
  by (auto simp: steps_def db_stmt_def consume_open_def insert_challenge_def checked_def split: option.split sum.split)

lemma with_mail: "bnd (mail_ready (Some m)) f = bnd (mail_configured m) (\<lambda>ok. bnd (require ok ErrMailRequired) (\<lambda>_. f m))"
  by (auto simp: mail_ready_def bnd_def require_def ret_def fail_def fun_eq_iff split: prod.split sum.split)

lemma no_session_second_factor:
  "no_session (startTOTPLogin cr user)" "quiet_mail mail \<Longrightarrow> no_session (startLogin2FA cr cfg mail acc)"
proof -
  show "no_session (startTOTPLogin cr user)" unfolding startTOTPLogin_def by (intro steps_intros)
  show "no_session (startLogin2FA cr cfg mail acc)" if "quiet_mail mail"
  proof (cases mail)
    case None
    then show ?thesis by (simp add: startLogin2FA_def mail_ready_def bnd_def fail_def steps_def)
  next
    case (Some m)
    with that show ?thesis unfolding startLogin2FA_def createChallenge_def quiet_mail_def
      by (auto simp: with_mail intro!: steps_intros)
  qed
qed

lemma wp_account_of:
  "wp (account_of cfg u) (\<lambda>acc w'. acc_user acc = u \<and> db w' = db w \<and> clock w' = clock w) (\<lambda>_ _. False) w"
  by (auto simp: account_of_def maxBatchBytes_def wp_simps row_def split: option.split)

lemma authenticate_wp:
  "wp (authenticatePassword cr cfg addr email password)
    (\<lambda>acc w'. user_by_email (to_lower (trim_space email)) (db w) = Some (acc_user acc) \<and> verifyPassword cr password (u_pw (acc_user acc))
       \<and> db w' = db w \<and> clock w' = clock w) (\<lambda>_ _. True) w"
proof -
  have acc: "wp (account_of cfg u) Q (\<lambda>_ _. True) w1"
    if "\<And>acc w'. acc_user acc = u \<Longrightarrow> db w' = db w1 \<Longrightarrow> clock w' = clock w1 \<Longrightarrow> Q acc w'" for u Q w1
    by (rule wp_weaken [OF wp_account_of]) (use that in auto)
  show ?thesis
    by (auto simp: authenticatePassword_def Let_def wp_simps user_query_def split: option.split prod.split sum.split intro!: acc)
qed

lemma issueSession_wp:
  "wp (issueSession cr cfg user)
    (\<lambda>token w'. web_sessions (db w') = web_sessions (db w) @ [\<lparr>ws_user = user, ws_token = hashToken cr token, ws_expires = clock w + SessionTTL cfg\<rparr>]
      \<and> users (db w') = map (\<lambda>u. if u_id u = user then u\<lparr>u_last_login := clock w\<rparr> else u) (users (db w)) \<and> settings (db w') = settings (db w)) (\<lambda>_ _. True) w"
  by (auto simp: issueSession_def newSessionToken_def Let_def wp_simps insert_session_def checked_def update_user_def split: option.split list.split)

text \<open>
  C31: a session takes the password and, where one is set up, the second factor. A sign-in
  that succeeds has checked the password of the user with that address. When the user
  has an authenticator or codes by mail it opens no session and returns no token but a
  challenge; otherwise it opens exactly one session, of that user, for the token it
  returns.
\<close>

theorem second_factor_required:
  assumes "Login cr cfg mail addr email password w = (Inr r, w')" and "quiet_mail mail"
  shows "\<exists>u. user_by_email (to_lower (trim_space email)) (db w) = Some u \<and> verifyPassword cr password (u_pw u)
    \<and> (if u_totp_enabled u \<or> u_email_2fa u
       then lr_requires r \<and> lr_session r = [] \<and> web_sessions (db w') = web_sessions (db w)
       else \<not> lr_requires r \<and> web_sessions (db w') = web_sessions (db w) @
         [\<lparr>ws_user = u_id u, ws_token = hashToken cr (lr_session r), ws_expires = clock w + SessionTTL cfg\<rparr>])"
proof -
  have totp: "wp (startTOTPLogin cr user) (\<lambda>_. Q) (\<lambda>_ _. True) w1" if "\<And>w'. web_sessions (db w') = web_sessions (db w1) \<Longrightarrow> Q w'" for user Q w1
    by (rule wp_steps [OF no_session_second_factor(1)]) (use that in auto)
  have post: "wp (startLogin2FA cr cfg mail acc) (\<lambda>_. Q) (\<lambda>_ _. True) w1" if "\<And>w'. web_sessions (db w') = web_sessions (db w1) \<Longrightarrow> Q w'" for acc Q w1
    by (rule wp_steps [OF no_session_second_factor(2) [OF assms(2)]]) (use that in auto)
  have issue: "wp (issueSession cr cfg user) Q (\<lambda>_ _. True) w1"
    if "\<And>token w'. web_sessions (db w') = web_sessions (db w1) @ [\<lparr>ws_user = user, ws_token = hashToken cr token, ws_expires = clock w1 + SessionTTL cfg\<rparr>] \<Longrightarrow> Q token w'"
    for user Q w1
    by (rule wp_weaken [OF issueSession_wp]) (use that in auto)
  have "wp (Login cr cfg mail addr email password) (\<lambda>r w'. \<exists>u. user_by_email (to_lower (trim_space email)) (db w) = Some u \<and> verifyPassword cr password (u_pw u)
    \<and> (if u_totp_enabled u \<or> u_email_2fa u
       then lr_requires r \<and> lr_session r = [] \<and> web_sessions (db w') = web_sessions (db w)
       else \<not> lr_requires r \<and> web_sessions (db w') = web_sessions (db w) @
         [\<lparr>ws_user = u_id u, ws_token = hashToken cr (lr_session r), ws_expires = clock w + SessionTTL cfg\<rparr>])) (\<lambda>_ _. True) w"
    unfolding Login_def wp_bnd
    by (rule wp_weaken [OF authenticate_wp]) (auto simp: Let_def wp_simps intro!: totp post issue)
  from wp_InrD [OF this assms(1)] show ?thesis .
qed


lemma account_runs: "faults w = [] \<Longrightarrow> \<exists>acc. account_of cfg u w = (Inr acc, w) \<and> acc_user acc = u"
  by (auto simp: account_of_def maxBatchBytes_def bnd_def result_def db_stmt_def ret_def row_def split: option.split)

lemma find_map_same: "(\<And>x. f x = x \<or> P x \<and> P (f x)) \<Longrightarrow> (\<And>x. P (f x) = P x) \<Longrightarrow> find P (map f xs) = map_option f (find P xs)"
  by (induction xs) auto

text \<open>
  C34: the life of a session. The token of a session that was just opened is that of its
  user until the session expires, and of nobody from then on; after \<open>Logout\<close> it is of
  nobody at any time. (No other session has the same token hash.)
\<close>

theorem session_lifecycle:
  assumes "issueSession cr cfg user w = (Inr token, w1)" and "faults w1 = []"
    and "user_of (db w) user = Some u" and "u_root u \<noteq> None"
    and "\<forall>s \<in> set (web_sessions (db w)). ws_token s \<noteq> hashToken cr token"
  shows "(if t < clock w + SessionTTL cfg
      then \<exists>acc w2. UserBySession cr cfg token (w1\<lparr>clock := t\<rparr>) = (Inr acc, w2) \<and> u_id (acc_user acc) = user
      else fst (UserBySession cr cfg token (w1\<lparr>clock := t\<rparr>)) = Inl NoRows)
    \<and> (\<exists>w2. Logout cr token w1 = (Inr (), w2) \<and> fst (UserBySession cr cfg token (w2\<lparr>clock := t\<rparr>)) = Inl NoRows)"
proof -
  from wp_InrD [OF issueSession_wp assms(1)]
  have rows: "web_sessions (db w1) = web_sessions (db w) @ [\<lparr>ws_user = user, ws_token = hashToken cr token, ws_expires = clock w + SessionTTL cfg\<rparr>]"
    and us: "users (db w1) = map (\<lambda>u. if u_id u = user then u\<lparr>u_last_login := clock w\<rparr> else u) (users (db w))" by auto
  have none: "filter (\<lambda>s. ws_token s = hashToken cr token \<and> P s) (web_sessions (db w)) = []" for P
    using assms(5) by (auto simp: filter_empty_conv)
  have id: "u_id u = user" using assms(3) by (auto simp: user_of_def dest!: find_set)
  have found: "user_of (db w1) user = Some (u\<lparr>u_last_login := clock w\<rparr>)"
    using assms(3) id by (simp add: user_of_def us find_map_same)
  have "session_user (hashToken cr token) (w1\<lparr>clock := t\<rparr>) = (if t < clock w + SessionTTL cfg then Some (u\<lparr>u_last_login := clock w\<rparr>) else None)"
    using found by (simp add: session_user_def rows none)
  moreover have "\<exists>acc. account_of cfg x (w1\<lparr>clock := t\<rparr>) = (Inr acc, w1\<lparr>clock := t\<rparr>) \<and> acc_user acc = x" for x
    by (rule account_runs) (use assms(2) in simp)
  ultimately have "if t < clock w + SessionTTL cfg
      then \<exists>acc w2. UserBySession cr cfg token (w1\<lparr>clock := t\<rparr>) = (Inr acc, w2) \<and> u_id (acc_user acc) = user
      else fst (UserBySession cr cfg token (w1\<lparr>clock := t\<rparr>)) = Inl NoRows"
    using assms(2,4) id by (fastforce simp: UserBySession_def bnd_def db_stmt_def user_query_def)
  moreover have "fst (UserBySession cr cfg token (w1\<lparr>db := (db w1)\<lparr>web_sessions :=
      filter (\<lambda>s. ws_token s \<noteq> hashToken cr token) (web_sessions (db w1))\<rparr>, clock := t\<rparr>)) = Inl NoRows"
    using assms(2) by (simp add: UserBySession_def bnd_def db_stmt_def user_query_def session_user_def filter_empty_conv)
  ultimately show ?thesis
    using assms(2) by (simp add: Logout_def db_stmt_def)
qed


end
