(* ===== verification/SignInExamples.thy ===== *)
theory SignInExamples
  imports AccountExamples SignInSafety
begin

text \<open>
  The guarantees of sign-in, applied to the small site with a challenge, a session and an
  authenticator.
\<close>

definition toy_challenge :: "string \<Rightarrow> challenge_row" where
  "toy_challenge purpose = \<lparr>ch_id = 70, ch_user = 1, ch_purpose = purpose, ch_code = hashOTP toy (SessionSecret site_cfg) ''123456'',
     ch_token = hashToken toy ''tok'', ch_expires = 600, ch_consumed = None, ch_attempts = 0, ch_created = 0\<rparr>"

definition challenged :: "string \<Rightarrow> world" where
  "challenged purpose = site\<lparr>db := site_db\<lparr>challenges := [toy_challenge purpose]\<rparr>\<rparr>"

lemma toy_guess: "wrong toy site_cfg (hashToken toy ''tok'') ''000000'' (challenged p)"
proof -
  have "hashOTP toy (SessionSecret site_cfg) ''000000'' \<noteq> hashOTP toy (SessionSecret site_cfg) ''123456''" by code_simp
  moreover have "trim_space ''000000'' = ''000000''" by code_simp
  ultimately show ?thesis by (simp add: wrong_def challenged_def toy_challenge_def)
qed


definition keyed :: world where
  "keyed = challenged ''login_totp''\<lparr>db := update_user 1 (\<lambda>u. u\<lparr>u_totp_enabled := True, u_totp_last := -1,
     u_totp_secret := base64_encode base64_std (replicate 12 CHR ''n'' @ ''MFRGGZDF'')\<rparr>) (db (challenged ''login_totp''))\<rparr>"

lemma toy_code: "Code toy ''MFRGGZDF'' 0 = Some ''837924''"
proof -
  have "base32_decode (to_upper (trim_space ''MFRGGZDF'')) = Some ''abcde''" by code_simp
  moreover have "of_byte 0 = CHR 0x00" by code_simp
  then have "be_bytes 0 = replicate 8 CHR 0x00" by (simp add: be_bytes_def upt_rec numeral_eq_Suc)
  moreover have "hmac_sha1 toy ''abcde'' (replicate 8 CHR 0x00) = ''abcde'' @ replicate 15 CHR 0x00" by code_simp
  ultimately have "totp_value toy ''abcde'' 0 = (byte CHR ''a'' mod 128 * 2 ^ 24 + byte CHR ''b'' * 2 ^ 16 + byte CHR ''c'' * 2 ^ 8 + byte CHR ''d'') mod 10 ^ 6"
    by (simp add: totp_value_def nth_append Let_def byte_def)
  then have "totp_value toy ''abcde'' 0 = 837924" by (simp add: byte_def)
  moreover have "show_nat 837924 = map (\<lambda>d. char_of (48 + d :: nat)) [8, 3, 7, 9, 2, 4]" by (simp add: show_nat.simps)
  moreover have "map (\<lambda>d. char_of (48 + d :: nat)) [8, 3, 7, 9, 2, 4] = ''837924''" by code_simp
  ultimately have "totp_value toy ''abcde'' 0 = 837924" "pad6 837924 = ''837924''" by (simp_all add: pad6_def Let_def)
  with Code_value \<open>base32_decode _ = _\<close> show ?thesis by metis
qed

lemma keyed_accepts: "ok (fst (consumeTOTPChallenge toy site_cfg 1 ''tok'' ''837924'' keyed))"
proof -
  have "Match toy ''MFRGGZDF'' ''837924'' 0 (-1) = Some 0"
  proof -
    have "trim_space ''837924'' = ''837924''" by code_simp
    then show ?thesis by (simp add: Match_def toy_code)
  qed
  moreover have "map_option (\<lambda>u. (Unseal toy (u_totp_secret u) (SessionSecret site_cfg), u_totp_last u)) (user_of (db keyed) 1) = Some (Some ''MFRGGZDF'', -1)"
    by code_simp
  then obtain u where "user_of (db keyed) 1 = Some u" "Unseal toy (u_totp_secret u) (SessionSecret site_cfg) = Some ''MFRGGZDF''" "u_totp_last u = -1"
    by auto
  moreover have "u_id u = 1" using \<open>user_of (db keyed) 1 = Some u\<close> by (auto simp: user_of_def dest!: find_set)
  moreover have "u \<in> set (users (db keyed))" using \<open>user_of (db keyed) 1 = Some u\<close> by (auto simp: user_of_def dest!: find_set)
  moreover have "challenges (db keyed) = [toy_challenge ''login_totp'']" "faults keyed = []" "clock keyed = 0"
    by (simp_all add: keyed_def challenged_def update_user_def)
  ultimately show ?thesis
    by (auto simp: ok_def consumeTOTPChallenge_def bnd_def map_err_def db_stmt_def ask_row_def row_def getw_def set_counter_def consume_once_def
        challenge_by_token_def open_challenge_def toy_challenge_def require_def ret_def Let_def filter_empty_conv faulty_def pop_def)
qed

theorem totp_counter_rises_witness:
  "\<exists>w' u'. consumeTOTPChallenge toy site_cfg 1 ''tok'' ''837924'' keyed = (Inr (), w') \<and> user_of (db w') 1 = Some u' \<and> -1 < u_totp_last u'"
proof -
  obtain w' where run: "consumeTOTPChallenge toy site_cfg 1 ''tok'' ''837924'' keyed = (Inr (), w')"
    using ok_run [of "consumeTOTPChallenge toy site_cfg 1 ''tok'' ''837924''" keyed, OF keyed_accepts] by auto
  from totp_counter_rises [OF run] obtain u u' where "user_of (db keyed) 1 = Some u" "user_of (db w') 1 = Some u'" "u_totp_last u < u_totp_last u'"
    by blast
  moreover have "map_option u_totp_last (user_of (db keyed) 1) = Some (-1)" by code_simp
  ultimately show ?thesis using run by auto
qed

text \<open>The owner with a password that is known, and a source of random bytes.\<close>

definition toy_hash :: string where
  "toy_hash = hex_encode ''salt'' @ '':'' @ hex_encode (argon2id toy ''secret pw'' ''salt'' 1 (64 * 1024) 2 32)"

lemma toy_hash: "verifyPassword toy ''secret pw'' toy_hash"
  unfolding toy_hash_def verify_hashed by (rule refl)

definition welcomed :: world where
  "welcomed = drawn 3 (site\<lparr>db := update_user 1 (\<lambda>u. u\<lparr>u_pw := toy_hash\<rparr>) site_db\<rparr>)"

lemma welcomed_user:
  "\<exists>u. user_by_email (to_lower (trim_space ''Ann@x.y'')) (db welcomed) = Some u \<and> u_id u = 1 \<and> u_root u \<noteq> None
     \<and> \<not> u_totp_enabled u \<and> \<not> u_email_2fa u \<and> verifyPassword toy ''secret pw'' (u_pw u)"
proof -
  have "to_lower (trim_space ''Ann@x.y'') = ''ann@x.y''" by code_simp
  then show ?thesis
    unfolding welcomed_def by (simp add: user_by_email_def drawn_def update_user_def site_db_def site_user_def user_row_def toy_hash)
qed

lemma welcomed_accepts: "ok (fst (Login toy site_cfg None ''1.2.3.4:5'' ''Ann@x.y'' ''secret pw'' welcomed))"
proof -
  obtain u where u: "user_by_email (to_lower (trim_space ''Ann@x.y'')) (db welcomed) = Some u" "u_id u = 1" "u_root u \<noteq> None"
    "\<not> u_totp_enabled u" "\<not> u_email_2fa u" "verifyPassword toy ''secret pw'' (u_pw u)" using welcomed_user by blast
  let ?w = "welcomed\<lparr>login_limiter := snd (lim_blocked 0 ''1.2.3.4'' (login_limiter welcomed))\<rparr>"
  have host: "split_host_port ''1.2.3.4:5'' = Some ''1.2.3.4''" by code_simp
  have open': "blocked ''1.2.3.4'' welcomed = (Inr False, ?w)"
    by (simp add: blocked_def lim_blocked_def welcomed_def drawn_def site_def boot_def sweep_def attempts_of_def pruneAfter_def Let_def)
  have quiet: "faults ?w = []" by (simp add: welcomed_def drawn_def)
  obtain acc where acc: "account_of site_cfg u ?w = (Inr acc, ?w)" "acc_user acc = u" using account_runs [OF quiet] by blast
  have "user_of (db welcomed) 1 \<noteq> None" "entropy welcomed = replicate 3 (Some of_byte)"
    by (simp_all add: welcomed_def drawn_def update_user_def user_of_def site_db_def site_user_def user_row_def)
  then have "ok (fst (issueSession toy site_cfg 1 ?w))" using quiet
    by (simp add: ok_def issueSession_def newSessionToken_def rand_read_def bnd_def db_stmt_def insert_session_def checked_def getw_def ret_def Let_def
        numeral_3_eq_3 faulty_def pop_def update_user_def)
  with open' quiet u acc show ?thesis
    by (auto simp: ok_def Login_def authenticatePassword_def host bnd_def db_stmt_def user_query_def result_def require_def ret_def Let_def
        split: sum.splits prod.splits)
qed

theorem second_factor_required_witness:
  "\<exists>r w'. Login toy site_cfg None ''1.2.3.4:5'' ''Ann@x.y'' ''secret pw'' welcomed = (Inr r, w') \<and> \<not> lr_requires r \<and> length (web_sessions (db w')) = 1"
proof -
  obtain r w' where run: "Login toy site_cfg None ''1.2.3.4:5'' ''Ann@x.y'' ''secret pw'' welcomed = (Inr r, w')"
    using ok_run [of "Login toy site_cfg None ''1.2.3.4:5'' ''Ann@x.y'' ''secret pw''" welcomed, OF welcomed_accepts] by blast
  have "web_sessions (db welcomed) = []"
    by (simp add: welcomed_def drawn_def update_user_def site_db_def empty_db_def)
  with welcomed_user show ?thesis
    using second_factor_required [OF run] run by (auto simp: quiet_mail_def)
qed

lemma welcomed_opens: "ok (fst (issueSession toy site_cfg 1 welcomed))"
  by code_simp

theorem session_lifecycle_witness:
  "\<exists>token w1 w2. issueSession toy site_cfg 1 welcomed = (Inr token, w1)
     \<and> fst (UserBySession toy site_cfg token (w1\<lparr>clock := 101\<rparr>)) = Inl NoRows \<and> Logout toy token w1 = (Inr (), w2)"
proof -
  obtain token w1 where run: "issueSession toy site_cfg 1 welcomed = (Inr token, w1)"
    using ok_run [of "issueSession toy site_cfg 1" welcomed, OF welcomed_opens] by blast
  have "wp (issueSession toy site_cfg 1) (\<lambda>_ w'. faults w' = []) (\<lambda>_ _. True) welcomed"
    by (auto simp: issueSession_def newSessionToken_def Let_def wp_simps insert_session_def checked_def welcomed_def drawn_def faulty_def pop_def
        split: option.split list.split)
  from wp_InrD [OF this run] have quiet: "faults w1 = []" .
  have "\<exists>u. user_of (db welcomed) 1 = Some u \<and> u_root u \<noteq> None" "web_sessions (db welcomed) = []" "clock welcomed = 0"
    by (simp_all add: welcomed_def drawn_def update_user_def user_of_def site_db_def site_user_def user_row_def empty_db_def)
  then show ?thesis
    using session_lifecycle [OF run quiet, of _ 101] run by (auto simp: site_cfg_def)
qed

end
