(* ===== verification/Http.thy ===== *)
theory Http
  imports SignIn
begin

text \<open>
  \<open>internal/httpx/json.go\<close> and \<open>internal/app/middleware.go\<close>: what the server reads off a
  request, the address a request is attributed to, and the protection against forged
  requests. \<open>net/netip\<close> is a parameter, the record \<open>netip\<close>; a prefix is the set of the
  addresses it contains.
\<close>

section \<open>Requests\<close>

text \<open>The headers in the order of their lines, names in canonical form.\<close>

record http_request =
  rq_method :: string
  rq_path :: string
  rq_remote :: string
  rq_tls :: bool
  rq_headers :: "(string \<times> string) list"
  rq_cookies :: "(string \<times> string) list"
  rq_query :: "(string \<times> string) list"
  rq_form :: "(string \<times> string) list"

text \<open>\<open>r.Header.Get\<close>, \<open>r.URL.Query().Get\<close>, \<open>r.FormValue\<close>: the first value, or the empty text.\<close>

definition first_value :: "(string \<times> string) list \<Rightarrow> string \<Rightarrow> string" where
  "first_value kvs k = (case map_of kvs k of None \<Rightarrow> [] | Some v \<Rightarrow> v)"

abbreviation rq_header :: "http_request \<Rightarrow> string \<Rightarrow> string" where
  "rq_header r k \<equiv> first_value (rq_headers r) k"

abbreviation rq_param :: "http_request \<Rightarrow> string \<Rightarrow> string" where
  "rq_param r k \<equiv> first_value (rq_query r) k"

text \<open>
  \<open>strings.EqualFold\<close> with an ASCII text: the two runes outside ASCII that fold to letters
  are U+017F (\<open>s\<close>) and U+212A (\<open>k\<close>).
\<close>

fun fold_ascii :: "string \<Rightarrow> string" where
  "fold_ascii [] = []"
| "fold_ascii (a # s) =
     (case s of
        b # c # t \<Rightarrow>
          if a = CHR 0xE2 \<and> b = CHR 0x84 \<and> c = CHR 0xAA then CHR ''k'' # fold_ascii t
          else if a = CHR 0xC5 \<and> b = CHR 0xBF then CHR ''s'' # fold_ascii (c # t)
          else lower_byte a # fold_ascii s
      | [b] \<Rightarrow> if a = CHR 0xC5 \<and> b = CHR 0xBF then ''s'' else lower_byte a # fold_ascii s
      | [] \<Rightarrow> [lower_byte a])"

definition equal_fold :: "string \<Rightarrow> string \<Rightarrow> bool" where
  "equal_fold s t \<longleftrightarrow> fold_ascii s = fold_ascii t"

section \<open>The address of a client\<close>

record 'a netip =
  parse_addr :: "string \<Rightarrow> 'a option"
  show_addr :: "'a \<Rightarrow> string"

definition isTrusted :: "('a \<Rightarrow> bool) list \<Rightarrow> 'a \<Rightarrow> bool" where
  "isTrusted trusted a \<longleftrightarrow> (\<exists>contains \<in> set trusted. contains a)"

definition peer_host :: "http_request \<Rightarrow> string" where
  "peer_host r = (case split_host_port (rq_remote r) of None \<Rightarrow> rq_remote r | Some h \<Rightarrow> h)"

text \<open>The loop over the parts of the header, from the last one to the first.\<close>

fun untrusted_hop :: "'a netip \<Rightarrow> ('a \<Rightarrow> bool) list \<Rightarrow> string list \<Rightarrow> 'a option" where
  "untrusted_hop np trusted [] = None"
| "untrusted_hop np trusted (part # parts) =
     (case parse_addr np (trim_space part) of
        None \<Rightarrow> untrusted_hop np trusted parts
      | Some a \<Rightarrow> if isTrusted trusted a then untrusted_hop np trusted parts else Some a)"

definition ClientIP :: "'a netip \<Rightarrow> ('a \<Rightarrow> bool) list \<Rightarrow> http_request \<Rightarrow> string" where
  "ClientIP np trusted r =
     (case parse_addr np (trim_space (peer_host r)) of
        None \<Rightarrow> peer_host r
      | Some peer \<Rightarrow>
          if \<not> isTrusted trusted peer then peer_host r
          else
            let xff = rq_header r ''X-Forwarded-For'' in
            if xff = [] then show_addr np peer
            else (case untrusted_hop np trusted (rev (split_at CHR '','' xff)) of
                None \<Rightarrow> show_addr np peer
              | Some a \<Rightarrow> show_addr np a))"

definition IsHTTPS :: "'a netip \<Rightarrow> ('a \<Rightarrow> bool) list \<Rightarrow> http_request \<Rightarrow> bool" where
  "IsHTTPS np trusted r =
     (if rq_tls r then True
      else (case parse_addr np (trim_space (peer_host r)) of
          None \<Rightarrow> False
        | Some peer \<Rightarrow>
            if \<not> isTrusted trusted peer then False
            else equal_fold (trim_space (rq_header r ''X-Forwarded-Proto'')) ''https''))"

lemma untrusted_hop_skip:
  assumes "\<forall>h \<in> set hops. case parse_addr np (trim_space h) of None \<Rightarrow> True | Some b \<Rightarrow> isTrusted trusted b"
  shows "untrusted_hop np trusted (hops @ parts) = untrusted_hop np trusted parts"
  using assms by (induction hops) (auto split: option.splits)

lemma split_at_hops:
  "(\<forall>h \<in> set hops. c \<notin> set h) \<Longrightarrow> c \<notin> set x \<Longrightarrow> split_at c (x @ concat (map (\<lambda>h. c # h) hops)) = x # hops"
proof (induction hops arbitrary: x)
  case Nil
  then show ?case by (simp add: split_at_none)
next
  case (Cons h hops)
  then show ?case by (simp add: split_at_append_sep split_at_none)
qed


text \<open>
  Only the first line of the header is read. A proxy that adds a line of its own, rather
  than to append to the line it has received, does not protect against a forged address.
\<close>

lemma second_header_ignored:
  assumes "parse_addr np (trim_space (peer_host r)) = Some peer" and "isTrusted trusted peer"
    and "rq_headers r = [(''X-Forwarded-For'', spoofed), (''X-Forwarded-For'', real)]"
    and "CHR '','' \<notin> set spoofed" and "parse_addr np (trim_space spoofed) = Some a" and "\<not> isTrusted trusted a" and "spoofed \<noteq> []"
  shows "ClientIP np trusted r = show_addr np a"
  using assms by (simp add: ClientIP_def Let_def first_value_def split_at_none)

section \<open>Forged requests\<close>

definition csrfTokenFor :: "crypto \<Rightarrow> string \<Rightarrow> string \<Rightarrow> string" where
  "csrfTokenFor cr secret session = hex_encode (hmac_sha256 cr secret (''trdriver-csrf:'' @ session))"

definition sessionCookieValue :: "http_request \<Rightarrow> string" where
  "sessionCookieValue r = first_value (rq_cookies r) ''session_token''"

text \<open>Whether \<open>csrfMiddleware\<close> passes a request on; otherwise the answer is 403.\<close>

definition csrf_exempt :: "string \<Rightarrow> bool" where
  "csrf_exempt path \<longleftrightarrow>
     path \<in> {''/api/auth/login'', ''/api/auth/register'', ''/api/auth/device-login'', ''/api/auth/login/2fa'',
       ''/api/auth/forgot-password'', ''/api/auth/reset-password'', ''/api/auth/qr/redeem''}
     \<or> has_prefix path ''/s/'' \<or> has_prefix path ''/dav''"

definition bearer :: "http_request \<Rightarrow> bool" where
  "bearer r \<longleftrightarrow> has_prefix (to_lower (trim_space (rq_header r ''Authorization''))) ''bearer ''"

definition csrf_passes :: "crypto \<Rightarrow> string \<Rightarrow> http_request \<Rightarrow> bool" where
  "csrf_passes cr secret r =
     (if rq_method r = ''GET'' \<or> rq_method r = ''HEAD'' \<or> rq_method r = ''OPTIONS'' then True
      else if bearer r then True
      else if csrf_exempt (rq_path r) then True
      else
        let session = sessionCookieValue r; expected = csrfTokenFor cr secret session in
        \<not> (session = [] \<or> rq_header r ''X-CSRF-Token'' \<noteq> expected))"

text \<open>
  The token that \<open>inject\<close> puts into the cookie \<open>csrf_token\<close> of the response: for the session
  that the response itself sets, or else that of the request.
\<close>

definition csrf_injected :: "crypto \<Rightarrow> string \<Rightarrow> http_request \<Rightarrow> string list \<Rightarrow> string" where
  "csrf_injected cr secret r set_cookies = csrfTokenFor cr secret
     (foldl (\<lambda>session raw. if has_prefix raw ''session_token='' then hd (split_at CHR '';'' (drop (length ''session_token='') raw)) else session)
        (sessionCookieValue r) set_cookies)"

definition guarded :: "http_request \<Rightarrow> bool" where
  "guarded r \<longleftrightarrow> rq_method r \<notin> {''GET'', ''HEAD'', ''OPTIONS''} \<and> \<not> bearer r \<and> \<not> csrf_exempt (rq_path r)"

text \<open>
  C27: the token against forged requests is bound to the session. Of a guarded request
  that carries the token a response has set, the check passes exactly when its session
  cookie is not empty and has the same authentication code as the session that response
  was for: the session it has opened, or else the one its request came with. So the own
  token is always accepted, after a sign-in the new one, and that of another session is
  not (unless the two codes collide).
\<close>

theorem csrf_bound_to_session:
  assumes "guarded r" and "rq_header r ''X-CSRF-Token'' = csrf_injected cr secret r0 cookies"
    and "cookies = (if opened = None then [] else [''session_token='' @ the opened @ ''; Path=/''])"
    and "\<And>s. opened = Some s \<Longrightarrow> CHR '';'' \<notin> set s"
    and "session = (case opened of None \<Rightarrow> sessionCookieValue r0 | Some s \<Rightarrow> s)"
  shows "csrf_passes cr secret r \<longleftrightarrow> sessionCookieValue r \<noteq> []
    \<and> hmac_sha256 cr secret (''trdriver-csrf:'' @ session) = hmac_sha256 cr secret (''trdriver-csrf:'' @ sessionCookieValue r)"
proof -
  have "csrf_injected cr secret r0 cookies = csrfTokenFor cr secret session"
  proof (cases opened)
    case (Some s)
    then have "split_at CHR '';'' (s @ ''; Path=/'') = s # split_at CHR '';'' '' Path=/''"
      using split_at_append_sep [of "CHR '';''" s "'' Path=/''"] assms(4) [OF Some] by (simp add: split_at_none)
    with Some assms(3,5) show ?thesis
      by (simp add: csrf_injected_def has_prefix_def)
  qed (use assms(3,5) in \<open>simp add: csrf_injected_def\<close>)
  with assms(1,2) show ?thesis
    using hex_encode_inj by (auto simp: csrf_passes_def guarded_def csrfTokenFor_def Let_def)
qed

end
