(* ===== verification/Archives.thy ===== *)
theory Archives
  imports Files "HOL-Library.Sublist"
begin

text \<open>
  \<open>internal/files/preview.go\<close> and \<open>internal/files/zipdownload.go\<close>: the content type and
  the preview of a file, and the download of a folder as an archive. The table of
  \<open>mime.TypeByExtension\<close> is the parameter \<open>mime_by_ext\<close> (empty text when there is none). An
  archive is the list of its names and contents; the format of the file is that of
  \<open>archive/zip\<close>.
\<close>

section \<open>Content types\<close>

definition resolveContentType :: "(string \<Rightarrow> string) \<Rightarrow> string \<Rightarrow> string \<Rightarrow> string" where
  "resolveContentType mime_by_ext name rawMime =
     (let mimeType = trim_space (to_lower rawMime) in
      if mimeType \<noteq> [] \<and> mimeType \<noteq> ''application/octet-stream'' then mimeType
      else
        let guessed = mime_by_ext (to_lower (go_ext name)) in
        if guessed \<noteq> [] then to_lower guessed
        else if mimeType \<noteq> [] then mimeType
        else ''application/octet-stream'')"

definition canInlinePreview :: "(string \<Rightarrow> string) \<Rightarrow> string \<Rightarrow> string \<Rightarrow> bool" where
  "canInlinePreview mime_by_ext name mimeType =
     (let contentType = resolveContentType mime_by_ext name mimeType in
      if has_prefix contentType ''image/'' then contentType \<noteq> ''image/svg+xml''
      else if has_prefix contentType ''video/'' then True
      else if has_prefix contentType ''audio/'' then True
      else if contentType = ''application/pdf'' then True
      else to_lower (go_ext name) \<in> {''.jpg'', ''.jpeg'', ''.png'', ''.gif'', ''.webp'', ''.avif'', ''.bmp'',
             ''.mp4'', ''.webm'', ''.ogg'', ''.ogv'', ''.mp3'', ''.wav'', ''.m4a'', ''.aac'', ''.pdf''})"

section \<open>The files of a folder\<close>

record zip_item =
  z_path :: string
  z_key :: skey
  z_size :: int
  z_mod :: int

text \<open>The keys without a blob: the empty one and those that begin with \<open>folder/\<close>.\<close>

definition no_blob :: "skey \<Rightarrow> bool" where
  "no_blob k \<longleftrightarrow> (case k of NoKey \<Rightarrow> True | FolderKey _ \<Rightarrow> True | _ \<Rightarrow> False)"

text \<open>The recursive query: level by level, each entry with its path below the folder.\<close>

fun zip_levels :: "nat \<Rightarrow> file_entry list \<Rightarrow> (file_entry \<times> string) list \<Rightarrow> (file_entry \<times> string) list option" where
  "zip_levels n es [] = Some []"
| "zip_levels 0 es (x # xs) = None"
| "zip_levels (Suc n) es (x # xs) = map_option (\<lambda>rest. (x # xs) @ rest)
     (zip_levels n es (concat (map (\<lambda>(t, rel). map (\<lambda>f. (f, if rel = [] then fe_name f else rel @ ''/'' @ fe_name f))
        (filter (\<lambda>f. live f \<and> fe_parent f = Some (fe_id t)) es)) (x # xs))))"

definition zip_rows :: "uuid \<Rightarrow> world \<Rightarrow> err + zip_item list" where
  "zip_rows folder w =
     (case zip_levels (Suc (length (entries (db w)))) (entries (db w))
        (map (\<lambda>f. (f, [])) (filter (\<lambda>f. fe_id f = folder \<and> live f) (entries (db w)))) of
        None \<Rightarrow> Inl Diverges
      | Some tree \<Rightarrow> Inr (sort_by (\<lambda>a b. sql_le w (z_path a) (z_path b))
          (map (\<lambda>(f, rel). \<lparr>z_path = rel, z_key = fe_key f, z_size = fe_size f, z_mod = fe_updated f\<rparr>)
            (filter (\<lambda>(f, _). fe_kind f = File \<and> \<not> no_blob (fe_key f)) tree))))"

definition sanitizeZipPath :: "string \<Rightarrow> string option" where
  "sanitizeZipPath rel0 =
     (let rel = go_clean (replace_all (CHR 0x5C) CHR ''/'' rel0) in
      if rel = ''.'' \<or> rel = ''..'' \<or> has_prefix rel ''../'' then None else Some rel)"

text \<open>\<open>nanos\<close> is what \<open>time.Now().UnixNano()\<close> gives when all the numbers are taken.\<close>

definition dedupeZipPath :: "nat \<Rightarrow> string \<Rightarrow> string list \<Rightarrow> string" where
  "dedupeZipPath nanos base seen =
     (let ext = go_ext base; stem = trim_suffix base ext;
          candidate = (\<lambda>i. stem @ '' ('' @ show_nat i @ '')'' @ ext)
      in case find (\<lambda>i. candidate i \<notin> set seen) [2..<10000] of
           Some i \<Rightarrow> candidate i
         | None \<Rightarrow> stem @ ''-'' @ show_nat nanos @ ext)"

fun zip_names :: "nat \<Rightarrow> zip_item list \<Rightarrow> string list \<Rightarrow> zip_item list" where
  "zip_names nanos [] seen = []"
| "zip_names nanos (item # items) seen =
     (case sanitizeZipPath (z_path item) of
        None \<Rightarrow> zip_names nanos items seen
      | Some safe \<Rightarrow>
          let p = (if safe \<in> set seen then dedupeZipPath nanos safe seen else safe)
          in item\<lparr>z_path := p\<rparr> # zip_names nanos items (p # seen))"

definition collectZipFiles :: "nat \<Rightarrow> uuid \<Rightarrow> zip_item list srv" where
  "collectZipFiles nanos folder = bnd (db_stmt (ask (zip_rows folder))) (\<lambda>rows. ret (zip_names nanos rows []))"

section \<open>The archive\<close>

abbreviation maxZipFiles :: nat where "maxZipFiles \<equiv> 2000"

abbreviation maxZipBytes :: int where "maxZipBytes \<equiv> 2147483648"

fun zip_ready :: "zip_item list \<Rightarrow> int \<Rightarrow> nat \<Rightarrow> zip_item list srv" where
  "zip_ready [] got n = ret []"
| "zip_ready (item # items) got n =
     (if no_blob (z_key item) then zip_ready items got n
      else bnd (result (blob_size (z_key item))) (\<lambda>r.
        case r of
          Inl _ \<Rightarrow> zip_ready items got n
        | Inr sz \<Rightarrow>
            if sz \<le> 0 then zip_ready items got n
            else
              bnd (require (\<not> maxZipBytes < got + sz) (Msg ''folder exceeds max zip size'')) (\<lambda>_.
              bnd (require (\<not> maxZipFiles < Suc n) (Msg ''folder exceeds max zip file count'')) (\<lambda>_.
              bnd (zip_ready items (got + sz) (Suc n)) (\<lambda>rest. ret (item\<lparr>z_size := sz\<rparr> # rest))))))"

fun zip_write :: "zip_item list \<Rightarrow> (string \<times> string) list srv" where
  "zip_write [] = ret []"
| "zip_write (item # items) =
     bnd (result (blob_open (z_key item))) (\<lambda>r.
     case r of
       Inl e \<Rightarrow> if e = NotExist then zip_write items else fail e
     | Inr c \<Rightarrow>
         bnd (require (z_size item \<le> int (length c)) (Msg ''write'')) (\<lambda>_.
         bnd (zip_write items) (\<lambda>rest. ret ((z_path item, take (nat (z_size item)) c) # rest))))"

definition WriteFolderZip :: "nat \<Rightarrow> uuid \<Rightarrow> string \<Rightarrow> uuid \<Rightarrow> (string \<times> (string \<times> string) list) srv" where
  "WriteFolderZip nanos user userRole folder =
     bnd (Require user userRole folder ActionView) (\<lambda>_.
     bnd (entryByID folder) (\<lambda>entry.
     bnd (require (fe_kind entry = Folder) (Msg ''not a folder'')) (\<lambda>_.
     bnd (collectZipFiles nanos folder) (\<lambda>items.
     bnd (require (items \<noteq> []) (Msg ''folder is empty'')) (\<lambda>_.
     bnd (zip_ready items 0 0) (\<lambda>ready.
     bnd (require (ready \<noteq> []) (Msg ''no downloadable files found in folder'')) (\<lambda>_.
     bnd (zip_write ready) (\<lambda>content. ret (fe_name entry @ ''.zip'', content)))))))))"

section \<open>Names in an archive\<close>

text \<open>A path that stays inside the folder it is unpacked to: relative, its components proper names.\<close>

definition inside :: "string \<Rightarrow> bool" where
  "inside p \<longleftrightarrow> (\<exists>ns. ns \<noteq> [] \<and> (\<forall>n \<in> set ns. proper n) \<and> p = join_with CHR ''/'' ns)"

definition plain_name :: "string \<Rightarrow> bool" where
  "plain_name n \<longleftrightarrow> n \<noteq> [] \<and> CHR ''/'' \<notin> set n \<and> CHR 0x5C \<notin> set n"

definition plain_path :: "string \<Rightarrow> bool" where
  "plain_path p \<longleftrightarrow> p = [] \<or> \<not> rooted p \<and> CHR 0x5C \<notin> set p"

lemma plain_path_child: "plain_path rel \<Longrightarrow> plain_name n \<Longrightarrow> plain_path (if rel = [] then n else rel @ ''/'' @ n)"
  by (cases rel; cases n) (auto simp: plain_path_def plain_name_def rooted_def has_prefix_def)

lemma zip_levels_plain:
  "\<forall>e \<in> set es. plain_name (fe_name e) \<Longrightarrow> zip_levels n es front = Some tree \<Longrightarrow> \<forall>(f, rel) \<in> set front. plain_path rel
   \<Longrightarrow> \<forall>(f, rel) \<in> set tree. plain_path rel"
proof (induction n es front arbitrary: tree rule: zip_levels.induct)
  case (3 n es x xs)
  from "3.prems"(2) obtain rest where rest: "tree = (x # xs) @ rest"
    "zip_levels n es (concat (map (\<lambda>(t, rel). map (\<lambda>f. (f, if rel = [] then fe_name f else rel @ ''/'' @ fe_name f))
        (filter (\<lambda>f. live f \<and> fe_parent f = Some (fe_id t)) es)) (x # xs))) = Some rest" by auto
  have "\<forall>(f, rel) \<in> set rest. plain_path rel"
  proof (rule "3.IH" [OF "3.prems"(1) rest(2)], clarify)
    fix f rel
    assume "(f, rel) \<in> set (concat (map (\<lambda>(t, rel). map (\<lambda>f. (f, if rel = [] then fe_name f else rel @ ''/'' @ fe_name f))
        (filter (\<lambda>f. live f \<and> fe_parent f = Some (fe_id t)) es)) (x # xs)))"
    then obtain t r where "(t, r) \<in> set (x # xs)" "f \<in> set es" "rel = (if r = [] then fe_name f else r @ ''/'' @ fe_name f)"
      by (auto split: prod.splits)
    moreover from this(1) "3.prems"(3) have "plain_path r" by auto
    moreover from "3.prems"(1) have "plain_name (fe_name f)" using \<open>f \<in> set es\<close> by blast
    ultimately show "plain_path rel" using plain_path_child [of r "fe_name f"] by simp
  qed
  with "3.prems"(3) rest(1) show ?case by auto
qed simp_all

lemma replace_all_id: "a \<notin> set s \<Longrightarrow> replace_all a b s = s"
  by (induction s) (auto simp: replace_all_def)

lemma sanitized_inside:
  assumes "plain_path rel" and "sanitizeZipPath rel = Some safe"
  shows "inside safe"
proof -
  have same: "replace_all (CHR 0x5C) CHR ''/'' rel = rel"
    using assms(1) replace_all_id [of "CHR 0x5C" rel] by (cases "rel = []") (auto simp: plain_path_def replace_all_def)
  have r: "\<not> rooted rel" using assms(1) by (auto simp: plain_path_def rooted_def has_prefix_def)
  from assms(2) have safe: "safe = go_clean rel" "safe \<noteq> ''.''" "safe \<noteq> ''..''" "\<not> has_prefix safe ''../''"
    by (auto simp: sanitizeZipPath_def same Let_def split: if_splits)
  from clean_form_comps [of rel] r obtain k ns where cs: "comps rel = replicate k ''..'' @ ns" and ns: "\<forall>n \<in> set ns. proper n"
    by (auto simp: clean_form_def)
  have eq: "safe = (if comps rel = [] then ''.'' else join_with CHR ''/'' (comps rel))" if "comps rel \<noteq> [] \<longrightarrow> join_with CHR ''/'' (comps rel) \<noteq> []"
    using that r by (auto simp: safe(1) go_clean_def unsplit_def Let_def)
  have ne: "comps rel \<noteq> [] \<Longrightarrow> join_with CHR ''/'' (comps rel) \<noteq> []"
    using join_ne [OF clean_form_comps [of rel]] .
  have k: "k = 0"
  proof (rule ccontr)
    assume "k \<noteq> 0"
    then obtain j where "k = Suc j" by (cases k) auto
    with eq ne cs have "safe = ''..'' \<or> has_prefix safe ''../''"
      by (cases "replicate j ''..'' @ ns") (auto simp: has_prefix_def)
    with safe(3,4) show False by blast
  qed
  with cs eq ne safe(2) have "ns \<noteq> []" "safe = join_with CHR ''/'' ns" by (auto split: if_splits)
  with ns show ?thesis unfolding inside_def by blast
qed

lemma split_at_suffix: "c \<notin> set t \<Longrightarrow> split_at c (s @ t) = butlast (split_at c s) @ [last (split_at c s) @ t]"
proof (induction s)
  case Nil
  then show ?case by (simp add: split_at_none)
next
  case (Cons x s)
  then show ?case by (cases "split_at c s"; cases "tl (split_at c s)") auto
qed

lemma ext_suffix: "\<exists>stem. s = stem @ go_ext s \<and> CHR ''/'' \<notin> set (go_ext s)"
proof -
  let ?e = "last (split_at CHR ''/'' s)"
  have suffix: "\<exists>a. x = a @ CHR ''.'' # last (split_at CHR ''.'' x)" if "CHR ''.'' \<in> set x" for x
  proof -
    from split_list_last [OF that] obtain a b where "x = a @ CHR ''.'' # b \<and> CHR ''.'' \<notin> set b" by (elim exE)
    then show ?thesis by (simp add: split_at_append_sep split_at_none)
  qed
  have whole: "\<exists>a. s = a @ ?e"
  proof (cases "CHR ''/'' \<in> set s")
    case True
    from split_list_last [OF this] obtain a b where "s = a @ CHR ''/'' # b \<and> CHR ''/'' \<notin> set b" by (elim exE)
    then have ab: "s = a @ CHR ''/'' # b" "CHR ''/'' \<notin> set b" by simp_all
    then have "?e = b" by (simp add: split_at_append_sep split_at_none)
    with ab show ?thesis by (intro exI [of _ "a @ ''/''"]) simp
  qed (simp add: split_at_none)
  have "CHR ''/'' \<notin> set ?e" using split_at_no_sep [of ?e "CHR ''/''" s] last_in_set [OF split_at_ne] by blast
  with suffix [of ?e] whole show ?thesis
  proof (cases "CHR ''.'' \<in> set ?e")
    case True
    from suffix [OF this] obtain a where a: "?e = a @ CHR ''.'' # last (split_at CHR ''.'' ?e)" by blast
    from whole obtain b where "s = b @ ?e" by blast
    with a have "s = (b @ a) @ go_ext s" using True by (simp add: go_ext_def Let_def)
    moreover have "set (go_ext s) \<subseteq> set ?e"
      using arg_cong [OF a, of set] True unfolding go_ext_def by (simp add: Let_def) blast
    ultimately show ?thesis using \<open>CHR ''/'' \<notin> set ?e\<close> by blast
  qed (simp add: go_ext_def)
qed

lemma inside_split: "inside p \<longleftrightarrow> (\<forall>n \<in> set (split_at CHR ''/'' p). proper n)"
proof
  assume "inside p"
  then obtain ns where ns: "ns \<noteq> []" "\<forall>n \<in> set ns. proper n" "p = join_with CHR ''/'' ns" by (auto simp: inside_def)
  then have "split_at CHR ''/'' p = ns" by (simp add: split_join proper_def)
  with ns show "\<forall>n \<in> set (split_at CHR ''/'' p). proper n" by simp
next
  assume "\<forall>n \<in> set (split_at CHR ''/'' p). proper n"
  then show "inside p" unfolding inside_def by (intro exI [of _ "split_at CHR ''/'' p"]) simp
qed

lemma renumbered_inside:
  assumes "inside (stem @ ext)" and "CHR ''/'' \<notin> set ext" and "CHR ''/'' \<notin> set mid" and "c \<in> set mid" and "c \<noteq> CHR ''.''"
  shows "inside (stem @ mid @ ext)"
proof -
  have "set (butlast (split_at CHR ''/'' stem)) \<subseteq> set (split_at CHR ''/'' (stem @ ext))"
    using assms(2) by (auto simp: split_at_suffix)
  moreover have "CHR ''/'' \<notin> set (last (split_at CHR ''/'' stem))"
    using split_at_no_sep last_in_set [OF split_at_ne] by blast
  then have "proper (last (split_at CHR ''/'' stem) @ mid @ ext)"
    using assms(2-5) by (auto simp: proper_def append_eq_Cons_conv)
  moreover have "split_at CHR ''/'' (stem @ mid @ ext) = butlast (split_at CHR ''/'' stem) @ [last (split_at CHR ''/'' stem) @ mid @ ext]"
    using assms(2,3) by (intro split_at_suffix) simp
  ultimately show ?thesis using assms(1) unfolding inside_split by auto
qed

lemma trim_suffix_append: "trim_suffix (s @ t) t = s"
  by (simp add: trim_suffix_def has_prefix_def)

lemma deduped:
  assumes "inside base" and "length seen < 9998"
  shows "inside (dedupeZipPath nanos base seen)" and "dedupeZipPath nanos base seen \<notin> set seen"
proof -
  obtain stem where stem: "base = stem @ go_ext base" "CHR ''/'' \<notin> set (go_ext base)" using ext_suffix by blast
  then have cut: "trim_suffix base (go_ext base) = stem" by (metis trim_suffix_append)
  define cand where "cand i = stem @ '' ('' @ show_nat i @ '')'' @ go_ext base" for i
  have "inj cand" using show_nat_inj by (auto simp: inj_def cand_def)
  then have "card (cand ` {2..<10000}) = 9998" by (subst card_image) (auto simp: inj_on_def inj_def)
  moreover have "card (set seen) < 9998" using assms(2) card_length [of seen] by linarith
  ultimately have "\<not> cand ` {2..<10000} \<subseteq> set seen" using card_mono [of "set seen" "cand ` {2..<10000}"] by auto
  then obtain j where "j \<in> set [2..<10000]" "cand j \<notin> set seen" unfolding set_upt by blast
  then have "find (\<lambda>i. cand i \<notin> set seen) [2..<10000] \<noteq> None" unfolding find_none by blast
  then obtain i where i: "find (\<lambda>i. cand i \<notin> set seen) [2..<10000] = Some i" by blast
  have p: "dedupeZipPath nanos base seen = cand i"
    unfolding dedupeZipPath_def Let_def cut i [unfolded cand_def] option.case cand_def by (rule refl)
  show "dedupeZipPath nanos base seen \<notin> set seen"
    unfolding p by (rule find_set [OF i, THEN conjunct2])
  have "CHR ''/'' \<notin> set (show_nat i)" using show_nat_chars [of i] by auto
  then show "inside (dedupeZipPath nanos base seen)"
    unfolding p cand_def using renumbered_inside [of stem "go_ext base" "'' ('' @ show_nat i @ '')''" "CHR '' ''"] assms(1) stem by simp
qed

lemma zip_names_good:
  assumes "\<forall>item \<in> set items. plain_path (z_path item)" and "length items + length seen < 9998" and "distinct seen"
  shows "distinct (map z_path (zip_names nanos items seen) @ seen) \<and> (\<forall>item \<in> set (zip_names nanos items seen). inside (z_path item))"
  using assms
proof (induction items arbitrary: seen)
  case Nil
  then show ?case by simp
next
  case (Cons item items)
  show ?case
  proof (cases "sanitizeZipPath (z_path item)")
    case None
    with Cons.IH [of seen] Cons.prems show ?thesis by simp
  next
    case (Some safe)
    let ?p = "if safe \<in> set seen then dedupeZipPath nanos safe seen else safe"
    have safe: "inside safe" using Cons.prems(1) Some by (intro sanitized_inside) auto
    moreover have "length seen < 9998" using Cons.prems(2) by simp
    ultimately have p: "inside ?p" "?p \<notin> set seen" using deduped by auto
    from Cons.IH [of "?p # seen"] Cons.prems p(2) have "distinct (map z_path (zip_names nanos items (?p # seen)) @ ?p # seen)
      \<and> (\<forall>item \<in> set (zip_names nanos items (?p # seen)). inside (z_path item))" by simp
    with p Some show ?thesis by (auto simp: Let_def)
  qed
qed

lemma wp_any: "(\<And>x w'. Q x w') \<Longrightarrow> (\<And>e w'. E e w') \<Longrightarrow> wp m Q E w"
  by (simp add: wp_def split: prod.split sum.split)

lemma subseq_keeps: "subseq xs ys \<Longrightarrow> set xs \<subseteq> set ys \<and> (distinct ys \<longrightarrow> distinct xs)"
  by (induction rule: list_emb.induct) auto

text \<open>Distinct paths that stay inside; a part of them is so too.\<close>

definition drawn_from :: "string list \<Rightarrow> bool" where
  "drawn_from ps \<longleftrightarrow> distinct ps \<and> (\<forall>p \<in> set ps. inside p)"

lemma drawn_from_subseq: "subseq ps qs \<Longrightarrow> drawn_from qs \<Longrightarrow> drawn_from ps"
  using subseq_keeps [of ps qs] by (auto simp: drawn_from_def)

lemma zip_ready_subseq: "wp (zip_ready items got n) (\<lambda>r _. subseq (map z_path r) (map z_path items)) (\<lambda>_ _. True) w"
proof (induction items arbitrary: got n w)
  case (Cons item items)
  have skip: "wp (zip_ready items got n) (\<lambda>r _. subseq (map z_path r) (z_path item # map z_path items)) (\<lambda>_ _. True) w" for got n w
    by (rule wp_weaken [OF Cons.IH]) auto
  have keep: "wp (zip_ready items got n) (\<lambda>r _. subseq (z_path item # map z_path r) (z_path item # map z_path items)) (\<lambda>_ _. True) w" for got n w
    by (rule wp_weaken [OF Cons.IH]) auto
  show ?case
    by (auto simp: wp_simps skip keep Cons.IH intro!: wp_any [where m = "blob_size (z_key item)"])
qed (simp add: wp_simps)

lemma zip_write_subseq: "wp (zip_write items) (\<lambda>r _. subseq (map fst r) (map z_path items)) (\<lambda>_ _. True) w"
proof (induction items arbitrary: w)
  case (Cons item items)
  have skip: "wp (zip_write items) (\<lambda>r _. subseq (map fst r) (z_path item # map z_path items)) (\<lambda>_ _. True) w" for w
    by (rule wp_weaken [OF Cons.IH]) auto
  have keep: "wp (zip_write items) (\<lambda>r _. subseq (z_path item # map fst r) (z_path item # map z_path items)) (\<lambda>_ _. True) w" for w
    by (rule wp_weaken [OF Cons.IH]) auto
  show ?case
    by (auto simp: wp_simps skip keep Cons.IH intro!: wp_any [where m = "blob_open (z_key item)"])
qed (simp add: wp_simps)

lemma zip_rows_plain:
  assumes "\<forall>e \<in> set (entries (db w)). plain_name (fe_name e)" and "zip_rows folder w = Inr rows"
  shows "\<forall>item \<in> set rows. plain_path (z_path item)"
proof -
  let ?front = "map (\<lambda>f. (f, [])) (filter (\<lambda>f. fe_id f = folder \<and> live f) (entries (db w)))"
  from assms(2) obtain tree where tree: "zip_levels (Suc (length (entries (db w)))) (entries (db w)) ?front = Some tree"
    and rows: "rows = sort_by (\<lambda>a b. sql_le w (z_path a) (z_path b))
          (map (\<lambda>(f, rel). \<lparr>z_path = rel, z_key = fe_key f, z_size = fe_size f, z_mod = fe_updated f\<rparr>)
            (filter (\<lambda>(f, _). fe_kind f = File \<and> \<not> no_blob (fe_key f)) tree))"
    by (auto simp: zip_rows_def split: option.splits)
  have plain: "\<forall>(f, rel) \<in> set tree. plain_path rel"
    by (rule zip_levels_plain [OF assms(1) tree]) (auto simp: plain_path_def)
  show ?thesis
  proof
    fix item assume "item \<in> set rows"
    then have "item \<in># mset rows" by simp
    then have "item \<in> (\<lambda>(f, rel). \<lparr>z_path = rel, z_key = fe_key f, z_size = fe_size f, z_mod = fe_updated f\<rparr>) ` set tree"
      unfolding rows mset_sort_by set_mset_mset list.set_map set_filter by blast
    then obtain f rel where "(f, rel) \<in> set tree" "z_path item = rel" by (auto split: prod.splits)
    with plain show "plain_path (z_path item)" by blast
  qed
qed

lemma zip_rows_db: "db w' = db w \<Longrightarrow> sql_le w' = sql_le w \<Longrightarrow> zip_rows folder w' = zip_rows folder w"
  by (simp add: zip_rows_def cong: option.case_cong)


text \<open>An empty file is taken for one whose blob is missing: it is not in the archive.\<close>

lemma empty_file_left_out:
  assumes "faults w = []" and "files w (z_key item) = Some []"
  shows "zip_ready (item # items) got n w = zip_ready items got n w"
proof (cases "no_blob (z_key item)")
  case False
  then have "z_key item \<noteq> NoKey" by (auto simp: no_blob_def)
  with assms have "blob_size (z_key item) w = (Inr 0, w)"
    by (simp add: blob_size_def by_key_def st_size_def os_read_def oscall_def bnd_def result_def getw_def ret_def faulty_def pop_def)
  with False show ?thesis by (simp add: bnd_def result_def)
qed simp

end
