(* ===== verification/Sharing.thy ===== *)
theory Sharing
  imports Http Archives
begin

text \<open>
  \<open>internal/shares/service.go\<close> and the public part of \<open>internal/shares/handler.go\<close>: share
  links, their passwords and download limits, and the page at \<open>/s/\<close>. The two columns
  \<open>file_id\<close> and \<open>entry_id\<close> of a link, which every statement writes alike, are one. A text that
  is meant to be a UUID is read by \<open>uuid_parse\<close>, and \<open>uuid_text\<close> writes one.
\<close>

record uuid_codec =
  uuid_parse :: "string \<Rightarrow> uuid option"
  uuid_text :: "uuid \<Rightarrow> string"

section \<open>Links\<close>

record share_opts =
  so_entry :: uuid
  so_password :: string
  so_expires :: "int option"
  so_max :: "int option"
  so_perm :: string

definition insert_share :: "uuid \<Rightarrow> string \<Rightarrow> string \<Rightarrow> int option \<Rightarrow> int option \<Rightarrow> string \<Rightarrow> uuid \<Rightarrow> share_row stmt" where
  "insert_share entry token pw expires maxd perm user = (\<lambda>w.
     if \<forall>f \<in> set (entries (db w)). \<not> (fe_id f = entry \<and> live f) then Inl NoRows
     else checked (\<lambda>w.
       let l = \<lparr>sl_id = fresh w, sl_entry = entry, sl_token = token, sl_pw = pw, sl_perm = perm, sl_expires = expires,
             sl_count = 0, sl_max = maxd, sl_by = user, sl_created = clock w\<rparr>
       in if (\<exists>x \<in> set (shares (db w)). sl_token x = token) \<or> user_of (db w) user = None then None
          else Some (l, w\<lparr>fresh := Suc (fresh w), db := (db w)\<lparr>shares := shares (db w) @ [l]\<rparr>\<rparr>)) w)"

definition shares_Create :: "crypto \<Rightarrow> config \<Rightarrow> uuid \<Rightarrow> string \<Rightarrow> share_opts \<Rightarrow> share_row srv" where
  "shares_Create cr cfg user userRole opts =
     bnd (Require user userRole (so_entry opts) ActionManage) (\<lambda>_.
     let perm = to_lower (trim_space (so_perm opts)); perm = (if perm = [] then ''download'' else perm) in
     bnd (require (perm = ''view'' \<or> perm = ''download'') (Msg ''invalid permission'')) (\<lambda>_.
     bnd (randomToken (nat (ShareTokenBytes cfg))) (\<lambda>token.
     bnd (if so_password opts \<noteq> [] then hashSharePassword cr (so_password opts) else ret []) (\<lambda>pw.
     map_err (no_rows (Msg ''file not found''))
       (db_stmt (insert_share (so_entry opts) token pw (so_expires opts) (so_max opts) perm user))))))"

text \<open>The links of a user with the entries they lead to; the hash of the password is left out.\<close>

definition my_links :: "uuid \<Rightarrow> database \<Rightarrow> (share_row \<times> bool \<times> string \<times> kind) list" where
  "my_links user d = concat (map (\<lambda>l. case entry_of d (sl_entry l) of
        None \<Rightarrow> []
      | Some f \<Rightarrow> [(l\<lparr>sl_pw := []\<rparr>, sl_pw l \<noteq> [], fe_name f, fe_kind f)])
     (rev (sort_key sl_created (filter (\<lambda>l. sl_by l = user) (shares d)))))"

definition ListMine :: "uuid \<Rightarrow> (share_row \<times> bool \<times> string \<times> kind) list srv" where
  "ListMine user = db_stmt (sel (my_links user))"

definition update_share :: "uuid \<Rightarrow> (share_row \<Rightarrow> share_row) \<Rightarrow> database \<Rightarrow> database" where
  "update_share i f d = d\<lparr>shares := map (\<lambda>l. if sl_id l = i then f l else l) (shares d)\<rparr>"

definition shares_Update :: "crypto \<Rightarrow> uuid \<Rightarrow> uuid \<Rightarrow> string option \<Rightarrow> int option \<Rightarrow> int option \<Rightarrow> string \<Rightarrow> unit srv" where
  "shares_Update cr user link password expires maxd permission =
     bnd (map_err (\<lambda>_. Msg ''share not found'')
       (db_stmt (row (\<lambda>d. map_option sl_by (find (\<lambda>l. sl_id l = link) (shares d)))))) (\<lambda>owner.
     bnd (require (owner = user) (Msg ''forbidden'')) (\<lambda>_.
     bnd (case password of
            None \<Rightarrow> ret None
          | Some p \<Rightarrow> if p \<noteq> [] then bnd (hashSharePassword cr p) (\<lambda>h. ret (Some h)) else ret (Some [])) (\<lambda>pw.
     if pw = None \<and> expires = None \<and> maxd = None \<and> permission = [] then ret ()
     else db_stmt (checked (\<lambda>w.
       if \<not> text_ok permission then None
       else Some ((), w\<lparr>db := update_share link (\<lambda>l. l\<lparr>
              sl_pw := (case pw of None \<Rightarrow> sl_pw l | Some h \<Rightarrow> h),
              sl_expires := (case expires of None \<Rightarrow> sl_expires l | Some t \<Rightarrow> Some t),
              sl_max := (case maxd of None \<Rightarrow> sl_max l | Some m \<Rightarrow> Some m),
              sl_perm := (if permission \<noteq> [] then permission else sl_perm l)\<rparr>) (db w)\<rparr>))))))"

definition shares_Revoke :: "uuid \<Rightarrow> uuid \<Rightarrow> unit srv" where
  "shares_Revoke user link =
     bnd (db_stmt (\<lambda>w. let hit = (\<lambda>l. sl_id l = link \<and> sl_by l = user) in
       Inr (length (filter hit (shares (db w))), w\<lparr>db := (db w)\<lparr>shares := filter (\<lambda>l. \<not> hit l) (shares (db w))\<rparr>\<rparr>))) (\<lambda>n.
     require (n \<noteq> 0) (Msg ''share not found''))"

section \<open>Opening a link\<close>

definition share_by_token :: "string \<Rightarrow> database \<Rightarrow> share_row option" where
  "share_by_token token d = map_option (\<lambda>l. l\<lparr>sl_perm := (if sl_perm l = [] then ''download'' else sl_perm l)\<rparr>)
     (find (\<lambda>l. sl_token l = token) (shares d))"

definition share_expired :: "int \<Rightarrow> share_row \<Rightarrow> bool" where
  "share_expired now l = (case sl_expires l of None \<Rightarrow> False | Some t \<Rightarrow> t < now)"

definition unlocks :: "crypto \<Rightarrow> config \<Rightarrow> uuid_codec \<Rightarrow> share_row \<Rightarrow> string \<Rightarrow> string \<Rightarrow> bool" where
  "unlocks cr cfg ids l password proof \<longleftrightarrow>
     fst (verifySharePassword cr password (sl_pw l) (SharePasswordSalt cfg))
     \<or> validShareUnlockProof cr (SessionSecret cfg) (uuid_text ids (sl_id l)) (sl_pw l) proof"

text \<open>A legacy hash is replaced when its password has been given.\<close>

definition upgrade_hash :: "crypto \<Rightarrow> config \<Rightarrow> share_row \<Rightarrow> string \<Rightarrow> share_row srv" where
  "upgrade_hash cr cfg l password =
     (if verifySharePassword cr password (sl_pw l) (SharePasswordSalt cfg) = (True, True) then
        bnd (result (hashSharePassword cr password)) (\<lambda>r.
        case r of
          Inl _ \<Rightarrow> ret l
        | Inr upgraded \<Rightarrow>
            bnd (ignore (db_stmt (upd (update_share (sl_id l) (\<lambda>x. x\<lparr>sl_pw := upgraded\<rparr>))))) (\<lambda>_.
            ret (l\<lparr>sl_pw := upgraded\<rparr>)))
      else ret l)"

definition downloads_left :: "share_row \<Rightarrow> bool" where
  "downloads_left l \<longleftrightarrow> (case sl_max l of None \<Rightarrow> True | Some m \<Rightarrow> sl_count l < m)"

definition count_download :: "uuid \<Rightarrow> int stmt" where
  "count_download i = (\<lambda>w.
     case find (\<lambda>l. sl_id l = i \<and> downloads_left l) (shares (db w)) of
       None \<Rightarrow> Inl NoRows
     | Some l \<Rightarrow> Inr (sl_count l + 1, w\<lparr>db := update_share i (\<lambda>x. x\<lparr>sl_count := sl_count x + 1\<rparr>) (db w)\<rparr>))"

definition admit :: "bool \<Rightarrow> share_row \<Rightarrow> share_row srv" where
  "admit countDownload l =
     (if countDownload \<and> sl_perm l \<noteq> ''view'' then
        bnd (map_err (no_rows (Msg ''download limit reached'')) (db_stmt (count_download (sl_id l)))) (\<lambda>n. ret (l\<lparr>sl_count := n\<rparr>))
      else
        bnd (require (\<not> (case sl_max l of None \<Rightarrow> False | Some m \<Rightarrow> m \<le> sl_count l)) (Msg ''download limit reached'')) (\<lambda>_.
        ret l))"

definition Resolve :: "crypto \<Rightarrow> config \<Rightarrow> uuid_codec \<Rightarrow> string \<Rightarrow> string \<Rightarrow> string \<Rightarrow> bool \<Rightarrow> share_row srv" where
  "Resolve cr cfg ids token password proof countDownload =
     bnd (map_err (no_rows (Msg ''share not found'')) (db_stmt (row (share_by_token token)))) (\<lambda>l.
     bnd (getw clock) (\<lambda>now.
     bnd (require (\<not> share_expired now l) (Msg ''share expired'')) (\<lambda>_.
     bnd (if sl_pw l \<noteq> [] then
            bnd (require (unlocks cr cfg ids l password proof) (Msg ''invalid share password'')) (\<lambda>_. upgrade_hash cr cfg l password)
          else ret l) (\<lambda>l.
     admit countDownload l))))"

record public_meta =
  pm_password :: bool
  pm_expired :: bool
  pm_perm :: string
  pm_name :: string
  pm_kind :: "kind option"
  pm_entry :: "uuid option"
  pm_unlocked :: bool

definition locked_meta :: "bool \<Rightarrow> bool \<Rightarrow> public_meta" where
  "locked_meta password expired = \<lparr>pm_password = password, pm_expired = expired, pm_perm = [], pm_name = [], pm_kind = None,
     pm_entry = None, pm_unlocked = False\<rparr>"

definition Meta :: "crypto \<Rightarrow> config \<Rightarrow> uuid_codec \<Rightarrow> string \<Rightarrow> string \<Rightarrow> string \<Rightarrow> public_meta srv" where
  "Meta cr cfg ids token password proof =
     bnd (map_err (\<lambda>_. Msg ''share not found'') (db_stmt (row (\<lambda>d. Option.bind (share_by_token token d)
       (\<lambda>l. map_option (\<lambda>f. (l, f)) (find (\<lambda>f. fe_id f = sl_entry l \<and> live f) (entries d))))))) (\<lambda>(l, f).
     bnd (getw clock) (\<lambda>now.
     if share_expired now l then ret (locked_meta (sl_pw l \<noteq> []) True)
     else if sl_pw l \<noteq> [] \<and> \<not> unlocks cr cfg ids l password proof then ret (locked_meta (sl_pw l \<noteq> []) False)
     else
       bnd (if sl_pw l \<noteq> [] then upgrade_hash cr cfg l password else ret l) (\<lambda>_.
       ret \<lparr>pm_password = (sl_pw l \<noteq> []), pm_expired = False, pm_perm = sl_perm l, pm_name = fe_name f, pm_kind = Some (fe_kind f),
         pm_entry = Some (sl_entry l), pm_unlocked = True\<rparr>)))"

section \<open>The limit on guesses\<close>

definition pruneShareAttempts :: "int list \<Rightarrow> int \<Rightarrow> int list" where
  "pruneShareAttempts items after = filter (\<lambda>t. after < t) items"

definition share_allow :: "int \<Rightarrow> string \<Rightarrow> limiter \<Rightarrow> bool \<times> limiter" where
  "share_allow now key l0 =
     (let l = (if 60 \<le> now - swept l0 then
            \<lparr>tried = (\<lambda>k. case tried l0 k of
                None \<Rightarrow> None
              | Some v \<Rightarrow> let v' = pruneShareAttempts v (now - 600) in if v' = [] then None else Some v'), swept = now\<rparr>
          else l0);
          es = pruneShareAttempts (attempts_of l key) (now - 600)
      in if 10 \<le> length es then (False, l\<lparr>tried := (tried l)(key \<mapsto> es)\<rparr>)
         else (True, l\<lparr>tried := (tried l)(key \<mapsto> es @ [now])\<rparr>))"

definition allow :: "string \<Rightarrow> bool srv" where
  "allow key = (\<lambda>w. let (b, l) = share_allow (clock w) key (share_limiter w) in (Inr b, w\<lparr>share_limiter := l\<rparr>))"

section \<open>The public page\<close>

definition ascii_alnum :: "char \<Rightarrow> bool" where
  "ascii_alnum c \<longleftrightarrow> (let n = byte c in 97 \<le> n \<and> n \<le> 122 \<or> 65 \<le> n \<and> n \<le> 90 \<or> 48 \<le> n \<and> n \<le> 57)"

function cookie_safe :: "string \<Rightarrow> string" where
  "cookie_safe [] = []"
| "cookie_safe (c # s) = (if ascii_alnum c then c else CHR ''_'') # cookie_safe (drop (max 1 (rune_width (c # s))) (c # s))"
  by pat_completeness auto
termination
  by (relation "measure length") auto

definition shareCookieName :: "string \<Rightarrow> string" where
  "shareCookieName token = ''share_pw_'' @ take 40 (cookie_safe token)"

definition go_contains :: "string \<Rightarrow> string \<Rightarrow> bool" where
  "go_contains s t \<longleftrightarrow> (\<exists>i \<in> {0..length s}. has_prefix (drop i s) t)"

text \<open>
  What is answered. \<open>Refused\<close> is an error as JSON with its status, \<open>Body\<close> a file: its
  content type, whether it is to be shown in the browser, its name and content (of which
  \<open>http.ServeContent\<close> sends the ranges that are asked for).
\<close>

datatype share_body =
    Refused int err
  | MetaReply public_meta
  | Listing "file_entry list"
  | PasswordPage err
  | BrowsePage string
  | ViewPage string
  | Described string kind
  | Body string bool string string

record share_reply =
  sr_body :: share_body
  sr_cookie :: "(string \<times> string) option"

abbreviation plain_reply :: "share_body \<Rightarrow> share_reply" where
  "plain_reply b \<equiv> \<lparr>sr_body = b, sr_cookie = None\<rparr>"

text \<open>Each branch of the handler ends in an answer; the first error of a step gives its own.\<close>

definition try_or :: "'a srv \<Rightarrow> (err \<Rightarrow> share_body srv) \<Rightarrow> ('a \<Rightarrow> share_body srv) \<Rightarrow> share_body srv" where
  "try_or m h f = bnd (result m) (\<lambda>r. case r of Inl e \<Rightarrow> h e | Inr x \<Rightarrow> f x)"

definition share_list :: "crypto \<Rightarrow> config \<Rightarrow> uuid_codec \<Rightarrow> http_request \<Rightarrow> string \<Rightarrow> string \<Rightarrow> string \<Rightarrow> share_body srv" where
  "share_list cr cfg ids r token password proof =
     try_or (Resolve cr cfg ids token password proof False) (\<lambda>e. ret (Refused 400 e)) (\<lambda>link.
     try_or (EntryForShare (sl_entry link)) (\<lambda>_. ret (Refused 404 (Msg ''not found''))) (\<lambda>entry.
     if fe_kind entry \<noteq> Folder then ret (Listing [])
     else
       let parent = (if rq_param r ''parentId'' = [] then Some (fe_id entry) else uuid_parse ids (rq_param r ''parentId'')) in
       try_or (IsDescendantOrSelf parent (Some (sl_entry link))) (\<lambda>_. ret (Refused 404 (Msg ''not found''))) (\<lambda>ok.
       if \<not> ok then ret (Refused 404 (Msg ''not found''))
       else try_or (ListPublicChildren (the parent)) (\<lambda>_. ret (Refused 400 (Msg ''failed to list''))) (\<lambda>items.
         ret (Listing items)))))"

definition share_entry :: "(string \<Rightarrow> string) \<Rightarrow> http_request \<Rightarrow> bool \<Rightarrow> share_row \<Rightarrow> file_entry \<Rightarrow> share_body srv" where
  "share_entry mime_by_ext r wantHTML link entry =
     (if wantHTML \<and> fe_kind entry = Folder then ret (BrowsePage (fe_name entry))
      else if wantHTML \<and> sl_perm link = ''view'' \<and> fe_kind entry = File then ret (ViewPage (fe_name entry))
      else if sl_perm link = ''view'' \<and> rq_param r ''download'' = ''1'' then ret (Refused 403 (Msg ''view-only share cannot be downloaded''))
      else if sl_perm link = ''view'' \<and> \<not> wantHTML \<and> rq_param r ''inline'' \<noteq> ''1'' then ret (Described (fe_name entry) (fe_kind entry))
      else if sl_perm link = ''view'' \<and> fe_kind entry = File \<and> \<not> canInlinePreview mime_by_ext (fe_name entry) (fe_mime entry)
        then ret (Refused 403 (Msg ''preview not allowed for this file type''))
      else if fe_kind entry \<noteq> File then ret (Refused 400 (Msg ''not a file''))
      else try_or (OpenStorage (fe_key entry)) (\<lambda>_. ret (Refused 404 (Msg ''not found''))) (\<lambda>content.
        ret (Body (resolveContentType mime_by_ext (fe_name entry) (fe_mime entry))
          (sl_perm link = ''view'' \<or> rq_param r ''inline'' = ''1'' \<and> canInlinePreview mime_by_ext (fe_name entry) (fe_mime entry))
          (fe_name entry) content)))"

definition share_file :: "(string \<Rightarrow> string) \<Rightarrow> uuid_codec \<Rightarrow> http_request \<Rightarrow> bool \<Rightarrow> share_row \<Rightarrow> share_body srv" where
  "share_file mime_by_ext ids r wantHTML link =
     (let child = rq_param r ''fileId''; target = (if child \<noteq> [] then uuid_parse ids child else Some (sl_entry link)) in
      try_or (if child \<noteq> [] then IsDescendantOrSelf target (Some (sl_entry link)) else ret True)
        (\<lambda>_. ret (Refused 404 (Msg ''not found''))) (\<lambda>ok.
      if \<not> ok then ret (Refused 404 (Msg ''not found''))
      else try_or (EntryForShare (the target)) (\<lambda>_. ret (Refused 404 (Msg ''not found''))) (share_entry mime_by_ext r wantHTML link)))"

definition share_token :: "http_request \<Rightarrow> string" where
  "share_token r = hd (split_at CHR ''/'' (if has_prefix (rq_path r) ''/s/'' then drop 3 (rq_path r) else rq_path r))"

definition share_password :: "http_request \<Rightarrow> string" where
  "share_password r = (let p = rq_param r ''password'' in
     if rq_method r = ''POST'' \<and> p = [] then first_value (rq_form r) ''password'' else p)"

text \<open>The proof of an earlier visit counts only when no password is given.\<close>

definition share_proof :: "http_request \<Rightarrow> string" where
  "share_proof r = (if share_password r = [] then first_value (rq_cookies r) (shareCookieName (share_token r)) else [])"

definition wants_html :: "http_request \<Rightarrow> bool" where
  "wants_html r \<longleftrightarrow> go_contains (rq_header r ''Accept'') ''text/html'' \<and> rq_param r ''download'' \<noteq> ''1''"

definition share_page :: "crypto \<Rightarrow> config \<Rightarrow> uuid_codec \<Rightarrow> (string \<Rightarrow> string) \<Rightarrow> http_request \<Rightarrow> string \<Rightarrow> string \<Rightarrow> string \<Rightarrow> share_reply srv" where
  "share_page cr cfg ids mime_by_ext r token password unlockProof =
     (if rq_param r ''meta'' = ''1'' then
        bnd (try_or (Meta cr cfg ids token password unlockProof) (\<lambda>e. ret (Refused 400 e)) (\<lambda>m. ret (MetaReply m))) (\<lambda>b. ret (plain_reply b))
      else if rq_param r ''list'' = ''1'' then
        bnd (share_list cr cfg ids r token password unlockProof) (\<lambda>b. ret (plain_reply b))
      else
        let wantHTML = wants_html r in
        bnd (result (Resolve cr cfg ids token password unlockProof (\<not> wantHTML \<or> rq_param r ''download'' = ''1''))) (\<lambda>res.
        case res of
          Inl e \<Rightarrow> ret (plain_reply (if wantHTML then PasswordPage e else Refused 400 e))
        | Inr link \<Rightarrow>
            bnd (share_file mime_by_ext ids r wantHTML link) (\<lambda>b.
            ret \<lparr>sr_body = b,
              sr_cookie = (if password \<noteq> [] \<and> sl_pw link \<noteq> []
                then Some (shareCookieName token, shareUnlockProof cr (SessionSecret cfg) (uuid_text ids (sl_id link)) (sl_pw link))
                else None)\<rparr>)))"

definition DownloadPublic :: "crypto \<Rightarrow> config \<Rightarrow> uuid_codec \<Rightarrow> (string \<Rightarrow> string) \<Rightarrow> 'a netip \<Rightarrow> ('a \<Rightarrow> bool) list \<Rightarrow> http_request
    \<Rightarrow> share_reply srv" where
  "DownloadPublic cr cfg ids mime_by_ext np trusted r =
     bnd (if share_password r \<noteq> [] then allow (ClientIP np trusted r @ ''|'' @ share_token r) else ret True) (\<lambda>ok.
     if \<not> ok then ret (plain_reply (Refused 429 (Msg ''too many share password attempts'')))
     else share_page cr cfg ids mime_by_ext r (share_token r) (share_password r) (share_proof r))"

end
