(* ===== verification/SharingSafety.thy ===== *)
theory SharingSafety
  imports Sharing SignInSafety
begin

text \<open>
  What share links guarantee: the limit on downloads, who sees what behind a link, and how
  long the proof of a password counts.
\<close>

section \<open>Links in the database\<close>

lemma find_map_pres: "(\<And>x. P (f x) = P x) \<Longrightarrow> find P (map f xs) = map_option f (find P xs)"
  by (induction xs) auto

text \<open>\<open>link_at token l d\<close>: the link of a token. The primary key is unique.\<close>

definition link_at :: "string \<Rightarrow> share_row \<Rightarrow> database \<Rightarrow> bool" where
  "link_at token l d \<longleftrightarrow> share_by_token token d = Some l \<and> distinct (map sl_id (shares d))"

definition shown :: "share_row \<Rightarrow> share_row" where
  "shown l = l\<lparr>sl_perm := (if sl_perm l = [] then ''download'' else sl_perm l)\<rparr>"

lemma shown_simps [simp]:
  "sl_id (shown l) = sl_id l" "sl_token (shown l) = sl_token l" "sl_pw (shown l) = sl_pw l" "sl_count (shown l) = sl_count l"
  "sl_max (shown l) = sl_max l" "sl_entry (shown l) = sl_entry l" "sl_expires (shown l) = sl_expires l"
  by (simp_all add: shown_def)

lemma link_at_find:
  "link_at token l d \<longleftrightarrow> (\<exists>x. find (\<lambda>x. sl_token x = token) (shares d) = Some x \<and> l = shown x) \<and> distinct (map sl_id (shares d))"
proof -
  have "share_by_token token d = map_option shown (find (\<lambda>x. sl_token x = token) (shares d))"
    unfolding share_by_token_def shown_def by (rule refl)
  moreover have "map_option shown z = Some l \<longleftrightarrow> (\<exists>x. z = Some x \<and> l = shown x)" for z by (cases z) auto
  ultimately show ?thesis unfolding link_at_def by (simp only:)
qed

lemma link_at_update:
  assumes "link_at token l d" and "\<And>x. sl_id (f x) = sl_id x" and "\<And>x. sl_token (f x) = sl_token x" and "\<And>x. shown (f x) = f (shown x)"
  shows "link_at token (if sl_id l = i then f l else l) (update_share i f d)"
proof -
  let ?g = "\<lambda>x. if sl_id x = i then f x else x"
  from assms(1) obtain x where x: "find (\<lambda>x. sl_token x = token) (shares d) = Some x" "l = shown x" "distinct (map sl_id (shares d))"
    by (auto simp: link_at_find)
  have "find (\<lambda>x. sl_token x = token) (map ?g (shares d)) = map_option ?g (find (\<lambda>x. sl_token x = token) (shares d))"
    by (rule find_map_pres) (simp add: assms(3))
  with x(1) have found: "find (\<lambda>x. sl_token x = token) (map ?g (shares d)) = Some (?g x)" by simp
  have ids: "map sl_id (map ?g (shares d)) = map sl_id (shares d)" by (simp add: assms(2))
  have rows: "shares (update_share i f d) = map ?g (shares d)" by (simp add: update_share_def)
  have row: "(if sl_id l = i then f l else l) = shown (?g x)" using x(2) assms(4) [of x] by simp
  show ?thesis
    unfolding link_at_find rows ids row using found x(3) by blast
qed

lemma find_key: "distinct (map k xs) \<Longrightarrow> x \<in> set xs \<Longrightarrow> find (\<lambda>y. k y = k x \<and> P y) xs = (if P x then Some x else None)"
proof (induction xs)
  case (Cons a xs)
  have "find (\<lambda>y. k y = k a \<and> P y) xs = None"
    unfolding find_none using Cons.prems(1) by (auto simp: image_iff)
  with Cons show ?case by (cases "x = a") (auto simp: image_iff)
qed simp

lemma link_at_row:
  assumes "link_at token l d"
  shows "\<exists>x \<in> set (shares d). l = shown x \<and> find (\<lambda>y. sl_id y = sl_id l \<and> P y) (shares d) = (if P x then Some x else None)"
proof -
  from assms obtain x where x: "find (\<lambda>x. sl_token x = token) (shares d) = Some x" "l = shown x" "distinct (map sl_id (shares d))"
    by (auto simp: link_at_find)
  with find_set [OF x(1)] show ?thesis using find_key [OF x(3), of x P] by (intro bexI [of _ x]) auto
qed

section \<open>The limit on downloads\<close>

text \<open>The same link with another count, perhaps with the hash of its password replaced.\<close>

definition same_link :: "share_row \<Rightarrow> share_row \<Rightarrow> bool" where
  "same_link l l' \<longleftrightarrow> sl_id l' = sl_id l \<and> sl_entry l' = sl_entry l \<and> sl_perm l' = sl_perm l \<and> sl_max l' = sl_max l \<and> sl_expires l' = sl_expires l"

lemma same_link_refl [simp]: "same_link l l"
  by (simp add: same_link_def)

lemma upgrade_wp:
  assumes "link_at token l (db w)"
  shows "wp (upgrade_hash cr cfg l password) (\<lambda>x w'. same_link l x \<and> sl_count x = sl_count l
      \<and> (\<exists>l'. link_at token l' (db w') \<and> same_link l l' \<and> sl_count l' = sl_count l)) (\<lambda>_ _. False) w"
proof -
  have kept: "\<exists>l'. link_at token l' (db w) \<and> same_link l l' \<and> sl_count l' = sl_count l"
    using assms by (intro exI [of _ l]) simp
  have set: "\<exists>l'. link_at token l' (update_share (sl_id l) (\<lambda>x. x\<lparr>sl_pw := h\<rparr>) (db w)) \<and> same_link l l' \<and> sl_count l' = sl_count l" for h
    using link_at_update [OF assms, of "\<lambda>x. x\<lparr>sl_pw := h\<rparr>" "sl_id l"] by (intro exI [of _ "l\<lparr>sl_pw := h\<rparr>"]) (simp add: same_link_def shown_def)
  show ?thesis
    using kept set by (auto simp: upgrade_hash_def hashSharePassword_def wp_simps Let_def same_link_def split: list.split option.split)
qed

lemma Resolve_wp:
  assumes "link_at token l (db w)" and "sl_perm l \<noteq> ''view''"
  shows "wp (Resolve cr cfg ids token password proof counted)
    (\<lambda>_ w'. \<exists>l'. link_at token l' (db w') \<and> same_link l l' \<and> sl_count l' = sl_count l + (if counted then 1 else 0)
       \<and> (\<forall>m. sl_max l = Some m \<longrightarrow> sl_count l < m))
    (\<lambda>_ w'. \<exists>l'. link_at token l' (db w') \<and> same_link l l' \<and> sl_count l' = sl_count l) w"
proof -
  define S where "S n d \<longleftrightarrow> (\<exists>l'. link_at token l' d \<and> same_link l l' \<and> sl_count l' = sl_count l + n)" for n d
  define inc :: int where "inc = (if counted then 1 else 0)"
  have found: "share_by_token token (db w) = Some l" using assms(1) by (simp add: link_at_def)
  have kept: "S 0 (db w)" unfolding S_def using assms(1) by (intro exI [of _ l]) simp
  have upgrade: "wp (upgrade_hash cr cfg l password) Q E w1"
    if "db w1 = db w" "\<And>x w2. same_link l x \<Longrightarrow> sl_count x = sl_count l \<Longrightarrow> S 0 (db w2) \<Longrightarrow> Q x w2" for Q E w1
    by (rule wp_weaken [OF upgrade_wp [of token]]) (use assms(1) that in \<open>auto simp: S_def\<close>)
  have count: "count_download (sl_id l) w1 = (if downloads_left l
      then Inr (sl_count l + 1, w1\<lparr>db := update_share (sl_id l) (\<lambda>x. x\<lparr>sl_count := sl_count x + 1\<rparr>) (db w1)\<rparr>) else Inl NoRows)"
    if l': "link_at token l' (db w1)" "same_link l l'" "sl_count l' = sl_count l" for l' w1
  proof -
    from link_at_row [OF l'(1), of downloads_left] obtain x where x: "l' = shown x"
      "find (\<lambda>y. sl_id y = sl_id l \<and> downloads_left y) (shares (db w1)) = (if downloads_left x then Some x else None)"
      using l'(2) by (auto simp: same_link_def)
    moreover have "downloads_left x = downloads_left l" "sl_count x = sl_count l"
      using l'(2,3) x(1) by (auto simp: downloads_left_def same_link_def cong: option.case_cong)
    ultimately show ?thesis by (simp add: count_download_def)
  qed
  have one: "S 1 (update_share (sl_id l) (\<lambda>x. x\<lparr>sl_count := sl_count x + 1\<rparr>) (db w1))" if "S 0 (db w1)" for w1
  proof -
    from that obtain l' where l': "link_at token l' (db w1)" "same_link l l'" "sl_count l' = sl_count l" by (auto simp: S_def)
    then show ?thesis unfolding S_def
      using link_at_update [OF l'(1), of "\<lambda>x. x\<lparr>sl_count := sl_count x + 1\<rparr>" "sl_id l"]
      by (intro exI [of _ "l'\<lparr>sl_count := sl_count l' + 1\<rparr>"]) (simp add: same_link_def shown_def)
  qed
  have step: "wp (admit counted x)
     (\<lambda>_ w'. S inc (db w') \<and> (\<forall>m. sl_max l = Some m \<longrightarrow> sl_count l < m)) (\<lambda>_ w'. S 0 (db w')) w1"
    if x: "same_link l x" "sl_count x = sl_count l" and S1: "S 0 (db w1)" for x w1
  proof -
    from S1 obtain l' where l': "link_at token l' (db w1)" "same_link l l'" "sl_count l' = sl_count l" by (auto simp: S_def)
    then have "count_download (sl_id x) (pop w1) = (if downloads_left l
      then Inr (sl_count l + 1, (pop w1)\<lparr>db := update_share (sl_id l) (\<lambda>x. x\<lparr>sl_count := sl_count x + 1\<rparr>) (db w1)\<rparr>) else Inl NoRows)"
      using count [of l' "pop w1"] x(1) by (simp add: same_link_def)
    moreover have "\<forall>m. sl_max l = Some m \<longrightarrow> sl_count l < m" if "downloads_left l"
      using that by (auto simp: downloads_left_def)
    moreover have "sl_perm x = sl_perm l" "sl_max x = sl_max l" using x(1) by (simp_all add: same_link_def)
    moreover note S1 one [OF S1] assms(2) x(2)
    ultimately show ?thesis
      by (cases counted; cases "downloads_left l"; cases "sl_max l") (simp_all add: admit_def wp_simps inc_def)
  qed
  have "wp (Resolve cr cfg ids token password proof counted)
     (\<lambda>_ w'. S inc (db w') \<and> (\<forall>m. sl_max l = Some m \<longrightarrow> sl_count l < m)) (\<lambda>_ w'. S 0 (db w')) w"
    unfolding Resolve_def wp_bnd
    using found kept by (auto simp: wp_simps row_def intro!: upgrade step)
  then show ?thesis by (rule wp_weaken) (auto simp: S_def inc_def)
qed

text \<open>
  A history of visits to a link, each with password, proof, whether it is a download, and
  its time; the number of downloads that were admitted, and the state at the end.
\<close>

fun visits :: "crypto \<Rightarrow> config \<Rightarrow> uuid_codec \<Rightarrow> string \<Rightarrow> (string \<times> string \<times> bool \<times> int) list \<Rightarrow> world \<Rightarrow> nat \<times> world" where
  "visits cr cfg ids token [] w = (0, w)"
| "visits cr cfg ids token ((password, proof, counted, t) # vs) w =
     (case Resolve cr cfg ids token password proof counted (w\<lparr>clock := t\<rparr>) of (r, w1) \<Rightarrow>
      case visits cr cfg ids token vs w1 of (n, w2) \<Rightarrow>
        (if counted \<and> (case r of Inl _ \<Rightarrow> False | Inr _ \<Rightarrow> True) then Suc n else n, w2))"

lemma visits_counted:
  assumes "link_at token l (db w)" and "sl_perm l \<noteq> ''view''" and "sl_max l = Some m"
  shows "case visits cr cfg ids token vs w of (n, w') \<Rightarrow>
    (\<exists>l'. link_at token l' (db w') \<and> sl_count l' = sl_count l + int n) \<and> (n \<noteq> 0 \<longrightarrow> sl_count l + int n \<le> m)"
  using assms
proof (induction vs arbitrary: w l)
  case Nil
  then show ?case by auto
next
  case (Cons v vs)
  obtain password pf counted t where v: "v = (password, pf, counted, t)" by (cases v)
  obtain r w1 where run: "Resolve cr cfg ids token password pf counted (w\<lparr>clock := t\<rparr>) = (r, w1)" by fastforce
  define k :: int where "k = (if counted \<and> (case r of Inl _ \<Rightarrow> False | Inr _ \<Rightarrow> True) then 1 else 0)"
  have "\<exists>l1. link_at token l1 (db w1) \<and> same_link l l1 \<and> sl_count l1 = sl_count l + k \<and> (k = 1 \<longrightarrow> sl_count l < m)"
    using Resolve_wp [of token l "w\<lparr>clock := t\<rparr>" cr cfg ids password pf counted] Cons.prems run
    by (auto simp: wp_def k_def split: sum.splits)
  then obtain l1 where l1: "link_at token l1 (db w1)" "same_link l l1" "sl_count l1 = sl_count l + k" "k = 1 \<longrightarrow> sl_count l < m" by blast
  from Cons.IH [OF l1(1)] Cons.prems l1(2) have "case visits cr cfg ids token vs w1 of (n, w') \<Rightarrow>
    (\<exists>l'. link_at token l' (db w') \<and> sl_count l' = sl_count l1 + int n) \<and> (n \<noteq> 0 \<longrightarrow> sl_count l1 + int n \<le> m)"
    by (auto simp: same_link_def)
  with l1(3,4) run show ?case by (auto simp: v k_def split: prod.splits if_splits)
qed

text \<open>
  C25: the limit on downloads holds. However often, by whom and with whatever passwords a
  link is opened, and whatever fails meanwhile, the downloads that are admitted as such
  are at most those that were left, and the stored count has risen by exactly their
  number.
\<close>

theorem downloads_bounded:
  assumes "link_at token l (db w)" and "sl_perm l \<noteq> ''view''" and "sl_max l = Some m" and "visits cr cfg ids token vs w = (n, w')"
  shows "int n \<le> max 0 (m - sl_count l) \<and> (\<exists>l'. share_by_token token (db w') = Some l' \<and> sl_count l' = sl_count l + int n)"
  using visits_counted [OF assms(1-3), of cr cfg ids vs] assms(4) by (cases "n = 0") (auto simp: link_at_def)

section \<open>What a visitor sees\<close>

text \<open>What \<open>Resolve\<close> has checked when it returns a link.\<close>

definition opened_link :: "crypto \<Rightarrow> config \<Rightarrow> uuid_codec \<Rightarrow> string \<Rightarrow> string \<Rightarrow> string \<Rightarrow> share_row \<Rightarrow> world \<Rightarrow> bool" where
  "opened_link cr cfg ids token password proof l w \<longleftrightarrow>
     share_by_token token (db w) = Some l \<and> \<not> share_expired (clock w) l \<and> (sl_pw l = [] \<or> unlocks cr cfg ids l password proof)"

abbreviation same_files :: "world \<Rightarrow> world \<Rightarrow> bool" where
  "same_files w w' \<equiv> entries (db w') = entries (db w) \<and> files w' = files w"

lemma Resolve_opens:
  "wp (Resolve cr cfg ids token password proof counted)
    (\<lambda>l' w'. \<exists>l. opened_link cr cfg ids token password proof l w \<and> same_link l l' \<and> same_files w w') (\<lambda>_ _. True) w"
proof -
  have count: "wp (admit counted l) (\<lambda>l' w'. same_link l l' \<and> same_files w1 w') (\<lambda>_ _. True) w1" for l w1
    by (auto simp: admit_def wp_simps count_download_def update_share_def same_link_def split: option.split)
  have counted: "wp (admit counted l) Q (\<lambda>_ _. True) w1" if "\<And>l' w'. same_link l l' \<Longrightarrow> same_files w1 w' \<Longrightarrow> Q l' w'" for l w1 Q
    by (rule wp_weaken [OF count]) (use that in auto)
  have upgraded: "wp (upgrade_hash cr cfg l password) Q (\<lambda>_ _. True) w1" if "\<And>l' w'. same_link l l' \<Longrightarrow> same_files w1 w' \<Longrightarrow> Q l' w'" for l w1 Q
    using that by (auto simp: upgrade_hash_def hashSharePassword_def wp_simps Let_def update_share_def same_link_def split: list.split option.split)
  show ?thesis
    unfolding Resolve_def wp_bnd
    by (auto simp: wp_simps row_def opened_link_def same_link_def split: option.split intro!: counted upgraded)
qed

definition reached :: "share_row \<Rightarrow> world \<Rightarrow> uuid \<Rightarrow> bool" where
  "reached l w i \<longleftrightarrow> i = sl_entry l \<or> (\<exists>chain. ancestors live (entries (db w)) i = Some chain \<and> sl_entry l \<in> fe_id ` set chain)"

definition shared_entry :: "share_row \<Rightarrow> world \<Rightarrow> file_entry \<Rightarrow> bool" where
  "shared_entry l w e \<longleftrightarrow> e \<in> set (entries (db w)) \<and> live e \<and> reached l w (fe_id e)"

text \<open>An answer shows only what is behind the link, a link to view only previews.\<close>

fun shows_only :: "(string \<Rightarrow> string) \<Rightarrow> share_row \<Rightarrow> world \<Rightarrow> share_body \<Rightarrow> bool" where
  "shows_only mbe l w (Body ct inl name content) \<longleftrightarrow>
     (\<exists>e. shared_entry l w e \<and> fe_kind e = File \<and> fe_name e = name \<and> files w (fe_key e) = Some content
        \<and> (sl_perm l = ''view'' \<longrightarrow> inl \<and> canInlinePreview mbe name (fe_mime e)))"
| "shows_only mbe l w (Listing items) \<longleftrightarrow>
     (\<forall>i \<in> set items. \<exists>e p. i = e\<lparr>fe_key := NoKey\<rparr> \<and> e \<in> set (entries (db w)) \<and> live e \<and> fe_parent e = Some p \<and> reached l w p)"
| "shows_only mbe l w (BrowsePage name) \<longleftrightarrow> (\<exists>e. shared_entry l w e \<and> fe_name e = name)"
| "shows_only mbe l w (ViewPage name) \<longleftrightarrow> (\<exists>e. shared_entry l w e \<and> fe_name e = name)"
| "shows_only mbe l w (Described name k) \<longleftrightarrow> (\<exists>e. shared_entry l w e \<and> fe_name e = name)"
| "shows_only mbe l w (MetaReply m) \<longleftrightarrow> False"
| "shows_only mbe l w (Refused n e) \<longleftrightarrow> True"
| "shows_only mbe l w (PasswordPage e) \<longleftrightarrow> True"

lemma wp_try_or [wp_simps]: "wp (try_or m h f) Q E w = wp m (\<lambda>x. wp (f x) Q E) (\<lambda>e. wp (h e) Q E) w"
  by (simp add: try_or_def wp_simps)

lemma EntryForShare_wp:
  "wp (EntryForShare i) (\<lambda>e w'. e \<in> set (entries (db w)) \<and> live e \<and> fe_id e = i \<and> same_files w w') (\<lambda>_ w'. same_files w w') w"
  by (auto simp: EntryForShare_def entryByID_def wp_simps row_def split: option.split dest!: find_set)

lemma IsDescendantOrSelf_wp:
  "wp (IsDescendantOrSelf target (Some (sl_entry l)))
     (\<lambda>ok w'. (ok \<longrightarrow> (\<exists>i. target = Some i \<and> reached l w i)) \<and> same_files w w') (\<lambda>_ w'. same_files w w') w"
  by (auto simp: IsDescendantOrSelf_def wp_simps query_def reached_def split: option.split)

lemma OpenStorage_wp: "wp (OpenStorage key) (\<lambda>c w'. files w key = Some c \<and> same_files w w') (\<lambda>_ w'. same_files w w') w"
  by (auto simp: OpenStorage_def blob_open_def by_key_def st_open_def os_read_def oscall_def wp_def bnd_def getw_def ret_def fail_def pop_def split: option.split)

lemma ListPublicChildren_wp:
  "wp (ListPublicChildren p) (\<lambda>items w'. \<forall>i \<in> set items. \<exists>e. i = e\<lparr>fe_key := NoKey\<rparr> \<and> e \<in> set (entries (db w)) \<and> live e \<and> fe_parent e = Some p)
    (\<lambda>_ _. True) w"
proof -
  have "set (live_children p w') = {e \<in> set (entries (db w)). live e \<and> fe_parent e = Some p}" if "db w' = db w" for w'
  proof -
    have "set_mset (mset (live_children p w')) = {e \<in> set (entries (db w)). live e \<and> fe_parent e = Some p}"
      unfolding live_children_def mset_sort_by by (auto simp: that)
    then show ?thesis by simp
  qed
  then show ?thesis by (auto simp: ListPublicChildren_def wp_simps)
qed


lemma reached_same: "entries (db w1) = entries (db w) \<Longrightarrow> sl_entry l1 = sl_entry l \<Longrightarrow> reached l1 w1 i = reached l w i"
  by (simp add: reached_def)

text \<open>The statements of the page from a state in which entries and blobs are still those of \<open>w\<close>.\<close>

lemma entry_via:
  assumes "same_files w w2"
    and "\<And>e w3. same_files w w3 \<Longrightarrow> e \<in> set (entries (db w)) \<Longrightarrow> live e \<Longrightarrow> fe_id e = i \<Longrightarrow> Q e w3" and "\<And>e w3. E e w3"
  shows "wp (EntryForShare i) Q E w2"
  by (rule wp_weaken [OF EntryForShare_wp]) (use assms in auto)

lemma below_via:
  assumes "same_link l l1" and "same_files w w2"
    and "\<And>i w3. same_files w w3 \<Longrightarrow> target = Some i \<Longrightarrow> reached l w i \<Longrightarrow> Q True w3" and "\<And>w3. same_files w w3 \<Longrightarrow> Q False w3" and "\<And>e w3. E e w3"
  shows "wp (IsDescendantOrSelf target (Some (sl_entry l1))) Q E w2"
proof (rule wp_weaken [OF IsDescendantOrSelf_wp])
  fix ok w3 assume *: "(ok \<longrightarrow> (\<exists>i. target = Some i \<and> reached l1 w2 i)) \<and> same_files w2 w3"
  with assms(1,2) have "ok \<longrightarrow> (\<exists>i. target = Some i \<and> reached l w i)" using reached_same [of w2 w l1 l] by (auto simp: same_link_def)
  with * assms(2-4) show "Q ok w3" by (cases ok) auto
qed (use assms(5) in auto)

lemma share_entry_shows:
  assumes "same_link l l1" and "same_files w w1" and "shared_entry l w e"
  shows "wp (share_entry mbe r html l1 e) (\<lambda>b _. shows_only mbe l w b) (\<lambda>_ _. False) w1"
proof -
  have content: "wp (OpenStorage key) Q E w2" if "same_files w w2" "\<And>c w3. files w key = Some c \<Longrightarrow> Q c w3" "\<And>e w3. E e w3" for key Q E w2
    by (rule wp_weaken [OF OpenStorage_wp]) (use that in auto)
  have "sl_perm l1 = sl_perm l" using assms(1) by (simp add: same_link_def)
  with assms(2,3) show ?thesis by (auto simp: share_entry_def wp_simps intro!: content)
qed

lemma share_file_shows:
  assumes "same_link l l1" and "same_files w w1"
  shows "wp (share_file mbe ids r html l1) (\<lambda>b _. shows_only mbe l w b) (\<lambda>_ _. False) w1"
proof -
  have own: "reached l w (sl_entry l1)" using assms(1) by (simp add: reached_def same_link_def)
  have answer: "wp (EntryForShare i) (\<lambda>e. wp (share_entry mbe r html l1 e) (\<lambda>b _. shows_only mbe l w b) (\<lambda>_ _. False))
      (\<lambda>e. wp (ret (Refused 404 (Msg ''not found''))) (\<lambda>b _. shows_only mbe l w b) (\<lambda>_ _. False)) w2"
    if "same_files w w2" "reached l w i" for i w2
    by (rule entry_via [OF that(1)])
      (use that(2) in \<open>auto simp: shared_entry_def wp_ret intro!: share_entry_shows [OF assms(1)]\<close>)
  show ?thesis
    unfolding share_file_def Let_def wp_try_or
    by (cases "rq_param r ''fileId'' = []")
      (auto simp: wp_simps own assms(2) intro!: below_via [OF assms(1), where w = w] answer)
qed

lemma share_list_shows:
  "wp (share_list cr cfg ids r token password pf)
    (\<lambda>b w'. (\<exists>n e. b = Refused n e) \<or> (\<exists>l. opened_link cr cfg ids token password pf l w \<and> shows_only mbe l w b)) (\<lambda>_ _. False) w"
proof -
  define P where "P b \<longleftrightarrow> (\<exists>n e. b = Refused n e) \<or> (\<exists>l. opened_link cr cfg ids token password pf l w \<and> shows_only mbe l w b)" for b
  have no: "P (Refused n e)" for n e by (simp add: P_def)
  have items: "P (Listing items)"
    if "opened_link cr cfg ids token password pf l w" "reached l w p"
      "\<forall>i \<in> set items. \<exists>e. i = e\<lparr>fe_key := NoKey\<rparr> \<and> e \<in> set (entries (db w)) \<and> live e \<and> fe_parent e = Some p" for l p items
  proof -
    have "shows_only mbe l w (Listing items)" using that(2,3) unfolding shows_only.simps by blast
    with that(1) show ?thesis unfolding P_def by blast
  qed
  have open': "wp (Resolve cr cfg ids token password pf False) Q E w"
    if "\<And>l l1 w1. opened_link cr cfg ids token password pf l w \<Longrightarrow> same_link l l1 \<Longrightarrow> same_files w w1 \<Longrightarrow> Q l1 w1" "\<And>e w1. E e w1" for Q E
    by (rule wp_weaken [OF Resolve_opens]) (use that in auto)
  have kids: "wp (ListPublicChildren p) Q E w2" if "same_files w w2"
    "\<And>items w3. \<forall>i \<in> set items. \<exists>e. i = e\<lparr>fe_key := NoKey\<rparr> \<and> e \<in> set (entries (db w)) \<and> live e \<and> fe_parent e = Some p \<Longrightarrow> Q items w3" "\<And>e w3. E e w3" for p Q E w2
    by (rule wp_weaken [OF ListPublicChildren_wp]) (use that in auto)
  have empty: "P (Listing [])" if "opened_link cr cfg ids token password pf l w" for l
    using that by (auto simp: P_def)
  have "wp (share_list cr cfg ids r token password pf) (\<lambda>b _. P b) (\<lambda>_ _. False) w"
    unfolding share_list_def Let_def wp_try_or
  proof (rule open')
    fix l l1 w1 assume l: "opened_link cr cfg ids token password pf l w" "same_link l l1" "same_files w w1"
    have listed: "wp (ListPublicChildren i) (\<lambda>x. wp (ret (Listing x)) (\<lambda>b _. P b) (\<lambda>_ _. False)) (\<lambda>e. wp (ret (Refused 400 (Msg ''failed to list''))) (\<lambda>b _. P b) (\<lambda>_ _. False)) w3"
      if "same_files w w3" "reached l w i" for i w3
      using that items [OF l(1) that(2)] by (auto simp: wp_simps no intro!: kids)
    show "wp (EntryForShare (sl_entry l1)) (\<lambda>entry. wp (if fe_kind entry \<noteq> Folder then ret (Listing [])
       else try_or (IsDescendantOrSelf (if rq_param r ''parentId'' = [] then Some (fe_id entry) else uuid_parse ids (rq_param r ''parentId'')) (Some (sl_entry l1)))
         (\<lambda>_. ret (Refused 404 (Msg ''not found''))) (\<lambda>ok. if \<not> ok then ret (Refused 404 (Msg ''not found''))
         else try_or (ListPublicChildren (the (if rq_param r ''parentId'' = [] then Some (fe_id entry) else uuid_parse ids (rq_param r ''parentId''))))
           (\<lambda>_. ret (Refused 400 (Msg ''failed to list''))) (\<lambda>items. ret (Listing items)))) (\<lambda>b _. P b) (\<lambda>_ _. False))
       (\<lambda>e. wp (ret (Refused 404 (Msg ''not found''))) (\<lambda>b _. P b) (\<lambda>_ _. False)) w1"
      using l empty [OF l(1)] by (intro entry_via [where w = w]) (auto simp: wp_try_or wp_if wp_ret no intro!: below_via [OF l(2), where w = w] listed)
  qed (simp add: wp_simps no)
  then show ?thesis by (simp add: P_def)
qed

lemma Meta_wp:
  "wp (Meta cr cfg ids token password pf)
    (\<lambda>m _. if pm_unlocked m then \<exists>l. opened_link cr cfg ids token password pf l w
       else pm_perm m = [] \<and> pm_name m = [] \<and> pm_kind m = None \<and> pm_entry m = None) (\<lambda>_ _. True) w"
proof -
  have upgraded: "wp (upgrade_hash cr cfg l password) Q (\<lambda>_ _. True) w1" if "\<And>l' w'. Q l' w'" for l w1 Q
    by (rule wp_any) (use that in auto)
  show ?thesis
    by (auto simp: Meta_def wp_simps row_def locked_meta_def opened_link_def bind_eq_Some_conv split: option.split intro!: upgraded)
qed

lemma opened_link_same:
  "db w1 = db w \<Longrightarrow> clock w1 = clock w \<Longrightarrow> opened_link cr cfg ids token password pf l w1 = opened_link cr cfg ids token password pf l w"
  by (simp add: opened_link_def)

text \<open>
  C26: what a link shows, and to whom. The page of a link answers with something of an
  entry - a file, a listing, a name - only when the link of the token exists, has not
  expired and is open to this request: it has no password, or the password given is
  right, or the request proves that it has been given before. Then what is shown is a live
  entry that is the link's or lies below it, with its content; and a file behind a link to
  view only comes as a preview of a type that may be previewed. What it tells of a link
  that is not open is no more than that it has a password or has expired.
\<close>

theorem share_gate:
  assumes "DownloadPublic cr cfg ids mbe np trusted r w = (Inr reply, w')"
  shows "case sr_body reply of
      Refused _ _ \<Rightarrow> True
    | PasswordPage _ \<Rightarrow> True
    | MetaReply m \<Rightarrow> if pm_unlocked m then \<exists>l. opened_link cr cfg ids (share_token r) (share_password r) (share_proof r) l w
        else pm_perm m = [] \<and> pm_name m = [] \<and> pm_kind m = None \<and> pm_entry m = None
    | b \<Rightarrow> \<exists>l. opened_link cr cfg ids (share_token r) (share_password r) (share_proof r) l w \<and> shows_only mbe l w b"
proof -
  let ?open = "\<lambda>l. opened_link cr cfg ids (share_token r) (share_password r) (share_proof r) l w"
  define G where "G b \<longleftrightarrow> (case b of
      Refused _ _ \<Rightarrow> True
    | PasswordPage _ \<Rightarrow> True
    | MetaReply m \<Rightarrow> if pm_unlocked m then \<exists>l. ?open l else pm_perm m = [] \<and> pm_name m = [] \<and> pm_kind m = None \<and> pm_entry m = None
    | b \<Rightarrow> \<exists>l. ?open l \<and> shows_only mbe l w b)" for b
  have no: "G (Refused n e)" "G (PasswordPage e)" for n e by (simp_all add: G_def)
  have shown: "G b" if "?open l" "shows_only mbe l w b" for l b
    using that by (cases b) (auto simp: G_def)
  have limit: "wp (allow k) Q E w" if "\<And>ok w1. db w1 = db w \<Longrightarrow> clock w1 = clock w \<Longrightarrow> files w1 = files w \<Longrightarrow> Q ok w1" for k Q E
    using that by (auto simp: allow_def wp_def split: prod.split)
  have meta: "wp (Meta cr cfg ids (share_token r) (share_password r) (share_proof r)) Q E w1"
    if "db w1 = db w" "clock w1 = clock w" "\<And>m w2. G (MetaReply m) \<Longrightarrow> Q m w2" "\<And>e w2. E e w2" for w1 Q E
  proof (rule wp_weaken [OF Meta_wp])
    fix m :: public_meta and w2
    assume "if pm_unlocked m then \<exists>l. opened_link cr cfg ids (share_token r) (share_password r) (share_proof r) l w1
       else pm_perm m = [] \<and> pm_name m = [] \<and> pm_kind m = None \<and> pm_entry m = None"
    then have "G (MetaReply m)" unfolding opened_link_same [OF that(1,2)] by (simp add: G_def)
    then show "Q m w2" by (rule that(3))
  qed (rule that(4))
  have listed: "wp (share_list cr cfg ids r (share_token r) (share_password r) (share_proof r)) Q E w1"
    if "db w1 = db w" "clock w1 = clock w" "files w1 = files w" "\<And>b w2. G b \<Longrightarrow> Q b w2" for w1 Q E
  proof (rule wp_weaken [OF share_list_shows [where mbe = mbe]])
    fix b w2
    assume "(\<exists>n e. b = Refused n e) \<or> (\<exists>l. opened_link cr cfg ids (share_token r) (share_password r) (share_proof r) l w1 \<and> shows_only mbe l w1 b)"
    moreover have "shows_only mbe l w1 b = shows_only mbe l w b" for l
      using that(1,3) by (cases b) (auto simp: shared_entry_def reached_def)
    ultimately have "G b" using no shown opened_link_same [OF that(1,2)] by auto
    then show "Q b w2" by (rule that(4))
  qed simp
  have resolved: "wp (Resolve cr cfg ids (share_token r) (share_password r) (share_proof r) counted) Q E w1"
    if "db w1 = db w" "clock w1 = clock w" "files w1 = files w"
      "\<And>l l1 w2. ?open l \<Longrightarrow> same_link l l1 \<Longrightarrow> same_files w w2 \<Longrightarrow> Q l1 w2" "\<And>e w2. E e w2" for counted w1 Q E
    by (rule wp_weaken [OF Resolve_opens]) (use that in \<open>auto simp: opened_link_same [of w1 w]\<close>)
  have answer: "wp (share_file mbe ids r html l1) Q E w1"
    if "?open l" "same_link l l1" "same_files w w1" "\<And>b w2. G b \<Longrightarrow> Q b w2" for html l l1 w1 Q E
    by (rule wp_weaken [OF share_file_shows [OF that(2,3)]]) (use that(1,4) shown in auto)
  have page: "wp (share_page cr cfg ids mbe r (share_token r) (share_password r) (share_proof r)) (\<lambda>reply _. G (sr_body reply)) (\<lambda>_ _. False) w1"
    if "db w1 = db w" "clock w1 = clock w" "files w1 = files w" for w1
    unfolding share_page_def Let_def using that
    by (auto simp: wp_simps no intro!: meta listed resolved answer)
  have "wp (DownloadPublic cr cfg ids mbe np trusted r) (\<lambda>reply _. G (sr_body reply)) (\<lambda>_ _. False) w"
    unfolding DownloadPublic_def wp_bnd
  proof (cases "share_password r = []")
    case True
    with page [OF refl refl refl] show "wp (if share_password r \<noteq> [] then allow (ClientIP np trusted r @ ''|'' @ share_token r) else ret True)
      (\<lambda>ok. wp (if \<not> ok then ret (plain_reply (Refused 429 (Msg ''too many share password attempts'')))
         else share_page cr cfg ids mbe r (share_token r) (share_password r) (share_proof r)) (\<lambda>reply _. G (sr_body reply)) (\<lambda>_ _. False)) (\<lambda>_ _. False) w"
      by (simp add: wp_ret)
  qed (auto simp: wp_simps no intro!: limit page)
  from wp_InrD [OF this assms] show ?thesis by (simp add: G_def)
qed

end
