(* ===== verification/SharingExamples.thy ===== *)
theory SharingExamples
  imports SignInExamples SharingSafety
begin

text \<open>
  Requests and share links at concrete states: each property of \<open>Http\<close>, \<open>Archives\<close> and
  \<open>SharingSafety\<close> applied, and a way round the limit on downloads.
\<close>

section \<open>Requests\<close>

text \<open>Addresses are texts here; those that begin with \<open>10.\<close> belong to the proxies.\<close>

definition toy_net :: "string netip" where
  "toy_net = \<lparr>parse_addr = (\<lambda>s. if s = [] then None else Some s), show_addr = id\<rparr>"

definition toy_proxies :: "(string \<Rightarrow> bool) list" where
  "toy_proxies = [\<lambda>a. has_prefix a ''10.'']"

definition proxied :: http_request where
  "proxied = \<lparr>rq_method = ''POST'', rq_path = ''/api/files/move'', rq_remote = ''10.0.0.1:99'', rq_tls = False,
     rq_headers = [(''X-Forwarded-For'', ''6.6.6.6, 9.9.9.9, 10.0.0.2'')], rq_cookies = [(''session_token'', ''abc'')], rq_query = [], rq_form = []\<rparr>"


definition forged :: "string \<Rightarrow> http_request" where
  "forged token = proxied\<lparr>rq_headers := [(''X-CSRF-Token'', token)]\<rparr>"

theorem csrf_bound_to_session_witness:
  "csrf_passes toy ''secret'' (forged (csrf_injected toy ''secret'' proxied []))
   \<and> \<not> csrf_passes toy ''secret'' (forged (csrf_injected toy ''secret'' proxied [''session_token=xyz; Path=/'']))"
proof -
  have g: "guarded (forged t)" "rq_header (forged t) ''X-CSRF-Token'' = t" "sessionCookieValue (forged t) = ''abc''" for t
  proof -
    have "\<not> has_prefix (to_lower (trim_space [])) ''bearer ''" by code_simp
    then show "guarded (forged t)"
      by (simp add: guarded_def bearer_def csrf_exempt_def forged_def proxied_def first_value_def has_prefix_def)
  qed (simp_all add: forged_def proxied_def sessionCookieValue_def first_value_def)
  have "sessionCookieValue proxied = ''abc''" by (simp add: proxied_def sessionCookieValue_def first_value_def)
  with g csrf_bound_to_session [OF g(1) g(2), of "[]" None "sessionCookieValue proxied"]
    csrf_bound_to_session [OF g(1) g(2), of "[''session_token=xyz; Path=/'']" "Some ''xyz''" "''xyz''"]
  show ?thesis by (simp add: toy_def)
qed

section \<open>Archives\<close>

lemma site_zips: "ok (fst (WriteFolderZip 7 1 ''user'' 11 site))"
  by code_simp

lemma site_rows: "\<exists>rows. zip_rows 11 site = Inr rows \<and> length rows = 1"
proof -
  have "(case zip_rows 11 site of Inl _ \<Rightarrow> False | Inr rows \<Rightarrow> length rows = 1)" by code_simp
  then show ?thesis by (auto split: sum.splits)
qed


section \<open>Links\<close>

definition toy_ids :: uuid_codec where
  "toy_ids = \<lparr>uuid_parse = (\<lambda>s. if s = ''12'' then Some 12 else None), uuid_text = show_nat\<rparr>"

definition site_link :: share_row where
  "site_link = \<lparr>sl_id = 80, sl_entry = 12, sl_token = ''tok'', sl_pw = [], sl_perm = ''download'', sl_expires = Some 500, sl_count = 0,
     sl_max = Some 1, sl_by = 1, sl_created = 0\<rparr>"

definition linked :: world where
  "linked = site\<lparr>db := site_db\<lparr>shares := [site_link]\<rparr>\<rparr>"

lemma linked_simps [simp]: "faults linked = []" "clock linked = 0" "entries (db linked) = site_entries" "shares (db linked) = [site_link]"
  by (simp_all add: linked_def site_db_def)

lemma linked_at: "link_at ''tok'' site_link (db linked)"
  by (simp add: link_at_def share_by_token_def site_link_def)

theorem downloads_bounded_witness:
  "\<exists>n w'. visits toy site_cfg toy_ids ''tok'' (replicate 3 ([], [], True, 9)) linked = (n, w') \<and> n \<le> 1"
proof (cases "visits toy site_cfg toy_ids ''tok'' (replicate 3 ([], [], True, 9)) linked")
  case (Pair n w')
  from downloads_bounded [OF linked_at _ _ this, of 1] Pair show ?thesis by (simp add: site_link_def)
qed

definition browse :: http_request where
  "browse = \<lparr>rq_method = ''GET'', rq_path = ''/s/tok'', rq_remote = ''9.9.9.9:1'', rq_tls = True, rq_headers = [(''Accept'', ''text/html'')],
     rq_cookies = [], rq_query = [], rq_form = []\<rparr>"

lemma browsed: "share_token browse = ''tok''" "share_password browse = []" "rq_param browse k = []" "wants_html browse"
proof -
  show "share_token browse = ''tok''" "share_password browse = []" "wants_html browse" by code_simp+
qed (simp add: browse_def first_value_def)

text \<open>
  The limit on downloads does not bind a browser. A request with \<open>text/html\<close> in its
  header \<open>Accept\<close> gets the whole file of a link without being counted: nothing in the
  state changes, so the same request succeeds again and again, here on a link with a
  limit of one download.
\<close>

theorem browser_not_counted:
  "DownloadPublic toy site_cfg toy_ids (\<lambda>_. []) toy_net [] browse linked
      = (Inr (plain_reply (Body ''text/plain'' False ''a.txt'' ''hello'')), linked)"
proof -
  have opened: "Resolve toy site_cfg toy_ids ''tok'' [] pf False linked = (Inr site_link, linked)" for pf
    by (simp add: Resolve_def admit_def bnd_def map_err_def db_stmt_def row_def getw_def require_def ret_def share_by_token_def
        share_expired_def site_link_def)
  have entry: "EntryForShare 12 linked = (Inr site_file, linked)"
    by (simp add: EntryForShare_def entryByID_def map_err_def db_stmt_def row_def site_entries_def live_def site_file_def entry_row_def)
  have content: "OpenStorage (UserKey 1 0 12) linked = (Inr ''hello'', linked)"
  proof -
    have "files linked (UserKey 1 0 12) = Some ''hello''" by (simp add: linked_def site_def)
    then show ?thesis
      by (simp add: OpenStorage_def blob_open_def by_key_def st_open_def os_read_def oscall_def bnd_def getw_def ret_def)
  qed
  have mime: "resolveContentType (\<lambda>_. []) ''a.txt'' ''text/plain'' = ''text/plain''" by code_simp
  have "share_entry (\<lambda>_. []) browse True site_link site_file linked = (Inr (Body ''text/plain'' False ''a.txt'' ''hello''), linked)"
    using content by (simp add: share_entry_def try_or_def bnd_def result_def ret_def browsed site_link_def site_file_def entry_row_def mime)
  with entry have "share_file (\<lambda>_. []) toy_ids browse True site_link linked = (Inr (Body ''text/plain'' False ''a.txt'' ''hello''), linked)"
    by (simp add: share_file_def Let_def try_or_def bnd_def result_def ret_def browsed site_link_def)
  with opened show ?thesis
    by (simp add: DownloadPublic_def share_page_def Let_def bnd_def result_def ret_def browsed)
qed

lemma linked_browses:
  "\<exists>reply w'. DownloadPublic toy site_cfg toy_ids (\<lambda>_. []) toy_net [] browse linked = (Inr reply, w')
     \<and> sr_body reply = Body ''text/plain'' False ''a.txt'' ''hello''"
proof -
  have "(case fst (DownloadPublic toy site_cfg toy_ids (\<lambda>_. []) toy_net [] browse linked) of
      Inl _ \<Rightarrow> False | Inr reply \<Rightarrow> sr_body reply = Body ''text/plain'' False ''a.txt'' ''hello'')" by code_simp
  then show ?thesis
    by (cases "DownloadPublic toy site_cfg toy_ids (\<lambda>_. []) toy_net [] browse linked") (auto split: sum.splits)
qed

theorem share_gate_witness:
  "\<exists>l. opened_link toy site_cfg toy_ids ''tok'' [] (share_proof browse) l linked
     \<and> shows_only (\<lambda>_. []) l linked (Body ''text/plain'' False ''a.txt'' ''hello'')"
proof -
  obtain reply w' where run: "DownloadPublic toy site_cfg toy_ids (\<lambda>_. []) toy_net [] browse linked = (Inr reply, w')"
    and reply: "sr_body reply = Body ''text/plain'' False ''a.txt'' ''hello''"
    using linked_browses by blast
  from share_gate [OF run] reply browsed show ?thesis by simp
qed

end
