(* ===== verification/Administration.thy ===== *)
theory Administration
  imports Http
begin

text \<open>
  What an administrator does, and what the server does when it starts:
  \<open>internal/admin/service.go\<close>, \<open>internal/plans/service.go\<close>, \<open>internal/mailer/service.go\<close>,
  \<open>internal/storage/quota.go\<close> and the data part of \<open>Migrate\<close> in \<open>internal/store/postgres.go\<close>.
  The size of the disk is the parameter \<open>disk\<close>: total and free bytes, or \<open>None\<close> when it
  cannot be asked.
\<close>

section \<open>Settings in the database\<close>

definition show_int :: "int \<Rightarrow> string" where
  "show_int n = (if n < 0 then CHR ''-'' # show_nat (nat (- n)) else show_nat (nat n))"

definition setting :: "string \<Rightarrow> database \<Rightarrow> string option" where
  "setting k d = map_of (settings d) k"

text \<open>\<open>insert into app_settings ... on conflict (key) do update\<close>, or \<open>do nothing\<close>.\<close>

definition put_setting :: "bool \<Rightarrow> string \<Rightarrow> string \<Rightarrow> unit stmt" where
  "put_setting replace k v = try_upd (\<lambda>d.
     if \<not> text_ok v then None
     else if setting k d = None then Some (d\<lparr>settings := settings d @ [(k, v)]\<rparr>)
     else if replace then Some (d\<lparr>settings := map (\<lambda>(a, b). if a = k then (a, v) else (a, b)) (settings d)\<rparr>)
     else Some d)"

section \<open>Quotas\<close>

abbreviation maxQuota :: int where "maxQuota \<equiv> 100 * 1024 * 1024 * 1024 * 1024"

definition ResolveDefaultQuota :: "bool \<Rightarrow> (int \<times> int) option \<Rightarrow> int \<Rightarrow> int" where
  "ResolveDefaultQuota mkdir_ok disk configured =
     (if 0 < configured then configured
      else if \<not> mkdir_ok then 5 * 1024 * 1024 * 1024
      else (case disk of
          None \<Rightarrow> 5 * 1024 * 1024 * 1024
        | Some (cap, _) \<Rightarrow> if cap \<le> 0 then 5 * 1024 * 1024 * 1024 else cap))"

record admin_settings =
  as_batch :: int
  as_chunk :: int
  as_quota :: int
  as_disk :: "(int \<times> int) option"

definition Settings :: "int \<Rightarrow> (int \<times> int) option \<Rightarrow> int \<Rightarrow> int \<Rightarrow> admin_settings srv" where
  "Settings fallbackQuota disk defaultBatch chunkBytes =
     bnd (result (db_stmt (row (setting ''max_upload_batch_bytes'')))) (\<lambda>r1.
     bnd (require (case r1 of Inl e \<Rightarrow> e = NoRows | Inr _ \<Rightarrow> True) (case r1 of Inl e \<Rightarrow> e | Inr _ \<Rightarrow> NoRows)) (\<lambda>_.
     let batch = (case r1 of Inl _ \<Rightarrow> defaultBatch
        | Inr raw \<Rightarrow> (case parse_int64 raw of None \<Rightarrow> defaultBatch | Some n \<Rightarrow> if 0 < n then n else defaultBatch)) in
     bnd (result (db_stmt (row (setting ''default_quota_bytes'')))) (\<lambda>r2.
     bnd (require (case r2 of Inl e \<Rightarrow> e = NoRows | Inr _ \<Rightarrow> True) (case r2 of Inl e \<Rightarrow> e | Inr _ \<Rightarrow> NoRows)) (\<lambda>_.
     let quota = (case r2 of Inl _ \<Rightarrow> fallbackQuota
        | Inr raw \<Rightarrow> (case parse_int64 raw of None \<Rightarrow> fallbackQuota | Some n \<Rightarrow> if 0 \<le> n then n else fallbackQuota)) in
     ret \<lparr>as_batch = batch, as_chunk = chunkBytes, as_quota = quota, as_disk = disk\<rparr>))))"

definition SetMaxUploadBatchBytes :: "int \<Rightarrow> unit srv" where
  "SetMaxUploadBatchBytes bytes =
     bnd (require (\<not> (bytes < 64 * 1024 * 1024 \<or> 50 * 1024 * 1024 * 1024 < bytes)) (Msg ''batch limit out of range'')) (\<lambda>_.
     db_stmt (put_setting True ''max_upload_batch_bytes'' (show_int bytes)))"

definition update_plan :: "string \<Rightarrow> (plan_row \<Rightarrow> plan_row) \<Rightarrow> database \<Rightarrow> database" where
  "update_plan code f d = d\<lparr>plans := map (\<lambda>p. if pl_code p = code then f p else p) (plans d)\<rparr>"

definition SetDefaultQuotaBytes :: "int \<Rightarrow> unit srv" where
  "SetDefaultQuotaBytes bytes =
     bnd (require (\<not> (bytes < 0 \<or> maxQuota < bytes)) (Msg ''invalid default quota'')) (\<lambda>_.
     with_tx (
       bnd (tx_stmt (put_setting True ''default_quota_bytes'' (show_int bytes))) (\<lambda>_.
       tx_stmt (upd (update_plan ''free'' (\<lambda>p. p\<lparr>pl_quota := bytes\<rparr>))))))"

definition MatchDefaultQuotaToDisk :: "(int \<times> int) option \<Rightarrow> int srv" where
  "MatchDefaultQuotaToDisk disk =
     (case disk of
        None \<Rightarrow> fail (Msg ''disk capacity unavailable'')
      | Some (cap, _) \<Rightarrow>
          if cap \<le> 0 then fail (Msg ''disk capacity unavailable'')
          else bnd (SetDefaultQuotaBytes cap) (\<lambda>_. ret cap))"

section \<open>Users\<close>

record summary =
  sm_users :: nat
  sm_admins :: nat
  sm_files :: nat
  sm_shares :: nat
  sm_used :: int
  sm_assigned :: int

definition Summary :: "summary srv" where
  "Summary = db_stmt (sel (\<lambda>d.
     \<lparr>sm_users = length (users d), sm_admins = length (filter (\<lambda>u. u_role u = ''admin'') (users d)),
      sm_files = length (filter (\<lambda>e. fe_kind e = File \<and> live e) (entries d)), sm_shares = length (shares d),
      sm_used = sum_list (map u_used (users d)), sm_assigned = sum_list (map (\<lambda>u. u_quota u + u_bonus u) (users d))\<rparr>))"

text \<open>The users with their effective quotas.\<close>

definition Users :: "(user_row \<times> int) list srv" where
  "Users = db_stmt (sel (\<lambda>d. map (\<lambda>u. (u, u_quota u + u_bonus u)) (take 500 (rev (sort_key u_created (users d))))))"

text \<open>An update of the users that satisfy a condition, with the number of rows changed.\<close>

definition update_users :: "(user_row \<Rightarrow> bool) \<Rightarrow> (user_row \<Rightarrow> user_row) \<Rightarrow> nat stmt" where
  "update_users P f = (\<lambda>w. Inr (length (filter P (users (db w))),
     w\<lparr>db := (db w)\<lparr>users := map (\<lambda>u. if P u then f u else u) (users (db w))\<rparr>\<rparr>))"

definition plan_of :: "database \<Rightarrow> string \<Rightarrow> plan_row option" where
  "plan_of d code = find (\<lambda>p. pl_code p = code) (plans d)"

definition SetPlan :: "uuid \<Rightarrow> string \<Rightarrow> unit srv" where
  "SetPlan user planCode =
     bnd (db_stmt (\<lambda>w. case find (\<lambda>p. pl_code p = planCode \<and> pl_active p) (plans (db w)) of
         None \<Rightarrow> Inr (0, w)
       | Some p \<Rightarrow> update_users (\<lambda>u. u_id u = user)
           (\<lambda>u. u\<lparr>u_plan := pl_code p, u_quota := max (pl_quota p) (u_used u - u_bonus u)\<rparr>) w)) (\<lambda>n.
     require (n \<noteq> 0) (Msg ''user or plan not found''))"

definition SetQuota :: "uuid \<Rightarrow> int \<Rightarrow> unit srv" where
  "SetQuota user quotaBytes =
     bnd (require (\<not> (quotaBytes < 0 \<or> maxQuota < quotaBytes)) (Msg ''invalid quota'')) (\<lambda>_.
     bnd (db_stmt (update_users (\<lambda>u. u_id u = user \<and> u_used u \<le> quotaBytes + u_bonus u) (\<lambda>u. u\<lparr>u_quota := quotaBytes\<rparr>))) (\<lambda>n.
     require (n \<noteq> 0) (Msg ''user not found or quota is below current usage'')))"

definition SetBonusQuota :: "uuid \<Rightarrow> int \<Rightarrow> unit srv" where
  "SetBonusQuota user bonusBytes =
     bnd (require (\<not> (bonusBytes < 0 \<or> maxQuota < bonusBytes)) (Msg ''invalid bonus quota'')) (\<lambda>_.
     bnd (db_stmt (update_users (\<lambda>u. u_id u = user \<and> u_used u \<le> u_quota u + bonusBytes) (\<lambda>u. u\<lparr>u_bonus := bonusBytes\<rparr>))) (\<lambda>n.
     require (n \<noteq> 0) (Msg ''user not found or effective quota would be below current usage'')))"

definition SetRole :: "uuid \<Rightarrow> uuid \<Rightarrow> string \<Rightarrow> unit srv" where
  "SetRole actor user role =
     bnd (require (role = ''user'' \<or> role = ''admin'') (Msg ''role must be user or admin'')) (\<lambda>_.
     with_tx (
       bnd (map_err (no_rows (Msg ''user not found'')) (tx_stmt (row (\<lambda>d. map_option u_role (user_of d user))))) (\<lambda>currentRole.
       bnd (if currentRole = ''admin'' \<and> role = ''user'' then
              bnd (tx_stmt (sel (\<lambda>_. ()))) (\<lambda>_.
              bnd (tx_stmt (sel (\<lambda>d. length (filter (\<lambda>u. u_role u = ''admin'') (users d))))) (\<lambda>adminCount.
              bnd (require (\<not> adminCount \<le> 1) (Msg ''the last admin cannot be demoted'')) (\<lambda>_.
              require (actor \<noteq> user) (Msg ''you cannot remove your own admin role''))))
            else ret ()) (\<lambda>_.
       tx_stmt (upd (update_user user (\<lambda>u. u\<lparr>u_role := role\<rparr>)))))))"

definition Devices :: "(device_row \<times> string) list srv" where
  "Devices = db_stmt (sel (\<lambda>d. take 200 (rev (sort_key (\<lambda>(v, _). dv_seen v) (concat (map (\<lambda>v.
     case user_of d (dv_user v) of None \<Rightarrow> [] | Some u \<Rightarrow> [(v, u_email u)]) (filter (\<lambda>v. dv_revoked v = None) (devices d))))))))"

section \<open>Plans\<close>

definition plans_List :: "plan_row list srv" where
  "plans_List = db_stmt (sel (\<lambda>d. sort_key pl_quota (filter pl_active (plans d))))"

definition Assign :: "string \<Rightarrow> uuid \<Rightarrow> string \<Rightarrow> unit srv" where
  "Assign actorRole user planCode =
     bnd (require (actorRole = ''admin'') (Msg ''admin role required'')) (\<lambda>_.
     bnd (db_stmt (\<lambda>w. case plan_of (db w) planCode of
         None \<Rightarrow> Inr (0, w)
       | Some p \<Rightarrow> update_users (\<lambda>u. u_id u = user) (\<lambda>u. u\<lparr>u_plan := pl_code p, u_quota := pl_quota p\<rparr>) w)) (\<lambda>_. ret ()))"

section \<open>Mail settings\<close>

record mail_settings =
  ms_enabled :: bool
  ms_host :: string
  ms_port :: int
  ms_username :: string
  ms_password :: string
  ms_from :: string
  ms_tls :: bool
  ms_mode :: string
  ms_skip :: bool

definition atoi :: "string \<Rightarrow> int option" where
  "atoi s = parse_int64 s"

definition masked :: string where
  "masked = ''********''"

text \<open>The branch of the loop over the rows for one setting; other keys are passed over.\<close>

definition read_mail :: "string \<times> string \<Rightarrow> mail_settings \<Rightarrow> mail_settings" where
  "read_mail kv st = (case kv of (k, v) \<Rightarrow>
     if k = ''mail_enabled'' then st\<lparr>ms_enabled := v = ''1'' \<or> equal_fold v ''true''\<rparr>
     else if k = ''mail_host'' then st\<lparr>ms_host := v\<rparr>
     else if k = ''mail_port'' then (case atoi v of None \<Rightarrow> st | Some p \<Rightarrow> st\<lparr>ms_port := p\<rparr>)
     else if k = ''mail_username'' then st\<lparr>ms_username := v\<rparr>
     else if k = ''mail_password'' then (if v \<noteq> [] then st\<lparr>ms_password := masked\<rparr> else st)
     else if k = ''mail_from'' then st\<lparr>ms_from := v\<rparr>
     else if k = ''mail_use_tls'' then st\<lparr>ms_tls := v \<noteq> ''0'' \<and> \<not> equal_fold v ''false''\<rparr>
     else if k = ''mail_tls_mode'' then st\<lparr>ms_mode := to_lower (trim_space v)\<rparr>
     else if k = ''mail_skip_tls_verify'' then st\<lparr>ms_skip := v = ''1'' \<or> equal_fold v ''true''\<rparr>
     else st)"

definition mail_defaults :: mail_settings where
  "mail_defaults = \<lparr>ms_enabled = False, ms_host = [], ms_port = 587, ms_username = [], ms_password = [], ms_from = [],
     ms_tls = True, ms_mode = ''auto'', ms_skip = False\<rparr>"

definition mail_Get :: "mail_settings srv" where
  "mail_Get = bnd (db_stmt (sel settings)) (\<lambda>rows.
     let st = fold read_mail rows mail_defaults in
     ret (if ms_mode st = [] then st\<lparr>ms_mode := ''auto''\<rparr> else st))"

definition boolStr :: "bool \<Rightarrow> string" where
  "boolStr b = (if b then ''1'' else ''0'')"

text \<open>The pairs are written one by one; the order of the map is that of the list \<open>order\<close>.\<close>

definition mail_pairs :: "mail_settings \<Rightarrow> string \<Rightarrow> (string \<times> string) list" where
  "mail_pairs inp mode =
     [(''mail_enabled'', boolStr (ms_enabled inp)), (''mail_host'', trim_space (ms_host inp)), (''mail_port'', show_int (ms_port inp)),
      (''mail_username'', trim_space (ms_username inp)), (''mail_from'', trim_space (ms_from inp)), (''mail_use_tls'', boolStr (ms_tls inp)),
      (''mail_tls_mode'', mode), (''mail_skip_tls_verify'', boolStr (ms_skip inp))]
     @ (if ms_password inp \<noteq> [] \<and> ms_password inp \<noteq> masked then [(''mail_password'', ms_password inp)] else [])"

definition mail_Save :: "((string \<times> string) list \<Rightarrow> (string \<times> string) list) \<Rightarrow> mail_settings \<Rightarrow> unit srv" where
  "mail_Save order inp0 =
     (let inp = (if ms_port inp0 \<le> 0 then inp0\<lparr>ms_port := 587\<rparr> else inp0); mode = to_lower (trim_space (ms_mode inp)) in
      bnd (require (mode \<in> {[], ''auto'', ''starttls'', ''smtps'', ''none''}) (Msg ''invalid tlsMode'')) (\<lambda>_.
      each (\<lambda>(k, v). db_stmt (put_setting True k v)) (order (mail_pairs inp (if mode = [] then ''auto'' else mode)))))"

definition rawPassword :: "string srv" where
  "rawPassword = bnd (result (db_stmt (row (setting ''mail_password'')))) (\<lambda>r.
     case r of Inl e \<Rightarrow> if e = NoRows then ret [] else fail e | Inr v \<Rightarrow> ret v)"

definition Configured :: "bool srv" where
  "Configured = bnd mail_Get (\<lambda>st. ret (ms_enabled st \<and> ms_host st \<noteq> [] \<and> ms_from st \<noteq> []))"

definition resolveTLSMode :: "mail_settings \<Rightarrow> string" where
  "resolveTLSMode st =
     (let mode = to_lower (trim_space (ms_mode st)) in
      if mode = [] \<or> mode = ''auto'' then
        (if \<not> ms_tls st then ''none'' else if ms_port st = 465 then ''smtps'' else ''starttls'')
      else if mode = ''none'' \<or> \<not> ms_tls st then ''none''
      else mode)"

text \<open>\<open>smtp st mode password to subject body\<close> is the conversation with the mail server.\<close>

definition sendWith :: "(mail_settings \<Rightarrow> string \<Rightarrow> string \<Rightarrow> string \<Rightarrow> string \<Rightarrow> string \<Rightarrow> unit srv) \<Rightarrow> mail_settings \<Rightarrow> string \<Rightarrow> string \<Rightarrow> string
    \<Rightarrow> unit srv" where
  "sendWith smtp st to subject body =
     bnd (require (\<not> (ms_host st = [] \<or> ms_from st = [] \<or> to = [])) (Msg ''mail settings incomplete'')) (\<lambda>_.
     bnd rawPassword (\<lambda>pass. smtp st (resolveTLSMode st) pass to subject body))"

definition mail_Send :: "(mail_settings \<Rightarrow> string \<Rightarrow> string \<Rightarrow> string \<Rightarrow> string \<Rightarrow> string \<Rightarrow> unit srv) \<Rightarrow> string \<Rightarrow> string \<Rightarrow> string \<Rightarrow> unit srv" where
  "mail_Send smtp to subject body =
     bnd mail_Get (\<lambda>st. bnd (require (ms_enabled st) (Msg ''mail disabled'')) (\<lambda>_. sendWith smtp st to subject body))"

definition SendTest :: "(mail_settings \<Rightarrow> string \<Rightarrow> string \<Rightarrow> string \<Rightarrow> string \<Rightarrow> string \<Rightarrow> unit srv) \<Rightarrow> string \<Rightarrow> unit srv" where
  "SendTest smtp to0 =
     bnd mail_Get (\<lambda>st.
     bnd (require (\<not> (ms_host st = [] \<or> ms_from st = [])) (Msg ''mail settings incomplete (host/from)'')) (\<lambda>_.
     let to = (if to0 = [] then ms_from st else to0) in
     bnd (require (ms_enabled st) (Msg ''SMTP is off'')) (\<lambda>_.
     sendWith smtp st to ''TR Driver SMTP test'' ''TR Driver SMTP test message'')))"

text \<open>The mail service of the program as the \<open>MailSender\<close> of package \<open>auth\<close>.\<close>

definition site_mailer :: "(mail_settings \<Rightarrow> string \<Rightarrow> string \<Rightarrow> string \<Rightarrow> string \<Rightarrow> string \<Rightarrow> unit srv) \<Rightarrow> mailer" where
  "site_mailer smtp = \<lparr>mail_configured = Configured, mail_send = mail_Send smtp\<rparr>"

section \<open>Starting the server\<close>

text \<open>
  \<open>Migrate\<close> on a database that has the schema: the statements after those that create it.
\<close>

fun insert_all :: "('a \<Rightarrow> world \<Rightarrow> (unit \<times> world) option) \<Rightarrow> 'a list \<Rightarrow> world \<Rightarrow> (unit \<times> world) option" where
  "insert_all f [] w = Some ((), w)"
| "insert_all f (x # xs) w = (case f x w of None \<Rightarrow> None | Some (_, w') \<Rightarrow> insert_all f xs w')"

definition backfillPersonalDrives :: "unit srv" where
  "backfillPersonalDrives =
     bnd (db_stmt (checked (\<lambda>w. insert_all (\<lambda>u w'. insert_drive \<lparr>d_id = fresh w', d_kind = Personal, d_name = ''My Drive'', d_owner = u_id u,
          d_root = u_root u, d_created = clock w'\<rparr> (w'\<lparr>fresh := Suc (fresh w')\<rparr>))
        (filter (\<lambda>u. u_root u \<noteq> None \<and> \<not> (\<exists>r \<in> set (drives (db w)). d_owner r = u_id u \<and> d_kind r = Personal)) (users (db w))) w))) (\<lambda>_.
     bnd (db_stmt (checked (\<lambda>w. insert_all (\<lambda>r w'. if \<exists>m \<in> set (members (db w')). m_drive m = d_id r \<and> m_user m = d_owner r then Some ((), w')
          else put_member False \<lparr>m_drive = d_id r, m_user = d_owner r, m_role = ''manager'', m_created = clock w'\<rparr> w')
        (filter (\<lambda>r. d_kind r = Personal) (drives (db w))) w))) (\<lambda>_.
     db_stmt (upd (\<lambda>d. d\<lparr>entries := map (\<lambda>f. if fe_drive f = None
        then (case find (\<lambda>r. d_kind r = Personal \<and> d_owner r = fe_user f) (drives d) of None \<Rightarrow> f | Some r \<Rightarrow> f\<lparr>fe_drive := Some (d_id r)\<rparr>)
        else f) (entries d)\<rparr>))))"

definition seed_plan :: "int \<Rightarrow> string \<times> string \<times> bool \<Rightarrow> plan_row list \<Rightarrow> plan_row list" where
  "seed_plan quota p ps = (case p of (code, name, active) \<Rightarrow>
     if \<exists>x \<in> set ps. pl_code x = code
     then map (\<lambda>x. if pl_code x = code then x\<lparr>pl_name := name, pl_price := 0, pl_term := ''monthly'', pl_active := active\<rparr> else x) ps
     else ps @ [\<lparr>pl_code = code, pl_name = name, pl_quota = quota, pl_price = 0, pl_term = ''monthly'', pl_active = active\<rparr>])"

definition seed_plans :: "int \<Rightarrow> plan_row list \<Rightarrow> plan_row list" where
  "seed_plans quota ps = fold (seed_plan quota) [(''free'', ''Free'', True), (''pro'', ''Pro'', False), (''team'', ''Team'', False)] ps"

text \<open>The oldest user becomes administrator where there is none.\<close>

definition bootstrap_admin :: "database \<Rightarrow> database" where
  "bootstrap_admin d =
     (case sort_key u_created (users d) of
        [] \<Rightarrow> d
      | u # _ \<Rightarrow> if \<exists>x \<in> set (users d). u_role x = ''admin'' then d else update_user (u_id u) (\<lambda>x. x\<lparr>u_role := ''admin''\<rparr>) d)"

definition Migrate :: "int \<Rightarrow> int \<Rightarrow> unit srv" where
  "Migrate freeQuotaBytes deviceTokenTTL =
     bnd (if deviceTokenTTL \<le> 0
          then db_stmt (upd (\<lambda>d. d\<lparr>devices := map (\<lambda>v. if dv_revoked v = None then v\<lparr>dv_expires := None\<rparr> else v) (devices d)\<rparr>))
          else ret ()) (\<lambda>_.
     bnd (db_stmt (\<lambda>w. upd (\<lambda>d. d\<lparr>challenges := map (\<lambda>c.
            if ch_consumed c = None \<and> ch_purpose c \<in> {''login_2fa'', ''password_reset''} \<and> \<not> has_prefix (ch_code c) ''hmac-sha256:''
            then c\<lparr>ch_consumed := Some (clock w)\<rparr> else c) (challenges d)\<rparr>) w)) (\<lambda>_.
     bnd backfillPersonalDrives (\<lambda>_.
     bnd (db_stmt (upd (\<lambda>d. d\<lparr>plans := seed_plans freeQuotaBytes (plans d)\<rparr>))) (\<lambda>_.
     bnd (db_stmt (upd (\<lambda>d. d\<lparr>plans := map (\<lambda>p. p\<lparr>pl_price := 0, pl_active := (pl_code p = ''free'')\<rparr>) (plans d)\<rparr>))) (\<lambda>_.
     bnd (db_stmt (put_setting False ''default_quota_bytes'' (show_int freeQuotaBytes))) (\<lambda>_.
     bnd (db_stmt (try_upd (\<lambda>d. case setting ''default_quota_bytes'' d of
            None \<Rightarrow> Some d
          | Some v \<Rightarrow> map_option (\<lambda>n. update_plan ''free'' (\<lambda>p. p\<lparr>pl_quota := n\<rparr>) d) (parse_int64 (trim_space v))))) (\<lambda>_.
     bnd (db_stmt (upd (\<lambda>d. d\<lparr>users := map (\<lambda>u. u\<lparr>u_plan := ''free''\<rparr>) (users d)\<rparr>))) (\<lambda>_.
     bnd (db_stmt (put_setting False ''max_upload_batch_bytes'' (show_int (10 * 1024 * 1024 * 1024)))) (\<lambda>_.
     db_stmt (upd bootstrap_admin))))))))))"

end
