(* ===== verification/AdminSafety.thy ===== *)
theory AdminSafety
  imports Administration SignInSafety Accounting
begin

text \<open>
  What holds of the accounts whatever the administrators and the users do: there is an
  administrator as soon as there is a user, no two users share an address, and roles and
  quotas stay in their range.
\<close>

section \<open>Accounts in order\<close>

definition digits_only :: "string \<Rightarrow> bool" where
  "digits_only v \<longleftrightarrow> CHR ''-'' \<notin> set v"

definition users_ok :: "uuid \<Rightarrow> user_row list \<Rightarrow> bool" where
  "users_ok n us \<longleftrightarrow> (\<forall>u \<in> set us. u_id u < n \<and> u_role u \<in> {''user'', ''admin''} \<and> 0 \<le> u_quota u \<and> 0 \<le> u_bonus u)
     \<and> distinct (map u_id us) \<and> distinct (map u_email us)
     \<and> (us \<noteq> [] \<longrightarrow> (\<exists>u \<in> set us. u_role u = ''admin''))"

definition in_order :: "world \<Rightarrow> bool" where
  "in_order w \<longleftrightarrow> users_ok (fresh w) (users (db w)) \<and> (\<forall>p \<in> set (plans (db w)). 0 \<le> pl_quota p)
     \<and> (\<forall>v. setting ''default_quota_bytes'' (db w) = Some v \<longrightarrow> digits_only v)"

definition orderly :: "world \<Rightarrow> world \<Rightarrow> bool" where
  "orderly w w' \<longleftrightarrow> fresh w \<le> fresh w' \<and> (in_order w \<longrightarrow> in_order w')"

lemma users_ok_mono: "users_ok m us \<Longrightarrow> m \<le> n \<Longrightarrow> users_ok n us"
  by (fastforce simp: users_ok_def)

lemma in_order_cong: "fresh w \<le> fresh w' \<Longrightarrow> users (db w') = users (db w) \<Longrightarrow> plans (db w') = plans (db w)
    \<Longrightarrow> settings (db w') = settings (db w) \<Longrightarrow> orderly w w'"
  by (auto simp: orderly_def in_order_def setting_def intro: users_ok_mono)

lemma preorder_orderly [steps_intros]: "preorder orderly"
  by (rule preorderI) (auto simp: orderly_def)

lemma tx_rel_orderly [steps_intros]: "tx_rel orderly"
  using preorder_orderly by (auto simp: tx_rel_def intro!: in_order_cong) (auto simp: orderly_def in_order_def intro: users_ok_mono)

text \<open>A change of the rows of users that keeps the identity and the role, and the quotas in their range.\<close>

definition mild :: "(user_row \<Rightarrow> user_row) \<Rightarrow> bool" where
  "mild f \<longleftrightarrow> (\<forall>u. u_id (f u) = u_id u \<and> u_email (f u) = u_email u \<and> u_role (f u) = u_role u
     \<and> (0 \<le> u_quota u \<longrightarrow> 0 \<le> u_quota (f u)) \<and> (0 \<le> u_bonus u \<longrightarrow> 0 \<le> u_bonus (f u)))"

lemma mildD: "mild f \<Longrightarrow> u_id (f u) = u_id u \<and> u_email (f u) = u_email u \<and> u_role (f u) = u_role u
     \<and> (0 \<le> u_quota u \<longrightarrow> 0 \<le> u_quota (f u)) \<and> (0 \<le> u_bonus u \<longrightarrow> 0 \<le> u_bonus (f u))"
  by (simp add: mild_def)

lemma mild_if: "(\<And>u. P u \<Longrightarrow> u_id (f u) = u_id u \<and> u_email (f u) = u_email u \<and> u_role (f u) = u_role u
     \<and> (0 \<le> u_quota u \<longrightarrow> 0 \<le> u_quota (f u)) \<and> (0 \<le> u_bonus u \<longrightarrow> 0 \<le> u_bonus (f u))) \<Longrightarrow> mild (\<lambda>u. if P u then f u else u)"
  by (simp add: mild_def)

lemma users_ok_mild: "users_ok n us \<Longrightarrow> mild f \<Longrightarrow> users_ok n (map f us)"
  unfolding users_ok_def by (auto simp: mildD comp_def cong: map_cong)

lemma orderly_mild: "mild f \<Longrightarrow> orderly w (w\<lparr>db := (db w)\<lparr>users := map f (users (db w))\<rparr>\<rparr>)"
  by (auto simp: orderly_def in_order_def setting_def intro: users_ok_mild)

lemma digits_value_nonneg: "\<forall>c \<in> set t. is_digit c \<Longrightarrow> 0 \<le> digits_value t"
proof -
  have "0 \<le> n \<Longrightarrow> \<forall>c \<in> set t. is_digit c \<Longrightarrow> 0 \<le> foldl (\<lambda>n c. 10 * n + (int (byte c) - 48)) n t" for n :: int
    by (induction t arbitrary: n) (auto simp: is_digit_def)
  then show "\<forall>c \<in> set t. is_digit c \<Longrightarrow> 0 \<le> digits_value t" by (simp add: digits_value_def)
qed

lemma digits_nonneg: "digits_only v \<Longrightarrow> parse_int64 (trim_space v) = Some n \<Longrightarrow> 0 \<le> n"
  using trim_space_set [of v] digits_value_nonneg
  by (auto simp: digits_only_def parse_int64_def Let_def has_prefix_append split: if_splits)

lemma show_digits: "0 \<le> n \<Longrightarrow> digits_only (show_int n)"
  using show_nat_chars [of "nat n"] by (auto simp: digits_only_def show_int_def)

section \<open>The statements\<close>

lemma orderly_stmt:
  assumes "\<And>w x w'. f w = Inr (x, w') \<Longrightarrow> orderly w w'"
  shows "steps orderly (db_stmt f)" and "steps orderly (tx_stmt f)"
  using assms by (auto intro: steps_db_stmt steps_tx_stmt tx_rel_orderly)

lemma orderly_read [steps_intros]:
  "steps orderly (db_stmt (row g))" "steps orderly (db_stmt (sel h))" "steps orderly (db_stmt (ask_row a))" "steps orderly (db_stmt (user_query q))"
  "steps orderly (tx_stmt (row g))" "steps orderly (tx_stmt (sel h))"
  by (auto intro!: orderly_stmt preorder_refl [OF preorder_orderly] simp: row_def ask_row_def user_query_def split: option.splits if_splits)

lemma orderly_users [steps_intros]:
  "mild f \<Longrightarrow> steps orderly (db_stmt (upd (update_user i f)))"
  "mild f \<Longrightarrow> steps orderly (tx_stmt (upd (update_user i f)))"
  "(\<And>t. mild (g t)) \<Longrightarrow> steps orderly (db_stmt (\<lambda>w. upd (update_user i (g (clock w))) w))"
  by (auto intro!: orderly_stmt orderly_mild mild_if simp: update_user_def mildD)

lemma orderly_update_users [steps_intros]:
  assumes "\<And>u. P u \<Longrightarrow> u_id (f u) = u_id u \<and> u_email (f u) = u_email u \<and> u_role (f u) = u_role u
     \<and> (0 \<le> u_quota u \<longrightarrow> 0 \<le> u_quota (f u)) \<and> (0 \<le> u_bonus u \<longrightarrow> 0 \<le> u_bonus (f u))"
  shows "steps orderly (db_stmt (update_users P f))"
  using assms by (auto intro!: orderly_stmt orderly_mild mild_if simp: update_users_def)

lemma orderly_elsewhere [steps_intros]:
  "steps orderly (db_stmt (consume_open user purpose))" "steps orderly (db_stmt (insert_challenge user purpose code h e))"
  "steps orderly (db_stmt (set_consumed i))" "steps orderly (db_stmt (add_attempt i))" "steps orderly (db_stmt (consume_once i))"
  "steps orderly (db_stmt (insert_session user token expires))" "steps orderly (tx_stmt (insert_session user token expires))"
  "steps orderly (db_stmt (insert_device user name token ex))" "steps orderly (db_stmt (revoke_devices P))"
  "steps orderly (db_stmt (upd (\<lambda>d. d\<lparr>web_sessions := ws (web_sessions d)\<rparr>)))"
  "steps orderly (db_stmt (upd (\<lambda>d. d\<lparr>devices := vs (devices d)\<rparr>)))"
  by (auto intro!: orderly_stmt in_order_cong simp: consume_open_def insert_challenge_def set_consumed_def add_attempt_def consume_once_def
      insert_session_def insert_device_def revoke_devices_def checked_def update_challenge_def Let_def split: option.splits if_splits)

lemma orderly_counter [steps_intros]: "steps orderly (db_stmt (set_counter user n))"
  by (auto intro!: orderly_stmt orderly_mild simp: set_counter_def mild_def Let_def)

lemma orderly_no_db [steps_intros]:
  "steps orderly (blocked key)" "steps orderly (limiter_add key)" "steps orderly (newSessionToken cr)" "steps orderly (generateChallengeToken cr)"
  "steps orderly generateOTPCode" "steps orderly (hashPassword cr p)" "steps orderly GenerateSecret" "steps orderly (Seal cr s k)" "steps orderly new_uuid"
  by (auto simp: steps_def blocked_def limiter_add_def newSessionToken_def generateChallengeToken_def generateOTPCode_def hashPassword_def
      GenerateSecret_def Seal_def rand_int_def rand_read_def new_uuid_def bnd_def ret_def fail_def getw_def modw_def Let_def
      split: list.split option.split prod.split intro!: in_order_cong)

section \<open>The operations of users\<close>

abbreviation tame :: "'a srv \<Rightarrow> bool" where
  "tame m \<equiv> steps orderly m"

lemma tame_quiet: "quiet m \<Longrightarrow> tame m"
  by (erule steps_weaken) (auto simp: used_faults_def intro: in_order_cong)

lemma tame_account [steps_intros]: "tame (account_of cfg u)" "tame (userByID cfg user)" "tame (defaultQuotaBytes cfg)"
  unfolding account_of_def maxBatchBytes_def userByID_def defaultQuotaBytes_def
  by (auto intro!: steps_intros simp: Let_def)

lemma tame_authenticate [steps_intros]: "tame (authenticatePassword cr cfg addr email password)"
  unfolding authenticatePassword_def Let_def by (auto intro!: steps_intros split: sum.split)

lemma tame_issue [steps_intros]: "tame (issueSession cr cfg user)"
  unfolding issueSession_def by (auto intro!: steps_intros simp: mild_def simp del: stmt_simps)

lemma tame_consume [steps_intros]: "tame (consumeChallenge cr cfg user purpose token code)" "tame (consumeTOTPChallenge cr cfg user token code)"
  unfolding consumeChallenge_def consumeTOTPChallenge_def Let_def by (auto intro!: steps_intros split: option.split)

definition silent :: "(mail_settings \<Rightarrow> string \<Rightarrow> string \<Rightarrow> string \<Rightarrow> string \<Rightarrow> string \<Rightarrow> unit srv) \<Rightarrow> bool" where
  "silent smtp \<longleftrightarrow> (\<forall>st mode p t s b. quiet (smtp st mode p t s b))"

lemma tame_mailer:
  "tame (mail_configured (site_mailer smtp))" "silent smtp \<Longrightarrow> tame (mail_send (site_mailer smtp) t s b)"
  unfolding site_mailer_def Configured_def mail_Get_def mail_Send_def sendWith_def rawPassword_def silent_def
  by (auto intro!: steps_intros tame_quiet simp: Let_def split: sum.split)

lemma tame_codes:
  assumes "silent smtp"
  shows "tame (startTOTPLogin cr user)" "tame (createChallenge cr cfg user purpose)"
    "tame (startLogin2FA cr cfg (Some (site_mailer smtp)) acc)"
    "tame (SetEmail2FA cr (Some (site_mailer smtp)) user password enabled)"
    "tame (ForgotPassword cr cfg (Some (site_mailer smtp)) addr email)"
    "tame (ResetPassword cr cfg addr email code password)"
proof -
  note m = tame_mailer(1) tame_mailer(2) [OF assms]
  show c: "tame (createChallenge cr cfg user purpose)" for user purpose
    unfolding createChallenge_def by (auto intro!: steps_intros)
  show "tame (startTOTPLogin cr user)" unfolding startTOTPLogin_def by (auto intro!: steps_intros)
  show "tame (startLogin2FA cr cfg (Some (site_mailer smtp)) acc)"
    unfolding startLogin2FA_def by (auto simp: with_mail intro!: steps_intros c m)
  show "tame (SetEmail2FA cr (Some (site_mailer smtp)) user password enabled)"
    unfolding SetEmail2FA_def by (auto simp: with_mail mild_def simp del: stmt_simps intro!: steps_intros m)
  show "tame (ForgotPassword cr cfg (Some (site_mailer smtp)) addr email)"
    unfolding ForgotPassword_def Let_def by (auto simp: with_mail split: sum.split intro!: steps_intros c m)
  show "tame (ResetPassword cr cfg addr email code password)"
    unfolding ResetPassword_def Let_def by (auto split: sum.split simp: mild_def simp del: stmt_simps intro!: steps_intros)
qed

lemma tame_sign_in:
  assumes "silent smtp"
  shows "tame (Login cr cfg (Some (site_mailer smtp)) addr email password)"
    "tame (BeginDeviceLogin cr cfg (Some (site_mailer smtp)) addr email password)"
    "tame (CompleteLogin2FA cr cfg addr token code)"
    "tame (CreateDevice cr cfg user name)" "tame (UserByDeviceToken cr cfg token)" "tame (RevokeDevice user device)"
    "tame (CreateQRLogin cr user)" "tame (RedeemQRLogin cr cfg token name)" "tame (UserBySession cr cfg token)" "tame (Logout cr token)"
proof -
  note codes = tame_codes [OF assms]
  show "tame (Login cr cfg (Some (site_mailer smtp)) addr email password)"
    "tame (BeginDeviceLogin cr cfg (Some (site_mailer smtp)) addr email password)"
    unfolding Login_def BeginDeviceLogin_def Let_def by (auto intro!: steps_intros codes)
  show "tame (CompleteLogin2FA cr cfg addr token code)"
    unfolding CompleteLogin2FA_def Let_def by (auto split: sum.split intro!: steps_intros)
  show d: "tame (CreateDevice cr cfg user name)" for user name unfolding CreateDevice_def Let_def by (auto intro!: steps_intros)
  show "tame (UserByDeviceToken cr cfg token)" unfolding UserByDeviceToken_def
    by (auto intro!: steps_intros orderly_stmt in_order_cong simp: Let_def split: option.splits prod.splits if_splits)
  show "tame (RevokeDevice user device)" unfolding RevokeDevice_def by (auto intro!: steps_intros)
  show "tame (CreateQRLogin cr user)" unfolding CreateQRLogin_def by (auto intro!: steps_intros)
  show "tame (RedeemQRLogin cr cfg token name)" unfolding RedeemQRLogin_def Let_def by (auto intro!: steps_intros d)
  show "tame (UserBySession cr cfg token)" unfolding UserBySession_def by (auto intro!: steps_intros)
  show "tame (Logout cr token)" unfolding Logout_def by (auto intro!: steps_intros simp del: stmt_simps)
qed

lemma tame_authenticator:
  "tame (BeginTOTPSetup cr cfg user password)" "tame (EnableTOTP cr cfg user password code)" "tame (DisableTOTP cr cfg user password code)"
  unfolding BeginTOTPSetup_def EnableTOTP_def DisableTOTP_def
  by (auto intro!: steps_intros split: option.split simp: mild_def simp del: stmt_simps)

section \<open>New accounts\<close>

lemma steps_bnd_val:
  assumes "preorder R" and "steps R m" and "\<And>w. wp m (\<lambda>x _. V x) (\<lambda>_ _. True) w" and "\<And>x. V x \<Longrightarrow> steps R (f x)"
  shows "steps R (bnd m f)"
proof (rule stepsI)
  fix w
  show "R w (snd (bnd m f w))"
  proof (cases "m w")
    case (Pair r w')
    with assms(2) have first: "R w w'" by (rule stepsD)
    show ?thesis
    proof (cases r)
      case (Inr x)
      with assms(3) [of w] Pair have "V x" by (simp add: wp_def)
      with assms(4) have "R w' (snd (f x w'))" by (simp add: steps_def)
      with first assms(1) Pair Inr show ?thesis by (auto simp: bnd_def dest: preorder_trans)
    qed (use first Pair in \<open>simp add: bnd_def\<close>)
  qed
qed

lemma default_nonneg: "wp (defaultQuotaBytes cfg) (\<lambda>q _. 0 \<le> q) (\<lambda>_ _. True) w"
  by (auto simp: defaultQuotaBytes_def wp_simps row_def Let_def split: option.split)

lemma users_ok_new:
  assumes "users_ok n us" and "u_id u = n" and "u_email u \<notin> u_email ` set us" and "0 \<le> u_quota u" and "u_bonus u = 0"
    and "u_role u = (if \<exists>x \<in> set us. u_role x = ''admin'' then ''user'' else ''admin'')"
  shows "users_ok (Suc n) (us @ [u])"
proof -
  have "n \<notin> u_id ` set us" using assms(1) by (auto simp: users_ok_def)
  with assms show ?thesis unfolding users_ok_def by (auto simp: less_SucI)
qed

lemma tame_insert_user:
  assumes "0 \<le> quota"
  shows "tame (tx_stmt (insert_user email pw name quota))"
proof (rule orderly_stmt)
  fix w x w'
  assume "insert_user email pw name quota w = Inr (x, w')"
  then have fresh: "\<forall>y \<in> set (users (db w)). u_email y \<noteq> email"
    and w': "w' = w\<lparr>fresh := Suc (fresh w), db := (db w)\<lparr>users := users (db w) @ [user_row (fresh w) email pw name
      (if \<exists>u \<in> set (users (db w)). u_role u = ''admin'' then ''user'' else ''admin'') ''free'' quota (clock w)]\<rparr>\<rparr>"
    unfolding insert_user_def checked_def Let_def by (auto simp del: ex_simps split: if_split_asm)
  have "users_ok (Suc (fresh w)) (users (db w'))" if "users_ok (fresh w) (users (db w))"
  proof -
    have "users (db w') = users (db w) @ [user_row (fresh w) email pw name
      (if \<exists>u \<in> set (users (db w)). u_role u = ''admin'' then ''user'' else ''admin'') ''free'' quota (clock w)]"
      unfolding w' by simp
    then show ?thesis by (simp only:, intro users_ok_new [OF that]) (use fresh assms in \<open>auto simp: user_row_def\<close>)
  qed
  then show "orderly w w'" by (auto simp: orderly_def in_order_def w' setting_def)
qed

definition aside :: "world \<Rightarrow> world \<Rightarrow> bool" where
  "aside w w' \<longleftrightarrow> fresh w \<le> fresh w' \<and> users (db w') = users (db w) \<and> plans (db w') = plans (db w) \<and> settings (db w') = settings (db w)"

lemma aside_orderly: "aside w w' \<Longrightarrow> orderly w w'"
  by (simp add: aside_def in_order_cong)

lemma aside_rows:
  "insert_drive r w = Some (x, w') \<Longrightarrow> aside w w'" "put_member b m w = Some (y, w') \<Longrightarrow> aside w w'"
  "insert_entry lower e d = Some d' \<Longrightarrow> users d' = users d \<and> plans d' = plans d \<and> settings d' = settings d"
  by (auto simp: insert_drive_def put_member_def insert_entry_def aside_def Let_def split: if_splits)

lemma tame_rows [steps_intros]:
  "tame (tx_stmt (checked (insert_drive r)))" "tame (tx_stmt (checked (put_member b m)))"
  "(\<And>w. g w = insert_entry (lower w) e) \<Longrightarrow> tame (tx_stmt (\<lambda>w. try_upd (g w) w))"
  "tame (tx_stmt (upd (update_entry i f)))"
  by (auto intro!: orderly_stmt aside_orderly simp: checked_def try_upd_def update_entry_def split: option.splits dest: aside_rows) (auto simp: aside_def dest: aside_rows)

lemma tame_Register: "tame (Register cr parse cfg license email password name)"
proof -
  have "tame (register_tx cr cfg license e pw n)" for e pw n
    unfolding register_tx_def EnsureCanAddUser_def
    by (auto intro!: steps_bnd_val [OF preorder_orderly tame_account(3) default_nonneg] steps_intros tame_insert_user simp: mild_def simp del: stmt_simps)
  then show ?thesis
    unfolding Register_def Let_def RegistrationAllowed_def by (auto intro!: steps_intros split: option.split)
qed

section \<open>The operations of administrators\<close>

lemma orderly_plans: "(\<And>p. 0 \<le> pl_quota p \<Longrightarrow> 0 \<le> pl_quota (f p)) \<Longrightarrow> orderly w (w\<lparr>db := (db w)\<lparr>plans := map f (plans (db w))\<rparr>\<rparr>)"
  by (auto simp: orderly_def in_order_def setting_def)

lemma tame_setting [steps_intros]:
  assumes "k = ''default_quota_bytes'' \<longrightarrow> digits_only v"
  shows "tame (db_stmt (put_setting replace k v))" "tame (tx_stmt (put_setting replace k v))"
proof -
  have "map_of (map (\<lambda>(a, b). if a = k then (a, v) else (a, b)) xs) j = (if j = k then map_option (\<lambda>_. v) (map_of xs j) else map_of xs j)" for xs j
    by (induction xs) auto
  with assms show "tame (db_stmt (put_setting replace k v))" "tame (tx_stmt (put_setting replace k v))"
    by (auto intro!: orderly_stmt simp: put_setting_def try_upd_def orderly_def in_order_def setting_def split: if_splits option.splits)
qed

lemma tame_quotas:
  "tame (SetMaxUploadBatchBytes n)" "tame (SetDefaultQuotaBytes n)" "tame (MatchDefaultQuotaToDisk disk)"
  "tame (SetQuota user n)" "tame (SetBonusQuota user n)"
proof -
  have free: "tame (tx_stmt (upd (update_plan ''free'' (\<lambda>p. p\<lparr>pl_quota := n\<rparr>))))" if "0 \<le> n" for n
    using that by (auto intro!: orderly_stmt orderly_plans simp: update_plan_def)
  have guard: "tame (bnd (require b e) f)" if "b \<Longrightarrow> tame (f ())" for b e and f :: "unit \<Rightarrow> 'b srv"
    using that by (cases b) (auto simp: require_def bnd_def ret_def fail_def steps_def intro: preorder_refl [OF preorder_orderly])
  show default: "tame (SetDefaultQuotaBytes n)" for n
    unfolding SetDefaultQuotaBytes_def by (auto intro!: guard steps_intros free show_digits)
  show "tame (SetMaxUploadBatchBytes n)" unfolding SetMaxUploadBatchBytes_def by (auto intro!: steps_intros)
  show "tame (MatchDefaultQuotaToDisk disk)"
    unfolding MatchDefaultQuotaToDisk_def by (auto intro!: steps_intros default split: option.split)
  show "tame (SetQuota user n)" "tame (SetBonusQuota user n)"
    unfolding SetQuota_def SetBonusQuota_def by (auto intro!: guard steps_intros)
qed

lemma tame_by_plan:
  assumes "\<And>w p. q w = Some p \<Longrightarrow> p \<in> set (plans (db w))" and "\<And>p u. 0 \<le> pl_quota p \<Longrightarrow> 0 \<le> new p u"
  shows "tame (db_stmt (\<lambda>w. case q w of None \<Rightarrow> Inr (0, w)
    | Some p \<Rightarrow> update_users (\<lambda>u. u_id u = user) (\<lambda>u. u\<lparr>u_plan := pl_code p, u_quota := new p u\<rparr>) w))"
proof (rule orderly_stmt)
  fix w x w'
  assume run: "(case q w of None \<Rightarrow> Inr (0, w)
    | Some p \<Rightarrow> update_users (\<lambda>u. u_id u = user) (\<lambda>u. u\<lparr>u_plan := pl_code p, u_quota := new p u\<rparr>) w) = Inr (x, w')"
  show "orderly w w'"
  proof (cases "q w")
    case None
    with run show ?thesis by (simp add: preorder_refl [OF preorder_orderly])
  next
    case (Some p)
    have "orderly w w'" if "0 \<le> pl_quota p"
      using run Some assms(2) [OF that] by (auto simp: update_users_def intro!: orderly_mild mild_if)
    moreover have "0 \<le> pl_quota p" if "in_order w" using that assms(1) [OF Some] by (simp add: in_order_def)
    moreover have "fresh w' = fresh w" using run Some by (auto simp: update_users_def)
    ultimately show ?thesis by (auto simp: orderly_def)
  qed
qed

lemma tame_plans: "tame (SetPlan user code)" "tame (Assign role user code)"
  unfolding SetPlan_def Assign_def plan_of_def
  by (auto intro!: steps_intros tame_by_plan dest: find_set)

text \<open>The last administrator keeps the role.\<close>

lemma other_admin:
  assumes "1 < length (filter (\<lambda>u. u_role u = ''admin'') us)" and "distinct (map u_id us)"
  shows "\<exists>u \<in> set us. u_role u = ''admin'' \<and> u_id u \<noteq> i"
proof -
  let ?as = "filter (\<lambda>u. u_role u = ''admin'') us"
  have "distinct (map u_id ?as)" using assms(2) by (rule distinct_map_filter)
  moreover from assms(1) obtain a b rest where "?as = a # b # rest" by (cases ?as; cases "tl ?as") auto
  ultimately have "u_id a \<noteq> u_id b" "a \<in> set ?as" "b \<in> set ?as" by auto
  then show ?thesis by (cases "u_id a = i") auto
qed

lemma users_ok_role:
  assumes "users_ok n us" and "role \<in> {''user'', ''admin''}"
    and "role = ''admin'' \<or> (\<exists>u \<in> set us. u_role u = ''admin'' \<and> u_id u \<noteq> i)"
  shows "users_ok n (map (\<lambda>u. if u_id u = i then u\<lparr>u_role := role\<rparr> else u) us)"
proof -
  let ?f = "\<lambda>u. if u_id u = i then u\<lparr>u_role := role\<rparr> else u"
  have "\<exists>u \<in> set us. u_role (?f u) = ''admin''" if "us \<noteq> []"
  proof -
    from assms(1) that obtain a where a: "a \<in> set us" "u_role a = ''admin''" by (auto simp: users_ok_def)
    from assms(3) show ?thesis
    proof
      assume "role = ''admin''"
      with a show ?thesis by (intro bexI [of _ a]) auto
    next
      assume "\<exists>u \<in> set us. u_role u = ''admin'' \<and> u_id u \<noteq> i"
      then obtain b where "b \<in> set us" "u_role b = ''admin''" "u_id b \<noteq> i" by blast
      then show ?thesis by (intro bexI [of _ b]) auto
    qed
  qed
  then have admin: "map ?f us \<noteq> [] \<longrightarrow> (\<exists>u \<in> set (map ?f us). u_role u = ''admin'')" unfolding set_map bex_simps map_is_Nil_conv by blast
  have keys: "map u_id (map ?f us) = map u_id us" "map u_email (map ?f us) = map u_email us" by simp_all
  have "\<forall>u \<in> set (map ?f us). u_id u < n \<and> u_role u \<in> {''user'', ''admin''} \<and> 0 \<le> u_quota u \<and> 0 \<le> u_bonus u"
    using assms(1,2) by (auto simp: users_ok_def)
  with admin keys assms(1) show ?thesis unfolding users_ok_def by (simp only: simp_thms)
qed

lemma orderly_role:
  assumes "role \<in> {''user'', ''admin''}" and "in_order w \<Longrightarrow> role = ''admin'' \<or> (\<exists>u \<in> set (users (db w)). u_role u = ''admin'' \<and> u_id u \<noteq> i)"
  shows "orderly w (w\<lparr>db := update_user i (\<lambda>u. u\<lparr>u_role := role\<rparr>) (db w)\<rparr>)"
  using users_ok_role [OF _ assms(1), of "fresh w" "users (db w)" i] assms(2)
  by (auto simp: orderly_def in_order_def setting_def update_user_def)

lemma tame_SetRole: "tame (SetRole actor user role)"
proof (cases "role = ''user'' \<or> role = ''admin''")
  case role: True
  define put where "put = tx_stmt (upd (update_user user (\<lambda>u. u\<lparr>u_role := role\<rparr>)))"
  define body where "body = bnd (map_err (no_rows (Msg ''user not found'')) (tx_stmt (row (\<lambda>d. map_option u_role (user_of d user))))) (\<lambda>currentRole.
       bnd (if currentRole = ''admin'' \<and> role = ''user'' then
              bnd (tx_stmt (sel (\<lambda>_. ()))) (\<lambda>_.
              bnd (tx_stmt (sel (\<lambda>d. length (filter (\<lambda>u. u_role u = ''admin'') (users d))))) (\<lambda>adminCount.
              bnd (require (\<not> adminCount \<le> 1) (Msg ''the last admin cannot be demoted'')) (\<lambda>_.
              require (actor \<noteq> user) (Msg ''you cannot remove your own admin role''))))
            else ret ()) (\<lambda>_. put))"
  have run: "SetRole actor user role = with_tx body"
    using role by (simp add: SetRole_def body_def put_def require_def bnd_def ret_def fun_eq_iff)
  have other: "role = ''admin'' \<or> (\<exists>u \<in> set (users (db w)). u_role u = ''admin'' \<and> u_id u \<noteq> user)"
    if found: "user_of (db w) user = Some u"
      and guard: "u_role u = ''admin'' \<and> role = ''user'' \<longrightarrow> \<not> length (filter (\<lambda>u. u_role u = ''admin'') (users (db w))) \<le> 1"
      and "in_order w" for w u
  proof (cases "u_role u = ''admin''")
    case True
    with guard role \<open>in_order w\<close> show ?thesis
      using other_admin [of "users (db w)" user] by (auto simp: in_order_def users_ok_def)
  next
    case False
    from found have u: "u \<in> set (users (db w))" "u_id u = user" by (auto simp: user_of_def dest: find_set)
    from \<open>in_order w\<close> u obtain a where a: "a \<in> set (users (db w))" "u_role a = ''admin''" by (auto simp: in_order_def users_ok_def)
    have "distinct (map u_id (users (db w)))" using \<open>in_order w\<close> by (simp add: in_order_def users_ok_def)
    with a u False have "u_id a \<noteq> user" by (metis distinct_map inj_onD)
    with a show ?thesis by blast
  qed
  have change: "orderly w (w1\<lparr>db := update_user user (\<lambda>u. u\<lparr>u_role := role\<rparr>) (db w)\<rparr>)"
    if "db w1 = db w" "fresh w1 = fresh w" "user_of (db w) user = Some u"
      "u_role u = ''admin'' \<and> role = ''user'' \<longrightarrow> \<not> length (filter (\<lambda>u. u_role u = ''admin'') (users (db w))) \<le> 1" for w w1 u
  proof -
    have "orderly w (w\<lparr>db := update_user user (\<lambda>u. u\<lparr>u_role := role\<rparr>) (db w)\<rparr>)"
      by (rule orderly_role) (use role other [OF that(3,4)] in blast)+
    moreover have "orderly (w\<lparr>db := d\<rparr>) (w1\<lparr>db := d\<rparr>)" for d using that(2) by (intro in_order_cong) simp_all
    ultimately show ?thesis using preorder_trans [OF preorder_orderly] by blast
  qed
  have same: "orderly w w1" if "db w1 = db w" "fresh w1 = fresh w" for w w1 using that by (auto intro: in_order_cong)
  have put: "wp put (\<lambda>_. orderly w) (\<lambda>_. orderly w) w1"
    if "db w1 = db w" "fresh w1 = fresh w" "user_of (db w) user = Some u"
      "u_role u = ''admin'' \<and> role = ''user'' \<longrightarrow> \<not> length (filter (\<lambda>u. u_role u = ''admin'') (users (db w))) \<le> 1" for w w1 u
  proof -
    have "orderly w ((pop w1)\<lparr>db := update_user user (\<lambda>u. u\<lparr>u_role := role\<rparr>) (db w)\<rparr>)"
      by (rule change [OF _ _ that(3,4)]) (use that(1,2) in simp_all)
    with that(1,2) show ?thesis
      unfolding put_def wp_tx_stmt by (auto intro!: same)
  qed
  have "steps orderly body"
  proof (rule steps_wpI)
    fix w
    show "wp body (\<lambda>_. orderly w) (\<lambda>_. orderly w) w"
    proof (cases "user_of (db w) user")
      case None
      then show ?thesis unfolding body_def wp_simps row_def by (auto intro!: same)
    next
      case (Some u)
      note put = put [OF _ _ Some]
      show ?thesis
        unfolding body_def wp_simps row_def by (auto simp: Some intro!: put same)
    qed
  qed
  then show ?thesis unfolding run by (intro steps_with_tx tx_rel_orderly)
next
  case False
  then show ?thesis
    by (auto simp: SetRole_def require_def bnd_def fail_def steps_def intro: preorder_refl [OF preorder_orderly])
qed

section \<open>Starting the server\<close>

lemma aside_trans: "aside a b \<Longrightarrow> aside b c \<Longrightarrow> aside a c"
  by (simp add: aside_def)

lemma insert_all_aside:
  assumes "\<And>x w u w'. f x w = Some (u, w') \<Longrightarrow> aside w w'"
  shows "insert_all f xs w = Some (u, w') \<Longrightarrow> aside w w'"
proof (induction xs arbitrary: w)
  case Nil
  then show ?case by (simp add: aside_def)
next
  case (Cons x xs)
  then show ?case by (auto split: option.splits dest!: assms intro: aside_trans)
qed

lemma tame_backfill [steps_intros]: "tame backfillPersonalDrives"
proof -
  have drives: "aside w w'" if "insert_drive r (w\<lparr>fresh := Suc (fresh w)\<rparr>) = Some (u, w')" for r w u w'
    using aside_rows(1) [OF that] by (simp add: aside_def)
  have members: "aside w w'" if "(if b then Some ((), w) else put_member False m w) = Some (u, w')" for b m w u w'
    using that aside_rows(2) [of False m w] by (auto simp: aside_def split: if_splits)
  have all: "tame (db_stmt (checked (\<lambda>w. insert_all f (rows w) w)))" if "\<And>x w u w'. f x w = Some (u, w') \<Longrightarrow> aside w w'" for f and rows :: "world \<Rightarrow> 'a list"
    by (rule orderly_stmt) (auto simp: checked_def split: option.splits intro!: aside_orderly insert_all_aside [OF that])
  show ?thesis unfolding backfillPersonalDrives_def
    by (intro steps_intros all) (auto intro: drives members intro!: orderly_stmt in_order_cong)
qed

lemma tame_plan_rows:
  assumes "\<And>ps. \<forall>p \<in> set ps. 0 \<le> pl_quota p \<Longrightarrow> \<forall>p \<in> set (g ps). 0 \<le> pl_quota p"
  shows "tame (db_stmt (upd (\<lambda>d. d\<lparr>plans := g (plans d)\<rparr>)))"
  by (rule orderly_stmt) (use assms in \<open>auto simp: orderly_def in_order_def setting_def\<close>)

lemma seeded: "\<forall>p \<in> set ps. 0 \<le> pl_quota p \<Longrightarrow> 0 \<le> q \<Longrightarrow> \<forall>p \<in> set (seed_plans q ps). 0 \<le> pl_quota p"
proof -
  have one: "\<forall>p \<in> set ps. 0 \<le> pl_quota p \<Longrightarrow> 0 \<le> q \<Longrightarrow> \<forall>p \<in> set (seed_plan q x ps). 0 \<le> pl_quota p" for x ps
    by (cases x) (auto simp: seed_plan_def)
  show "\<forall>p \<in> set ps. 0 \<le> pl_quota p \<Longrightarrow> 0 \<le> q \<Longrightarrow> \<forall>p \<in> set (seed_plans q ps). 0 \<le> pl_quota p"
    unfolding seed_plans_def fold_simps by (intro one)
qed

lemma tame_default: "tame (db_stmt (try_upd (\<lambda>d. case setting ''default_quota_bytes'' d of
    None \<Rightarrow> Some d
  | Some v \<Rightarrow> map_option (\<lambda>n. update_plan ''free'' (\<lambda>p. p\<lparr>pl_quota := n\<rparr>) d) (parse_int64 (trim_space v)))))"
proof (rule orderly_stmt)
  fix w x w'
  assume run: "try_upd (\<lambda>d. case setting ''default_quota_bytes'' d of
    None \<Rightarrow> Some d
  | Some v \<Rightarrow> map_option (\<lambda>n. update_plan ''free'' (\<lambda>p. p\<lparr>pl_quota := n\<rparr>) d) (parse_int64 (trim_space v))) w = Inr (x, w')"
  have "in_order w'" if ok: "in_order w"
  proof (cases "setting ''default_quota_bytes'' (db w)")
    case None
    with run ok show ?thesis by (simp add: try_upd_def in_order_def)
  next
    case (Some v)
    with run obtain n where n: "parse_int64 (trim_space v) = Some n"
      "w' = w\<lparr>db := update_plan ''free'' (\<lambda>p. p\<lparr>pl_quota := n\<rparr>) (db w)\<rparr>"
      by (auto simp: try_upd_def split: option.splits)
    from ok Some have "digits_only v" by (simp add: in_order_def)
    with n(1) have "0 \<le> n" by (rule digits_nonneg [rotated])
    with ok n(2) show ?thesis by (auto simp: in_order_def update_plan_def setting_def)
  qed
  moreover have "fresh w' = fresh w" using run by (auto simp: try_upd_def split: option.splits)
  ultimately show "orderly w w'" by (simp add: orderly_def)
qed

lemma tame_bootstrap: "tame (db_stmt (upd bootstrap_admin))"
proof (rule orderly_stmt)
  fix w x w'
  assume "upd bootstrap_admin w = Inr (x, w')"
  then have w': "w' = w\<lparr>db := bootstrap_admin (db w)\<rparr>" by simp
  show "orderly w w'"
  proof (cases "sort_key u_created (users (db w))")
    case Nil
    then show ?thesis unfolding w' by (simp add: bootstrap_admin_def preorder_refl [OF preorder_orderly])
  next
    case (Cons u us)
    then show ?thesis
      unfolding w' using orderly_role [of "''admin''" w "u_id u"]
      by (cases "\<exists>x \<in> set (users (db w)). u_role x = ''admin''") (simp_all add: bootstrap_admin_def preorder_refl [OF preorder_orderly])
  qed
qed

lemma ResolveDefaultQuota_pos: "0 < ResolveDefaultQuota ok disk configured"
  by (auto simp: ResolveDefaultQuota_def split: option.split)

lemma tame_Migrate:
  assumes "0 \<le> quota"
  shows "tame (Migrate quota ttl)"
proof -
  have challenges: "tame (db_stmt (\<lambda>w. upd (\<lambda>d. d\<lparr>challenges := g w (challenges d)\<rparr>) w))" for g
    by (rule orderly_stmt) (auto intro!: in_order_cong)
  have free: "tame (db_stmt (upd (\<lambda>d. d\<lparr>users := map (\<lambda>u. u\<lparr>u_plan := ''free''\<rparr>) (users d)\<rparr>)))"
    by (rule orderly_stmt) (auto intro!: orderly_mild simp: mild_def)
  have seed: "tame (db_stmt (upd (\<lambda>d. d\<lparr>plans := seed_plans quota (plans d)\<rparr>)))"
    by (rule tame_plan_rows) (rule seeded [OF _ assms])
  have retire: "tame (db_stmt (upd (\<lambda>d. d\<lparr>plans := map (\<lambda>p. p\<lparr>pl_price := 0, pl_active := (pl_code p = ''free'')\<rparr>) (plans d)\<rparr>)))"
    by (rule tame_plan_rows) auto
  show ?thesis unfolding Migrate_def
    by (intro steps_intros preorder_orderly challenges seed retire tame_default tame_bootstrap free)
       (auto simp: assms intro: show_digits)
qed

section \<open>Everything that happens to accounts\<close>

lemma steps_each_in: "preorder R \<Longrightarrow> (\<And>x. x \<in> set xs \<Longrightarrow> steps R (f x)) \<Longrightarrow> steps R (each f xs)"
  by (induction xs) (auto intro!: steps_intros)

lemma tame_mail_Save:
  assumes "\<And>xs. set (order xs) = set xs"
  shows "tame (mail_Save order inp)"
proof -
  have "(''default_quota_bytes'', v) \<notin> set (mail_pairs i mode)" for i mode v
    by (auto simp: mail_pairs_def)
  with assms show ?thesis
    unfolding mail_Save_def Let_def
    by (intro steps_bnd preorder_orderly steps_each_in) (auto intro!: steps_intros)
qed

text \<open>
  \<open>account_step cr parse cfg smtp\<close>: one operation of package \<open>auth\<close>, \<open>admin\<close>, \<open>plans\<close> or \<open>mailer\<close>,
  a start of the server, something that happens around it (time passes, random bytes are
  drawn, failures come), or an operation of another package: that one changes of a user at
  most the counters of used and reserved bytes.
\<close>

inductive account_step :: "crypto \<Rightarrow> (string \<Rightarrow> string option) \<Rightarrow> config
    \<Rightarrow> (mail_settings \<Rightarrow> string \<Rightarrow> string \<Rightarrow> string \<Rightarrow> string \<Rightarrow> string \<Rightarrow> unit srv) \<Rightarrow> world \<Rightarrow> world \<Rightarrow> bool"
  for cr parse cfg smtp where
  register: "Register cr parse cfg license email password name w = (r, w') \<Longrightarrow> account_step cr parse cfg smtp w w'"
| login: "Login cr cfg (Some (site_mailer smtp)) addr email password w = (r1, w') \<Longrightarrow> account_step cr parse cfg smtp w w'"
| device_login: "BeginDeviceLogin cr cfg (Some (site_mailer smtp)) addr email password w = (r1, w') \<Longrightarrow> account_step cr parse cfg smtp w w'"
| login_2fa: "CompleteLogin2FA cr cfg addr token code w = (r, w') \<Longrightarrow> account_step cr parse cfg smtp w w'"
| logout: "Logout cr token w = (r2, w') \<Longrightarrow> account_step cr parse cfg smtp w w'"
| create_device: "CreateDevice cr cfg user name w = (r3, w') \<Longrightarrow> account_step cr parse cfg smtp w w'"
| device_token: "UserByDeviceToken cr cfg token w = (r4, w') \<Longrightarrow> account_step cr parse cfg smtp w w'"
| revoke_device: "RevokeDevice user device w = (r2, w') \<Longrightarrow> account_step cr parse cfg smtp w w'"
| create_qr: "CreateQRLogin cr user w = (r5, w') \<Longrightarrow> account_step cr parse cfg smtp w w'"
| redeem_qr: "RedeemQRLogin cr cfg token name w = (r, w') \<Longrightarrow> account_step cr parse cfg smtp w w'"
| email_2fa: "SetEmail2FA cr (Some (site_mailer smtp)) user password enabled w = (r2, w') \<Longrightarrow> account_step cr parse cfg smtp w w'"
| forgot: "ForgotPassword cr cfg (Some (site_mailer smtp)) addr email w = (r2, w') \<Longrightarrow> account_step cr parse cfg smtp w w'"
| reset: "ResetPassword cr cfg addr email code password w = (r2, w') \<Longrightarrow> account_step cr parse cfg smtp w w'"
| begin_totp: "BeginTOTPSetup cr cfg user password w = (r6, w') \<Longrightarrow> account_step cr parse cfg smtp w w'"
| enable_totp: "EnableTOTP cr cfg user password code w = (r2, w') \<Longrightarrow> account_step cr parse cfg smtp w w'"
| disable_totp: "DisableTOTP cr cfg user password code w = (r2, w') \<Longrightarrow> account_step cr parse cfg smtp w w'"
| set_role: "SetRole actor user role w = (r2, w') \<Longrightarrow> account_step cr parse cfg smtp w w'"
| set_plan: "SetPlan user code w = (r2, w') \<Longrightarrow> account_step cr parse cfg smtp w w'"
| assign: "Assign role user code w = (r2, w') \<Longrightarrow> account_step cr parse cfg smtp w w'"
| set_quota: "SetQuota user n w = (r2, w') \<Longrightarrow> account_step cr parse cfg smtp w w'"
| set_bonus: "SetBonusQuota user n w = (r2, w') \<Longrightarrow> account_step cr parse cfg smtp w w'"
| set_default: "SetDefaultQuotaBytes n w = (r2, w') \<Longrightarrow> account_step cr parse cfg smtp w w'"
| match_disk: "MatchDefaultQuotaToDisk disk w = (r7, w') \<Longrightarrow> account_step cr parse cfg smtp w w'"
| set_batch: "SetMaxUploadBatchBytes n w = (r2, w') \<Longrightarrow> account_step cr parse cfg smtp w w'"
| save_mail: "mail_Save order inp w = (r2, w') \<Longrightarrow> (\<And>xs. set (order xs) = set xs) \<Longrightarrow> account_step cr parse cfg smtp w w'"
| start: "Migrate (ResolveDefaultQuota made disk configured) ttl w = (r2, w') \<Longrightarrow> account_step cr parse cfg smtp w w'"
| surroundings: "account_step cr parse cfg smtp w (w\<lparr>clock := t, entropy := es, faults := fs\<rparr>)"
| elsewhere: "fresh w \<le> fresh w' \<Longrightarrow> users (db w') = map (\<lambda>u. u\<lparr>u_used := used u, u_reserved := reserved u\<rparr>) (users (db w))
    \<Longrightarrow> plans (db w') = plans (db w) \<Longrightarrow> settings (db w') = settings (db w) \<Longrightarrow> account_step cr parse cfg smtp w w'"

lemma account_step_orderly:
  assumes "account_step cr parse cfg smtp w w'" and "silent smtp"
  shows "orderly w w'"
proof -
  note runs = tame_Register [THEN stepsD] tame_SetRole [THEN stepsD] tame_plans [THEN stepsD] tame_quotas [THEN stepsD]
    tame_authenticator [THEN stepsD] tame_sign_in [OF assms(2), THEN stepsD] tame_codes [OF assms(2), THEN stepsD]
  from assms(1) show ?thesis
  proof cases
  case elsewhere
  have "users_ok (fresh w') (map (\<lambda>u. u\<lparr>u_used := f u, u_reserved := g u\<rparr>) (users (db w)))" if "users_ok (fresh w) (users (db w))" for f g
    by (rule users_ok_mild [OF users_ok_mono [OF that elsewhere(1)]]) (simp add: mild_def)
  with elsewhere show ?thesis by (simp add: orderly_def in_order_def setting_def)
next
  case surroundings
  then show ?thesis by (simp add: in_order_cong)
next
  case start
  have "0 \<le> ResolveDefaultQuota made disk configured" for made disk configured using ResolveDefaultQuota_pos by (rule less_imp_le)
  from stepsD [OF tame_Migrate [OF this] start] show ?thesis .
next
  case (save_mail order inp r2)
  then show ?thesis by (blast intro: stepsD [OF tame_mail_Save])
qed (rule runs, assumption)+
qed

lemma reachable_in_order:
  assumes "(account_step cr parse cfg smtp)\<^sup>*\<^sup>* boot w" and "silent smtp"
  shows "in_order w"
  using assms(1)
proof (induction rule: rtranclp_induct)
  case base
  show ?case by (simp add: in_order_def users_ok_def boot_def empty_db_def setting_def)
next
  case (step v w)
  then show ?case using account_step_orderly [OF _ assms(2)] by (auto simp: orderly_def)
qed

text \<open>
  C35: once there is a user, there is an administrator. From an empty database on, whatever
  users and administrators do, the server is never left without one, and no two users
  share an address or an id.
\<close>

theorem an_admin_remains:
  assumes "(account_step cr parse cfg smtp)\<^sup>*\<^sup>* boot w" and "silent smtp" and "users (db w) \<noteq> []"
  shows "(\<exists>u \<in> set (users (db w)). u_role u = ''admin'') \<and> distinct (map u_email (users (db w))) \<and> distinct (map u_id (users (db w)))"
  using reachable_in_order [OF assms(1,2)] assms(3) by (simp add: in_order_def users_ok_def)

text \<open>
  C36: the columns of an account stay in their range: the role is that of a user or of an
  administrator, and no quota of a user or of a plan is negative.
\<close>

theorem account_types:
  assumes "(account_step cr parse cfg smtp)\<^sup>*\<^sup>* boot w" and "silent smtp"
  shows "list_all (\<lambda>u. u_role u \<in> {''user'', ''admin''} \<and> 0 \<le> u_quota u \<and> 0 \<le> u_bonus u) (users (db w))
    \<and> list_all (\<lambda>p. 0 \<le> pl_quota p) (plans (db w))"
  using reachable_in_order [OF assms] by (auto simp: in_order_def users_ok_def list_all_iff)

end
