(* ===== verification/AdminExamples.thy ===== *)
theory AdminExamples
  imports AdminSafety SignInExamples
begin

text \<open>
  The first start of a server and its first account, and what holds of every account
  applied to them.
\<close>

definition started :: world where
  "started = boot\<lparr>db := empty_db\<lparr>plans := seed_plans 100 [], settings := [(''default_quota_bytes'', ''100''), (''max_upload_batch_bytes'', ''10737418240'')]\<rparr>\<rparr>"

lemma big_text: "show_int 10737418240 = ''10737418240''" "text_ok ''10737418240''" "show_int 100 = ''100''" "text_ok ''100''"
  "trim_space ''100'' = ''100''" "parse_int64 ''100'' = Some 100"
proof -
  have "show_nat 10737418240 = map (\<lambda>d. char_of (48 + d :: nat)) [1, 0, 7, 3, 7, 4, 1, 8, 2, 4, 0]" by (simp add: show_nat.simps)
  also have "\<dots> = ''10737418240''" by code_simp
  finally show "show_int 10737418240 = ''10737418240''" by (simp add: show_int_def)
qed code_simp+

lemma start_runs: "snd (Migrate (ResolveDefaultQuota True None 100) 0 boot) = started"
proof -
  have "ResolveDefaultQuota True None 100 = 100" by (simp add: ResolveDefaultQuota_def)
  then show ?thesis
    by (simp add: Migrate_def bnd_def db_stmt_def backfillPersonalDrives_def boot_def empty_db_def checked_def try_upd_def put_setting_def
      started_def big_text setting_def seed_plans_def seed_plan_def bootstrap_admin_def update_plan_def)
qed

definition signed_up :: world where
  "signed_up = snd (Register toy Some site_cfg None ''a'' ''password'' ''A'' (drawn 2 started))"




lemma signed_up: "users (db signed_up) \<noteq> []"
proof -
  have texts: "rune_count ''A'' = 1" "to_lower ''a'' = ''a''" "trim_space ''a'' = ''a''" "trim_space ''A'' = ''A''"
    "text_ok ''a''" "text_ok ''A''" "trim_space ''100'' = ''100''" "parse_int64 ''100'' = Some 100" "text_ok ''/''" "text_ok ''inode/directory''" "text_ok ''My Drive''" by code_simp+
  have cfg: "0 < FreeQuotaBytes site_cfg" by code_simp
  show ?thesis
    by (simp add: texts cfg faulty_def pop_def signed_up_def Register_def Let_def bnd_def require_def ret_def hashPassword_def rand_read_def drawn_def with_tx_def register_tx_def started_def boot_def
     tx_stmt_def defaultQuotaBytes_def result_def db_stmt_def row_def insert_user_def checked_def seed_plans_def seed_plan_def empty_db_def user_row_def new_uuid_def getw_def modw_def try_upd_def insert_entry_def entry_fk_def entry_row_def names_ok_def live_names_def insert_drive_def user_of_def drive_of_def put_member_def member_roles_def update_entry_def update_user_def newSessionToken_def insert_session_def
     EnsureCanAddUser_def numeral_2_eq_2 live_def
     del: to_lower.simps rune_count.simps)
qed
lemma signed_up_reached:
  "silent (\<lambda>_ _ _ _ _ _. ret ())" "(account_step toy Some site_cfg (\<lambda>_ _ _ _ _ _. ret ()))\<^sup>*\<^sup>* boot signed_up"
proof -
  let ?step = "account_step toy Some site_cfg (\<lambda>_ _ _ _ _ _. ret ())"
  show "silent (\<lambda>_ _ _ _ _ _. ret ())" by (simp add: silent_def steps_def ret_def)
  have "?step boot started"
    by (rule account_step.start [of True None 100 0 _ "fst (Migrate (ResolveDefaultQuota True None 100) 0 boot)"]) (simp add: start_runs [symmetric])
  moreover have "?step started (drawn 2 started)"
    using account_step.surroundings [where w = started and t = 0 and es = "entropy (drawn 2 started)" and fs = "[]"] by (simp add: drawn_def started_def boot_def)
  moreover have "?step (drawn 2 started) signed_up"
    by (rule account_step.register [of toy Some site_cfg None "''a''" "''password''" "''A''" _
      "fst (Register toy Some site_cfg None ''a'' ''password'' ''A'' (drawn 2 started))"]) (simp add: signed_up_def)
  ultimately show "?step\<^sup>*\<^sup>* boot signed_up" by (meson r_into_rtranclp rtranclp_trans)
qed

theorem an_admin_remains_witness: "\<exists>u \<in> set (users (db signed_up)). u_role u = ''admin''"
  using an_admin_remains [OF signed_up_reached(2,1) signed_up] by blast

theorem account_types_witness: "list_all (\<lambda>u. u_role u \<in> {''user'', ''admin''}) (users (db signed_up))"
  using account_types [OF signed_up_reached(2,1)] by (auto simp: list_all_iff)

end
