(* ===== verification/Api.thy ===== *)
theory Api
  imports Sharing Archives Administration Collab SyncApi LoadPace
begin

text \<open>
  What the HTTP handlers share: the body of a request as JSON (\<open>internal/httpx/json.go\<close>), the
  identity a request has been given (\<open>internal/auth/handler.go\<close>), and the answers. The bytes
  of a JSON text are not modelled: a body is the value it denotes, or \<open>None\<close>.
\<close>

section \<open>JSON\<close>

text \<open>A number that is not an integer is \<open>JReal\<close>: no request has a field for it.\<close>

datatype json =
    JNull
  | JBool bool
  | JInt int
  | JReal
  | JText string
  | JList "json list"
  | JObject "(string \<times> json) list"

text \<open>
  \<open>ReadJSON shape j\<close>: the first value of the body decodes into a struct with the fields
  \<open>shape\<close>. The names are compared without regard to case, an unknown field is an error, and
  \<open>null\<close> fits everywhere.
\<close>

definition ReadJSON :: "(string \<times> (json \<Rightarrow> bool)) list \<Rightarrow> json option \<Rightarrow> bool" where
  "ReadJSON shape body = (case body of
       Some (JObject kvs) \<Rightarrow> (\<forall>(k, v) \<in> set kvs. \<exists>(f, fits) \<in> set shape. equal_fold k f \<and> (v = JNull \<or> fits v))
     | Some v \<Rightarrow> v = JNull
     | None \<Rightarrow> False)"

fun is_text :: "json \<Rightarrow> bool" where
  "is_text (JText s) = True"
| "is_text v = False"

fun is_bool :: "json \<Rightarrow> bool" where
  "is_bool (JBool b) = True"
| "is_bool v = False"

fun is_int64 :: "json \<Rightarrow> bool" where
  "is_int64 (JInt n) = (- (2 ^ 63) \<le> n \<and> n < 2 ^ 63)"
| "is_int64 v = False"

abbreviation texts :: "string list \<Rightarrow> (string \<times> (json \<Rightarrow> bool)) list" where
  "texts fs \<equiv> map (\<lambda>f. (f, is_text)) fs"

text \<open>The values of a field: later ones replace earlier ones, those of another type are passed over.\<close>

definition field_values :: "string \<Rightarrow> json option \<Rightarrow> json list" where
  "field_values f body = (case body of
       Some (JObject kvs) \<Rightarrow> map snd (filter (\<lambda>(k, v). equal_fold k f) kvs)
     | _ \<Rightarrow> [])"

definition json_text :: "string \<Rightarrow> json option \<Rightarrow> string" where
  "json_text f body = foldl (\<lambda>s v. case v of JText t \<Rightarrow> t | _ \<Rightarrow> s) [] (field_values f body)"

definition json_bool :: "string \<Rightarrow> json option \<Rightarrow> bool" where
  "json_bool f body = foldl (\<lambda>b v. case v of JBool c \<Rightarrow> c | _ \<Rightarrow> b) False (field_values f body)"

definition json_int :: "string \<Rightarrow> json option \<Rightarrow> int" where
  "json_int f body = foldl (\<lambda>n v. if is_int64 v then (case v of JInt m \<Rightarrow> m | _ \<Rightarrow> n) else n) 0 (field_values f body)"

text \<open>A field of type \<open>*int64\<close>: \<open>null\<close> makes it \<open>nil\<close> again.\<close>

definition json_int_ptr :: "string \<Rightarrow> json option \<Rightarrow> int option" where
  "json_int_ptr f body = foldl (\<lambda>n v. case v of JNull \<Rightarrow> None | JInt m \<Rightarrow> if is_int64 v then Some m else n | _ \<Rightarrow> n) None
     (field_values f body)"

definition json_text_ptr :: "string \<Rightarrow> json option \<Rightarrow> string option" where
  "json_text_ptr f body = foldl (\<lambda>n v. case v of JNull \<Rightarrow> None | JText t \<Rightarrow> Some t | _ \<Rightarrow> n) None (field_values f body)"

section \<open>Answers\<close>

datatype (plugins only: code size) reply_body =
    PError err
  | PPanic
  | PDone string
  | PNote string string
  | PUser account
  | PChallenge string string
  | PSecurity "bool \<times> bool \<times> bool"
  | PSecret string string
  | PDevices "device_row list"
  | PDevice "account option" device_row string
  | PQR string int
  | PUserToken account string
  | PSummary summary
  | PUsers "(user_row \<times> int) list"
  | PSettings admin_settings
  | PQuota int
  | PPace snapshot
  | PAllDevices "(device_row \<times> string) list"
  | PMail mail_settings
  | PMailOn bool
  | PPlans "plan_row list"
  | PEntry file_entry
  | PEntries "file_entry list"
  | PListed "(file_entry \<times> bool) list"
  | POffset int
  | PBatch "batch_row \<times> session_row list"
  | PBatches "(batch_row \<times> session_row list) list"
  | PSnapshot int "file_entry list"
  | PChanges "change_row list" int bool
  | PDrive drive_view
  | PDrives "drive_view list"
  | PMembers "(user_row \<times> member_row) list"
  | PPermission "perm_row \<times> user_row"
  | PPermissions "(perm_row \<times> user_row) list"
  | PComment comment_row
  | PComments "(comment_row \<times> user_row) list"
  | PVersions "version_row list"
  | PActivities "(activity_row \<times> string) list"
  | PNotifications "notification_row list"
  | PContent string bool string string
  | PZip string "(string \<times> string) list"
  | PShares "(share_row \<times> bool \<times> string \<times> kind) list"
  | PShare share_row
  | PPublic share_reply
  | POther string

record cookie =
  ck_name :: string
  ck_value :: string
  ck_secure :: bool
  ck_max_age :: int

record http_reply =
  hr_status :: int
  hr_body :: reply_body
  hr_cookies :: "cookie list"
  hr_headers :: "(string \<times> string) list"

definition answer :: "int \<Rightarrow> reply_body \<Rightarrow> http_reply" where
  "answer status p = \<lparr>hr_status = status, hr_body = p, hr_cookies = [], hr_headers = []\<rparr>"

abbreviation refuse :: "int \<Rightarrow> err \<Rightarrow> http_reply" where
  "refuse status e \<equiv> answer status (PError e)"

abbreviation not_allowed :: http_reply where
  "not_allowed \<equiv> refuse 405 (Msg ''method not allowed'')"

abbreviation bad_json :: http_reply where
  "bad_json \<equiv> refuse 400 (Msg ''invalid request'')"

abbreviation done_ok :: http_reply where
  "done_ok \<equiv> answer 200 (PDone ''ok'')"

text \<open>A handler that dereferences a missing user panics: \<open>net/http\<close> ends the request.\<close>

definition panicked :: http_reply where
  "panicked = answer 500 PPanic"

text \<open>\<open>if err := m; err != nil \{ h \}; f\<close>.\<close>

definition or_else :: "('w, 'e, 'a) io \<Rightarrow> ('e \<Rightarrow> ('w, 'f, 'b) io) \<Rightarrow> ('a \<Rightarrow> ('w, 'f, 'b) io) \<Rightarrow> ('w, 'f, 'b) io" where
  "or_else m h f = (\<lambda>w. case m w of (Inl e, w') \<Rightarrow> h e w' | (Inr x, w') \<Rightarrow> f x w')"

lemma wp_or_else [wp_simps]: "wp (or_else m h f) Q E w = wp m (\<lambda>x. wp (f x) Q E) (\<lambda>e. wp (h e) Q E) w"
  by (auto simp: or_else_def wp_def split: prod.splits sum.splits)

lemma steps_or_else [steps_intros]:
  assumes "preorder R" and "steps R m" and "\<And>e. steps R (h e)" and "\<And>x. steps R (f x)"
  shows "steps R (or_else m h f)"
proof (rule stepsI)
  fix w
  show "R w (snd (or_else m h f w))"
  proof (cases "m w")
    case (Pair r w')
    with assms(2) have "R w w'" by (rule stepsD)
    moreover have "R w' (snd (h e w'))" "R w' (snd (f x w'))" for e x using assms(3,4) by (simp_all add: steps_def)
    ultimately show ?thesis using Pair preorder_trans [OF assms(1)] by (cases r) (auto simp: or_else_def)
  qed
qed

text \<open>A call of a service that keeps a state of its own beside that of the server.\<close>

definition on_server :: "(world, 'e, 'a) io \<Rightarrow> ('c \<times> world, 'e, 'a) io" where
  "on_server m = (\<lambda>(c, w). case m w of (r, w') \<Rightarrow> (r, (c, w')))"

lemma wp_on_server [wp_simps]: "wp (on_server m) Q E (c, w) = wp m (\<lambda>x w'. Q x (c, w')) (\<lambda>e w'. E e (c, w')) w"
  by (simp add: wp_def on_server_def split: prod.split sum.split)

text \<open>The answers to one call: an error with one status, a value with another.\<close>

definition reply :: "int \<Rightarrow> int \<Rightarrow> ('a \<Rightarrow> reply_body) \<Rightarrow> 'a srv \<Rightarrow> http_reply srv" where
  "reply bad good p m = or_else m (\<lambda>e. ret (refuse bad e)) (\<lambda>x. ret (answer good (p x)))"

abbreviation reply_ok :: "unit srv \<Rightarrow> http_reply srv" where
  "reply_ok m \<equiv> reply 400 200 (\<lambda>_. PDone ''ok'') m"

section \<open>Requests\<close>

record upload_form =
  uf_parent :: string
  uf_conflict :: string
  uf_file :: "(rd list \<times> int \<times> string \<times> string) option"

text \<open>
  A request as a handler sees it: the values of its body as JSON, as a stream of bytes with
  the declared length, and as a form that is read up to a number of bytes. The identity is
  what the middleware has put into the context.
\<close>

record api_request =
  ar_http :: http_request
  ar_json :: "json option"
  ar_length :: int
  ar_stream :: "rd list"
  ar_form :: "int \<Rightarrow> upload_form option"
  ar_user :: "account option"
  ar_device :: "uuid option"

abbreviation ar_method :: "api_request \<Rightarrow> string" where
  "ar_method r \<equiv> rq_method (ar_http r)"

abbreviation ar_path :: "api_request \<Rightarrow> string" where
  "ar_path r \<equiv> rq_path (ar_http r)"

abbreviation ar_query :: "api_request \<Rightarrow> string \<Rightarrow> string" where
  "ar_query r k \<equiv> rq_param (ar_http r) k"

definition with_user :: "api_request \<Rightarrow> (user_row \<Rightarrow> http_reply srv) \<Rightarrow> http_reply srv" where
  "with_user r f = (case ar_user r of None \<Rightarrow> ret panicked | Some acc \<Rightarrow> f (acc_user acc))"

text \<open>An id that comes as text. A text that is no UUID makes the statement that uses it fail.\<close>

definition id_of :: "uuid_codec \<Rightarrow> string \<Rightarrow> uuid srv" where
  "id_of ids s = (case uuid_parse ids s of None \<Rightarrow> fail (Msg ''invalid input syntax for type uuid'') | Some i \<Rightarrow> ret i)"

text \<open>The folder of a request, by default the root of the user.\<close>

definition parent_of :: "uuid_codec \<Rightarrow> user_row \<Rightarrow> string \<Rightarrow> uuid srv" where
  "parent_of ids u s =
     (if s = [] then (case u_root u of None \<Rightarrow> fail (Msg ''invalid input syntax for type uuid'') | Some i \<Rightarrow> ret i)
      else id_of ids s)"

text \<open>The parts of the server that the handlers are given.\<close>

record 'a site =
  s_crypto :: crypto
  s_config :: config
  s_net :: "'a netip"
  s_trusted :: "('a \<Rightarrow> bool) list"
  s_ids :: uuid_codec
  s_parse_address :: "string \<Rightarrow> string option"
  s_license :: "bool option"
  s_smtp :: "mail_settings \<Rightarrow> string \<Rightarrow> string \<Rightarrow> string \<Rightarrow> string \<Rightarrow> string \<Rightarrow> unit srv"
  s_order :: "(string \<times> string) list \<Rightarrow> (string \<times> string) list"
  s_disk :: "(int \<times> int) option"
  s_fallback :: int
  s_sha :: "string \<Rightarrow> string"
  s_mime :: "string \<Rightarrow> string"
  s_pace :: "controller option"
  s_acquire :: "unit srv"
  s_nanos :: nat
  s_time :: "string \<Rightarrow> int option"

abbreviation s_mailer :: "'a site \<Rightarrow> mailer option" where
  "s_mailer s \<equiv> Some (site_mailer (s_smtp s))"

definition client_ip :: "'a site \<Rightarrow> api_request \<Rightarrow> string" where
  "client_ip s r = ClientIP (s_net s) (s_trusted s) (ar_http r)"

end
