(* ===== verification/AuthHttp.thy ===== *)
theory AuthHttp
  imports Api
begin

text \<open>
  \<open>internal/auth/handler.go\<close>: signing up, in and out over HTTP, the settings of an account,
  and the middleware that finds out who sends a request.
\<close>

section \<open>Cookies\<close>

definition SessionCookie :: "'a site \<Rightarrow> string \<Rightarrow> bool \<Rightarrow> cookie" where
  "SessionCookie s token secure = \<lparr>ck_name = ''session_token'', ck_value = token, ck_secure = secure,
     ck_max_age = SessionTTL (s_config s)\<rparr>"

definition ClearCookie :: "'a site \<Rightarrow> bool \<Rightarrow> cookie" where
  "ClearCookie s secure = (SessionCookie s [] secure)\<lparr>ck_max_age := -1\<rparr>"

definition secure_request :: "'a site \<Rightarrow> api_request \<Rightarrow> bool" where
  "secure_request s r = IsHTTPS (s_net s) (s_trusted s) (ar_http r)"

definition with_session :: "'a site \<Rightarrow> api_request \<Rightarrow> string \<Rightarrow> http_reply \<Rightarrow> http_reply" where
  "with_session s r token a = a\<lparr>hr_cookies := [SessionCookie s token (secure_request s r)]\<rparr>"

section \<open>Signing up and in\<close>

definition http_Register :: "'a site \<Rightarrow> api_request \<Rightarrow> http_reply srv" where
  "http_Register s r =
     (if ar_method r \<noteq> ''POST'' then ret not_allowed
      else if \<not> ReadJSON (texts [''email'', ''password'', ''displayName'']) (ar_json r) then ret bad_json
      else or_else (Register (s_crypto s) (s_parse_address s) (s_config s) (s_license s) (json_text ''email'' (ar_json r))
             (json_text ''password'' (ar_json r)) (json_text ''displayName'' (ar_json r)))
        (\<lambda>e. ret (refuse 400 e)) (\<lambda>(user, token). ret (with_session s r token (answer 201 (PUser user)))))"

definition login_status :: "err \<Rightarrow> int" where
  "login_status e = (if e = ErrRateLimited then 429 else if e = ErrMailRequired then 400 else 401)"

definition http_Login :: "'a site \<Rightarrow> api_request \<Rightarrow> http_reply srv" where
  "http_Login s r =
     (if ar_method r \<noteq> ''POST'' then ret not_allowed
      else if \<not> ReadJSON (texts [''email'', ''password'']) (ar_json r) then ret bad_json
      else or_else (Login (s_crypto s) (s_config s) (s_mailer s) (client_ip s r) (json_text ''email'' (ar_json r)) (json_text ''password'' (ar_json r)))
        (\<lambda>e. ret (refuse (login_status e) e))
        (\<lambda>res. if lr_requires res then ret (answer 200 (PChallenge (lr_method res) (lr_challenge res)))
           else ret (case lr_user res of None \<Rightarrow> panicked | Some u \<Rightarrow> with_session s r (lr_session res) (answer 200 (PUser u)))))"

definition limited_status :: "int \<Rightarrow> err \<Rightarrow> int" where
  "limited_status other e = (if e = ErrRateLimited then 429 else other)"

definition http_Login2FA :: "'a site \<Rightarrow> api_request \<Rightarrow> http_reply srv" where
  "http_Login2FA s r =
     (if ar_method r \<noteq> ''POST'' then ret not_allowed
      else if \<not> ReadJSON (texts [''challengeToken'', ''code'']) (ar_json r) then ret bad_json
      else or_else (CompleteLogin2FA (s_crypto s) (s_config s) (client_ip s r) (json_text ''challengeToken'' (ar_json r)) (json_text ''code'' (ar_json r)))
        (\<lambda>e. ret (refuse (limited_status 401 e) e))
        (\<lambda>(user, token). ret (with_session s r token (answer 200 (PUser user)))))"

definition http_ForgotPassword :: "'a site \<Rightarrow> api_request \<Rightarrow> http_reply srv" where
  "http_ForgotPassword s r =
     (if ar_method r \<noteq> ''POST'' then ret not_allowed
      else if \<not> ReadJSON (texts [''email'']) (ar_json r) then ret bad_json
      else or_else (ForgotPassword (s_crypto s) (s_config s) (s_mailer s) (client_ip s r) (json_text ''email'' (ar_json r)))
        (\<lambda>e. ret (refuse (limited_status 400 e) e))
        (\<lambda>_. ret (answer 200 (PNote ''ok'' ''a code was sent if the account exists''))))"

definition http_ResetPassword :: "'a site \<Rightarrow> api_request \<Rightarrow> http_reply srv" where
  "http_ResetPassword s r =
     (if ar_method r \<noteq> ''POST'' then ret not_allowed
      else if \<not> ReadJSON (texts [''email'', ''code'', ''newPassword'']) (ar_json r) then ret bad_json
      else or_else (ResetPassword (s_crypto s) (s_config s) (client_ip s r) (json_text ''email'' (ar_json r)) (json_text ''code'' (ar_json r))
             (json_text ''newPassword'' (ar_json r)))
        (\<lambda>e. ret (refuse (limited_status 400 e) e))
        (\<lambda>_. ret (answer 200 (PNote ''ok'' ''the password was changed''))))"

section \<open>Settings of an account\<close>

text \<open>The answer of \<open>securityAttempt\<close> when it refuses; otherwise the attempt is counted.\<close>

definition securityAttempt :: "'a site \<Rightarrow> api_request \<Rightarrow> uuid \<Rightarrow> string \<Rightarrow> http_reply option srv" where
  "securityAttempt s r user purpose =
     (let key = purpose @ '':'' @ uuid_text (s_ids s) user @ '':'' @ client_ip s r in
      bnd (blocked key) (\<lambda>b.
      if b then ret (Some (refuse 429 ErrRateLimited)) else bnd (limiter_add key) (\<lambda>_. ret None)))"

text \<open>What follows a permitted attempt.\<close>

definition attempted :: "'a site \<Rightarrow> api_request \<Rightarrow> uuid \<Rightarrow> string \<Rightarrow> http_reply srv \<Rightarrow> http_reply srv" where
  "attempted s r user purpose f =
     bnd (securityAttempt s r user purpose) (\<lambda>refused. case refused of Some a \<Rightarrow> ret a | None \<Rightarrow> f)"

definition http_Security :: "'a site \<Rightarrow> api_request \<Rightarrow> http_reply srv" where
  "http_Security s r =
     (case ar_user r of
        None \<Rightarrow> ret (refuse 401 (Msg ''unauthorized''))
      | Some acc \<Rightarrow>
          let user = u_id (acc_user acc) in
          if ar_method r = ''GET'' then reply 500 200 PSecurity (SecurityStatus (s_mailer s) user)
          else if ar_method r = ''POST'' then
            attempted s r user ''email2fa''
              (if \<not> ReadJSON [(''email2FAEnabled'', is_bool), (''password'', is_text)] (ar_json r) then ret bad_json
               else or_else (SetEmail2FA (s_crypto s) (s_mailer s) user (json_text ''password'' (ar_json r)) (json_bool ''email2FAEnabled'' (ar_json r)))
                 (\<lambda>e. ret (refuse (if e = ErrInvalidCredentials then 401 else 400) e))
                 (\<lambda>_. bnd (result (SecurityStatus (s_mailer s) user)) (\<lambda>st.
                   ret (answer 200 (PSecurity (case st of Inl _ \<Rightarrow> (False, False, False) | Inr x \<Rightarrow> x))))))
          else ret not_allowed)"

definition totpError :: "err \<Rightarrow> http_reply" where
  "totpError e = refuse (if e = ErrInvalidCredentials \<or> e = ErrChallengeInvalid then 401 else if e = ErrRateLimited then 429 else 400) e"

definition http_TOTPSetup :: "'a site \<Rightarrow> api_request \<Rightarrow> http_reply srv" where
  "http_TOTPSetup s r =
     (case ar_user r of
        None \<Rightarrow> ret (refuse 401 (Msg ''unauthorized''))
      | Some acc \<Rightarrow>
          if ar_method r \<noteq> ''POST'' then ret not_allowed
          else attempted s r (u_id (acc_user acc)) ''totpsetup''
            (if \<not> ReadJSON (texts [''password'']) (ar_json r) then ret bad_json
             else or_else (BeginTOTPSetup (s_crypto s) (s_config s) (u_id (acc_user acc)) (json_text ''password'' (ar_json r)))
               (\<lambda>e. ret (totpError e)) (\<lambda>(secret, uri). ret (answer 200 (PSecret secret uri)))))"

text \<open>The common course of \<open>TOTPEnable\<close> and \<open>TOTPDisable\<close>.\<close>

definition totp_change :: "'a site \<Rightarrow> api_request \<Rightarrow> string \<Rightarrow> (uuid \<Rightarrow> string \<Rightarrow> string \<Rightarrow> unit srv) \<Rightarrow> http_reply srv" where
  "totp_change s r purpose change =
     (case ar_user r of
        None \<Rightarrow> ret (refuse 401 (Msg ''unauthorized''))
      | Some acc \<Rightarrow>
          if ar_method r \<noteq> ''POST'' then ret not_allowed
          else attempted s r (u_id (acc_user acc)) purpose
            (if \<not> ReadJSON (texts [''password'', ''code'']) (ar_json r) then ret bad_json
             else or_else (change (u_id (acc_user acc)) (json_text ''password'' (ar_json r)) (json_text ''code'' (ar_json r)))
               (\<lambda>e. ret (totpError e))
               (\<lambda>_. or_else (SecurityStatus (s_mailer s) (u_id (acc_user acc)))
                  (\<lambda>_. ret (refuse 500 (Msg ''failed to load security status''))) (\<lambda>st. ret (answer 200 (PSecurity st))))))"

definition http_TOTPEnable :: "'a site \<Rightarrow> api_request \<Rightarrow> http_reply srv" where
  "http_TOTPEnable s r = totp_change s r ''totpenable'' (EnableTOTP (s_crypto s) (s_config s))"

definition http_TOTPDisable :: "'a site \<Rightarrow> api_request \<Rightarrow> http_reply srv" where
  "http_TOTPDisable s r = totp_change s r ''totpdisable'' (DisableTOTP (s_crypto s) (s_config s))"

section \<open>Signing out, and devices\<close>

definition has_cookie :: "api_request \<Rightarrow> bool" where
  "has_cookie r \<longleftrightarrow> (\<exists>(k, v) \<in> set (rq_cookies (ar_http r)). k = ''session_token'')"

definition http_Logout :: "'a site \<Rightarrow> api_request \<Rightarrow> http_reply srv" where
  "http_Logout s r =
     (if ar_method r \<noteq> ''POST'' then ret not_allowed
      else bnd (if has_cookie r then ignore (Logout (s_crypto s) (sessionCookieValue (ar_http r))) else ret ()) (\<lambda>_.
        ret ((answer 200 (PDone ''logged_out''))\<lparr>hr_cookies := [ClearCookie s (secure_request s r)]\<rparr>)))"

definition pair_device :: "'a site \<Rightarrow> api_request \<Rightarrow> account option \<Rightarrow> http_reply srv" where
  "pair_device s r user =
     (case user of None \<Rightarrow> ret panicked | Some acc \<Rightarrow>
      reply 400 200 (\<lambda>(device, token). PDevice (Some acc) device token)
        (CreateDevice (s_crypto s) (s_config s) (u_id (acc_user acc)) (json_text ''deviceName'' (ar_json r))))"

definition http_DeviceLogin :: "'a site \<Rightarrow> api_request \<Rightarrow> http_reply srv" where
  "http_DeviceLogin s r =
     (if ar_method r \<noteq> ''POST'' then ret not_allowed
      else if \<not> ReadJSON (texts [''email'', ''password'', ''deviceName'', ''challengeToken'', ''code'']) (ar_json r) then ret bad_json
      else
        let challenge = json_text ''challengeToken'' (ar_json r); code = json_text ''code'' (ar_json r) in
        if challenge \<noteq> [] \<and> code \<noteq> [] then
          or_else (CompleteLogin2FA (s_crypto s) (s_config s) (client_ip s r) challenge code)
            (\<lambda>e. ret (refuse (limited_status 401 e) e))
            (\<lambda>(user, sessionToken). bnd (ignore (Logout (s_crypto s) sessionToken)) (\<lambda>_. pair_device s r (Some user)))
        else
          or_else (BeginDeviceLogin (s_crypto s) (s_config s) (s_mailer s) (client_ip s r) (json_text ''email'' (ar_json r)) (json_text ''password'' (ar_json r)))
            (\<lambda>e. ret (refuse (login_status e) e))
            (\<lambda>res. if lr_requires res then ret (answer 200 (PChallenge (lr_method res) (lr_challenge res)))
               else pair_device s r (lr_user res)))"

definition http_Devices :: "'a site \<Rightarrow> api_request \<Rightarrow> http_reply srv" where
  "http_Devices s r =
     (if ar_method r = ''GET'' then with_user r (\<lambda>u. reply 500 200 PDevices (ListDevices (u_id u)))
      else if ar_method r = ''POST'' then
        (if \<not> ReadJSON (texts [''name'']) (ar_json r) then ret bad_json
         else with_user r (\<lambda>u. reply 400 201 (\<lambda>(device, token). PDevice None device token)
           (CreateDevice (s_crypto s) (s_config s) (u_id u) (json_text ''name'' (ar_json r)))))
      else ret not_allowed)"

definition http_Device :: "'a site \<Rightarrow> api_request \<Rightarrow> http_reply srv" where
  "http_Device s r =
     (if ar_method r \<noteq> ''DELETE'' then ret not_allowed
      else
        let device = trim_prefix (ar_path r) ''/api/auth/devices/'' in
        if device = [] \<or> CHR ''/'' \<in> set device then ret (refuse 400 (Msg ''device id required''))
        else with_user r (\<lambda>u. reply 400 200 (\<lambda>_. PDone ''revoked'') (bnd (id_of (s_ids s) device) (RevokeDevice (u_id u)))))"

definition http_CreateQRLogin :: "'a site \<Rightarrow> api_request \<Rightarrow> http_reply srv" where
  "http_CreateQRLogin s r =
     (if ar_method r \<noteq> ''POST'' then ret not_allowed
      else with_user r (\<lambda>u. reply 400 200 (\<lambda>(token, expires). PQR token expires) (CreateQRLogin (s_crypto s) (u_id u))))"

definition http_RedeemQRLogin :: "'a site \<Rightarrow> api_request \<Rightarrow> http_reply srv" where
  "http_RedeemQRLogin s r =
     (if ar_method r \<noteq> ''POST'' then ret not_allowed
      else if \<not> ReadJSON (texts [''challengeToken'', ''deviceName'']) (ar_json r) then ret bad_json
      else
        let given = json_text ''deviceName'' (ar_json r); device = (if trim_space given = [] then ''Android'' else given) in
        or_else (RedeemQRLogin (s_crypto s) (s_config s) (json_text ''challengeToken'' (ar_json r)) device)
          (\<lambda>e. ret (refuse (if e = ErrChallengeInvalid then 401 else 400) e))
          (\<lambda>(user, token). ret (answer 200 (PUserToken user token))))"

definition http_DeviceLogout :: "'a site \<Rightarrow> api_request \<Rightarrow> http_reply srv" where
  "http_DeviceLogout s r =
     (if ar_method r \<noteq> ''POST'' then ret not_allowed
      else (case (ar_user r, ar_device r) of
          (Some acc, Some device) \<Rightarrow> reply 400 200 (\<lambda>_. PDone ''revoked'') (RevokeDevice (u_id (acc_user acc)) device)
        | _ \<Rightarrow> ret (refuse 401 (Msg ''device token required''))))"

definition http_Me :: "'a site \<Rightarrow> api_request \<Rightarrow> http_reply srv" where
  "http_Me s r = (case ar_user r of None \<Rightarrow> ret (refuse 401 (Msg ''unauthorized'')) | Some acc \<Rightarrow> ret (answer 200 (PUser acc)))"

section \<open>Who sends a request\<close>

abbreviation authorization :: "api_request \<Rightarrow> string" where
  "authorization r \<equiv> trim_space (rq_header (ar_http r) ''Authorization'')"

definition RequireSession :: "'a site \<Rightarrow> (api_request \<Rightarrow> http_reply srv) \<Rightarrow> api_request \<Rightarrow> http_reply srv" where
  "RequireSession s inner r =
     (let token = sessionCookieValue (ar_http r) in
      if token = [] then ret (refuse 401 (Msg ''login required''))
      else or_else (UserBySession (s_crypto s) (s_config s) token)
        (\<lambda>_. ret (refuse 401 (Msg ''invalid session'')))
        (\<lambda>user. inner (r\<lparr>ar_user := Some user\<rparr>)))"

text \<open>The device token in the header.\<close>

definition device_token :: "api_request \<Rightarrow> string" where
  "device_token r = trim_space (drop (length ''Bearer '') (authorization r))"

definition RequireAuth :: "'a site \<Rightarrow> (api_request \<Rightarrow> http_reply srv) \<Rightarrow> api_request \<Rightarrow> http_reply srv" where
  "RequireAuth s inner r =
     (if bearer (ar_http r) then
        let token = device_token r in
        if token = [] then ret (refuse 401 (Msg ''invalid device token''))
        else or_else (UserByDeviceToken (s_crypto s) (s_config s) token)
          (\<lambda>_. ret (refuse 401 (Msg ''invalid device token'')))
          (\<lambda>(user, device). inner (r\<lparr>ar_user := Some user, ar_device := Some device\<rparr>))
      else RequireSession s inner r)"

text \<open>\<open>RequireAdmin\<close> of \<open>internal/admin/handler.go\<close>.\<close>

definition RequireAdmin :: "(api_request \<Rightarrow> http_reply srv) \<Rightarrow> api_request \<Rightarrow> http_reply srv" where
  "RequireAdmin inner r =
     (if ar_device r \<noteq> None then ret (refuse 403 (Msg ''admin actions require browser session''))
      else (case ar_user r of
          None \<Rightarrow> ret (refuse 403 (Msg ''admin role required''))
        | Some acc \<Rightarrow> if u_role (acc_user acc) \<noteq> ''admin'' then ret (refuse 403 (Msg ''admin role required'')) else inner r))"

end
