(* ===== verification/ApiHttp.thy ===== *)
theory ApiHttp
  imports AuthHttp
begin

text \<open>
  The handlers of the interface: \<open>handler.go\<close> of the packages \<open>admin\<close>, \<open>plans\<close>, \<open>files\<close>, \<open>uploads\<close>,
  \<open>syncapi\<close>, \<open>drives\<close>, \<open>collab\<close> and \<open>shares\<close>, and \<open>admin/mail_handler.go\<close>. Each checks the method,
  reads the body, calls its service and turns the result into an answer.
\<close>

section \<open>Administration and plans\<close>

text \<open>A handler that only answers \<open>GET\<close>, and one that only answers \<open>POST\<close> with a body of a given shape.\<close>

definition get_only :: "api_request \<Rightarrow> http_reply srv \<Rightarrow> http_reply srv" where
  "get_only r f = (if ar_method r \<noteq> ''GET'' then ret not_allowed else f)"

definition post_json :: "(string \<times> (json \<Rightarrow> bool)) list \<Rightarrow> api_request \<Rightarrow> http_reply srv \<Rightarrow> http_reply srv" where
  "post_json shape r f =
     (if ar_method r \<noteq> ''POST'' then ret not_allowed else if \<not> ReadJSON shape (ar_json r) then ret bad_json else f)"

abbreviation updated :: "unit srv \<Rightarrow> http_reply srv" where
  "updated m \<equiv> reply 400 200 (\<lambda>_. PDone ''updated'') m"

definition admin_Summary :: "api_request \<Rightarrow> http_reply srv" where
  "admin_Summary r = get_only r (reply 500 200 PSummary Summary)"

definition admin_Users :: "api_request \<Rightarrow> http_reply srv" where
  "admin_Users r = get_only r (reply 500 200 PUsers Users)"

definition admin_SetPlan :: "'a site \<Rightarrow> api_request \<Rightarrow> http_reply srv" where
  "admin_SetPlan s r = post_json (texts [''userId'', ''planCode'']) r
     (updated (bnd (id_of (s_ids s) (json_text ''userId'' (ar_json r))) (\<lambda>u. SetPlan u (json_text ''planCode'' (ar_json r)))))"

definition admin_SetQuota :: "'a site \<Rightarrow> api_request \<Rightarrow> http_reply srv" where
  "admin_SetQuota s r = post_json [(''userId'', is_text), (''quotaBytes'', is_int64)] r
     (updated (bnd (id_of (s_ids s) (json_text ''userId'' (ar_json r))) (\<lambda>u. SetQuota u (json_int ''quotaBytes'' (ar_json r)))))"

definition admin_SetBonusQuota :: "'a site \<Rightarrow> api_request \<Rightarrow> http_reply srv" where
  "admin_SetBonusQuota s r = post_json [(''userId'', is_text), (''bonusQuotaBytes'', is_int64)] r
     (updated (bnd (id_of (s_ids s) (json_text ''userId'' (ar_json r))) (\<lambda>u. SetBonusQuota u (json_int ''bonusQuotaBytes'' (ar_json r)))))"

definition admin_SetRole :: "'a site \<Rightarrow> api_request \<Rightarrow> http_reply srv" where
  "admin_SetRole s r = post_json (texts [''userId'', ''role'']) r
     (with_user r (\<lambda>actor. updated (bnd (id_of (s_ids s) (json_text ''userId'' (ar_json r))) (\<lambda>u.
        SetRole (u_id actor) u (json_text ''role'' (ar_json r))))))"

definition admin_Settings :: "'a site \<Rightarrow> api_request \<Rightarrow> http_reply srv" where
  "admin_Settings s r =
     (if ar_method r = ''GET'' then
        reply 500 200 PSettings (Settings (s_fallback s) (s_disk s) (MaxUploadBatchBytes (s_config s)) (UploadChunkBytes (s_config s)))
      else if ar_method r = ''POST'' then
        (if \<not> ReadJSON [(''maxUploadBatchBytes'', is_int64), (''defaultQuotaBytes'', is_int64), (''matchDiskCapacity'', is_bool)] (ar_json r)
         then ret bad_json
         else if json_bool ''matchDiskCapacity'' (ar_json r) then reply 400 200 PQuota (MatchDefaultQuotaToDisk (s_disk s))
         else updated
           (bnd (case json_int_ptr ''maxUploadBatchBytes'' (ar_json r) of None \<Rightarrow> ret () | Some n \<Rightarrow> SetMaxUploadBatchBytes n) (\<lambda>_.
            case json_int_ptr ''defaultQuotaBytes'' (ar_json r) of None \<Rightarrow> ret () | Some n \<Rightarrow> SetDefaultQuotaBytes n)))
      else ret not_allowed)"

definition admin_UploadPace :: "'a site \<Rightarrow> api_request \<Rightarrow> http_reply srv" where
  "admin_UploadPace s r = get_only r
     (ret (case s_pace s of None \<Rightarrow> refuse 503 (Msg ''upload pace unavailable'') | Some c \<Rightarrow> answer 200 (PPace (Snapshot c))))"

definition admin_Devices :: "api_request \<Rightarrow> http_reply srv" where
  "admin_Devices r = get_only r (reply 500 200 PAllDevices Devices)"

definition mail_shape :: "(string \<times> (json \<Rightarrow> bool)) list" where
  "mail_shape = [(''enabled'', is_bool), (''host'', is_text), (''port'', is_int64), (''username'', is_text), (''password'', is_text),
     (''from'', is_text), (''useTLS'', is_bool), (''tlsMode'', is_text), (''skipTLSVerify'', is_bool)]"

definition mail_of_json :: "json option \<Rightarrow> mail_settings" where
  "mail_of_json j = \<lparr>ms_enabled = json_bool ''enabled'' j, ms_host = json_text ''host'' j, ms_port = json_int ''port'' j,
     ms_username = json_text ''username'' j, ms_password = json_text ''password'' j, ms_from = json_text ''from'' j,
     ms_tls = json_bool ''useTLS'' j, ms_mode = json_text ''tlsMode'' j, ms_skip = json_bool ''skipTLSVerify'' j\<rparr>"

definition mail_Settings_http :: "'a site \<Rightarrow> api_request \<Rightarrow> http_reply srv" where
  "mail_Settings_http s r =
     (if ar_method r = ''GET'' then reply 500 200 PMail mail_Get
      else if ar_method r = ''POST'' then
        (if \<not> ReadJSON mail_shape (ar_json r) then ret bad_json else updated (mail_Save (s_order s) (mail_of_json (ar_json r))))
      else ret not_allowed)"

definition mail_Test_http :: "'a site \<Rightarrow> api_request \<Rightarrow> http_reply srv" where
  "mail_Test_http s r =
     (if ar_method r \<noteq> ''POST'' then ret not_allowed
      else
        let given = trim_space (json_text ''to'' (ar_json r));
            to = (if given = [] then (case ar_user r of None \<Rightarrow> given | Some acc \<Rightarrow> u_email (acc_user acc)) else given) in
        reply 400 200 (\<lambda>_. PNote ''sent'' to) (SendTest (s_smtp s) to))"

definition mail_Status_http :: "api_request \<Rightarrow> http_reply srv" where
  "mail_Status_http r = get_only r
     (reply 500 200 (\<lambda>st. PMailOn (ms_enabled st \<and> ms_host st \<noteq> [] \<and> ms_from st \<noteq> [])) mail_Get)"

definition plans_List_http :: "api_request \<Rightarrow> http_reply srv" where
  "plans_List_http r = get_only r (reply 500 200 PPlans plans_List)"

definition plans_Assign_http :: "'a site \<Rightarrow> api_request \<Rightarrow> http_reply srv" where
  "plans_Assign_http s r = post_json (texts [''userId'', ''planCode'']) r
     (with_user r (\<lambda>u. reply 400 200 (\<lambda>_. PDone ''assigned'')
       (bnd (require (u_role u = ''admin'') (Msg ''admin role required'')) (\<lambda>_.
        bnd (id_of (s_ids s) (json_text ''userId'' (ar_json r))) (\<lambda>target. Assign (u_role u) target (json_text ''planCode'' (ar_json r)))))))"

section \<open>Files\<close>

definition files_ListOrCreate :: "'a site \<Rightarrow> api_request \<Rightarrow> http_reply srv" where
  "files_ListOrCreate s r =
     (if ar_method r = ''GET'' then
        with_user r (\<lambda>u. reply 500 200 PListed (bnd (parent_of (s_ids s) u (ar_query r ''parentId'')) (List (u_id u) (u_role u))))
      else if ar_method r = ''POST'' then
        (if \<not> ReadJSON (texts [''parentId'', ''name'']) (ar_json r) then ret bad_json
         else with_user r (\<lambda>u. reply 400 201 PEntry (bnd (parent_of (s_ids s) u (json_text ''parentId'' (ar_json r))) (\<lambda>p.
           CreateFolder (u_id u) (u_role u) p (json_text ''name'' (ar_json r)) (ar_device r)))))
      else ret not_allowed)"

definition files_Upload :: "'a site \<Rightarrow> api_request \<Rightarrow> http_reply srv" where
  "files_Upload s r =
     (if ar_method r \<noteq> ''POST'' then ret not_allowed
      else with_user r (\<lambda>u.
        case ar_form r (MaxUploadBytes (s_config s) + 2 * 1024 * 1024) of
          None \<Rightarrow> ret (refuse 400 (Msg ''invalid form or upload is too large''))
        | Some form \<Rightarrow> (case uf_file form of
            None \<Rightarrow> ret (refuse 400 (Msg ''file is required''))
          | Some (content, sz, name, mime) \<Rightarrow>
              or_else (bnd (parent_of (s_ids s) u (uf_parent form)) (\<lambda>p.
                  Upload (s_config s) (s_acquire s) (u_id u) (u_role u) p (ar_device r) (uf_conflict form) content sz name mime))
                (\<lambda>e. if e = ErrDuplicateName then ret (refuse 409 e)
                  else if e = ErrOverloaded then
                    (let retry = RetryAfterSec (UploadPace (s_pace s)); retry = (if retry < 1 then 5 else retry) in
                     ret ((refuse 429 (Msg ''the server is busy''))\<lparr>hr_headers := [(''Retry-After'', show_int retry)]\<rparr>))
                  else ret (refuse 400 e))
                (\<lambda>entry. ret (answer 201 (PEntry entry))))))"

definition files_UploadPace :: "'a site \<Rightarrow> api_request \<Rightarrow> http_reply srv" where
  "files_UploadPace s r = get_only r (ret (answer 200 (PPace (UploadPace (s_pace s)))))"

text \<open>\<open>strings.Contains(err.Error(), ...)\<close> for the errors with a text of their own.\<close>

definition err_mentions :: "string list \<Rightarrow> err \<Rightarrow> bool" where
  "err_mentions needles e = (case e of Msg m \<Rightarrow> (\<exists>n \<in> set needles. go_contains m n) | _ \<Rightarrow> False)"

definition downloadFolderZip :: "'a site \<Rightarrow> user_row \<Rightarrow> string \<Rightarrow> http_reply srv" where
  "downloadFolderZip s u folder =
     or_else (bnd (id_of (s_ids s) folder) (WriteFolderZip (s_nanos s) (u_id u) (u_role u)))
       (\<lambda>e. ret (refuse (if err_mentions [''not found'', ''denied'', ''permission''] e then 404 else 400) e))
       (\<lambda>(name, content). ret (answer 200 (PZip name content)))"

definition files_Download :: "'a site \<Rightarrow> api_request \<Rightarrow> http_reply srv" where
  "files_Download s r =
     (if ar_method r \<noteq> ''GET'' then ret not_allowed
      else with_user r (\<lambda>u.
        let i = trim_char CHR ''/'' (trim_prefix (ar_path r) ''/api/files/download/'') in
        if i = [] \<or> CHR ''/'' \<in> set i then ret (refuse 400 (Msg ''file id required''))
        else if ar_query r ''zip'' = ''1'' then downloadFolderZip s u i
        else or_else (bnd (id_of (s_ids s) i) (Download (u_id u) (u_role u)))
          (\<lambda>e. ret (refuse 404 e))
          (\<lambda>(entry, content). case content of
              None \<Rightarrow> downloadFolderZip s u i
            | Some bytes \<Rightarrow>
                let mime = resolveContentType (s_mime s) (fe_name entry) (fe_mime entry) in
                ret (answer 200 (PContent mime (ar_query r ''inline'' = ''1'' \<and> canInlinePreview (s_mime s) (fe_name entry) mime)
                  (fe_name entry) bytes)))))"

definition writeMutation :: "api_request \<Rightarrow> (user_row \<Rightarrow> unit srv) \<Rightarrow> http_reply srv" where
  "writeMutation r change = post_json (texts [''fileId'', ''parentId'', ''name'']) r (with_user r (\<lambda>u. reply_ok (change u)))"

definition files_Move :: "'a site \<Rightarrow> api_request \<Rightarrow> http_reply srv" where
  "files_Move s r = writeMutation r (\<lambda>u.
     bnd (id_of (s_ids s) (json_text ''fileId'' (ar_json r))) (\<lambda>i.
     bnd (parent_of (s_ids s) u (json_text ''parentId'' (ar_json r))) (\<lambda>p. Move (u_id u) (u_role u) i p (ar_device r))))"

definition files_Rename :: "'a site \<Rightarrow> api_request \<Rightarrow> http_reply srv" where
  "files_Rename s r = writeMutation r (\<lambda>u. bnd (id_of (s_ids s) (json_text ''fileId'' (ar_json r))) (\<lambda>i.
     Rename (u_id u) (u_role u) i (json_text ''name'' (ar_json r)) (ar_device r)))"

definition files_Delete :: "'a site \<Rightarrow> api_request \<Rightarrow> http_reply srv" where
  "files_Delete s r = writeMutation r (\<lambda>u. bnd (id_of (s_ids s) (json_text ''fileId'' (ar_json r))) (\<lambda>i.
     TrashEntry (u_id u) (u_role u) i (ar_device r)))"

section \<open>Chunked uploads\<close>

text \<open>The elements of the manifest. The device of the list is that of the request.\<close>

definition manifest_shape :: "'a site \<Rightarrow> (string \<times> (json \<Rightarrow> bool)) list" where
  "manifest_shape s = [(''relativePath'', is_text), (''fileName'', is_text), (''mimeType'', is_text), (''expectedSize'', is_int64),
     (''lastModifiedMs'', is_int64), (''targetEntryId'', is_text), (''expectedVersion'', is_int64), (''contentHash'', is_text),
     (''clientModifiedAt'', \<lambda>v. case v of JText t \<Rightarrow> s_time s t \<noteq> None | _ \<Rightarrow> False), (''deviceId'', is_text)]"

definition json_elems :: "string \<Rightarrow> json option \<Rightarrow> json list" where
  "json_elems f body = foldl (\<lambda>l v. case v of JNull \<Rightarrow> [] | JList vs \<Rightarrow> vs | _ \<Rightarrow> l) [] (field_values f body)"

definition manifest_of_json :: "'a site \<Rightarrow> uuid option \<Rightarrow> json \<Rightarrow> manifest_file srv" where
  "manifest_of_json s device v = (let j = Some v in
     bnd (case json_text_ptr ''targetEntryId'' j of None \<Rightarrow> ret None | Some t \<Rightarrow> bnd (id_of (s_ids s) t) (\<lambda>i. ret (Some i))) (\<lambda>target.
     ret \<lparr>RelativePath = json_text ''relativePath'' j, FileName = json_text ''fileName'' j, MimeType = json_text ''mimeType'' j,
       ExpectedSize = json_int ''expectedSize'' j, LastModifiedMs = json_int ''lastModifiedMs'' j, TargetEntryID = target,
       ExpectedVersion = json_int_ptr ''expectedVersion'' j, ContentHash = json_text ''contentHash'' j,
       ClientModifiedAt = (case json_text_ptr ''clientModifiedAt'' j of None \<Rightarrow> None | Some t \<Rightarrow> s_time s t), DeviceID = device\<rparr>))"

definition uploads_Batches :: "'a site \<Rightarrow> api_request \<Rightarrow> http_reply srv" where
  "uploads_Batches s r =
     (if ar_method r = ''GET'' then with_user r (\<lambda>u. reply 500 200 PBatches (ListOpenBatches (u_id u)))
      else if ar_method r = ''POST'' then
        (if \<not> ReadJSON [(''parentId'', is_text), (''files'', \<lambda>v. case v of JList vs \<Rightarrow> \<forall>x \<in> set vs. ReadJSON (manifest_shape s) (Some x) | _ \<Rightarrow> False)] (ar_json r)
         then ret bad_json
         else with_user r (\<lambda>u.
           let parent = json_text ''parentId'' (ar_json r) in
           reply 400 201 PBatch
             (bnd (if parent = [] then ret None else bnd (id_of (s_ids s) parent) (\<lambda>p. ret (Some p))) (\<lambda>p.
              bnd (collect (manifest_of_json s (ar_device r)) (json_elems ''files'' (ar_json r))) (\<lambda>fs.
              CreateBatch (s_config s) (u_id u) (u_root u) p fs)))))
      else ret not_allowed)"

definition uploads_AbortBatch :: "'a site \<Rightarrow> api_request \<Rightarrow> http_reply srv" where
  "uploads_AbortBatch s r =
     (if ar_method r \<noteq> ''DELETE'' \<and> ar_method r \<noteq> ''POST'' then ret not_allowed
      else
        let i = trim_suffix (trim_prefix (ar_path r) ''/api/uploads/batches/'') ''/abort'' in
        if i = [] \<or> CHR ''/'' \<in> set i then ret (refuse 400 (Msg ''batch id required''))
        else with_user r (\<lambda>u. reply 400 200 (\<lambda>_. PDone ''aborted'') (bnd (id_of (s_ids s) i) (AbortBatch (u_id u)))))"

text \<open>\<open>http.MaxBytesReader\<close>: the stream breaks after \<open>n\<close> bytes.\<close>

fun max_bytes :: "int \<Rightarrow> rd list \<Rightarrow> rd list" where
  "max_bytes n [] = []"
| "max_bytes n (Broken # rs) = [Broken]"
| "max_bytes n (Data bs # rs) =
     (if int (length bs) \<le> n then Data bs # max_bytes (n - int (length bs)) rs else [Data (take (nat n) bs), Broken])"

definition uploads_AppendChunk :: "'a site \<Rightarrow> api_request \<Rightarrow> http_reply srv" where
  "uploads_AppendChunk s r =
     (if ar_method r \<noteq> ''PUT'' then ret not_allowed
      else with_user r (\<lambda>u.
        let i = trim_prefix (ar_path r) ''/api/uploads/files/'' in
        if i = [] \<or> CHR ''/'' \<in> set i then ret (refuse 400 (Msg ''file upload id required''))
        else (case parse_int64 (rq_header (ar_http r) ''Upload-Offset'') of
            None \<Rightarrow> ret (refuse 400 (Msg ''Upload-Offset header required''))
          | Some offset \<Rightarrow>
              if ar_length r < 0 then ret (refuse 400 (Msg ''Content-Length required''))
              else (case uuid_parse (s_ids s) i of
                  None \<Rightarrow> ret (refuse 400 (Msg ''invalid input syntax for type uuid''))
                | Some session \<Rightarrow>
                    or_else (AppendChunk (s_config s) (s_acquire s) (u_id u) session offset
                        (max_bytes (UploadChunkBytes (s_config s) + 1) (ar_stream r)) (ar_length r))
                      (\<lambda>(newOffset, e).
                        if e = ErrOverloaded then ret ((refuse 429 (Msg ''the server is busy''))\<lparr>hr_headers := [(''Retry-After'', ''5'')]\<rparr>)
                        else if err_mentions [''unexpected offset''] e
                        then ret ((refuse 409 e)\<lparr>hr_headers := [(''Upload-Offset'', show_int newOffset)]\<rparr>)
                        else ret (refuse 400 e))
                      (\<lambda>newOffset. ret ((answer 200 (POffset newOffset))\<lparr>hr_headers := [(''Upload-Offset'', show_int newOffset)]\<rparr>))))))"

definition uploads_CompleteFile :: "'a site \<Rightarrow> api_request \<Rightarrow> http_reply srv" where
  "uploads_CompleteFile s r =
     (if ar_method r \<noteq> ''POST'' then ret not_allowed
      else with_user r (\<lambda>u.
        let i = trim_suffix (trim_prefix (ar_path r) ''/api/uploads/files/'') ''/complete'' in
        if i = [] \<or> CHR ''/'' \<in> set i then ret (refuse 400 (Msg ''file upload id required''))
        else reply 400 201 PEntry (bnd (id_of (s_ids s) i) (CompleteFile (s_sha s) (u_id u)))))"

section \<open>Synchronisation\<close>

definition sync_Snapshot_http :: "api_request \<Rightarrow> http_reply srv" where
  "sync_Snapshot_http r = get_only r (with_user r (\<lambda>u. reply 500 200 (\<lambda>(cursor, es). PSnapshot cursor es) (sync_Snapshot (u_id u))))"

text \<open>\<open>strconv\<close> returns the nearest bound for a number out of range, and 0 for what is no number; the error is dropped.\<close>

definition clamped :: "string \<Rightarrow> int" where
  "clamped t = (let neg = has_prefix t ''-''; ds = (if neg \<or> has_prefix t ''+'' then tl t else t);
       n = (if neg then - digits_value ds else digits_value ds) in
     if ds = [] \<or> (\<exists>c \<in> set ds. \<not> is_digit c) then 0 else max (- (2 ^ 63)) (min (2 ^ 63 - 1) n))"

definition sync_Changes_http :: "api_request \<Rightarrow> http_reply srv" where
  "sync_Changes_http r = get_only r (with_user r (\<lambda>u.
     reply 500 200 (\<lambda>(cs, cursor, reset). PChanges cs cursor reset)
       (Changes (u_id u) (clamped (ar_query r ''cursor'')) (clamped (ar_query r ''limit'')))))"

definition sync_Folder_http :: "'a site \<Rightarrow> api_request \<Rightarrow> http_reply srv" where
  "sync_Folder_http s r = post_json (texts [''parentId'', ''name'']) r (with_user r (\<lambda>u.
     reply 400 201 PEntry (bnd (parent_of (s_ids s) u (json_text ''parentId'' (ar_json r))) (\<lambda>p.
       sync_CreateFolder (u_id u) (u_role u) p (json_text ''name'' (ar_json r)) (ar_device r)))))"

definition mutation :: "'a site \<Rightarrow> api_request \<Rightarrow> (user_row \<Rightarrow> uuid \<Rightarrow> unit srv) \<Rightarrow> http_reply srv" where
  "mutation s r change =
     post_json [(''fileId'', is_text), (''parentId'', is_text), (''name'', is_text), (''expectedVersion'', is_int64)] r (with_user r (\<lambda>u.
       or_else (bnd (id_of (s_ids s) (json_text ''fileId'' (ar_json r))) (change u))
         (\<lambda>e. ret (refuse (if e = Msg ''version conflict'' then 409 else 400) e)) (\<lambda>_. ret done_ok)))"

definition sync_Rename_http :: "'a site \<Rightarrow> api_request \<Rightarrow> http_reply srv" where
  "sync_Rename_http s r = mutation s r (\<lambda>u i.
     sync_Rename (u_id u) (u_role u) i (json_text ''name'' (ar_json r)) (ar_device r) (json_int_ptr ''expectedVersion'' (ar_json r)))"

definition sync_Move_http :: "'a site \<Rightarrow> api_request \<Rightarrow> http_reply srv" where
  "sync_Move_http s r = mutation s r (\<lambda>u i. bnd (id_of (s_ids s) (json_text ''parentId'' (ar_json r))) (\<lambda>p.
     sync_Move (u_id u) (u_role u) i p (ar_device r) (json_int_ptr ''expectedVersion'' (ar_json r))))"

definition sync_Trash_http :: "'a site \<Rightarrow> api_request \<Rightarrow> http_reply srv" where
  "sync_Trash_http s r = mutation s r (\<lambda>u i. sync_Trash (u_id u) (u_role u) i (ar_device r))"

definition sync_Restore_http :: "'a site \<Rightarrow> api_request \<Rightarrow> http_reply srv" where
  "sync_Restore_http s r = mutation s r (\<lambda>u i. sync_Restore (u_id u) (u_role u) i (ar_device r))"

definition sync_Purge_http :: "'a site \<Rightarrow> api_request \<Rightarrow> http_reply srv" where
  "sync_Purge_http s r = mutation s r (\<lambda>u i. sync_Purge (u_id u) i (ar_device r))"

definition sync_TrashList_http :: "api_request \<Rightarrow> http_reply srv" where
  "sync_TrashList_http r = get_only r (with_user r (\<lambda>u. reply 500 200 PEntries (sync_ListTrash (u_id u))))"

section \<open>Drives\<close>

definition drives_ListOrCreate :: "api_request \<Rightarrow> http_reply srv" where
  "drives_ListOrCreate r =
     (if ar_method r = ''GET'' then with_user r (\<lambda>u. reply 500 200 PDrives (drives_List (u_id u)))
      else if ar_method r = ''POST'' then
        (if \<not> ReadJSON (texts [''name'']) (ar_json r) then ret bad_json
         else with_user r (\<lambda>u. reply 400 201 PDrive (CreateShared (u_id u) (json_text ''name'' (ar_json r)))))
      else ret not_allowed)"

definition drives_members :: "'a site \<Rightarrow> api_request \<Rightarrow> user_row \<Rightarrow> uuid srv \<Rightarrow> string list \<Rightarrow> http_reply srv" where
  "drives_members s r u drive rest =
     (if rest = [] \<or> hd rest = [] then
        (if ar_method r = ''GET'' then reply 400 200 PMembers (bnd drive (ListMembers (u_id u) (u_role u)))
         else if ar_method r = ''POST'' then
           (if \<not> ReadJSON (texts [''email'', ''role'']) (ar_json r) then ret bad_json
            else reply 400 201 (\<lambda>_. PDone ''ok'') (bnd drive (\<lambda>d.
              AddMember (u_id u) (u_role u) d (json_text ''email'' (ar_json r)) (json_text ''role'' (ar_json r)))))
         else ret not_allowed)
      else if ar_method r \<noteq> ''DELETE'' then ret not_allowed
      else reply_ok (bnd drive (\<lambda>d. bnd (id_of (s_ids s) (hd rest)) (RemoveMember (u_id u) (u_role u) d))))"

definition drives_Drive :: "'a site \<Rightarrow> api_request \<Rightarrow> http_reply srv" where
  "drives_Drive s r = with_user r (\<lambda>u.
     let parts = split_at CHR ''/'' (trim_char CHR ''/'' (trim_prefix (ar_path r) ''/api/drives/'')); drive = id_of (s_ids s) (hd parts) in
     if hd parts = [] then ret (refuse 400 (Msg ''drive id required''))
     else if tl parts = [] then
       (if ar_method r = ''GET'' then reply 400 200 PDrive (bnd drive (drives_Get (u_id u) (u_role u)))
        else if ar_method r = ''PATCH'' then
          reply_ok (bnd drive (\<lambda>d. drives_Rename (u_id u) (u_role u) d (json_text ''name'' (ar_json r))))
        else if ar_method r = ''DELETE'' then reply_ok (bnd drive (drives_Delete (u_id u) (u_role u)))
        else ret not_allowed)
     else if parts ! 1 = ''members'' then drives_members s r u drive (drop 2 parts)
     else ret (answer 404 (POther ''404 page not found'')))"

section \<open>Collaboration\<close>

definition collab_Permissions :: "'a site \<Rightarrow> api_request \<Rightarrow> http_reply srv" where
  "collab_Permissions s r = with_user r (\<lambda>u.
     let j = ar_json r; entry = id_of (s_ids s) (json_text ''entryId'' j) in
     if ar_method r = ''GET'' then
       (if ar_query r ''entryId'' = [] then ret (refuse 400 (Msg ''entryId required''))
        else reply 400 200 PPermissions (bnd (id_of (s_ids s) (ar_query r ''entryId'')) (ListPermissions (u_id u) (u_role u))))
     else if ar_method r = ''POST'' then
       (if \<not> ReadJSON (texts [''entryId'', ''email'', ''role'']) j then ret bad_json
        else reply 400 201 PPermission (bnd entry (\<lambda>i. Grant (u_id u) (u_role u) i (json_text ''email'' j) (json_text ''role'' j))))
     else if ar_method r = ''DELETE'' then
       (if \<not> ReadJSON (texts [''entryId'', ''granteeUserId'']) j then ret bad_json
        else reply_ok (bnd entry (\<lambda>i. bnd (id_of (s_ids s) (json_text ''granteeUserId'' j)) (Revoke (u_id u) (u_role u) i))))
     else ret not_allowed)"

definition collab_SharedWithMe :: "api_request \<Rightarrow> http_reply srv" where
  "collab_SharedWithMe r = with_user r (\<lambda>u. reply 500 200 PEntries (SharedWithMe (u_id u)))"

definition collab_Starred :: "'a site \<Rightarrow> api_request \<Rightarrow> http_reply srv" where
  "collab_Starred s r = with_user r (\<lambda>u.
     if ar_method r = ''GET'' then reply 500 200 PEntries (ListStarred (u_id u))
     else if ar_method r = ''POST'' then
       reply_ok (bnd (id_of (s_ids s) (json_text ''entryId'' (ar_json r))) (\<lambda>i. SetStar (u_id u) (u_role u) i (json_bool ''starred'' (ar_json r))))
     else ret not_allowed)"

definition collab_Recent :: "api_request \<Rightarrow> http_reply srv" where
  "collab_Recent r = with_user r (\<lambda>u. reply 500 200 PEntries (ListRecent (u_id u)))"

definition collab_Search :: "api_request \<Rightarrow> http_reply srv" where
  "collab_Search r = with_user r (\<lambda>u. reply 400 200 PEntries (Search (u_id u) (u_role u) (ar_query r ''q'')))"

definition collab_Comments :: "'a site \<Rightarrow> api_request \<Rightarrow> http_reply srv" where
  "collab_Comments s r = with_user r (\<lambda>u.
     if ar_method r = ''GET'' then reply 400 200 PComments (bnd (id_of (s_ids s) (ar_query r ''entryId'')) (ListComments (u_id u) (u_role u)))
     else if ar_method r = ''POST'' then
       reply 400 201 PComment (bnd (id_of (s_ids s) (json_text ''entryId'' (ar_json r))) (\<lambda>i. AddComment u i (json_text ''body'' (ar_json r))))
     else ret not_allowed)"

definition collab_Versions :: "'a site \<Rightarrow> api_request \<Rightarrow> http_reply srv" where
  "collab_Versions s r = with_user r (\<lambda>u.
     let path = trim_char CHR ''/'' (trim_prefix (ar_path r) ''/api/files/versions''); j = ar_json r in
     if ar_method r = ''GET'' then reply 400 200 PVersions (bnd (id_of (s_ids s) (ar_query r ''entryId'')) (ListVersions (u_id u) (u_role u)))
     else if ar_method r = ''POST'' \<and> has_prefix (rev path) (rev ''/restore'') then
       reply_ok (bnd (id_of (s_ids s) (json_text ''entryId'' j)) (\<lambda>i.
         bnd (id_of (s_ids s) (json_text ''versionId'' j)) (RestoreVersion (u_id u) (u_role u) i)))
     else ret not_allowed)"

definition collab_Activities :: "api_request \<Rightarrow> http_reply srv" where
  "collab_Activities r = with_user r (\<lambda>u. reply 500 200 PActivities (ListActivities_of (u_id u) 50))"

text \<open>An id that is no UUID marks nothing; the error of its statement is dropped.\<close>

definition collab_Notifications :: "'a site \<Rightarrow> api_request \<Rightarrow> http_reply srv" where
  "collab_Notifications s r = with_user r (\<lambda>u.
     if ar_method r = ''GET'' then reply 500 200 PNotifications (ListNotifications (u_id u) (ar_query r ''unread'' = ''1''))
     else if ar_method r = ''POST'' then
       (let given = json_elems ''ids'' (ar_json r); texts = concat (map (\<lambda>v. case v of JText t \<Rightarrow> [t] | _ \<Rightarrow> [[]]) given);
            known = concat (map (\<lambda>t. case uuid_parse (s_ids s) t of None \<Rightarrow> [] | Some i \<Rightarrow> [i]) texts) in
        reply_ok (if given \<noteq> [] \<and> known = [] then ret () else MarkNotificationsRead (u_id u) known))
     else ret not_allowed)"

section \<open>Share links\<close>

text \<open>\<open>time.Duration\<close> is 64 bits of nanoseconds: a product wraps around.\<close>

definition wrap64 :: "int \<Rightarrow> int" where
  "wrap64 n = (n + 2 ^ 63) mod 2 ^ 64 - 2 ^ 63"

definition expiry_in_days :: "int \<Rightarrow> int \<Rightarrow> int" where
  "expiry_in_days now days = now + wrap64 (days * (24 * 3600 * 10 ^ 9)) div 10 ^ 9"

definition share_shape :: "(string \<times> (json \<Rightarrow> bool)) list" where
  "share_shape = texts [''fileId'', ''entryId'', ''password'', ''expiresAt'', ''permission''] @ [(''maxDownloads'', is_int64), (''expiresInDays'', is_int64)]"

definition share_expiry :: "'a site \<Rightarrow> json option \<Rightarrow> int \<Rightarrow> err + int option" where
  "share_expiry s j now =
     (let t = json_text ''expiresAt'' j in
      if t \<noteq> [] then (case s_time s t of None \<Rightarrow> Inl (Msg ''invalid expiresAt'') | Some e \<Rightarrow> Inr (Some e))
      else (case json_int_ptr ''expiresInDays'' j of
          None \<Rightarrow> Inr None
        | Some days \<Rightarrow> Inr (if 0 < days then Some (expiry_in_days now days) else None)))"

definition shares_API :: "'a site \<Rightarrow> api_request \<Rightarrow> http_reply srv" where
  "shares_API s r = (let j = ar_json r in
     if ar_method r = ''GET'' then
       with_user r (\<lambda>u. or_else (ListMine (u_id u)) (\<lambda>_. ret (refuse 500 (Msg ''failed to list shares''))) (\<lambda>ls. ret (answer 200 (PShares ls))))
     else if ar_method r = ''POST'' then
       (if \<not> ReadJSON share_shape j then ret bad_json
        else bnd (getw clock) (\<lambda>now.
          case share_expiry s j now of
            Inl e \<Rightarrow> ret (refuse 400 e)
          | Inr expires \<Rightarrow>
              let entry = (if json_text ''entryId'' j = [] then json_text ''fileId'' j else json_text ''entryId'' j) in
              with_user r (\<lambda>u. reply 400 201 PShare (bnd (id_of (s_ids s) entry) (\<lambda>i.
                shares_Create (s_crypto s) (s_config s) (u_id u) (u_role u)
                  \<lparr>so_entry = i, so_password = json_text ''password'' j, so_expires = expires,
                   so_max = json_int_ptr ''maxDownloads'' j, so_perm = json_text ''permission'' j\<rparr>)))))
     else if ar_method r = ''DELETE'' then
       with_user r (\<lambda>u. reply_ok (bnd (id_of (s_ids s) (json_text ''id'' j)) (shares_Revoke (u_id u))))
     else ret not_allowed)"

text \<open>The link of a mail: absolute, or below the address of the site.\<close>

definition mail_link :: "'a site \<Rightarrow> string \<Rightarrow> string option" where
  "mail_link s link =
     (if has_prefix link ''http://'' \<or> has_prefix link ''https://'' then Some link
      else if has_prefix link ''/'' then Some (rev (dropWhile (\<lambda>c. c = CHR ''/'') (rev (PublicBaseURL (s_config s)))) @ link)
      else None)"

definition mail_body :: "user_row \<Rightarrow> string \<Rightarrow> string \<Rightarrow> string" where
  "mail_body u link given =
     (let nl = [CHR 0x0A] in
      if given = [] then u_name u @ '' shared a file with you:'' @ nl @ nl @ link @ nl
      else if \<not> go_contains given link then given @ nl @ nl @ link @ nl
      else given)"

definition mail_failure :: "err \<Rightarrow> err" where
  "mail_failure e = (case e of
       Msg m \<Rightarrow>
         if go_contains (to_lower m) ''mail disabled'' then Msg ''mail is off''
         else if go_contains (to_lower m) ''incomplete'' then Msg ''SMTP settings are incomplete''
         else if go_contains (to_lower m) ''smtp connect'' \<or> go_contains (to_lower m) ''smtp auth'' \<or> go_contains (to_lower m) ''smtp tls''
         then Msg (''no connection to the mail server: '' @ m)
         else e
     | _ \<Rightarrow> e)"

definition shares_EmailLink :: "'a site \<Rightarrow> api_request \<Rightarrow> http_reply srv" where
  "shares_EmailLink s r =
     (if ar_method r \<noteq> ''POST'' then ret not_allowed
      else bnd (result mail_Get) (\<lambda>res. case res of
          Inl _ \<Rightarrow> ret (refuse 400 (Msg ''mail is off''))
        | Inr st \<Rightarrow>
            if \<not> ms_enabled st then ret (refuse 400 (Msg ''mail is off''))
            else if trim_space (ms_host st) = [] \<or> trim_space (ms_from st) = [] then ret (refuse 400 (Msg ''SMTP settings are incomplete''))
            else if \<not> ReadJSON (texts [''to'', ''url'', ''subject'', ''message'']) (ar_json r) then ret bad_json
            else
              let to = trim_space (json_text ''to'' (ar_json r)); given = trim_space (json_text ''url'' (ar_json r));
                  subject = trim_space (json_text ''subject'' (ar_json r)) in
              if to = [] \<or> given = [] then ret (refuse 400 (Msg ''address and link are required''))
              else (case mail_link s given of
                  None \<Rightarrow> ret (refuse 400 (Msg ''invalid link''))
                | Some link \<Rightarrow> with_user r (\<lambda>u.
                    or_else (mail_Send (s_smtp s) to (if subject = [] then ''TR Driver share link'' else subject)
                        (mail_body u link (trim_space (json_text ''message'' (ar_json r)))))
                      (\<lambda>e. ret (refuse 400 (mail_failure e))) (\<lambda>_. ret (answer 200 (PDone ''sent'')))))))"

definition share_status :: "share_body \<Rightarrow> int" where
  "share_status b = (case b of Refused status _ \<Rightarrow> status | _ \<Rightarrow> 200)"

definition shares_public :: "'a site \<Rightarrow> api_request \<Rightarrow> http_reply srv" where
  "shares_public s r =
     bnd (DownloadPublic (s_crypto s) (s_config s) (s_ids s) (s_mime s) (s_net s) (s_trusted s) (ar_http r)) (\<lambda>a.
     ret (answer (share_status (sr_body a)) (PPublic a)))"

end
