(* ===== verification/Router.thy ===== *)
theory Router
  imports ApiHttp SignInSafety
begin

text \<open>
  \<open>internal/app/router.go\<close>: which handler answers which path, behind which checks, and what
  is guaranteed of every request whatever its path.

  The paths are those of \<open>net/http.ServeMux\<close> after decoding. The handlers of packages that
  are not modelled (\<open>license\<close>, \<open>updates\<close>, \<open>webdavx\<close>, the static files and the package of the
  Android app) are the parameter \<open>rest\<close>, by the pattern of their route.
\<close>

section \<open>Routes\<close>

type_synonym handler = "api_request \<Rightarrow> http_reply srv"

definition uploads_files :: "'a site \<Rightarrow> handler" where
  "uploads_files s r =
     (if has_prefix (rev (ar_path r)) (rev ''/complete'') then uploads_CompleteFile s r else uploads_AppendChunk s r)"

text \<open>Routes without a check of their own.\<close>

definition open_routes :: "'a site \<Rightarrow> (string \<Rightarrow> handler) \<Rightarrow> (string \<times> handler) list" where
  "open_routes s rest =
     [(''/healthz'', \<lambda>_. ret (answer 200 (PDone ''ok''))),
      (''/api/license'', rest ''/api/license''), (''/api/updates/check'', rest ''/api/updates/check''),
      (''/api/auth/register'', http_Register s), (''/api/auth/login'', http_Login s), (''/api/auth/login/2fa'', http_Login2FA s),
      (''/api/auth/forgot-password'', http_ForgotPassword s), (''/api/auth/reset-password'', http_ResetPassword s),
      (''/api/auth/device-login'', http_DeviceLogin s), (''/api/auth/qr/redeem'', http_RedeemQRLogin s),
      (''/s/'', shares_public s), (''/dav'', rest ''/dav''), (''/dav/'', rest ''/dav''),
      (''/download/TRDriver.apk'', rest ''apk''), (''/apps/TRDriver.apk'', rest ''apk''), (''/api/android/version'', rest ''/api/android/version''),
      (''/'', rest ''/'')]"

text \<open>Routes behind \<open>RequireSession\<close>.\<close>

definition session_routes :: "'a site \<Rightarrow> (string \<times> handler) list" where
  "session_routes s =
     [(''/api/auth/qr/create'', http_CreateQRLogin s), (''/api/auth/security'', http_Security s),
      (''/api/auth/security/totp/setup'', http_TOTPSetup s), (''/api/auth/security/totp/enable'', http_TOTPEnable s),
      (''/api/auth/security/totp/disable'', http_TOTPDisable s), (''/api/auth/devices'', http_Devices s), (''/api/auth/devices/'', http_Device s)]"

text \<open>Routes behind \<open>RequireAuth\<close> and \<open>RequireAdmin\<close>.\<close>

definition admin_routes :: "'a site \<Rightarrow> (string \<Rightarrow> handler) \<Rightarrow> (string \<times> handler) list" where
  "admin_routes s rest =
     [(''/api/admin/license'', rest ''/api/admin/license''), (''/api/admin/license/'', rest ''/api/admin/license/''),
      (''/api/admin/summary'', admin_Summary), (''/api/admin/users'', admin_Users), (''/api/admin/users/plan'', admin_SetPlan s),
      (''/api/admin/users/quota'', admin_SetQuota s), (''/api/admin/users/bonus-quota'', admin_SetBonusQuota s),
      (''/api/admin/users/role'', admin_SetRole s), (''/api/admin/settings'', admin_Settings s), (''/api/admin/mail'', mail_Settings_http s),
      (''/api/admin/mail/test'', mail_Test_http s), (''/api/admin/upload-pace'', admin_UploadPace s), (''/api/admin/devices'', admin_Devices)]"

text \<open>Routes behind \<open>RequireAuth\<close> alone.\<close>

definition user_routes :: "'a site \<Rightarrow> (string \<times> handler) list" where
  "user_routes s =
     [(''/api/auth/device-logout'', http_DeviceLogout s), (''/api/auth/logout'', http_Logout s), (''/api/auth/me'', http_Me s),
      (''/api/plans'', plans_List_http), (''/api/plans/assign'', plans_Assign_http s), (''/api/mail/status'', mail_Status_http),
      (''/api/files'', files_ListOrCreate s), (''/api/files/upload'', files_Upload s), (''/api/files/upload-pace'', files_UploadPace s),
      (''/api/files/move'', files_Move s), (''/api/files/rename'', files_Rename s), (''/api/files/delete'', files_Delete s),
      (''/api/files/download/'', files_Download s), (''/api/files/search'', collab_Search), (''/api/files/starred'', collab_Starred s),
      (''/api/files/recent'', collab_Recent), (''/api/files/comments'', collab_Comments s), (''/api/files/versions'', collab_Versions s),
      (''/api/files/versions/'', collab_Versions s), (''/api/permissions'', collab_Permissions s), (''/api/shared-with-me'', collab_SharedWithMe),
      (''/api/activities'', collab_Activities), (''/api/notifications'', collab_Notifications s), (''/api/drives'', drives_ListOrCreate),
      (''/api/drives/'', drives_Drive s), (''/api/sync/snapshot'', sync_Snapshot_http), (''/api/sync/changes'', sync_Changes_http),
      (''/api/sync/folders'', sync_Folder_http s), (''/api/sync/rename'', sync_Rename_http s), (''/api/sync/move'', sync_Move_http s),
      (''/api/sync/trash'', sync_Trash_http s), (''/api/sync/restore'', sync_Restore_http s), (''/api/sync/purge'', sync_Purge_http s),
      (''/api/trash'', sync_TrashList_http), (''/api/uploads/batches'', uploads_Batches s), (''/api/uploads/batches/'', uploads_AbortBatch s),
      (''/api/uploads/files/'', uploads_files s), (''/api/shares'', shares_API s), (''/api/shares/email'', shares_EmailLink s)]"

definition private_routes :: "'a site \<Rightarrow> (string \<Rightarrow> handler) \<Rightarrow> (string \<times> handler) list" where
  "private_routes s rest =
     map (\<lambda>(p, h). (p, RequireSession s h)) (session_routes s)
   @ map (\<lambda>(p, h). (p, RequireAuth s (RequireAdmin h))) (admin_routes s rest)
   @ map (\<lambda>(p, h). (p, RequireAuth s h)) (user_routes s)"

section \<open>Finding the handler\<close>

text \<open>
  A pattern that ends in a slash stands for all paths below it, any other for itself; the
  longest one wins. A path that is not clean, and one that lacks the slash of a pattern, is
  answered with a redirection.
\<close>

definition pattern_fits :: "string \<Rightarrow> string \<Rightarrow> bool" where
  "pattern_fits path p \<longleftrightarrow> p = path \<or> (p \<noteq> [] \<and> last p = CHR ''/'' \<and> has_prefix path p)"

fun best_route :: "string \<Rightarrow> (string \<times> 'h) list \<Rightarrow> (string \<times> 'h) option" where
  "best_route path [] = None"
| "best_route path (e # es) =
     (case best_route path es of
        None \<Rightarrow> if pattern_fits path (fst e) then Some e else None
      | Some b \<Rightarrow> if pattern_fits path (fst e) \<and> length (fst b) < length (fst e) then Some e else Some b)"

definition clean_path :: "string \<Rightarrow> string" where
  "clean_path p =
     (let q = (if p = [] then ''/'' else if hd p = CHR ''/'' then p else ''/'' @ p); np = go_clean q in
      if last q = CHR ''/'' \<and> np \<noteq> ''/'' then np @ ''/'' else np)"

definition redirect :: "string \<Rightarrow> http_reply" where
  "redirect path = (answer 301 (POther ''moved''))\<lparr>hr_headers := [(''Location'', path)]\<rparr>"

definition serve_mux :: "(string \<times> handler) list \<Rightarrow> handler" where
  "serve_mux routes r =
     (let path = clean_path (ar_path r) in
      case best_route path routes of
        None \<Rightarrow> ret (answer 404 (POther ''404 page not found''))
      | Some (p, h) \<Rightarrow>
          if p \<noteq> path \<and> path \<noteq> [] \<and> last path \<noteq> CHR ''/'' \<and> (\<exists>e \<in> set routes. fst e = path @ ''/'') then ret (redirect (path @ ''/''))
          else if path \<noteq> ar_path r then ret (redirect path)
          else h r)"

definition csrf_cookie :: "'a site \<Rightarrow> api_request \<Rightarrow> http_reply \<Rightarrow> cookie" where
  "csrf_cookie s r a = \<lparr>ck_name = ''csrf_token'',
     ck_value = csrf_injected (s_crypto s) (SessionSecret (s_config s)) (ar_http r)
       (map (\<lambda>c. ck_name c @ ''='' @ ck_value c @ ''; Path=/'') (hr_cookies a)),
     ck_secure = secure_request s r, ck_max_age = 0\<rparr>"

text \<open>
  \<open>csrfMiddleware\<close> around a handler: what it refuses does not get a token. The responses to
  \<open>GET\<close> and \<open>HEAD\<close> carry it as a header too.
\<close>

definition with_csrf :: "'a site \<Rightarrow> api_request \<Rightarrow> http_reply \<Rightarrow> http_reply" where
  "with_csrf s r a =
     (let c = csrf_cookie s r a in
      a\<lparr>hr_cookies := hr_cookies a @ [c],
        hr_headers := hr_headers a @ (if ar_method r = ''GET'' \<or> ar_method r = ''HEAD'' then [(''X-CSRF-Token'', ck_value c)] else [])\<rparr>)"

definition csrfMiddleware :: "'a site \<Rightarrow> handler \<Rightarrow> handler" where
  "csrfMiddleware s inner r =
     (if csrf_passes (s_crypto s) (SessionSecret (s_config s)) (ar_http r)
      then bnd (inner r) (\<lambda>a. ret (with_csrf s r a))
      else ret (refuse 403 (Msg ''invalid csrf token'')))"

definition securityHeaders :: "handler \<Rightarrow> handler" where
  "securityHeaders inner r =
     bnd (inner r) (\<lambda>a. ret (a\<lparr>hr_headers :=
       [(''X-Content-Type-Options'', ''nosniff''), (''Referrer-Policy'', ''same-origin''), (''X-Frame-Options'', ''DENY'')] @ hr_headers a\<rparr>))"

text \<open>A request begins without an identity.\<close>

definition NewRouter :: "'a site \<Rightarrow> (string \<Rightarrow> handler) \<Rightarrow> handler" where
  "NewRouter s rest r =
     securityHeaders (csrfMiddleware s (serve_mux (open_routes s rest @ private_routes s rest))) (r\<lparr>ar_user := None, ar_device := None\<rparr>)"

section \<open>Who is behind a request\<close>

definition session_owner :: "'a site \<Rightarrow> api_request \<Rightarrow> world \<Rightarrow> user_row option" where
  "session_owner s r w =
     (let token = sessionCookieValue (ar_http r) in if token = [] then None else session_user (hashToken (s_crypto s) token) w)"

definition device_owner :: "'a site \<Rightarrow> api_request \<Rightarrow> world \<Rightarrow> user_row option" where
  "device_owner s r w =
     (let token = device_token r in
      if token = [] then None else map_option fst (device_user (hashToken (s_crypto s) token) w))"

text \<open>
  The user in whose name a request acts on a route: the owner of the device token it
  carries, or else, and always where a browser is required, of its session; a request with
  an unsafe method and no device token must then come with the token of that session.
\<close>

definition unsafe :: "api_request \<Rightarrow> bool" where
  "unsafe r \<longleftrightarrow> ar_method r \<notin> {''GET'', ''HEAD'', ''OPTIONS''}"

definition acts_as :: "'a site \<Rightarrow> bool \<Rightarrow> api_request \<Rightarrow> world \<Rightarrow> user_row option" where
  "acts_as s browser r w =
     (if bearer (ar_http r) \<and> \<not> browser then device_owner s r w
      else if unsafe r \<and> \<not> bearer (ar_http r)
         \<and> rq_header (ar_http r) ''X-CSRF-Token'' \<noteq> csrfTokenFor (s_crypto s) (SessionSecret (s_config s)) (sessionCookieValue (ar_http r)) then None
      else session_owner s r w)"

definition route_of :: "'a site \<Rightarrow> (string \<Rightarrow> handler) \<Rightarrow> api_request \<Rightarrow> string option" where
  "route_of s rest r = map_option fst (best_route (clean_path (ar_path r)) (open_routes s rest @ private_routes s rest))"

section \<open>The checks\<close>

text \<open>A request that was refused: nothing is changed, but perhaps the time a device was last seen.\<close>

definition refused :: "http_reply \<Rightarrow> world \<Rightarrow> world \<Rightarrow> bool" where
  "refused a w w' \<longleftrightarrow> hr_status a \<in> {301, 401, 403} \<and> files w' = files w \<and> db w' = (db w)\<lparr>devices := devices (db w')\<rparr>"

definition rejected :: "http_reply \<Rightarrow> world \<Rightarrow> world \<Rightarrow> bool" where
  "rejected a w w' \<longleftrightarrow> refused a w w' \<and> db w' = db w"

lemma same_devices: "d\<lparr>devices := devices d\<rparr> = d"
  by simp

lemma RequireSession_wp:
  assumes "session_owner s r w = None"
  shows "wp (RequireSession s h r) (\<lambda>a w'. rejected a w w') (\<lambda>_ _. False) w"
proof -
  have none: "session_user (hashToken (s_crypto s) (sessionCookieValue (ar_http r))) (pop w) = None" if "sessionCookieValue (ar_http r) \<noteq> []"
    using assms that by (auto simp: session_owner_def Let_def session_user_def)
  show ?thesis
    by (auto simp: RequireSession_def Let_def wp_simps UserBySession_def user_query_def none rejected_def refused_def answer_def)
qed

lemma account_wp:
  "wp (account_of cfg u) (\<lambda>acc w'. acc_user acc = u \<and> db w' = db w \<and> files w' = files w) (\<lambda>_ w'. db w' = db w \<and> files w' = files w) w"
  by (auto simp: account_of_def maxBatchBytes_def wp_simps row_def split: option.split)

lemma seen_wp:
  "wp (with_tx (
       bnd (tx_stmt (\<lambda>w. case device_user h w of
           None \<Rightarrow> Inl NoRows
         | Some (u, v) \<Rightarrow> if u_root u = None then Inl (Msg ''cannot scan NULL'') else Inr ((u, v), w))) (\<lambda>(u, v).
       bnd (tx_stmt (\<lambda>w. upd (\<lambda>d. d\<lparr>devices := map (\<lambda>x. if dv_id x = dv_id v then x\<lparr>dv_seen := clock w\<rparr> else x) (devices d)\<rparr>) w)) (\<lambda>_.
       ret (u, v)))))
    (\<lambda>(u, v) w'. device_user h w = Some (u, v) \<and> files w' = files w \<and> db w' = (db w)\<lparr>devices := devices (db w')\<rparr>)
    (\<lambda>_ w'. files w' = files w \<and> db w' = db w) w"
proof -
  have found: "device_user h (pop v) = device_user h v" "device_user h (v\<lparr>aborted := False\<rparr>) = device_user h v" for v
    unfolding device_user_def by (simp_all cong: option.case_cong)
  show ?thesis
    by (auto simp: wp_simps found split: option.split prod.split)
qed

lemma device_wp:
  "wp (UserByDeviceToken cr cfg token)
    (\<lambda>(acc, v) w'. (\<exists>d. device_user (hashToken cr token) w = Some (acc_user acc, d)) \<and> files w' = files w \<and> db w' = (db w)\<lparr>devices := devices (db w')\<rparr>)
    (\<lambda>_ w'. files w' = files w \<and> db w' = (db w)\<lparr>devices := devices (db w')\<rparr>
      \<and> (device_user (hashToken cr token) w = None \<longrightarrow> db w' = db w)) w"
  unfolding UserByDeviceToken_def wp_bnd
  by (rule wp_weaken [OF seen_wp]) (auto simp: wp_bnd wp_ret intro!: wp_weaken [OF account_wp])

lemma RequireAuth_wp:
  assumes "acts_as s False r w = None" and "\<not> bearer (ar_http r) \<Longrightarrow> session_owner s r w = None"
  shows "wp (RequireAuth s h r) (\<lambda>a w'. rejected a w w') (\<lambda>_ _. False) w"
proof (cases "bearer (ar_http r) \<and> device_token r \<noteq> []")
  case True
  then have none: "device_user (hashToken (s_crypto s) (device_token r)) w = None"
    using assms(1) by (auto simp: acts_as_def device_owner_def Let_def)
  show ?thesis
    unfolding RequireAuth_def Let_def if_P [OF conjunct1 [OF True]] if_not_P [OF conjunct2 [OF True]] wp_or_else
    by (rule wp_weaken [OF device_wp]) (auto simp: none wp_ret rejected_def refused_def answer_def)
next
  case False
  with RequireSession_wp [OF assms(2)] show ?thesis
    by (auto simp: RequireAuth_def Let_def wp_ret rejected_def refused_def answer_def)
qed

text \<open>Behind the check for administrators only their browsers pass.\<close>

lemma RequireAdmin_wp:
  assumes "\<And>u. session_owner s r w = Some u \<Longrightarrow> u_role u \<noteq> ''admin'' \<or> bearer (ar_http r)" and "ar_device r = None"
  shows "wp (RequireAuth s (RequireAdmin h) r) (\<lambda>a w'. refused a w w') (\<lambda>_ _. False) w"
proof (cases "bearer (ar_http r)")
  case True
  show ?thesis
  proof (cases "device_token r = []")
    case False
    show ?thesis
      unfolding RequireAuth_def Let_def if_P [OF True] if_not_P [OF False] wp_or_else
      by (rule wp_weaken [OF device_wp]) (auto simp: RequireAdmin_def wp_ret refused_def answer_def)
  qed (simp add: RequireAuth_def True wp_ret refused_def answer_def)
next
  case False
  let ?token = "sessionCookieValue (ar_http r)"
  have role: "u_role u \<noteq> ''admin''" if "?token \<noteq> []" "session_user (hashToken (s_crypto s) ?token) (pop w) = Some u" for u
    using assms(1) [of u] that False by (auto simp: session_owner_def session_user_def)
  show ?thesis
    using False assms(2) role
    by (auto simp: RequireAuth_def RequireSession_def Let_def wp_simps UserBySession_def user_query_def RequireAdmin_def refused_def answer_def
        split: option.split intro!: wp_weaken [OF account_wp])
qed

section \<open>The gate\<close>

lemma best_route_in: "best_route path routes = Some (p, h) \<Longrightarrow> (p, h) \<in> set routes"
  by (induction routes) (auto split: option.splits if_splits)

lemma best_route_fits: "best_route path routes = Some e \<Longrightarrow> pattern_fits path (fst e)"
  by (induction routes) (auto split: option.splits if_splits)

lemma best_route_longest:
  "e \<in> set routes \<Longrightarrow> pattern_fits path (fst e) \<Longrightarrow> \<exists>b. best_route path routes = Some b \<and> length (fst e) \<le> length (fst b)"
proof (induction routes)
  case (Cons r rs)
  then show ?case by (cases r; cases "e = r"; cases "best_route path rs") auto
qed simp

text \<open>A path that is a pattern goes to that pattern.\<close>

lemma best_route_exact:
  assumes "path \<in> fst ` set routes"
  shows "map_option fst (best_route path routes) = Some path"
proof -
  obtain e where "e \<in> set routes" "fst e = path" using assms by force
  moreover have "pattern_fits path path" by (simp add: pattern_fits_def)
  ultimately obtain b where b: "best_route path routes = Some b" "length path \<le> length (fst b)"
    using best_route_longest [of e routes path] by auto
  have "pattern_fits path (fst b)" using b(1) by (rule best_route_fits)
  with b(2) have "fst b = path" by (auto simp: pattern_fits_def has_prefix_append)
  with b(1) show ?thesis by simp
qed

text \<open>Who may use a route behind the checks.\<close>

definition permitted :: "'a site \<Rightarrow> (string \<Rightarrow> handler) \<Rightarrow> string \<Rightarrow> api_request \<Rightarrow> world \<Rightarrow> bool" where
  "permitted s rest p r w \<longleftrightarrow>
     (case acts_as s (p \<in> set (map fst (session_routes s))) r w of
        None \<Rightarrow> False
      | Some u \<Rightarrow> p \<in> set (map fst (admin_routes s rest)) \<longrightarrow> u_role u = ''admin'' \<and> \<not> bearer (ar_http r))"

lemma patterns_distinct: "distinct (map fst (open_routes s rest @ private_routes s rest))"
  by (simp add: open_routes_def private_routes_def session_routes_def admin_routes_def user_routes_def)

lemma patterns_apart:
  "p \<in> fst ` set (private_routes s rest) \<Longrightarrow> p \<notin> fst ` set (open_routes s rest)"
  "p \<in> fst ` set (session_routes s) \<Longrightarrow> p \<notin> fst ` set (admin_routes s rest)"
  "p \<in> fst ` set (user_routes s) \<Longrightarrow> p \<notin> fst ` set (session_routes s) \<and> p \<notin> fst ` set (admin_routes s rest)"
proof -
  have "map fst (private_routes s rest) = map fst (session_routes s) @ map fst (admin_routes s rest) @ map fst (user_routes s)"
    by (simp add: private_routes_def case_prod_unfold comp_def)
  with patterns_distinct [of s rest] have
    "set (map fst (open_routes s rest)) \<inter> set (map fst (private_routes s rest)) = {}"
    "set (map fst (session_routes s)) \<inter> set (map fst (admin_routes s rest)) = {}"
    "set (map fst (user_routes s)) \<inter> set (map fst (session_routes s)) = {}"
    "set (map fst (user_routes s)) \<inter> set (map fst (admin_routes s rest)) = {}"
    unfolding map_append distinct_append by auto
  then show "p \<in> fst ` set (private_routes s rest) \<Longrightarrow> p \<notin> fst ` set (open_routes s rest)"
    "p \<in> fst ` set (session_routes s) \<Longrightarrow> p \<notin> fst ` set (admin_routes s rest)"
    "p \<in> fst ` set (user_routes s) \<Longrightarrow> p \<notin> fst ` set (session_routes s) \<and> p \<notin> fst ` set (admin_routes s rest)"
    unfolding set_map by blast+
qed

lemma private_under_api: "(p, h) \<in> set (private_routes s rest) \<Longrightarrow> has_prefix p ''/api/''"
  by (auto simp: private_routes_def session_routes_def admin_routes_def user_routes_def has_prefix_def)

lemma private_not_exempt:
  assumes "(p, h) \<in> set (private_routes s rest)" and "pattern_fits path p"
  shows "\<not> csrf_exempt path"
proof
  assume e: "csrf_exempt path"
  have pre: "has_prefix path p"
    using assms(2) by (auto simp: pattern_fits_def has_prefix_def)
  with private_under_api [OF assms(1)] have "has_prefix path ''/api/''"
    by (auto simp: has_prefix_append)
  then obtain t where "path = ''/api/'' @ t" by (auto simp: has_prefix_append)
  with e have "path \<in> {''/api/auth/login'', ''/api/auth/register'', ''/api/auth/device-login'', ''/api/auth/login/2fa'',
       ''/api/auth/forgot-password'', ''/api/auth/reset-password'', ''/api/auth/qr/redeem''}"
    by (auto simp: csrf_exempt_def has_prefix_def)
  moreover have "\<forall>(p, h) \<in> set (private_routes s rest). \<forall>path \<in> set [''/api/auth/login'', ''/api/auth/register'', ''/api/auth/device-login'',
      ''/api/auth/login/2fa'', ''/api/auth/forgot-password'', ''/api/auth/reset-password'', ''/api/auth/qr/redeem'']. \<not> pattern_fits path p"
    by (simp add: private_routes_def session_routes_def admin_routes_def user_routes_def pattern_fits_def has_prefix_def)
  ultimately show False using assms by auto
qed


lemma private_handler:
  assumes "(p, h) \<in> set (private_routes s rest)" and "\<not> permitted s rest p r w" and "ar_device r = None"
    and "csrf_passes (s_crypto s) (SessionSecret (s_config s)) (ar_http r)" and "\<not> csrf_exempt (ar_path r)"
  shows "wp (h r) (\<lambda>a w'. refused a w w' \<and> (acts_as s (p \<in> set (map fst (session_routes s))) r w = None \<longrightarrow> db w' = db w)) (\<lambda>_ _. False) w"
    (is "wp _ ?Q _ _")
proof -
  have acts: "acts_as s b r w = session_owner s r w" if "\<not> bearer (ar_http r) \<or> b" for b
    using assms(4,5) that by (auto simp: acts_as_def unsafe_def csrf_passes_def Let_def split: if_splits)
  have same: "wp m ?Q (\<lambda>_ _. False) w" if "wp m (\<lambda>a w'. rejected a w w') (\<lambda>_ _. False) w" for m
    using that by (rule wp_weaken) (auto simp: rejected_def)
  consider (browser) h0 where "(p, h0) \<in> set (session_routes s)" "h = RequireSession s h0"
    | (admin) h0 where "(p, h0) \<in> set (admin_routes s rest)" "h = RequireAuth s (RequireAdmin h0)"
    | (user) h0 where "(p, h0) \<in> set (user_routes s)" "h = RequireAuth s h0"
    using assms(1) by (auto simp: private_routes_def)
  then show ?thesis
  proof cases
    case browser
    then have "p \<in> fst ` set (session_routes s)" by force
    moreover from this have "p \<notin> fst ` set (admin_routes s rest)" by (rule patterns_apart)
    ultimately have "session_owner s r w = None"
      using assms(2) acts [of True] by (auto simp: permitted_def split: option.splits)
    then show ?thesis unfolding browser(2) by (intro same RequireSession_wp)
  next
    case user
    then have "p \<in> fst ` set (user_routes s)" by force
    then have "p \<notin> fst ` set (session_routes s) \<and> p \<notin> fst ` set (admin_routes s rest)" by (rule patterns_apart)
    then have "acts_as s False r w = None" using assms(2) by (auto simp: permitted_def split: option.splits)
    then show ?thesis unfolding user(2) using acts [of False] by (intro same RequireAuth_wp) auto
  next
    case admin
    then have "p \<in> fst ` set (admin_routes s rest)" by force
    with patterns_apart(2) have p: "p \<notin> set (map fst (session_routes s))" "p \<in> set (map fst (admin_routes s rest))" by auto
    show ?thesis
    proof (cases "acts_as s False r w")
      case None
      then show ?thesis unfolding admin(2) using acts [of False] by (intro same RequireAuth_wp) auto
    next
      case (Some u)
      have "wp (h r) (\<lambda>a w'. refused a w w') (\<lambda>_ _. False) w"
        unfolding admin(2)
        by (rule RequireAdmin_wp) (use assms(2,3) p Some acts [of False] in \<open>auto simp: permitted_def\<close>)
      with p Some show ?thesis by simp
    qed
  qed
qed

text \<open>
  C38: whatever the request, a route behind the checks runs its handler only for those who
  are permitted: with a session, or a device token where no browser is needed, with the
  token against forged requests that belongs to that session, and in the administration for
  administrators at their browsers. Every other request is answered with 301, 401 or 403
  and changes nothing in the files and the database but the time a device was last seen,
  and not even that if it comes from nobody.
\<close>

theorem api_gate:
  assumes "route_of s rest r = Some p" and "p \<in> set (map fst (private_routes s rest))" and "\<not> permitted s rest p r w"
  shows "\<exists>a w'. NewRouter s rest r w = (Inr a, w') \<and> refused a w w'
    \<and> (acts_as s (p \<in> set (map fst (session_routes s))) r w = None \<longrightarrow> db w' = db w)"
proof -
  let ?Q = "\<lambda>a w'. refused a w w' \<and> (acts_as s (p \<in> set (map fst (session_routes s))) r w = None \<longrightarrow> db w' = db w)"
  let ?routes = "open_routes s rest @ private_routes s rest" and ?r = "r\<lparr>ar_user := None, ar_device := None\<rparr>"
  have same: "acts_as s b ?r w = acts_as s b r w" "permitted s rest q ?r w = permitted s rest q r w" for b q
  proof -
    have http: "ar_http ?r = ar_http r" by simp
    then show same: "acts_as s b ?r w = acts_as s b r w" for b
      unfolding acts_as_def device_owner_def device_token_def session_owner_def unsafe_def by (simp only:)
    show "permitted s rest q ?r w = permitted s rest q r w" unfolding permitted_def same http by (rule refl)
  qed
  obtain h where best: "best_route (clean_path (ar_path r)) ?routes = Some (p, h)"
    using assms(1) by (auto simp: route_of_def)
  have "(p, h) \<in> set (open_routes s rest) \<Longrightarrow> p \<in> fst ` set (open_routes s rest)" by force
  with best_route_in [OF best] assms(2) patterns_apart(1) [of p s rest] have h: "(p, h) \<in> set (private_routes s rest)"
    by auto
  have mux: "wp (serve_mux ?routes ?r) ?Q (\<lambda>_ _. False) w" if "csrf_passes (s_crypto s) (SessionSecret (s_config s)) (ar_http r)"
  proof (cases "clean_path (ar_path r) = ar_path r")
    case True
    then have "\<not> csrf_exempt (ar_path r)" using private_not_exempt [OF h] best_route_fits [OF best] by simp
    with private_handler [OF h, of ?r w] assms(3) that same have run: "wp (h ?r) ?Q (\<lambda>_ _. False) w" by simp
    with best True show ?thesis
      by (simp add: serve_mux_def Let_def wp_ret redirect_def refused_def answer_def)
  next
    case False
    with best show ?thesis by (simp add: serve_mux_def Let_def wp_ret redirect_def refused_def answer_def)
  qed
  have "wp (NewRouter s rest r) ?Q (\<lambda>_ _. False) w"
  proof (cases "csrf_passes (s_crypto s) (SessionSecret (s_config s)) (ar_http r)")
    case True
    have "wp (csrfMiddleware s (serve_mux ?routes) ?r) ?Q (\<lambda>_ _. False) w"
      using True by (simp add: csrfMiddleware_def wp_bnd wp_ret with_csrf_def Let_def refused_def)
        (rule wp_weaken [OF mux], auto simp: refused_def)
    then show ?thesis
      by (simp add: NewRouter_def securityHeaders_def wp_bnd wp_ret) (erule wp_weaken, auto simp: refused_def)
  qed (simp add: NewRouter_def securityHeaders_def csrfMiddleware_def wp_simps refused_def answer_def)
  then show ?thesis by (auto simp: wp_def split: prod.splits sum.splits)
qed

end
