(* ===== verification/Gate.thy ===== *)
theory Gate
  imports Router
begin

text \<open>What a reset of the password means for every later request.\<close>

lemma latest_challenge_open:
  "latest_challenge user purpose w = Some c \<Longrightarrow>
     c \<in> set (challenges (db w)) \<and> ch_user c = user \<and> ch_purpose c = purpose \<and> open_challenge (clock w) c"
proof -
  assume some: "latest_challenge user purpose w = Some c"
  let ?open = "filter (\<lambda>c. ch_user c = user \<and> ch_purpose c = purpose \<and> open_challenge (clock w) c) (challenges (db w))"
  from some obtain cs where "rev (sort_key ch_created ?open) = c # cs" unfolding latest_challenge_def by (auto split: list.splits simp del: rev_eq_Cons_iff)
  then have "c \<in> set (rev (sort_key ch_created ?open))" by (metis list.set_intros(1))
  then show ?thesis by simp
qed

text \<open>A code that is accepted without a token is that of an open challenge of the user.\<close>

definition right_code :: "crypto \<Rightarrow> config \<Rightarrow> uuid \<Rightarrow> string \<Rightarrow> string \<Rightarrow> world \<Rightarrow> bool" where
  "right_code cr cfg user purpose code w \<longleftrightarrow>
     (\<exists>c \<in> set (challenges (db w)). ch_user c = user \<and> ch_purpose c = purpose \<and> open_challenge (clock w) c
        \<and> ch_attempts c < maxOTPAttempts \<and> ch_code c = hashOTP cr (SessionSecret cfg) (trim_space code))"

lemma consume_code_wp:
  "wp (consumeChallenge cr cfg user purpose [] code)
     (\<lambda>_ w'. right_code cr cfg user purpose code w \<and> db w' = (db w)\<lparr>challenges := challenges (db w')\<rparr> \<and> clock w' = clock w)
     (\<lambda>_ _. True) w"
proof -
  have same: "latest_challenge user purpose (pop w) = latest_challenge user purpose w" by (simp add: latest_challenge_def)
  have right: "right_code cr cfg user purpose code w"
    if "latest_challenge user purpose w = Some c" "\<not> maxOTPAttempts \<le> ch_attempts c" "hashOTP cr (SessionSecret cfg) (trim_space code) = ch_code c" for c
    using latest_challenge_open [OF that(1)] that(2,3) unfolding right_code_def by force
  show ?thesis
    by (auto simp: consumeChallenge_def Let_def wp_simps ask_row_def row_def consume_once_def set_consumed_def add_attempt_def same right split: option.split)
qed

lemma set_password_user:
  "map_option u_pw (user_of (update_user i (\<lambda>x. x\<lparr>u_pw := pw\<rparr>) d) i) = map_option (\<lambda>_. pw) (user_of d i)"
  by (cases "find (\<lambda>y. u_id y = i) (users d)") (auto simp: user_of_def update_user_def find_map_upd dest: find_set)


text \<open>What is left of the sessions and devices.\<close>

definition locked_out :: "uuid \<Rightarrow> world \<Rightarrow> world \<Rightarrow> bool" where
  "locked_out user w w' \<longleftrightarrow>
     web_sessions (db w') = filter (\<lambda>s. ws_user s \<noteq> user) (web_sessions (db w))
   \<and> devices (db w') = map (\<lambda>v. if dv_user v = user \<and> dv_revoked v = None then v\<lparr>dv_revoked := Some (clock w)\<rparr> else v) (devices (db w))"

lemma reset_wp:
  "wp (ResetPassword cr cfg remote email code password)
     (\<lambda>_ w'. \<exists>u. user_by_email (to_lower (trim_space email)) (db w) = Some u
        \<and> right_code cr cfg (u_id u) ''password_reset'' (trim_space code) w \<and> locked_out (u_id u) w w'
        \<and> (\<exists>x. user_of (db w') (u_id u) = Some x \<and> verifyPassword cr password (u_pw x)))
     (\<lambda>_ _. True) w"
  (is "wp _ ?Q _ _")
proof -
  define finish where "finish u = bnd (hashPassword cr password) (\<lambda>pw.
          bnd (db_stmt (upd (update_user (u_id u) (\<lambda>x. x\<lparr>u_pw := pw\<rparr>)))) (\<lambda>_.
          bnd (db_stmt (upd (\<lambda>d. d\<lparr>web_sessions := filter (\<lambda>s. ws_user s \<noteq> u_id u) (web_sessions d)\<rparr>))) (\<lambda>_.
          bnd (db_stmt (revoke_devices (\<lambda>v. dv_user v = u_id u))) (\<lambda>_. ret ()))))" for u :: user_row
  have tail: "wp (finish u) ?Q (\<lambda>_ _. True) w1"
    if w1: "db w1 = (db w)\<lparr>challenges := challenges (db w1)\<rparr>" "clock w1 = clock w"
      and u: "user_by_email (to_lower (trim_space email)) (db w) = Some u"
      and right: "right_code cr cfg (u_id u) ''password_reset'' (trim_space code) w" for u :: user_row and w1 :: world
  proof -
    have parts: "users (db w1) = users (db w)" "web_sessions (db w1) = web_sessions (db w)" "devices (db w1) = devices (db w)"
      using arg_cong [OF w1(1), of users] arg_cong [OF w1(1), of web_sessions] arg_cong [OF w1(1), of devices] by simp_all
    from u have "u \<in> set (users (db w1))" unfolding user_by_email_def parts by (auto dest: find_set)
    then have "user_of (db w1) (u_id u) \<noteq> None" unfolding user_of_def find_none by blast
    then obtain x0 where x0: "user_of (db w1) (u_id u) = Some x0" by blast
    have hashed: "wp (hashPassword cr password) (\<lambda>pw w2. verifyPassword cr password pw \<and> db w2 = db w1 \<and> clock w2 = clock w) (\<lambda>_ _. True) w1"
      unfolding hashPassword_def wp_bnd wp_rand_read wp_ret verify_hashed w1(2) [symmetric] by (simp split: option.split list.split)
    have rest: "wp (bnd (db_stmt (upd (update_user (u_id u) (\<lambda>x. x\<lparr>u_pw := pw\<rparr>)))) (\<lambda>_.
          bnd (db_stmt (upd (\<lambda>d. d\<lparr>web_sessions := filter (\<lambda>s. ws_user s \<noteq> u_id u) (web_sessions d)\<rparr>))) (\<lambda>_.
          bnd (db_stmt (revoke_devices (\<lambda>v. dv_user v = u_id u))) (\<lambda>_. ret ())))) ?Q (\<lambda>_ _. True) w2"
      if w2: "verifyPassword cr password pw" "db w2 = db w1" "clock w2 = clock w" for pw and w2 :: world
    proof -
      obtain x where x: "user_of (update_user (u_id u) (\<lambda>x. x\<lparr>u_pw := pw\<rparr>) (db w1)) (u_id u) = Some x" "u_pw x = pw"
        using set_password_user [of "u_id u" pw "db w1"] x0 by auto
      then show ?thesis
        using w2 u right
        by (auto simp: wp_simps revoke_devices_def Let_def locked_out_def parts user_of_def update_user_def intro!: exI [of _ u])
    qed
    show ?thesis unfolding finish_def by (subst wp_bnd) (rule wp_weaken [OF hashed], use rest in auto)
  qed
  have same: "right_code cr cfg i p c (pop v) = right_code cr cfg i p c v" "right_code cr cfg i p c (v\<lparr>login_limiter := l\<rparr>) = right_code cr cfg i p c v"
    for i p c l and v :: world by (simp_all add: right_code_def)
  define Q :: "unit \<Rightarrow> world \<Rightarrow> bool" where "Q = ?Q"
  show ?thesis
    unfolding ResetPassword_def Let_def finish_def [symmetric] Q_def [symmetric]
    by (auto simp: wp_simps row_def same split: option.split intro!: wp_weaken [OF consume_code_wp] tail [folded Q_def])
qed


text \<open>
  C40: resetting a password shuts everybody out. It succeeds only with the code of an open
  reset of the user with that address. Afterwards the new password is the one that is
  accepted, and no request, whatever cookie or token it carries, acts in the name of the
  user any more, neither through a session nor through a device; the sessions and devices
  of all others are as they were.
\<close>

theorem reset_ends_access:
  assumes "ResetPassword (s_crypto s) (s_config s) remote email code password w = (Inr (), w')"
  shows "\<exists>u. user_by_email (to_lower (trim_space email)) (db w) = Some u
    \<and> right_code (s_crypto s) (s_config s) (u_id u) ''password_reset'' (trim_space code) w
    \<and> (\<exists>x. user_of (db w') (u_id u) = Some x \<and> verifyPassword (s_crypto s) password (u_pw x))
    \<and> (\<forall>r x. session_owner s r w' = Some x \<or> device_owner s r w' = Some x \<longrightarrow> u_id x \<noteq> u_id u)
    \<and> web_sessions (db w') = filter (\<lambda>c. ws_user c \<noteq> u_id u) (web_sessions (db w))
    \<and> filter (\<lambda>v. dv_user v \<noteq> u_id u) (devices (db w')) = filter (\<lambda>v. dv_user v \<noteq> u_id u) (devices (db w))"
proof -
  obtain u where u: "user_by_email (to_lower (trim_space email)) (db w) = Some u"
      "right_code (s_crypto s) (s_config s) (u_id u) ''password_reset'' (trim_space code) w"
      "\<exists>x. user_of (db w') (u_id u) = Some x \<and> verifyPassword (s_crypto s) password (u_pw x)"
    and out: "locked_out (u_id u) w w'"
    using wp_InrD [OF reset_wp assms] by blast
  have owner: "user_of d i = Some x \<Longrightarrow> u_id x = i" for d i x by (auto simp: user_of_def dest: find_set)
  have sessions: "u_id x \<noteq> u_id u" if "session_user h w' = Some x" for h x
  proof -
    have "x \<in> set (concat (map (\<lambda>c. case user_of (db w') (ws_user c) of None \<Rightarrow> [] | Some u \<Rightarrow> [u])
        (filter (\<lambda>c. ws_token c = h \<and> clock w' < ws_expires c) (web_sessions (db w')))))"
      using that unfolding session_user_def by (auto split: list.splits simp del: set_concat)
    then obtain c where "c \<in> set (web_sessions (db w'))" "user_of (db w') (ws_user c) = Some x" by (auto split: option.splits)
    with out owner show ?thesis by (auto simp: locked_out_def)
  qed
  have devs: "u_id x \<noteq> u_id u" if "device_user h w' = Some (x, v)" for h x v
  proof -
    from that have "find (\<lambda>v. dv_token v = h \<and> live_device (clock w') v) (devices (db w')) = Some v" "user_of (db w') (dv_user v) = Some x"
      by (auto simp: device_user_def split: option.splits)
    then have "v \<in> set (devices (db w'))" "dv_revoked v = None" "u_id x = dv_user v"
      using owner by (auto simp: live_device_def dest: find_set)
    with out show ?thesis by (auto simp: locked_out_def split: if_splits)
  qed
  have "filter (\<lambda>v. dv_user v \<noteq> i) (map (\<lambda>v. if dv_user v = i \<and> dv_revoked v = None then v\<lparr>dv_revoked := t\<rparr> else v) vs)
      = filter (\<lambda>v. dv_user v \<noteq> i) vs" for i t vs
    by (induction vs) auto
  then have others: "filter (\<lambda>v. dv_user v \<noteq> u_id u) (devices (db w')) = filter (\<lambda>v. dv_user v \<noteq> u_id u) (devices (db w))"
    using out by (simp add: locked_out_def)
  have "u_id x \<noteq> u_id u" if "session_owner s r w' = Some x \<or> device_owner s r w' = Some x" for r x
    using that sessions devs by (auto simp: session_owner_def device_owner_def Let_def split: if_splits)
  with u others out show ?thesis unfolding locked_out_def by blast
qed

end
