(* ===== verification/Recursion.thy ===== *)
theory Recursion
  imports FilesInv Archives Collab
begin

text \<open>
  The recursive queries end. A query that would run forever is the error \<open>Diverges\<close> of the
  model; on a tree that the invariant \<open>entries_ok\<close> describes none of the operations that walk
  it, up or down, returns it, whatever fails in between.
\<close>

section \<open>Operations that return\<close>

text \<open>\<open>sure m\<close>: no query of \<open>m\<close> runs forever; \<open>returns m\<close>: none does on a sound tree.\<close>

definition sure :: "'a srv \<Rightarrow> bool" where
  "sure m \<longleftrightarrow> (\<forall>w. wp m (\<lambda>_ _. True) (\<lambda>e _. e \<noteq> Diverges) w)"

definition sound_tree :: "world \<Rightarrow> bool" where
  "sound_tree w \<longleftrightarrow> entries_ok (sql_lower w) (fresh w) (entries (db w))"

definition returns :: "'a srv \<Rightarrow> bool" where
  "returns m \<longleftrightarrow> (\<forall>w. sound_tree w \<longrightarrow> wp m (\<lambda>_ _. True) (\<lambda>e _. e \<noteq> Diverges) w)"

named_theorems sure_intros "operations without a recursive query"

lemma sure_pure [sure_intros]:
  "sure (ret x)" "e \<noteq> Diverges \<Longrightarrow> sure (fail e)" "e \<noteq> Diverges \<Longrightarrow> sure (require b e)" "sure (getw f)" "sure (modw g)"
  "sure (ignore m)" "sure (result m)" "sure new_uuid"
  by (auto simp: sure_def wp_simps new_uuid_def intro!: wp_any)

lemma sure_bnd [sure_intros]: "sure m \<Longrightarrow> (\<And>x. sure (f x)) \<Longrightarrow> sure (bnd m f)"
  unfolding sure_def wp_bnd by (blast intro: wp_weaken)

lemma sure_map_err [sure_intros]: "sure m \<Longrightarrow> (\<And>e. e \<noteq> Diverges \<Longrightarrow> g e \<noteq> Diverges) \<Longrightarrow> sure (map_err g m)"
  unfolding sure_def wp_map_err by (blast intro: wp_weaken)

lemma sure_on_err [sure_intros]: "sure m \<Longrightarrow> sure (on_err m h)"
  unfolding sure_def wp_on_err by (blast intro: wp_weaken wp_any)

lemma sure_cases [sure_intros]:
  "\<lbrakk>b \<Longrightarrow> sure m; \<not> b \<Longrightarrow> sure n\<rbrakk> \<Longrightarrow> sure (if b then m else n)"
  "\<lbrakk>y = None \<Longrightarrow> sure m; \<And>x. y = Some x \<Longrightarrow> sure (f x)\<rbrakk> \<Longrightarrow> sure (case y of None \<Rightarrow> m | Some x \<Rightarrow> f x)"
  "\<lbrakk>\<And>a. z = Inl a \<Longrightarrow> sure (g a); \<And>a. z = Inr a \<Longrightarrow> sure (h a)\<rbrakk> \<Longrightarrow> sure (case z of Inl a \<Rightarrow> g a | Inr a \<Rightarrow> h a)"
  "(\<And>a b. p = (a, b) \<Longrightarrow> sure (k a b)) \<Longrightarrow> sure (case p of (a, b) \<Rightarrow> k a b)"
  "(\<And>x. x = t \<Longrightarrow> sure (j x)) \<Longrightarrow> sure (let x = t in j x)"
  by (auto split: option.split sum.split prod.split)

lemma sure_each [sure_intros]: "(\<And>x. x \<in> set xs \<Longrightarrow> sure (f x)) \<Longrightarrow> sure (each f xs)"
  by (induction xs) (auto intro!: sure_intros)

lemma sure_stmts [sure_intros]:
  "sure (db_stmt (row g'))" "sure (db_stmt (sel g''))" "sure (db_stmt (ask_row a'))" "sure (db_stmt (look a''))" "sure (db_stmt (upd h))"
  "sure (tx_stmt (row g'))" "sure (tx_stmt (sel g''))" "sure (tx_stmt (ask_row a'))" "sure (tx_stmt (look a''))" "sure (tx_stmt (upd h))"
  "sure (tx_stmt (try_upd h'))" "sure (tx_stmt (checked c))"
  by (auto simp: sure_def wp_simps row_def sel_def ask_row_def look_def upd_def try_upd_def checked_def split: option.split)

lemma wp_with_tx_body:
  assumes "wp body (\<lambda>_ _. True) (\<lambda>e _. e \<noteq> Diverges) ((pop w)\<lparr>aborted := False\<rparr>)"
  shows "wp (with_tx body) (\<lambda>_ _. True) (\<lambda>e _. e \<noteq> Diverges) w"
  unfolding wp_with_tx by (auto intro!: wp_weaken [OF assms])

lemma sure_with_tx [sure_intros]: "sure body \<Longrightarrow> sure (with_tx body)"
  by (auto simp: sure_def intro!: wp_with_tx_body)

lemma sure_Append [sure_intros]: "sure (Append u i op name p k sz m v h dv cm)"
  by (auto simp: Append_def sure_def wp_simps Let_def)

lemma sure_log [sure_intros]: "sure (log_targets op k dv ts)"
  unfolding log_targets_def by (intro sure_intros)

lemma sure_gc [sure_intros]: "sure (DeleteUnreferenced keys)"
proof -
  have "sure (delete_loop seen keys)" for seen
    by (induction keys arbitrary: seen) (auto intro!: sure_intros simp: delete_unreferenced_key_def)
  then show ?thesis by (simp add: DeleteUnreferenced_def)
qed

lemma no_rows_ends [simp]: "e \<noteq> Diverges \<Longrightarrow> e' \<noteq> Diverges \<Longrightarrow> no_rows e' e \<noteq> Diverges"
  by (simp add: no_rows_def)

section \<open>On a sound tree\<close>

lemma returns_sure: "sure m \<Longrightarrow> returns m"
  by (simp add: sure_def returns_def)

lemma returns_bnd_sure: "returns m \<Longrightarrow> (\<And>x. sure (f x)) \<Longrightarrow> returns (bnd m f)"
  unfolding returns_def sure_def wp_bnd by (blast intro: wp_weaken)

lemma returns_bnd:
  assumes "returns m" and "steps entries_kept m" and "\<And>x. returns (f x)"
  shows "returns (bnd m f)"
proof -
  have "wp (bnd m f) (\<lambda>_ _. True) (\<lambda>e _. e \<noteq> Diverges) w" if "sound_tree w" for w
  proof -
    have "wp m (\<lambda>_ w'. sound_tree w') (\<lambda>_ _. True) w"
      by (rule wp_steps [OF assms(2)]) (use that in \<open>auto simp: kept_def sound_tree_def\<close>)
    moreover have "wp m (\<lambda>_ _. True) (\<lambda>e _. e \<noteq> Diverges) w" using assms(1) that by (simp add: returns_def)
    ultimately have "wp m (\<lambda>_ w'. sound_tree w' \<and> True) (\<lambda>e _. True \<and> e \<noteq> Diverges) w" by (rule wp_conj)
    then show ?thesis unfolding wp_bnd by (rule wp_weaken) (use assms(3) in \<open>auto simp: returns_def\<close>)
  qed
  then show ?thesis by (simp add: returns_def)
qed

lemma returns_map_err: "returns m \<Longrightarrow> (\<And>e. e \<noteq> Diverges \<Longrightarrow> g e \<noteq> Diverges) \<Longrightarrow> returns (map_err g m)"
  unfolding returns_def wp_map_err by (blast intro: wp_weaken)

lemma returns_cases: "(b \<Longrightarrow> returns m) \<Longrightarrow> (\<not> b \<Longrightarrow> returns n) \<Longrightarrow> returns (if b then m else n)"
  by simp

lemma returns_with_tx: "returns body \<Longrightarrow> returns (with_tx body)"
  by (auto simp: returns_def sound_tree_def intro!: wp_with_tx_body)

lemma returns_each:
  assumes "\<And>x. returns (f x)" and "\<And>x. steps entries_kept (f x)"
  shows "returns (each f xs)"
proof (induction xs)
  case Nil
  show ?case by (auto intro!: returns_sure sure_intros)
next
  case (Cons x xs)
  then show ?case by (auto intro!: returns_bnd assms)
qed

lemma sound_tree_forest: "sound_tree w \<Longrightarrow> forest (entries (db w))"
  by (simp add: sound_tree_def entries_ok_def)

lemma sound_tree_pop [simp]: "sound_tree (pop w) = sound_tree w"
  by (simp add: sound_tree_def)

text \<open>The walks themselves.\<close>

lemma walk_up: "forest es \<Longrightarrow> \<exists>chain. ancestors P es i = Some chain"
  using ancestors_terminates by blast

lemma walk_down: "forest es \<Longrightarrow> \<exists>r. subtree P es (filter Q es) = Some r"
  using subtree_terminates [of es "filter Q es" P] by auto

lemma returns_stmts:
  "(\<And>d. forest (entries d) \<Longrightarrow> g d \<noteq> Inl Diverges) \<Longrightarrow> returns (db_stmt (query g))"
  "(\<And>d. forest (entries d) \<Longrightarrow> g d \<noteq> Inl Diverges) \<Longrightarrow> returns (tx_stmt (query g))"
  "(\<And>w. sound_tree w \<Longrightarrow> f w \<noteq> Inl Diverges) \<Longrightarrow> returns (db_stmt (ask f))"
  by (auto simp: returns_def wp_simps query_def ask_def dest: sound_tree_forest split: sum.split)

lemma returns_Require: "returns (Require u r i act)"
proof -
  have "returns (aclRoleOnAncestors u i)"
    by (auto simp: returns_def aclRoleOnAncestors_def wp_simps query_def split: option.split sum.split
        dest!: sound_tree_forest intro: ancestors_terminates [THEN notE])
  then have "returns (effectiveLevel u i)"
    unfolding effectiveLevel_def case_prod_unfold Let_def
    by (intro returns_bnd [OF returns_sure [OF sure_map_err [OF sure_stmts(1)]] steps_map_err [OF kept_reads(2)]] returns_bnd_sure sure_pure) simp_all
  then have "returns (Can u r i act)"
    unfolding Can_def by (intro returns_cases returns_sure [OF sure_pure(1)] returns_bnd_sure sure_pure(1))
  then show ?thesis unfolding Require_def by (auto intro!: returns_bnd_sure sure_intros)
qed

section \<open>The operations\<close>

lemma sure_reads [sure_intros]: "sure (parentContext p)" "sure (entryByID i)" "sure (user_role u)"
  unfolding parentContext_def entryByID_def user_role_def by (intro sure_intros; simp)+

lemma sure_update_live [sure_intros]: "sure (update_live i g fk)"
  by (auto simp: update_live_def sure_def wp_simps split: option.split)

lemma returns_Move: "returns (Move u r i p dv)"
  unfolding Move_def
  by (rule returns_bnd [OF returns_Require kept_reads(7)] returns_bnd_sure returns_stmts(1) sure_intros
    | force dest!: walk_down [where P = live and Q = "\<lambda>f. fe_id f = i \<and> live f"] | simp)+

lemma returns_subtree: "returns (tx_subtree P Q)"
  unfolding tx_subtree_def
  by (rule returns_stmts(2)) (use subtree_terminates [of _ "filter _ _" P] in \<open>auto split: option.split\<close>)

lemma returns_mark: "returns (mark_subtree P Q stamp)"
proof -
  have "\<exists>r. subtree P (entries (db w)) (filter (Q (db w)) (entries (db w))) = Some r" if "sound_tree w" for w
    using that by (intro walk_down sound_tree_forest)
  then show ?thesis unfolding mark_subtree_def returns_def wp_tx_stmt by (fastforce simp: try_upd_def split: option.split)
qed

lemma returns_tree_change:
  "returns (with_tx (
       bnd (tx_subtree P Q) (\<lambda>targets.
       bnd (require (targets \<noteq> []) (Msg m)) (\<lambda>_.
       bnd (mark_subtree P Q' stamp) (\<lambda>_.
       log_targets op n dv targets)))))"
  unfolding tx_subtree_def
  by (rule returns_with_tx returns_bnd [OF returns_subtree [unfolded tx_subtree_def] kept_tx_query(1)]
      returns_bnd [OF returns_sure steps_pure(3) [OF preorder_kept]] returns_bnd_sure returns_mark sure_intros | simp)+

lemma returns_TrashEntry: "returns (TrashEntry u r i dv)"
  unfolding TrashEntry_def by (rule returns_bnd [OF returns_Require kept_reads(7)] returns_tree_change)+

lemma kept_user_role: "steps entries_kept (user_role u)"
  unfolding user_role_def by (intro steps_intros)

lemma returns_Restore: "returns (Restore u c i dv)"
  unfolding Restore_def Let_def
  by (rule returns_bnd [OF returns_sure [OF sure_reads(3)] kept_user_role] returns_bnd [OF returns_Require kept_reads(7)] returns_tree_change)+

lemma returns_Purge: "returns (Purge u i dv)"
proof -
  have "returns (purge_query i)"
    unfolding purge_query_def
    by (rule returns_stmts(2)) (use walk_down [where P = "\<lambda>_. True" and Q = "\<lambda>f. fe_id f = i \<and> trashed f"] in \<open>force split: option.split\<close>)
  then show ?thesis
    unfolding Purge_def purge_query_def [symmetric] Let_def
    by (intro returns_bnd [OF returns_sure [OF sure_reads(3)] kept_user_role] returns_bnd [OF returns_Require kept_reads(7)]
        returns_bnd_sure returns_with_tx sure_intros | assumption | simp)+
qed

lemma returns_CleanupTrash: "returns (CleanupTrash n)"
  unfolding CleanupTrash_def
  by (rule returns_bnd [OF returns_sure [OF sure_stmts(4)] kept_reads(6)] returns_each returns_Purge kept_Purge)+

lemma sure_open [sure_intros]: "sure (blob_open k)"
  by (auto simp: sure_def blob_open_def by_key_def st_open_def os_read_def wp_simps split: option.split)

lemma sure_zip_ready [sure_intros]: "sure (zip_ready items got n)"
  by (induction items got n rule: zip_ready.induct) (auto intro!: sure_intros)

lemma sure_zip_write [sure_intros]: "sure (zip_write items)"
proof (induction items)
  case (Cons item items)
  have "wp (blob_open (z_key item)) (\<lambda>_ _. True) (\<lambda>e _. e \<noteq> Diverges) w" for w using sure_open by (simp add: sure_def)
  then have "wp (zip_write (item # items)) (\<lambda>_ _. True) (\<lambda>e _. e \<noteq> Diverges) w" for w
    unfolding zip_write.simps wp_bnd wp_result
    by (rule wp_weaken) (use Cons in \<open>auto simp: wp_simps sure_def\<close>)
  then show ?case by (simp add: sure_def)
qed (auto intro: sure_intros)

lemma returns_Download: "returns (Download u r i)"
  unfolding Download_def by (rule returns_bnd_sure returns_Require sure_intros)+

lemma kept_entryByID: "steps entries_kept (entryByID i)"
  unfolding entryByID_def by (intro steps_intros)

text \<open>The query for an archive is the downward walk, with the paths.\<close>

lemma zip_levels_down: "map_option (map fst) (zip_levels n es xs) = down n live es (map fst xs)"
proof (induction n es xs rule: zip_levels.induct)
  case (3 n es x xs)
  have level: "map fst (concat (map (\<lambda>(t, rel). map (\<lambda>f. (f, if rel = [] then fe_name f else rel @ ''/'' @ fe_name f))
        (filter (\<lambda>f. live f \<and> fe_parent f = Some (fe_id t)) es)) ys)) = children live es (map fst ys)" for ys :: "(file_entry \<times> string) list"
    by (induction ys) (auto simp: children_def comp_def)
  have "down (Suc n) live es (map fst (x # xs)) = map_option (\<lambda>r. map fst (x # xs) @ r) (down n live es (children live es (map fst (x # xs))))"
    by (cases "down n live es (children live es (map fst (x # xs)))") simp_all
  then show ?case unfolding level [symmetric] "3.IH" [symmetric] zip_levels.simps
    by (simp only: option.map_comp comp_def map_append)
qed simp_all

lemma zip_rows_ends: "forest (entries (db w)) \<Longrightarrow> zip_rows i w \<noteq> Inl e"
  using walk_down [of "entries (db w)" live "\<lambda>f. fe_id f = i \<and> live f"]
    zip_levels_down [of "Suc (length (entries (db w)))" "entries (db w)" "map (\<lambda>f. (f, [])) (filter (\<lambda>f. fe_id f = i \<and> live f) (entries (db w)))"]
  by (auto simp: zip_rows_def subtree_def comp_def split: option.split)

lemma returns_WriteFolderZip: "returns (WriteFolderZip nanos u r i)"
proof -
  have "zip_rows i w \<noteq> Inl Diverges" if "sound_tree w" for w
    using that by (intro zip_rows_ends sound_tree_forest)
  then show ?thesis
    unfolding WriteFolderZip_def collectZipFiles_def
    by (intro returns_bnd [OF returns_Require kept_reads(7)] returns_bnd [OF returns_sure [OF sure_reads(2)] kept_entryByID]
       returns_bnd [OF returns_sure [OF sure_pure(3)] steps_pure(3) [OF preorder_kept]] returns_bnd_sure returns_stmts(3) sure_intros) simp_all
qed

lemma keep_if_error: "keep_if P xs = Inl e \<Longrightarrow> \<exists>x \<in> set xs. P x = Inl e"
  by (induction xs) (auto split: sum.splits)

lemma listed_for_ends: "forest (entries d) \<Longrightarrow> listed_for d u f \<noteq> Inl e"
  using walk_up [of "entries d" "\<lambda>_. True" "fe_id f"] by (auto simp: listed_for_def granted_above_def)

lemma returns_lists: "returns (ListRecent u)" "returns (Search u r q)"
proof -
  have ends: "map_sum id g (keep_if (listed_for d u) xs) \<noteq> Inl e" if "forest (entries d)" for g :: "file_entry list \<Rightarrow> file_entry list" and d xs e
    using listed_for_ends [OF that] keep_if_error [of "listed_for d u" xs] by (cases "keep_if (listed_for d u) xs") auto
  show "returns (ListRecent u)" unfolding ListRecent_def by (rule returns_stmts(1)) (rule ends)
  show "returns (Search u r q)" unfolding Search_def Let_def
    by (intro returns_bnd [OF returns_sure steps_pure(3) [OF preorder_kept]] sure_intros returns_stmts(3))
      (auto dest: sound_tree_forest simp: ends)
qed

text \<open>
  C39: the recursive queries end. In a state whose entries are a sound tree (the invariant
  of the file operations), reading or changing the tree never waits for a query that runs
  forever: not the check of a permission, moving, trashing, restoring, purging or cleaning
  up, not downloading a file or a folder as an archive, and not the lists of recent files
  or the search, whatever fails while they run.
\<close>

theorem recursive_queries_end:
  assumes "entries_ok (sql_lower w) (fresh w) (entries (db w))"
  shows "fst (Require u r i act w) \<noteq> Inl Diverges \<and> fst (Move u r i p dv w) \<noteq> Inl Diverges
    \<and> fst (TrashEntry u r i dv w) \<noteq> Inl Diverges \<and> fst (Restore u r i dv w) \<noteq> Inl Diverges
    \<and> fst (Purge u i dv w) \<noteq> Inl Diverges \<and> fst (CleanupTrash n w) \<noteq> Inl Diverges
    \<and> fst (Download u r i w) \<noteq> Inl Diverges \<and> fst (WriteFolderZip nanos u r i w) \<noteq> Inl Diverges
    \<and> fst (ListRecent u w) \<noteq> Inl Diverges \<and> fst (Search u r q w) \<noteq> Inl Diverges"
proof -
  have ends: "fst (m w) \<noteq> Inl Diverges" if "returns m" for m :: "'z srv"
    using that assms by (cases "m w") (auto simp: returns_def sound_tree_def wp_def split: sum.splits)
  show ?thesis
    by (intro conjI ends returns_Require returns_Move returns_TrashEntry returns_Restore returns_Purge returns_CleanupTrash
        returns_Download returns_WriteFolderZip returns_lists)
qed

text \<open>And a cycle of parents does make them run forever.\<close>

lemma cycle_diverges:
  assumes "faults w = []" and "entries (db w) = [e]" and "fe_parent e = Some (fe_id e)" and "fe_user e \<noteq> u" and "r \<noteq> ''admin''"
  shows "fst (Require u r (fe_id e) act w) = Inl Diverges"
  using assms
  by (simp add: Require_def Can_def effectiveLevel_def aclRoleOnAncestors_def bnd_def map_err_def db_stmt_def row_def query_def result_def
      level_row_def entry_of_def ancestors_def fail_def no_rows_def Let_def split: option.split)

end
