(* ===== verification/GateExamples.thy ===== *)
theory GateExamples
  imports Gate Recursion SharingExamples SignInExamples
begin

text \<open>The gate, the reset of a password and the recursive queries, at concrete states.\<close>

definition toy_site :: "string site" where
  "toy_site = \<lparr>s_crypto = toy, s_config = site_cfg, s_net = toy_net, s_trusted = toy_proxies, s_ids = toy_ids, s_parse_address = Some,
     s_license = None, s_smtp = (\<lambda>_ _ _ _ _ _. ret ()), s_order = id, s_disk = None, s_fallback = 0, s_sha = id, s_mime = (\<lambda>_. []),
     s_pace = None, s_acquire = ret (), s_nanos = 0, s_time = (\<lambda>_. None)\<rparr>"

text \<open>A stranger asks for the list of users.\<close>

definition nosy :: api_request where
  "nosy = \<lparr>ar_http = \<lparr>rq_method = ''GET'', rq_path = ''/api/admin/users'', rq_remote = ''9.9.9.9:1'', rq_tls = True, rq_headers = [],
       rq_cookies = [], rq_query = [], rq_form = []\<rparr>,
     ar_json = None, ar_length = 0, ar_stream = [], ar_form = (\<lambda>_. None), ar_user = None, ar_device = None\<rparr>"

lemma nosy_route: "route_of toy_site (\<lambda>_ _. ret panicked) nosy = Some ''/api/admin/users''"
proof -
  have "clean_path (ar_path nosy) = ''/api/admin/users''" by code_simp
  then show ?thesis
    unfolding route_of_def by (simp only:) (rule best_route_exact, simp add: private_routes_def admin_routes_def)
qed

theorem api_gate_witness:
  "\<exists>a w'. NewRouter toy_site (\<lambda>_ _. ret panicked) nosy site = (Inr a, w') \<and> refused a site w' \<and> db w' = db site"
proof -
  have "\<not> bearer (ar_http nosy)" "sessionCookieValue (ar_http nosy) = []" by code_simp+
  then have nobody: "acts_as toy_site b nosy site = None" for b
    by (simp add: acts_as_def session_owner_def)
  then have "\<not> permitted toy_site (\<lambda>_ _. ret panicked) ''/api/admin/users'' nosy site" by (simp add: permitted_def)
  moreover have "''/api/admin/users'' \<in> set (map fst (private_routes toy_site (\<lambda>_ _. ret panicked)))"
    by (simp add: private_routes_def admin_routes_def)
  ultimately show ?thesis using api_gate [OF nosy_route] nobody by blast
qed

theorem recursive_queries_end_witness:
  "fst (Search 2 ''user'' ''a'' site) \<noteq> Inl Diverges \<and> fst (Purge 1 12 None site) \<noteq> Inl Diverges"
  using recursive_queries_end [OF site_tree, of 1 _ 12 _ _ None] recursive_queries_end [OF site_tree, of 2 "''user''" _ _ _ _ _ _ "''a''"] by blast

text \<open>The owner has asked for a reset.\<close>

definition resetting :: world where
  "resetting = drawn 1 (challenged ''password_reset'')"

lemma resetting_works: "ok (fst (ResetPassword toy site_cfg ''9.9.9.9'' ''Ann@x.y'' ''123456'' ''new password'' resetting))"
proof -
  let ?w = "resetting\<lparr>login_limiter := snd (lim_blocked 0 ''9.9.9.9:reset-complete'' (login_limiter resetting))\<rparr>"
  have words: "to_lower (trim_space ''Ann@x.y'') = ''ann@x.y''" "trim_space ''123456'' = ''123456''" by code_simp+
  have open': "blocked (''9.9.9.9'' @ '':reset-complete'') resetting = (Inr False, ?w)"
    by (simp add: blocked_def lim_blocked_def resetting_def challenged_def drawn_def site_def boot_def sweep_def attempts_of_def pruneAfter_def Let_def)
  have quiet: "faults ?w = []" by (simp add: resetting_def challenged_def drawn_def)
  obtain u where u: "user_by_email ''ann@x.y'' (db ?w) = Some u" "u_id u = 1"
    by (simp add: resetting_def challenged_def drawn_def user_by_email_def site_db_def site_user_def user_row_def)
  have "latest_challenge 1 ''password_reset'' ?w = Some (toy_challenge ''password_reset'')" "challenges (db ?w) = [toy_challenge ''password_reset'']"
    "entropy ?w = [Some of_byte]"
    by (simp_all add: latest_challenge_def resetting_def challenged_def drawn_def open_challenge_def toy_challenge_def)
  with quiet u open' show ?thesis
    by (simp add: ok_def ResetPassword_def words consumeChallenge_def bnd_def require_def ret_def result_def map_err_def on_err_def db_stmt_def row_def
        ask_row_def consume_once_def toy_challenge_def hashPassword_def rand_read_def upd_def revoke_devices_def Let_def)
qed

theorem reset_ends_access_witness:
  "\<exists>w'. ResetPassword toy site_cfg ''9.9.9.9'' ''Ann@x.y'' ''123456'' ''new password'' resetting = (Inr (), w')
     \<and> (\<exists>u. user_by_email (to_lower (trim_space ''Ann@x.y'')) (db resetting) = Some u
        \<and> (\<forall>r x. session_owner toy_site r w' = Some x \<longrightarrow> u_id x \<noteq> u_id u))"
proof -
  obtain w' where run: "ResetPassword toy site_cfg ''9.9.9.9'' ''Ann@x.y'' ''123456'' ''new password'' resetting = (Inr (), w')"
    using ok_run [of "ResetPassword toy site_cfg ''9.9.9.9'' ''Ann@x.y'' ''123456'' ''new password''" resetting, OF resetting_works] by auto
  then have "ResetPassword (s_crypto toy_site) (s_config toy_site) ''9.9.9.9'' ''Ann@x.y'' ''123456'' ''new password'' resetting = (Inr (), w')"
    by (simp add: toy_site_def)
  from reset_ends_access [OF this] run show ?thesis by blast
qed

end
