(* ===== verification/WebDav.thy ===== *)
theory WebDav
  imports Router Archives
begin

text \<open>
  \<open>internal/webdavx/handler.go\<close>: the files of a user as a WebDAV share. The protocol itself
  is in \<open>golang.org/x/net/webdav\<close>, the parameter \<open>serve\<close>; it calls the operations of this
  theory. \<open>eqf\<close> is \<open>strings.EqualFold\<close> on names with any letters. \<open>authC\<close>, the cache of
  credentials, lives beside the state of the server.
\<close>

section \<open>Who it is\<close>

type_synonym auth_cache = "string \<Rightarrow> (account \<times> int) option"

type_synonym 'a dav = "(auth_cache \<times> world, err, 'a) io"

text \<open>\<open>http.Request.BasicAuth\<close>, with \<open>base64.StdEncoding\<close>.\<close>

definition basic_auth :: "http_request \<Rightarrow> (string \<times> string) option" where
  "basic_auth r =
     (let auth = rq_header r ''Authorization'' in
      if length auth < length ''Basic '' \<or> \<not> map lower_byte (take (length ''Basic '') auth) = ''basic '' then None
      else (case base64_padded (drop (length ''Basic '') auth) of
          None \<Rightarrow> None
        | Some cs \<Rightarrow> split_once CHR '':'' cs))"

definition auth_key :: "crypto \<Rightarrow> string \<Rightarrow> string \<Rightarrow> string" where
  "auth_key cr u p = hex_encode (sha256 cr (u @ [CHR 0x00] @ p))"

definition dav_remember :: "string \<Rightarrow> account \<Rightarrow> account dav" where
  "dav_remember key acc =
     bnd (getw (\<lambda>(c, w). clock w)) (\<lambda>now.
     bnd (modw (\<lambda>(c, w). (c(key \<mapsto> (acc, now + 600)), w))) (\<lambda>_. ret acc))"

definition dav_sign_in :: "'a site \<Rightarrow> (string \<Rightarrow> string \<Rightarrow> bool) \<Rightarrow> api_request \<Rightarrow> string \<Rightarrow> string \<Rightarrow> account dav" where
  "dav_sign_in s eqf r u p =
     (let key = auth_key (s_crypto s) u p in
      bnd (result (on_server (UserByDeviceToken (s_crypto s) (s_config s) p))) (\<lambda>d.
      case (case d of Inl _ \<Rightarrow> None | Inr (acc, _) \<Rightarrow> if eqf (u_email (acc_user acc)) u then Some acc else None) of
        Some acc \<Rightarrow> dav_remember key acc
      | None \<Rightarrow>
          bnd (on_server (BeginDeviceLogin (s_crypto s) (s_config s) (s_mailer s) (client_ip s r) u p)) (\<lambda>res.
          bnd (require (\<not> lr_requires res) (Msg ''2FA is enabled'')) (\<lambda>_.
          case lr_user res of None \<Rightarrow> fail (Msg ''unauthorized'') | Some acc \<Rightarrow> dav_remember key acc))))"

definition dav_user :: "'a site \<Rightarrow> (string \<Rightarrow> string \<Rightarrow> bool) \<Rightarrow> api_request \<Rightarrow> account dav" where
  "dav_user s eqf r =
     (case basic_auth (ar_http r) of
        Some (u, p) \<Rightarrow>
          let key = auth_key (s_crypto s) u p in
          bnd (getw (\<lambda>(c, w). (c key, clock w))) (\<lambda>(hit, now).
          case hit of
            None \<Rightarrow> dav_sign_in s eqf r u p
          | Some (acc, expires) \<Rightarrow>
              if now < expires then ret acc
              else bnd (modw (\<lambda>(c, w). (c(key := None), w))) (\<lambda>_. dav_sign_in s eqf r u p))
      | None \<Rightarrow>
          let token = sessionCookieValue (ar_http r) in
          if token \<noteq> [] then on_server (UserBySession (s_crypto s) (s_config s) token) else fail (Msg ''unauthorized''))"

definition dav_ServeHTTP :: "'a site \<Rightarrow> (string \<Rightarrow> string \<Rightarrow> bool) \<Rightarrow> (account \<Rightarrow> handler) \<Rightarrow> api_request \<Rightarrow> http_reply dav" where
  "dav_ServeHTTP s eqf serve r =
     or_else (dav_user s eqf r)
       (\<lambda>_. ret ((refuse 401 (Msg ''authentication required''))\<lparr>hr_headers := [(''WWW-Authenticate'', ''Basic realm=\"TR Driver\"'')]\<rparr>))
       (\<lambda>acc. on_server (serve acc r))"

section \<open>Paths\<close>

definition dav_clean :: "string \<Rightarrow> string" where
  "dav_clean p = (let q = go_clean (CHR ''/'' # trim_prefix p ''/'') in if q = ''.'' then ''/'' else q)"

definition dav_split :: "string \<Rightarrow> string list" where
  "dav_split p = (let q = trim_char CHR ''/'' (dav_clean p) in if q = [] then [] else split_at CHR ''/'' q)"

definition dav_root :: "user_row \<Rightarrow> uuid srv" where
  "dav_root u = (case u_root u of None \<Rightarrow> fail (Msg ''invalid input syntax for type uuid'') | Some i \<Rightarrow> ret i)"

fun dav_walk :: "(string \<Rightarrow> string \<Rightarrow> bool) \<Rightarrow> user_row \<Rightarrow> string list \<Rightarrow> uuid \<Rightarrow> file_entry option \<Rightarrow> file_entry srv" where
  "dav_walk eqf u [] cur entry = (case entry of None \<Rightarrow> fail NotExist | Some e \<Rightarrow> ret e)"
| "dav_walk eqf u (part # parts) cur entry =
     bnd (List (u_id u) (u_role u) cur) (\<lambda>items.
     case find (\<lambda>(f, _). eqf (fe_name f) part) items of
       None \<Rightarrow> fail NotExist
     | Some (f, _) \<Rightarrow> dav_walk eqf u parts (fe_id f) (Some f))"

definition dav_lookup :: "(string \<Rightarrow> string \<Rightarrow> bool) \<Rightarrow> user_row \<Rightarrow> string \<Rightarrow> file_entry srv" where
  "dav_lookup eqf u name =
     (let parts = dav_split name in
      if parts = [] then fail NotExist else bnd (dav_root u) (\<lambda>root. dav_walk eqf u parts root None))"

text \<open>\<open>path.Split\<close> cuts after the last slash.\<close>

definition path_split :: "string \<Rightarrow> string \<times> string" where
  "path_split p = (let base = rev (takeWhile (\<lambda>c. c \<noteq> CHR ''/'') (rev p)) in (take (length p - length base) p, base))"

definition resolveParent :: "(string \<Rightarrow> string \<Rightarrow> bool) \<Rightarrow> user_row \<Rightarrow> string \<Rightarrow> (uuid \<times> string) srv" where
  "resolveParent eqf u name =
     (let (dir0, base) = path_split (dav_clean name); dir = dav_clean dir0 in
      bnd (require (\<not> (base = [] \<or> base = ''.'' \<or> base = ''..'')) (Msg ''invalid argument'')) (\<lambda>_.
      if dir = ''/'' \<or> dir = [] then bnd (dav_root u) (\<lambda>root. ret (root, base))
      else bnd (dav_lookup eqf u dir) (\<lambda>parent.
        bnd (require (fe_kind parent = Folder) (Msg ''invalid argument'')) (\<lambda>_. ret (fe_id parent, base)))))"

section \<open>Folders and changes\<close>

definition dav_Mkdir :: "(string \<Rightarrow> string \<Rightarrow> bool) \<Rightarrow> user_row \<Rightarrow> string \<Rightarrow> unit srv" where
  "dav_Mkdir eqf u name =
     bnd (resolveParent eqf u name) (\<lambda>(parent, base).
     bnd (CreateFolder (u_id u) (u_role u) parent base None) (\<lambda>_. ret ()))"

definition dav_RemoveAll :: "(string \<Rightarrow> string \<Rightarrow> bool) \<Rightarrow> user_row \<Rightarrow> string \<Rightarrow> unit srv" where
  "dav_RemoveAll eqf u name = bnd (dav_lookup eqf u name) (\<lambda>e. TrashEntry (u_id u) (u_role u) (fe_id e) None)"

definition dav_Rename :: "(string \<Rightarrow> string \<Rightarrow> bool) \<Rightarrow> user_row \<Rightarrow> string \<Rightarrow> string \<Rightarrow> unit srv" where
  "dav_Rename eqf u oldName newName =
     bnd (dav_lookup eqf u oldName) (\<lambda>e.
     bnd (resolveParent eqf u newName) (\<lambda>(newParent, newBase).
     bnd (require (newBase \<noteq> []) (Msg ''invalid argument'')) (\<lambda>_.
     let oldParent = (case fe_parent e of None \<Rightarrow> u_root u | p \<Rightarrow> p) in
     bnd (if oldParent \<noteq> Some newParent then Move (u_id u) (u_role u) (fe_id e) newParent None else ret ()) (\<lambda>_.
     if eqf (fe_name e) newBase then ret () else Rename (u_id u) (u_role u) (fe_id e) newBase None))))"

record dav_info =
  di_name :: string
  di_size :: int
  di_dir :: bool
  di_mod :: int

definition infoFromEntry :: "file_entry \<Rightarrow> dav_info" where
  "infoFromEntry e = \<lparr>di_name = fe_name e, di_size = fe_size e, di_dir = (fe_kind e = Folder), di_mod = fe_updated e\<rparr>"

definition dav_Stat :: "(string \<Rightarrow> string \<Rightarrow> bool) \<Rightarrow> user_row \<Rightarrow> string \<Rightarrow> dav_info srv" where
  "dav_Stat eqf u name =
     (let q = dav_clean name in
      if q = ''/'' \<or> q = [] then bnd (getw clock) (\<lambda>now. ret \<lparr>di_name = ''/'', di_size = 0, di_dir = True, di_mod = now\<rparr>)
      else bnd (map_err (\<lambda>_. NotExist) (dav_lookup eqf u q)) (\<lambda>e. ret (infoFromEntry e)))"

record dav_dir =
  dd_id :: uuid
  dd_name :: string
  dd_pos :: nat
  dd_list :: "file_entry list option"

text \<open>A directory is read once and then given out in pieces. The end is the error of \<open>io.EOF\<close>.\<close>

definition dir_Readdir :: "user_row \<Rightarrow> dav_dir \<Rightarrow> int \<Rightarrow> ((err + dav_info list) \<times> dav_dir) srv" where
  "dir_Readdir u d n =
     bnd (result (case dd_list d of None \<Rightarrow> bnd (List (u_id u) (u_role u) (dd_id d)) (\<lambda>items. ret (map fst items)) | Some l \<Rightarrow> ret l)) (\<lambda>r.
     case r of
       Inl e \<Rightarrow> ret (Inl e, d)
     | Inr l \<Rightarrow>
         let d = d\<lparr>dd_list := Some l\<rparr>; pos = dd_pos d in
         if length l \<le> pos then ret (if 0 < n then Inl (Msg ''EOF'') else Inr [], d)
         else let stop = (if 0 < n \<and> pos + nat n < length l then pos + nat n else length l)
              in ret (Inr (map infoFromEntry (take (stop - pos) (drop pos l))), d\<lparr>dd_pos := stop\<rparr>))"

section \<open>Files\<close>

text \<open>
  A \<open>davFile\<close>: \<open>df_reader\<close> the rest of the blob, \<open>df_spool\<close> the temporary file with its own
  position \<open>df_pos\<close>. \<open>df_offset\<close> and \<open>df_size\<close> are the fields \<open>offset\<close> and \<open>size\<close>.
\<close>

record dav_file =
  df_entry :: "file_entry option"
  df_parent :: "uuid option"
  df_name :: string
  df_reader :: "string option"
  df_writing :: bool
  df_create :: bool
  df_spool :: "string option"
  df_pos :: int
  df_size :: int
  df_offset :: int
  df_dirty :: bool

datatype dav_handle = DavDir dav_dir | DavFile dav_file

datatype open_flag = O_WRONLY | O_RDWR | O_CREATE | O_TRUNC

definition TempFile :: "unit srv" where
  "TempFile = bnd os_mkdir (\<lambda>_. oscall (ret ()))"

definition openWriteSpool :: "(string \<Rightarrow> string \<Rightarrow> bool) \<Rightarrow> user_row \<Rightarrow> file_entry option \<Rightarrow> string \<Rightarrow> bool \<Rightarrow> dav_file srv" where
  "openWriteSpool eqf u entry name trunc =
     bnd (case entry of None \<Rightarrow> bnd (resolveParent eqf u name) (\<lambda>(p, b). ret (Some p, b)) | Some e \<Rightarrow> ret (None, fe_name e)) (\<lambda>(parent, base).
     bnd TempFile (\<lambda>_.
     bnd (case entry of
         None \<Rightarrow> ret []
       | Some e \<Rightarrow>
           if trunc then ret []
           else bnd (OpenStorage (fe_key e)) (\<lambda>content. bnd (oscall (ret ())) (\<lambda>_. bnd (oscall (ret ())) (\<lambda>_. ret content)))) (\<lambda>spool.
     ret \<lparr>df_entry = entry, df_parent = parent, df_name = base, df_reader = None, df_writing = True, df_create = (entry = None),
       df_spool = Some spool, df_pos = 0, df_size = int (length spool), df_offset = 0, df_dirty = trunc\<rparr>)))"

definition dav_OpenFile :: "(string \<Rightarrow> string \<Rightarrow> bool) \<Rightarrow> user_row \<Rightarrow> string \<Rightarrow> open_flag list \<Rightarrow> dav_handle srv" where
  "dav_OpenFile eqf u name0 flags =
     (let name = dav_clean name0 in
      if name = ''/'' \<or> name = [] then
        bnd (dav_root u) (\<lambda>root. ret (DavDir \<lparr>dd_id = root, dd_name = ''/'', dd_pos = 0, dd_list = None\<rparr>))
      else bnd (result (dav_lookup eqf u name)) (\<lambda>r.
        case r of
          Inl _ \<Rightarrow>
            bnd (require (O_CREATE \<in> set flags \<or> O_WRONLY \<in> set flags \<or> O_RDWR \<in> set flags) NotExist) (\<lambda>_.
            bnd (openWriteSpool eqf u None name True) (\<lambda>f. ret (DavFile f)))
        | Inr e \<Rightarrow>
            if fe_kind e = Folder then ret (DavDir \<lparr>dd_id = fe_id e, dd_name = fe_name e, dd_pos = 0, dd_list = None\<rparr>)
            else if O_WRONLY \<in> set flags \<or> O_RDWR \<in> set flags \<or> O_TRUNC \<in> set flags then
              bnd (openWriteSpool eqf u (Some e) name (O_TRUNC \<in> set flags)) (\<lambda>f. ret (DavFile f))
            else
              bnd (OpenStorage (fe_key e)) (\<lambda>content.
              ret (DavFile \<lparr>df_entry = Some e, df_parent = None, df_name = [], df_reader = Some content, df_writing = False,
                df_create = False, df_spool = None, df_pos = 0, df_size = 0, df_offset = 0, df_dirty = False\<rparr>))))"

definition parentIDForWrite :: "dav_file \<Rightarrow> uuid option" where
  "parentIDForWrite f = (case Option.bind (df_entry f) fe_parent of None \<Rightarrow> df_parent f | p \<Rightarrow> p)"

definition file_Close :: "'a site \<Rightarrow> user_row \<Rightarrow> dav_file \<Rightarrow> unit srv" where
  "file_Close s u f =
     (case df_spool f of
        None \<Rightarrow> ret ()
      | Some content \<Rightarrow>
          if \<not> df_dirty f \<and> \<not> (df_create f \<and> df_size f = 0) then ret ()
          else bnd (oscall (ret ())) (\<lambda>_.
            let mime = (case df_entry f of
                Some e \<Rightarrow> if fe_mime e \<noteq> [] then fe_mime e else resolveContentType (s_mime s) (df_name f) []
              | None \<Rightarrow> resolveContentType (s_mime s) (df_name f) []) in
            case parentIDForWrite f of
              None \<Rightarrow> fail (Msg ''invalid input syntax for type uuid'')
            | Some p \<Rightarrow> UploadStream (s_config s) (u_id u) (u_role u) p (df_name f) mime (df_size f) [Data content] None))"

definition file_Read :: "nat \<Rightarrow> dav_file \<Rightarrow> (err + string) \<times> dav_file" where
  "file_Read n f =
     (case df_spool f of
        Some content \<Rightarrow>
          let bs = take n (drop (nat (df_pos f)) content) in
          (if bs = [] \<and> 0 < n then Inl (Msg ''EOF'') else Inr bs,
           f\<lparr>df_pos := df_pos f + int (length bs), df_offset := df_offset f + int (length bs)\<rparr>)
      | None \<Rightarrow> (case df_reader f of
            None \<Rightarrow> (Inl (Msg ''EOF''), f)
          | Some rest \<Rightarrow>
              (if take n rest = [] \<and> 0 < n then Inl (Msg ''EOF'') else Inr (take n rest), f\<lparr>df_reader := Some (drop n rest)\<rparr>)))"

text \<open>\<open>os.File.WriteAt\<close>: what lies beyond the end is zero up to the offset. Nothing extends nothing.\<close>

definition write_at :: "string \<Rightarrow> nat \<Rightarrow> string \<Rightarrow> string" where
  "write_at content off bs =
     (if bs = [] then content else take off (content @ replicate (off - length content) CHR 0x00) @ bs @ drop (off + length bs) content)"

definition file_Write :: "config \<Rightarrow> string \<Rightarrow> dav_file \<Rightarrow> ((err + nat) \<times> dav_file) srv" where
  "file_Write cfg p f =
     (case df_spool f of
        None \<Rightarrow> ret (Inl (Msg ''invalid argument''), f)
      | Some content \<Rightarrow>
          if \<not> df_writing f \<or> MaxUploadBytes cfg < df_offset f + int (length p) then ret (Inl (Msg ''invalid argument''), f)
          else bnd (result (oscall (ret ()))) (\<lambda>r.
            let n = (case r of Inl _ \<Rightarrow> 0 | Inr _ \<Rightarrow> length p); off = df_offset f + int n in
            ret (case r of Inl e \<Rightarrow> Inl e | Inr _ \<Rightarrow> Inr n,
              f\<lparr>df_spool := Some (write_at content (nat (df_offset f)) (take n p)), df_offset := off,
                df_size := max (df_size f) off, df_dirty := True\<rparr>)))"

datatype whence = SeekStart | SeekCurrent | SeekEnd

definition file_Seek :: "int \<Rightarrow> whence \<Rightarrow> dav_file \<Rightarrow> (err + int) \<times> dav_file" where
  "file_Seek offset wh f =
     (case df_spool f of
        Some content \<Rightarrow>
          let target = offset + (case wh of SeekStart \<Rightarrow> 0 | SeekCurrent \<Rightarrow> df_pos f | SeekEnd \<Rightarrow> int (length content)) in
          if target < 0 then (Inl (Msg ''invalid argument''), f) else (Inr target, f\<lparr>df_pos := target, df_offset := target\<rparr>)
      | None \<Rightarrow>
          let target = offset + (case wh of SeekStart \<Rightarrow> 0 | SeekCurrent \<Rightarrow> df_offset f | SeekEnd \<Rightarrow> df_size f) in
          if target < 0 then (Inl (Msg ''invalid argument''), f) else (Inr target, f\<lparr>df_offset := target\<rparr>))"

definition file_Stat :: "int \<Rightarrow> dav_file \<Rightarrow> dav_info" where
  "file_Stat now f =
     (case df_entry f of
        Some e \<Rightarrow> if df_dirty f then \<lparr>di_name = df_name f, di_size = df_size f, di_dir = False, di_mod = now\<rparr> else infoFromEntry e
      | None \<Rightarrow> \<lparr>di_name = df_name f, di_size = df_size f, di_dir = False, di_mod = now\<rparr>)"

section \<open>Credentials\<close>

definition remembered :: "string \<Rightarrow> account \<Rightarrow> auth_cache \<times> world \<Rightarrow> bool" where
  "remembered key acc = (\<lambda>(c, w). c key = Some (acc, clock w + 600))"

lemma dav_sign_in_wp: "wp (dav_sign_in s eqf r u p) (remembered (auth_key (s_crypto s) u p)) (\<lambda>_ _. True) (c, w)"
proof -
  have keep: "wp (dav_remember key acc) (remembered key) E (c', w')" for key acc E c' w'
    by (simp add: dav_remember_def wp_simps remembered_def)
  have device: "wp (UserByDeviceToken (s_crypto s) (s_config s) p) Q E w" if "\<And>x w'. Q x w'" "\<And>e w'. E e w'" for Q E
    by (rule wp_any) (use that in blast)+
  have login: "wp (BeginDeviceLogin (s_crypto s) (s_config s) (s_mailer s) (client_ip s r) u p) Q E w'" if "\<And>x w'. Q x w'" "\<And>e w'. E e w'" for Q E w'
    by (rule wp_any) (use that in blast)+
  show ?thesis
    by (auto simp: dav_sign_in_def Let_def wp_simps intro!: device login keep split: option.split sum.split)
qed

text \<open>
  C15: a WebDAV password counts for ten minutes more, whatever happens to the account.
  After a request with credentials has been let in, not from the cache, every request with
  the same credentials is let in until ten minutes have passed, as the same user with the same
  role, in any state of the server: when the password has been reset, the device revoked,
  the role taken away or the account deleted.
\<close>

theorem dav_cache_outlives_account:
  assumes "dav_user s eqf r (c, w) = (Inr acc, (c', w'))" and "basic_auth (ar_http r) = Some (u, p)"
    and "\<And>a t. c (auth_key (s_crypto s) u p) = Some (a, t) \<Longrightarrow> t \<le> clock w" and "clock later < clock w' + 600"
  shows "dav_user s eqf r (c', later) = (Inr acc, (c', later))"
proof -
  have "wp (dav_user s eqf r) (remembered (auth_key (s_crypto s) u p)) (\<lambda>_ _. True) (c, w)"
    using assms(2,3) by (auto simp: dav_user_def Let_def wp_simps dav_sign_in_wp not_less split: option.split)
  from wp_InrD [OF this assms(1)] have "c' (auth_key (s_crypto s) u p) = Some (acc, clock w' + 600)" by (simp add: remembered_def)
  with assms(2,4) show ?thesis by (simp add: dav_user_def Let_def bnd_def getw_def ret_def)
qed

section \<open>Reading\<close>

text \<open>
  C30: a file that is opened for reading has no size. Seeking to its end, which is how
  \<open>http.ServeContent\<close> finds out how much to send, leads to 0, although the file has
  content and its \<open>Stat\<close> the right size: a download over WebDAV is empty. Nor does seeking to the start
  bring back what has been read.
\<close>

theorem dav_file_has_no_end:
  assumes "dav_OpenFile eqf u name [] w = (Inr (DavFile f), w')"
  shows "\<exists>e content. df_entry f = Some e \<and> files w (fe_key e) = Some content \<and> di_size (file_Stat now f) = fe_size e
    \<and> fst (file_Seek 0 SeekEnd f) = Inr 0
    \<and> fst (file_Read n (snd (file_Seek 0 SeekStart (snd (file_Read m f))))) = (if take n (drop m content) = [] \<and> 0 < n then Inl (Msg ''EOF'') else Inr (take n (drop m content)))"
proof -
  have walk: "quiet (dav_walk eqf u parts i x)" for parts i x
  proof (induction parts arbitrary: i x)
    case (Cons part parts)
    then show ?case by (auto simp: List_def intro!: steps_intros)
  qed (auto intro!: steps_intros)
  then have lookup: "quiet (dav_lookup eqf u name)" for name
    by (auto simp: dav_lookup_def dav_root_def Let_def intro!: steps_intros)
  have look: "wp (dav_lookup eqf u name) Q E w"
    if "\<And>e w'. files w' = files w \<Longrightarrow> Q e w'" "\<And>e w'. E e w'" for name Q E
    by (rule wp_steps [OF lookup]) (use that in \<open>auto simp: used_faults_def\<close>)
  have "wp (dav_OpenFile eqf u name []) (\<lambda>h _. case h of DavDir _ \<Rightarrow> True
      | DavFile f \<Rightarrow> \<exists>e content. df_entry f = Some e \<and> files w (fe_key e) = Some content \<and> df_reader f = Some content
          \<and> df_spool f = None \<and> df_size f = 0 \<and> \<not> df_dirty f) (\<lambda>_ _. True) w"
    by (auto simp: dav_OpenFile_def Let_def wp_simps dav_root_def OpenStorage_def blob_open_def by_key_def st_open_def os_read_def
        split: option.split intro!: look)
  from wp_InrD [OF this assms] obtain e content where "df_entry f = Some e" "files w (fe_key e) = Some content" "df_reader f = Some content"
    "df_spool f = None" "df_size f = 0" "\<not> df_dirty f" by auto
  then show ?thesis by (simp add: file_Stat_def infoFromEntry_def file_Seek_def file_Read_def Let_def)
qed

section \<open>Writing\<close>

text \<open>Writing pieces one after the other to a new file collects them, and closing it stores exactly that.\<close>

definition collects :: "string \<Rightarrow> dav_file \<Rightarrow> bool" where
  "collects content f \<longleftrightarrow> df_writing f \<and> df_spool f = Some content \<and> df_offset f = int (length content) \<and> df_size f = int (length content)"

lemma file_Write_wp:
  assumes "collects content f"
  shows "wp (file_Write cfg p f) (\<lambda>(r, f') _. case r of
      Inr n \<Rightarrow> n = length p \<and> collects (content @ p) f' \<and> df_dirty f' \<and> df_entry f' = df_entry f \<and> df_parent f' = df_parent f \<and> df_name f' = df_name f
    | Inl _ \<Rightarrow> True) (\<lambda>_ _. False) w"
  using assms by (auto simp: file_Write_def collects_def wp_simps Let_def write_at_def)

end
