(* ===== verification/Licence.thy ===== *)
theory Licence
  imports AuthHttp
begin

text \<open>
  \<open>internal/license\<close>: licence keys. A customer's server makes a request code, the vendor signs
  a key for it, and the key activates the one instance that asked. Ed25519, the text of a JSON
  object and the calendar are parameters, and so is the environment of the process; the table
  \<open>instance_license\<close>, which has one row at most, stands beside the state of the server.
\<close>

section \<open>Tiers\<close>

record tier_info =
  t_code :: string
  t_name :: string
  t_max :: int
  t_price_tl :: int
  t_price_kurus :: int
  t_description :: string
  t_free :: bool

text \<open>The table of \<open>tiers.go\<close>, with the bytes of its Turkish letters.\<close>

definition Catalog :: "tier_info list" where
  "Catalog =
     (let u = [CHR 0xC3, CHR 0xBC]; i = [CHR 0xC4, CHR 0xB1]; dash = [CHR 0xE2, CHR 0x80, CHR 0x94];
          free = ''Tamamen '' @ u @ ''cretsiz'';
          no_limit = free @ '' '' @ dash @ '' kullan'' @ i @ ''c'' @ i @ '' limiti yok'';
          tier = (\<lambda>code name text. \<lparr>t_code = code, t_name = name, t_max = 0, t_price_tl = 0, t_price_kurus = 0, t_description = text,
            t_free = True\<rparr>)
      in [tier ''personal'' ''Bireysel'' free, tier ''small'' ''Ekip'' no_limit, tier ''medium'' ''Kurum'' no_limit,
          tier ''unlimited'' (''S'' @ i @ ''n'' @ i @ ''rs'' @ i @ ''z'') free])"

definition MaxUsersForTier :: "string \<Rightarrow> int option" where
  "MaxUsersForTier code = map_option t_max (find (\<lambda>t. t_code t = code) Catalog)"

section \<open>Keys\<close>

record key_payload =
  kp_tier :: string
  kp_max :: int
  kp_exp :: int
  kp_iat :: int
  kp_customer :: string
  kp_note :: string
  kp_instance :: string

record demand =
  dm_instance :: string
  dm_tier :: string
  dm_max :: int
  dm_users :: int
  dm_product :: string
  dm_version :: string
  dm_created :: int

text \<open>
  \<open>ed_key\<close> makes the private key of a seed, \<open>kp_text\<close> and \<open>dm_text\<close> are \<open>json.Marshal\<close> on the
  two records, \<open>kp_read\<close> and \<open>dm_read\<close> \<open>json.Unmarshal\<close>. \<open>add_years\<close> is \<open>AddDate\<close> on Unix times.
\<close>

record vendor =
  ve_sha :: "string \<Rightarrow> string"
  ed_key :: "string \<Rightarrow> string"
  ed_sign :: "string \<Rightarrow> string \<Rightarrow> string"
  ed_verify :: "string \<Rightarrow> string \<Rightarrow> string \<Rightarrow> bool"
  kp_text :: "key_payload \<Rightarrow> string"
  kp_read :: "string \<Rightarrow> key_payload option"
  dm_text :: "demand \<Rightarrow> string"
  dm_read :: "string \<Rightarrow> demand option"
  getenv :: "string \<Rightarrow> string"
  add_years :: "int \<Rightarrow> int \<Rightarrow> int"
  ve_vendor :: bool
  ve_registration :: bool
  ve_version :: string

definition looksLikeHex :: "string \<Rightarrow> bool" where
  "looksLikeHex s \<longleftrightarrow> 2 \<le> length s \<and> length s mod 2 = 0 \<and> (\<forall>c \<in> set s. from_hex c \<noteq> None)"

fun first_some :: "'a option list \<Rightarrow> 'a option" where
  "first_some [] = None"
| "first_some (x # xs) = (case x of None \<Rightarrow> first_some xs | r \<Rightarrow> r)"

definition decodeKey :: "string \<Rightarrow> string option" where
  "decodeKey raw0 =
     (let raw = trim_space raw0 in
      first_some [if looksLikeHex raw then hex_decode raw else None, base64_padded raw, base64_decode base64_std raw, hex_decode raw])"

definition DefaultPublicKeyHex :: string where
  "DefaultPublicKeyHex = ''3c3b4490455e00e702efa5d6c3cb2365b6431e5912d069744bac7fb3bc2159ed''"

definition DevRFCPublicKeyHex :: string where
  "DevRFCPublicKeyHex = ''8de0c7c531b9b6983b4177ea8e9ca0f1afa7add693329323087a36de4a2633e0''"

definition DefaultPrivateSeedHex :: string where
  "DefaultPrivateSeedHex = ''9d61b19deffd5a60ba844af492ec2cc44449c5697b326919655bcc226d7ad573''"

definition publicKey :: "vendor \<Rightarrow> err + string" where
  "publicKey v =
     (let raw = trim_space (getenv v ''LICENSE_PUBLIC_KEY'') in
      if raw \<noteq> [] then
        (case decodeKey raw of
           None \<Rightarrow> Inl (Msg ''key must be base64 or hex'')
         | Some b \<Rightarrow> if length b \<noteq> 32 then Inl (Msg ''LICENSE_PUBLIC_KEY must be 32 bytes'') else Inr b)
      else (case hex_decode DefaultPublicKeyHex of None \<Rightarrow> Inl (Msg ''encoding/hex'') | Some b \<Rightarrow> Inr b))"

definition privateKey :: "vendor \<Rightarrow> err + string" where
  "privateKey v =
     (let raw = trim_space (getenv v ''LICENSE_PRIVATE_KEY'') in
      if raw \<noteq> [] then
        (case decodeKey raw of
           None \<Rightarrow> Inl (Msg ''key must be base64 or hex'')
         | Some b \<Rightarrow>
             if length b = 32 then Inr (ed_key v b)
             else if length b = 64 then Inr b
             else Inl (Msg ''LICENSE_PRIVATE_KEY must be 32-byte seed or 64-byte private key''))
      else if getenv v ''LICENSE_ALLOW_DEV_SIGNING'' \<noteq> ''1'' then Inl (Msg ''LICENSE_PRIVATE_KEY required'')
      else (case hex_decode DefaultPrivateSeedHex of None \<Rightarrow> Inl (Msg ''encoding/hex'') | Some seed \<Rightarrow> Inr (ed_key v seed)))"

definition IsUsingDefaultPublicKey :: "vendor \<Rightarrow> bool" where
  "IsUsingDefaultPublicKey v = (case publicKey v of Inl _ \<Rightarrow> False | Inr pub \<Rightarrow> equal_fold (hex_encode pub) DevRFCPublicKeyHex)"

definition CanSignLocally :: "vendor \<Rightarrow> bool" where
  "CanSignLocally v \<longleftrightarrow> trim_space (getenv v ''LICENSE_PRIVATE_KEY'') \<noteq> [] \<or> getenv v ''LICENSE_ALLOW_DEV_SIGNING'' = ''1''"

definition Sign :: "vendor \<Rightarrow> int \<Rightarrow> key_payload \<Rightarrow> err + string" where
  "Sign v now p =
     (case privateKey v of
        Inl e \<Rightarrow> Inl e
      | Inr priv \<Rightarrow>
          let p = (if kp_iat p = 0 then p\<lparr>kp_iat := now\<rparr> else p) in
          case MaxUsersForTier (kp_tier p) of
            None \<Rightarrow> Inl (Msg ''unknown tier'')
          | Some n \<Rightarrow>
              let p = (if kp_max p = 0 \<and> kp_tier p \<noteq> ''unlimited'' then p\<lparr>kp_max := n\<rparr> else p); body = kp_text v p in
              Inr (''TRD1.'' @ base64_encode base64_url body @ ''.'' @ base64_encode base64_url (ed_sign v priv body)))"

definition SignFromRequest :: "vendor \<Rightarrow> int \<Rightarrow> demand \<Rightarrow> string \<Rightarrow> int \<Rightarrow> string \<Rightarrow> string \<Rightarrow> err + string" where
  "SignFromRequest v now d tier0 years customer note =
     (let tier = (if tier0 = [] then dm_tier d else tier0) in
      case MaxUsersForTier tier of
        None \<Rightarrow> Inl (Msg ''unknown tier'')
      | Some n \<Rightarrow> Sign v now
          \<lparr>kp_tier = tier, kp_max = n, kp_exp = (if 0 < years then add_years v now years else 0), kp_iat = now,
           kp_customer = customer, kp_note = note, kp_instance = dm_instance d\<rparr>)"

definition Verify :: "vendor \<Rightarrow> int \<Rightarrow> string \<Rightarrow> err + key_payload" where
  "Verify v now key =
     (case split_at CHR ''.'' (trim_space key) of
        [tag, text, mark] \<Rightarrow>
          if tag \<noteq> ''TRD1'' then Inl (Msg ''invalid license key format'')
          else (case base64_decode base64_url text of
              None \<Rightarrow> Inl (Msg ''invalid license payload'')
            | Some body \<Rightarrow> (case base64_decode base64_url mark of
                None \<Rightarrow> Inl (Msg ''invalid license signature'')
              | Some sig \<Rightarrow> (case publicKey v of
                  Inl e \<Rightarrow> Inl e
                | Inr pub \<Rightarrow>
                    if \<not> ed_verify v pub body sig then Inl (Msg ''license signature invalid'')
                    else (case kp_read v body of
                        None \<Rightarrow> Inl (Msg ''invalid license payload json'')
                      | Some p \<Rightarrow>
                          if MaxUsersForTier (kp_tier p) = None then Inl (Msg ''unknown license tier'')
                          else if 0 < kp_exp p \<and> kp_exp p < now then Inl (Msg ''license expired'')
                          else Inr p))))
      | _ \<Rightarrow> Inl (Msg ''invalid license key format''))"

section \<open>Requests for a key\<close>

definition EncodeRequest :: "vendor \<Rightarrow> int \<Rightarrow> demand \<Rightarrow> err + string" where
  "EncodeRequest v now d =
     (if trim_space (dm_instance d) = [] then Inl (Msg ''instance id required'')
      else if MaxUsersForTier (dm_tier d) = None then Inl (Msg ''unknown tier'')
      else
        let d = (if dm_created d = 0 then d\<lparr>dm_created := now\<rparr> else d);
            d = (if dm_product d = [] then d\<lparr>dm_product := ''TR Driver''\<rparr> else d); body = dm_text v d in
        Inr (''TRDR1.'' @ base64_encode base64_url body @ ''.'' @ hex_encode (take 8 (ve_sha v body))))"

definition ParseRequest :: "vendor \<Rightarrow> int \<Rightarrow> string \<Rightarrow> err + demand" where
  "ParseRequest v now code =
     (case split_at CHR ''.'' (trim_space code) of
        [tag, text, mark] \<Rightarrow>
          if tag \<noteq> ''TRDR1'' then Inl (Msg ''invalid license request code'')
          else (case base64_decode base64_url text of
              None \<Rightarrow> Inl (Msg ''invalid license request payload'')
            | Some body \<Rightarrow>
                if \<not> equal_fold (hex_encode (take 8 (ve_sha v body))) mark then Inl (Msg ''license request checksum mismatch'')
                else (case dm_read v body of
                    None \<Rightarrow> Inl (Msg ''invalid license request json'')
                  | Some d \<Rightarrow>
                      if dm_instance d = [] then Inl (Msg ''request missing instance id'')
                      else if MaxUsersForTier (dm_tier d) = None then Inl (Msg ''request has unknown tier'')
                      else if 0 < dm_created d \<and> 30 * 24 * 3600 < now - dm_created d then Inl (Msg ''license request expired'')
                      else Inr d))
      | _ \<Rightarrow> Inl (Msg ''invalid license request code''))"

section \<open>The command of the vendor\<close>

text \<open>
  \<open>cmd/trdriver-licensegen\<close>: a key for a request code, or one for nobody in particular when
  there is no code.
\<close>

definition licensegen :: "vendor \<Rightarrow> int \<Rightarrow> string \<Rightarrow> string \<Rightarrow> int \<Rightarrow> string \<Rightarrow> string \<Rightarrow> err + string" where
  "licensegen v now requestCode tier years customer note =
     (if requestCode \<noteq> [] then
        (case ParseRequest v now requestCode of Inl e \<Rightarrow> Inl e | Inr d \<Rightarrow> SignFromRequest v now d tier years customer note)
      else
        let tier = (if tier = [] then ''personal'' else tier) in
        case MaxUsersForTier tier of
          None \<Rightarrow> Inl (Msg ''unknown tier'')
        | Some n \<Rightarrow> Sign v now
            \<lparr>kp_tier = tier, kp_max = n, kp_exp = (if 0 < years then add_years v now years else 0), kp_iat = now,
             kp_customer = customer, kp_note = note, kp_instance = []\<rparr>)"

section \<open>The service\<close>

record licence_row =
  lc_tier :: string
  lc_max :: int
  lc_key :: string
  lc_fingerprint :: string
  lc_customer :: string
  lc_instance :: string
  lc_activated :: int
  lc_expires :: "int option"

record licence_status =
  ls_tier :: string
  ls_max :: int
  ls_count :: int
  ls_remaining :: int
  ls_activated :: "int option"
  ls_expires :: "int option"
  ls_customer :: string
  ls_instance :: string
  ls_default_key :: bool
  ls_can_register :: bool
  ls_vendor :: bool
  ls_can_issue :: bool
  ls_catalog :: "tier_info list"

type_synonym 'a licensed = "(licence_row option \<times> world, err, 'a) io"

definition of_sum :: "err + 'a \<Rightarrow> ('w, err, 'a) io" where
  "of_sum r = (case r of Inl e \<Rightarrow> fail e | Inr x \<Rightarrow> ret x)"

text \<open>Reading and writing the row of \<open>instance_license\<close>.\<close>

definition licence_read :: "licence_row licensed" where
  "licence_read = bnd (getw fst) (\<lambda>l. on_server (db_stmt (\<lambda>w. case l of None \<Rightarrow> Inl NoRows | Some r \<Rightarrow> Inr (r, w))))"

definition licence_ok :: "licence_row \<Rightarrow> bool" where
  "licence_ok r \<longleftrightarrow> text_ok (lc_tier r) \<and> text_ok (lc_key r) \<and> text_ok (lc_fingerprint r) \<and> text_ok (lc_customer r) \<and> text_ok (lc_instance r)
     \<and> - (2 ^ 31) \<le> lc_max r \<and> lc_max r < 2 ^ 31"

definition licence_write :: "(int \<Rightarrow> licence_row) \<Rightarrow> unit licensed" where
  "licence_write f =
     bnd (on_server (db_stmt (\<lambda>w. if licence_ok (f (clock w)) then Inr (f (clock w), w) else Inl Constraint))) (\<lambda>r.
     modw (\<lambda>(l, w). (Some r, w)))"

definition EnsureInstanceID :: "uuid_codec \<Rightarrow> string srv" where
  "EnsureInstanceID ids =
     bnd (result (db_stmt (row (setting ''instance_id'')))) (\<lambda>r.
     case r of
       Inr i \<Rightarrow> if i \<noteq> [] then ret i
         else bnd new_uuid (\<lambda>u. bnd (db_stmt (put_setting True ''instance_id'' (uuid_text ids u))) (\<lambda>_. ret (uuid_text ids u)))
     | Inl e \<Rightarrow> if e \<noteq> NoRows then fail e
         else bnd new_uuid (\<lambda>u. bnd (db_stmt (put_setting True ''instance_id'' (uuid_text ids u))) (\<lambda>_. ret (uuid_text ids u))))"

definition licence_Status :: "vendor \<Rightarrow> uuid_codec \<Rightarrow> licence_status licensed" where
  "licence_Status v ids =
     bnd (on_server (EnsureInstanceID ids)) (\<lambda>i.
     bnd (on_server (db_stmt (sel (\<lambda>d. int (length (users d)))))) (\<lambda>n.
     bnd (result licence_read) (\<lambda>r.
     bnd (getw (\<lambda>(l, w). clock w)) (\<lambda>now.
     let st = \<lparr>ls_tier = ''unlicensed'', ls_max = 0, ls_count = n, ls_remaining = -1, ls_activated = None, ls_expires = None, ls_customer = [],
           ls_instance = i, ls_default_key = IsUsingDefaultPublicKey v, ls_can_register = ve_registration v, ls_vendor = ve_vendor v,
           ls_can_issue = (ve_vendor v \<and> CanSignLocally v), ls_catalog = Catalog\<rparr>;
         free = (\<lambda>st. st\<lparr>ls_tier := (if ls_tier st = ''unlicensed'' then ''free'' else ls_tier st)\<rparr>)
     in case r of
          Inl e \<Rightarrow> if e \<noteq> NoRows then fail e else ret (free st)
        | Inr l \<Rightarrow>
            if (case lc_expires l of None \<Rightarrow> False | Some t \<Rightarrow> t < now) then ret (free st)
            else ret (free (st\<lparr>ls_tier := lc_tier l, ls_activated := Some (lc_activated l), ls_expires := lc_expires l,
              ls_customer := lc_customer l\<rparr>))))))"

definition CreateRequest :: "vendor \<Rightarrow> uuid_codec \<Rightarrow> string \<Rightarrow> (string \<times> demand) licensed" where
  "CreateRequest v ids tier =
     (case MaxUsersForTier tier of
        None \<Rightarrow> fail (Msg ''unknown tier'')
      | Some n \<Rightarrow>
          bnd (licence_Status v ids) (\<lambda>st.
          bnd (getw (\<lambda>(l, w). clock w)) (\<lambda>now.
          let d = \<lparr>dm_instance = ls_instance st, dm_tier = tier, dm_max = n, dm_users = ls_count st, dm_product = ''TR Driver'',
                dm_version = ve_version v, dm_created = now\<rparr> in
          bnd (of_sum (EncodeRequest v now d)) (\<lambda>code.
          bnd (ignore (on_server (db_stmt (put_setting True ''last_license_request'' code)))) (\<lambda>_.
          ret (code, d))))))"

definition keyFingerprint :: "string \<Rightarrow> string" where
  "keyFingerprint key =
     (case split_at CHR ''.'' key of a # b # _ \<Rightarrow> take 12 b | _ \<Rightarrow> [])"

definition Activate :: "vendor \<Rightarrow> uuid_codec \<Rightarrow> string \<Rightarrow> licence_status licensed" where
  "Activate v ids key =
     bnd (getw (\<lambda>(l, w). clock w)) (\<lambda>now.
     bnd (of_sum (Verify v now key)) (\<lambda>p.
     bnd (on_server (EnsureInstanceID ids)) (\<lambda>i.
     bnd (require (kp_instance p \<noteq> []) (Msg ''license is not bound to an instance'')) (\<lambda>_.
     bnd (require (kp_instance p = i) (Msg ''license issued for a different TR Driver instance'')) (\<lambda>_.
     let n = (case MaxUsersForTier (kp_tier p) of
           None \<Rightarrow> kp_max p
         | Some m \<Rightarrow> if kp_tier p = ''unlimited'' then 0 else if kp_max p = 0 then m else kp_max p) in
     bnd (licence_write (\<lambda>now. \<lparr>lc_tier = kp_tier p, lc_max = n, lc_key = key, lc_fingerprint = keyFingerprint key,
       lc_customer = kp_customer p, lc_instance = kp_instance p, lc_activated = now,
       lc_expires = (if 0 < kp_exp p then Some (kp_exp p) else None)\<rparr>)) (\<lambda>_.
     licence_Status v ids))))))"

definition IssueFromRequest :: "vendor \<Rightarrow> string \<Rightarrow> string \<Rightarrow> int \<Rightarrow> string \<Rightarrow> string \<Rightarrow> (string \<times> demand) licensed" where
  "IssueFromRequest v requestCode tier years customer note =
     bnd (require (ve_vendor v) (Msg ''vendor mode disabled'')) (\<lambda>_.
     bnd (require (CanSignLocally v) (Msg ''LICENSE_PRIVATE_KEY not configured on vendor server'')) (\<lambda>_.
     bnd (getw (\<lambda>(l, w). clock w)) (\<lambda>now.
     bnd (of_sum (ParseRequest v now requestCode)) (\<lambda>d.
     bnd (of_sum (SignFromRequest v now d tier years customer note)) (\<lambda>key.
     ret (key, d))))))"

section \<open>The handlers\<close>

datatype (plugins only: code size) licence_body =
    LError err
  | LStatus licence_status
  | LPublic licence_status
  | LRequest string demand
  | LKey string demand

type_synonym licence_reply = "int \<times> licence_body"

definition licence_answer :: "int \<Rightarrow> ('a \<Rightarrow> licence_body) \<Rightarrow> 'a licensed \<Rightarrow> licence_reply licensed" where
  "licence_answer bad f m = or_else m (\<lambda>e. ret (bad, LError (if bad = 500 then Msg ''license status unavailable'' else e))) (\<lambda>x. ret (200, f x))"

definition PublicStatus :: "vendor \<Rightarrow> uuid_codec \<Rightarrow> api_request \<Rightarrow> licence_reply licensed" where
  "PublicStatus v ids r =
     (if ar_method r \<noteq> ''GET'' then ret (405, LError (Msg ''method not allowed'')) else licence_answer 500 LPublic (licence_Status v ids))"

definition licence_shape :: "(string \<times> (json \<Rightarrow> bool)) list" where
  "licence_shape = texts [''action'', ''key'', ''tier'', ''requestCode'', ''customer'', ''note''] @ [(''years'', is_int64)]"

definition adminPost :: "vendor \<Rightarrow> uuid_codec \<Rightarrow> api_request \<Rightarrow> licence_reply licensed" where
  "adminPost v ids r =
     (if \<not> ReadJSON licence_shape (ar_json r) then ret (400, LError (Msg ''invalid request''))
      else
        let j = ar_json r; given = to_lower (trim_space (json_text ''action'' j));
            action = (if given \<noteq> [] then given
              else if json_text ''requestCode'' j \<noteq> [] then ''issue''
              else if json_text ''tier'' j \<noteq> [] \<and> json_text ''key'' j = [] then ''request''
              else ''activate'') in
        if action = ''request'' then
          (if json_text ''tier'' j = [] then ret (400, LError (Msg ''tier required''))
           else licence_answer 400 (\<lambda>(code, d). LRequest code d) (CreateRequest v ids (json_text ''tier'' j)))
        else if action = ''issue'' then
          (if json_text ''requestCode'' j = [] then ret (400, LError (Msg ''requestCode required''))
           else licence_answer 400 (\<lambda>(key, d). LKey key d)
             (IssueFromRequest v (json_text ''requestCode'' j) (json_text ''tier'' j)
               (if json_int ''years'' j = 0 then 1 else json_int ''years'' j) (json_text ''customer'' j) (json_text ''note'' j)))
        else if action = ''activate'' then
          (if json_text ''key'' j = [] then ret (400, LError (Msg ''key required''))
           else licence_answer 400 LStatus (Activate v ids (json_text ''key'' j)))
        else ret (400, LError (Msg ''unknown action'')))"

definition licence_Admin :: "vendor \<Rightarrow> uuid_codec \<Rightarrow> api_request \<Rightarrow> licence_reply licensed" where
  "licence_Admin v ids r =
     (if ar_method r = ''GET'' then licence_answer 500 LStatus (licence_Status v ids)
      else if ar_method r = ''POST'' then adminPost v ids r
      else ret (405, LError (Msg ''method not allowed'')))"

definition AdminPath :: "vendor \<Rightarrow> uuid_codec \<Rightarrow> api_request \<Rightarrow> licence_reply licensed" where
  "AdminPath v ids r =
     (let sub = trim_char CHR ''/'' (trim_prefix (ar_path r) ''/api/admin/license/''); j = ar_json r in
      if sub = [] \<or> sub = ''status'' then licence_Admin v ids r
      else if sub = ''request'' then
        (if ar_method r \<noteq> ''POST'' then ret (405, LError (Msg ''method not allowed''))
         else if \<not> ReadJSON (texts [''tier'']) j \<or> json_text ''tier'' j = [] then ret (400, LError (Msg ''tier required''))
         else licence_answer 400 (\<lambda>(code, d). LRequest code d) (CreateRequest v ids (json_text ''tier'' j)))
      else if sub = ''issue'' then
        (if ar_method r \<noteq> ''POST'' then ret (405, LError (Msg ''method not allowed''))
         else if \<not> ReadJSON (texts [''requestCode'', ''tier'', ''customer'', ''note''] @ [(''years'', is_int64)]) j \<or> json_text ''requestCode'' j = []
         then ret (400, LError (Msg ''requestCode required''))
         else licence_answer 400 (\<lambda>(key, d). LKey key d)
           (IssueFromRequest v (json_text ''requestCode'' j) (json_text ''tier'' j)
             (if json_int ''years'' j = 0 then 1 else json_int ''years'' j) (json_text ''customer'' j) (json_text ''note'' j)))
      else ret (404, LError (Msg ''unknown license path'')))"

section \<open>A key is for the instance that asked\<close>

text \<open>
  What is relied on: the two keys belong together, and the two JSON texts are read back
  as they were written. Both are documented of \<open>crypto/ed25519\<close> and \<open>encoding/json\<close>.
\<close>

definition key_pair :: "vendor \<Rightarrow> bool" where
  "key_pair v \<longleftrightarrow> (\<exists>priv pub. privateKey v = Inr priv \<and> publicKey v = Inr pub \<and> (\<forall>m. ed_verify v pub m (ed_sign v priv m)))"

definition key_text :: "key_payload \<Rightarrow> bool" where
  "key_text p \<longleftrightarrow> valid_utf8 (kp_tier p) \<and> valid_utf8 (kp_customer p) \<and> valid_utf8 (kp_note p) \<and> valid_utf8 (kp_instance p)"

definition json_read_back :: "vendor \<Rightarrow> bool" where
  "json_read_back v \<longleftrightarrow> (\<forall>p. key_text p \<longrightarrow> kp_read v (kp_text v p) = Some p)"

lemma token_chars: "set (base64_encode base64_url s) \<inter> set (CHR ''.'' # concat spaces) = {}"
  using base64_encode_chars [OF alphabets64(2), of s] by (auto simp: base64_url_def spaces_chars)

lemma three_parts:
  assumes "CHR ''.'' \<notin> set a" and "CHR ''.'' \<notin> set b" and "CHR ''.'' \<notin> set c"
  shows "split_at CHR ''.'' (a @ CHR ''.'' # b @ CHR ''.'' # c) = [a, b, c]"
  using assms by (simp add: split_at_append_sep split_at_none)

lemma tier_text: "MaxUsersForTier t = Some n \<Longrightarrow> n = 0 \<and> valid_utf8 t \<and> CHR 0x00 \<notin> set t"
proof -
  have "\<forall>x \<in> set Catalog. t_max x = 0 \<and> valid_utf8 (t_code x) \<and> CHR 0x00 \<notin> set (t_code x)" by code_simp
  then show "MaxUsersForTier t = Some n \<Longrightarrow> ?thesis" by (auto simp: MaxUsersForTier_def find_Some_iff)
qed

text \<open>What a signature is put on: the payload with its time. No tier of the catalogue changes the number of seats.\<close>

definition stamped :: "int \<Rightarrow> key_payload \<Rightarrow> key_payload" where
  "stamped now p = p\<lparr>kp_iat := (if kp_iat p = 0 then now else kp_iat p)\<rparr>"

lemma Sign_Inr:
  assumes "Sign v now p = Inr key"
  obtains priv n where "privateKey v = Inr priv" and "MaxUsersForTier (kp_tier p) = Some n"
    and "key = ''TRD1'' @ CHR ''.'' # base64_encode base64_url (kp_text v (stamped now p)) @ CHR ''.''
      # base64_encode base64_url (ed_sign v priv (kp_text v (stamped now p)))"
proof -
  have same: "q\<lparr>kp_max := 0\<rparr> = q" if "kp_max q = 0" for q :: key_payload using that by (cases q) simp
  show ?thesis
    using assms that by (auto simp: Sign_def Let_def stamped_def same dest: tier_text split: sum.splits option.splits if_splits)
qed

lemma Verify_Sign:
  assumes "key_pair v" and "json_read_back v" and "Sign v now p = Inr key" and "key_text p"
  shows "Verify v t key = (if 0 < kp_exp p \<and> kp_exp p < t then Inl (Msg ''license expired'') else Inr (stamped now p))" and "trim_space key = key"
proof -
  let ?body = "kp_text v (stamped now p)"
  obtain priv n where priv: "privateKey v = Inr priv" and n: "MaxUsersForTier (kp_tier p) = Some n"
    and key: "key = ''TRD1'' @ CHR ''.'' # base64_encode base64_url ?body @ CHR ''.'' # base64_encode base64_url (ed_sign v priv ?body)"
    using Sign_Inr [OF assms(3)] .
  have dots: "CHR ''.'' \<notin> set (base64_encode base64_url b)" for b using token_chars [of b] by auto
  then have parts: "split_at CHR ''.'' key = [''TRD1'', base64_encode base64_url ?body, base64_encode base64_url (ed_sign v priv ?body)]"
    unfolding key by (intro three_parts) simp_all
  have "set key \<inter> set (concat spaces) = {}"
    using token_chars [of ?body] token_chars [of "ed_sign v priv ?body"] by (auto simp: key spaces_chars)
  then show trim: "trim_space key = key" by (rule trim_space_plain)
  from assms(4) have "key_text (stamped now p)" by (simp add: key_text_def stamped_def)
  with assms(1,2) priv obtain pub where "publicKey v = Inr pub" "ed_verify v pub ?body (ed_sign v priv ?body)" "kp_read v ?body = Some (stamped now p)"
    by (auto simp: key_pair_def json_read_back_def)
  with n show "Verify v t key = (if 0 < kp_exp p \<and> kp_exp p < t then Inl (Msg ''license expired'') else Inr (stamped now p))"
    by (auto simp: Verify_def trim parts base64_decode_encode [OF alphabets64(2)] stamped_def)
qed

text \<open>A request code is read by the vendor as it was made, for thirty days.\<close>

definition demand_text :: "demand \<Rightarrow> bool" where
  "demand_text d \<longleftrightarrow> valid_utf8 (dm_instance d) \<and> valid_utf8 (dm_tier d) \<and> valid_utf8 (dm_product d) \<and> valid_utf8 (dm_version d)"

definition demand_read_back :: "vendor \<Rightarrow> bool" where
  "demand_read_back v \<longleftrightarrow> (\<forall>d. demand_text d \<longrightarrow> dm_read v (dm_text v d) = Some d)"

definition asked :: "int \<Rightarrow> demand \<Rightarrow> demand" where
  "asked now d = d\<lparr>dm_created := (if dm_created d = 0 then now else dm_created d),
     dm_product := (if dm_product d = [] then ''TR Driver'' else dm_product d)\<rparr>"

lemma request_round_trip:
  assumes "demand_read_back v" and "EncodeRequest v now d = Inr code" and "demand_text (asked now d)"
    and "t - dm_created (asked now d) \<le> 30 * 24 * 3600"
  shows "ParseRequest v t code = Inr (asked now d)"
proof -
  let ?body = "dm_text v (asked now d)" let ?mark = "hex_encode (take 8 (ve_sha v ?body))"
  have same: "q\<lparr>dm_created := c, dm_product := x\<rparr> = q\<lparr>dm_product := x, dm_created := c\<rparr>" for q :: demand and c x by simp
  have code: "code = ''TRDR1'' @ CHR ''.'' # base64_encode base64_url ?body @ CHR ''.'' # ?mark"
    and d: "trim_space (dm_instance d) \<noteq> []" "MaxUsersForTier (dm_tier d) \<noteq> None"
    using assms(2) by (auto simp: EncodeRequest_def asked_def Let_def same split: if_splits)
  have hex: "set (hex_encode b) \<inter> set (CHR ''.'' # concat spaces) = {}" for b
    using hex_encode_chars [of b] by (auto simp: hex_digits_def spaces_chars)
  have "set code \<inter> set (concat spaces) = {}"
    using token_chars [of ?body] hex [of "take 8 (ve_sha v ?body)"] by (auto simp: code spaces_chars)
  then have trim: "trim_space code = code" by (rule trim_space_plain)
  have "CHR ''.'' \<notin> set (base64_encode base64_url ?body)" "CHR ''.'' \<notin> set ?mark" using token_chars [of ?body] hex by auto
  then have parts: "split_at CHR ''.'' code = [''TRDR1'', base64_encode base64_url ?body, ?mark]"
    unfolding code by (intro three_parts) simp_all
  from assms(1,3) have "dm_read v ?body = Some (asked now d)" by (simp add: demand_read_back_def)
  moreover have "dm_instance d \<noteq> []" using d(1) by (auto simp: trim_space_plain)
  ultimately show ?thesis
    using d(2) assms(4) by (auto simp: ParseRequest_def trim parts base64_decode_encode [OF alphabets64(2)] equal_fold_def asked_def)
qed

lemma Sign_text:
  assumes "Sign v now p = Inr key"
  shows "text_ok key" and "text_ok (keyFingerprint key)"
proof -
  obtain priv n where key: "key = ''TRD1'' @ CHR ''.'' # base64_encode base64_url (kp_text v (stamped now p)) @ CHR ''.''
      # base64_encode base64_url (ed_sign v priv (kp_text v (stamped now p)))"
    using Sign_Inr [OF assms] .
  have "\<forall>c \<in> set base64_url. byte c < 128 \<and> c \<noteq> CHR 0x00" by (simp add: base64_url_def byte_def)
  then have ascii: "\<forall>c \<in> set (base64_encode base64_url b). byte c < 128 \<and> c \<noteq> CHR 0x00" for b
    using base64_encode_chars [OF alphabets64(2), of b] by blast
  then show "text_ok key" by (auto simp: text_ok_def key byte_def intro!: ascii_valid)
  have "CHR ''.'' \<notin> set (base64_encode base64_url b)" for b using token_chars [of b] by auto
  then have "keyFingerprint key = take 12 (base64_encode base64_url (kp_text v (stamped now p)))"
    unfolding key keyFingerprint_def by (subst three_parts) simp_all
  with ascii show "text_ok (keyFingerprint key)" by (auto simp: text_ok_def intro!: ascii_valid dest!: in_set_takeD)
qed

lemma wp_instance_id:
  assumes "setting ''instance_id'' (db w) = Some i" and "i \<noteq> []"
  shows "wp (EnsureInstanceID ids) Q E w = (if faulty w then E Fault (pop w) else Q i (pop w))"
  using assms by (simp add: EnsureInstanceID_def wp_simps row_def pop_def)

lemma Status_reads:
  assumes "setting ''instance_id'' (db w) = Some i" and "i \<noteq> []"
  shows "wp (licence_Status v ids) (\<lambda>_ (l', w'). l' = l \<and> db w' = db w) (\<lambda>_ (l', w'). faults w \<noteq> [] \<and> l' = l \<and> db w' = db w) (l, w)"
  by (auto simp: licence_Status_def wp_simps wp_instance_id [OF assms] licence_read_def sel_def Let_def faulty_def pop_def split: option.split list.splits)

text \<open>What a verified key does, call by call, when the server has its identity already.\<close>

definition row_of_key :: "string \<Rightarrow> int \<Rightarrow> key_payload \<Rightarrow> licence_row" where
  "row_of_key key now p = \<lparr>lc_tier = kp_tier p, lc_max = 0, lc_key = key, lc_fingerprint = keyFingerprint key, lc_customer = kp_customer p,
     lc_instance = kp_instance p, lc_activated = now, lc_expires = (if 0 < kp_exp p then Some (kp_exp p) else None)\<rparr>"

lemma activation:
  assumes "Verify v (clock w) key = Inr p" and "setting ''instance_id'' (db w) = Some i" and "i \<noteq> []" and "kp_instance p \<noteq> []"
    and "MaxUsersForTier (kp_tier p) = Some 0" and "kp_max p = 0" and "\<And>t. licence_ok (row_of_key key t p)"
  shows "wp (Activate v ids key) Q E (l, w) =
      (if faulty w then E Fault (l, pop w)
       else if kp_instance p \<noteq> i then E (Msg ''license issued for a different TR Driver instance'') (l, pop w)
       else if faulty (pop w) then E Fault (l, pop (pop w))
       else wp (licence_Status v ids) Q E (Some (row_of_key key (clock w) p), pop (pop w)))"
proof -
  have ok: "licence_ok \<lparr>lc_tier = u, lc_max = 0, lc_key = key, lc_fingerprint = keyFingerprint key, lc_customer = kp_customer p,
      lc_instance = j, lc_activated = t, lc_expires = x\<rparr>" if "kp_instance p = j" "kp_tier p = u" for j t x u
    using assms(7) [of t] that by (simp add: licence_ok_def row_of_key_def)
  have clock: "clock (pop x) = clock x" for x by (simp add: pop_def)
  show ?thesis
    by (cases "faulty w"; cases "kp_instance p = i"; cases "faulty (pop w)")
      (simp_all add: Activate_def of_sum_def wp_simps assms(1,3,4) wp_instance_id [OF assms(2,3)]
        licence_write_def clock Let_def row_of_key_def ok assms(5,6))
qed

lemma faulty_nonempty:
  "faulty w \<Longrightarrow> faults w \<noteq> []" "faulty (pop w) \<Longrightarrow> faults w \<noteq> []" "faults (pop (pop w)) \<noteq> [] \<Longrightarrow> faults w \<noteq> []"
  by (auto simp: faulty_def pop_def)

text \<open>What is in a key that was signed for a request.\<close>

lemma signed_for:
  assumes "key_pair v" and "json_read_back v" and "SignFromRequest v now d tier years customer note = Inr key"
    and "text_ok customer" and "valid_utf8 note" and "text_ok (dm_instance d)" and "years \<le> 0 \<or> t \<le> add_years v now years"
  shows "\<exists>p. Verify v t key = Inr p \<and> MaxUsersForTier (kp_tier p) = Some 0 \<and> kp_max p = 0 \<and> kp_instance p = dm_instance d
    \<and> kp_customer p = customer \<and> (\<forall>s. licence_ok (row_of_key key s p))"
proof -
  obtain p n where sign: "Sign v now p = Inr key" and p: "kp_instance p = dm_instance d" "kp_customer p = customer" "kp_note p = note"
      "kp_exp p = (if 0 < years then add_years v now years else 0)" "MaxUsersForTier (kp_tier p) = Some n" "kp_max p = n"
    using assms(3) unfolding SignFromRequest_def Let_def by (simp split: option.splits)
  have tier: "n = 0" "text_ok (kp_tier p)" using tier_text [OF p(5)] by (simp_all add: text_ok_def)
  have "Verify v t key = Inr (stamped now p)"
    using Verify_Sign(1) [OF assms(1,2) sign, of t] p tier assms(4-7) by (auto simp: key_text_def text_ok_def split: if_splits)
  moreover have "licence_ok (row_of_key key s (stamped now p))" for s
    using Sign_text [OF sign] tier assms(4,6) p by (simp add: licence_ok_def row_of_key_def stamped_def)
  ultimately show ?thesis using p tier by (intro exI [of _ "stamped now p"]) (simp add: stamped_def)
qed

text \<open>
  C23: a key that the vendor signs for a request activates the server that asked and no other. It is
  accepted there until it expires, and when no call fails the key, bound to that server and made out to the
  customer, becomes the licence; on a server with another identity it is refused and the
  licence in force stays. The database is not touched otherwise.
\<close>

theorem key_for_one_server:
  assumes "key_pair v" and "json_read_back v" and "SignFromRequest v now d tier years customer note = Inr key"
    and "text_ok customer" and "valid_utf8 note" and "text_ok (dm_instance d)" and "dm_instance d \<noteq> []"
    and "years \<le> 0 \<or> clock w \<le> add_years v now years" and "setting ''instance_id'' (db w) = Some i" and "i \<noteq> []"
  shows "wp (Activate v ids key)
      (\<lambda>_ (l', w'). i = dm_instance d \<and> (\<exists>r. l' = Some r \<and> lc_key r = key \<and> lc_instance r = i \<and> lc_customer r = customer) \<and> db w' = db w)
      (\<lambda>e (l', w'). (i = dm_instance d \<longrightarrow> faults w \<noteq> []) \<and> (i \<noteq> dm_instance d \<longrightarrow> l' = l) \<and> db w' = db w) (l, w)"
proof -
  obtain p where p: "Verify v (clock w) key = Inr p" "MaxUsersForTier (kp_tier p) = Some 0" "kp_max p = 0" "kp_instance p = dm_instance d"
      "kp_customer p = customer" "\<And>t. licence_ok (row_of_key key t p)"
    using signed_for [OF assms(1-6,8)] by blast
  note run = activation [OF p(1) assms(9,10) _ p(2,3,6), unfolded p(4), OF assms(7)]
  have db: "db (pop x) = db x" for x by (simp add: pop_def)
  consider (first) "faulty w" | (other) "\<not> faulty w" "dm_instance d \<noteq> i" | (second) "\<not> faulty w" "dm_instance d = i" "faulty (pop w)"
    | (good) "\<not> faulty w" "dm_instance d = i" "\<not> faulty (pop w)" by blast
  then show ?thesis
  proof cases
    case first
    with faulty_nonempty(1) [OF first] show ?thesis unfolding run by (simp add: db)
  next
    case other
    then have "i \<noteq> dm_instance d" by blast
    with other show ?thesis unfolding run by (simp add: db)
  next
    case second
    with faulty_nonempty(2) [OF second(3)] show ?thesis unfolding run by (simp add: db)
  next
    case good
    then have same: "wp (Activate v ids key) Q E (l, w) = wp (licence_Status v ids) Q E (Some (row_of_key key (clock w) p), pop (pop w))" for Q E
      unfolding run by simp
    show ?thesis
      unfolding same
    proof (rule wp_weaken [OF Status_reads [of "pop (pop w)" i]], goal_cases)
      case (3 x s)
      then show ?case using good p(4,5) by (simp add: case_prod_unfold db row_of_key_def)
    next
      case (4 e s)
      then have f: "faults (pop (pop w)) \<noteq> []" and s: "db (snd s) = db w" by (simp_all add: case_prod_unfold db)
      from faulty_nonempty(3) [OF f] s good show ?case by (simp add: case_prod_unfold)
    qed (use assms(9,10) db in simp_all)
  qed
qed

text \<open>A key for nobody in particular, which the command warns of, is of no use: no server accepts it.\<close>

theorem unbound_key_refused:
  assumes "key_pair v" and "json_read_back v" and "licensegen v now [] tier years customer note = Inr key"
    and "valid_utf8 customer" and "valid_utf8 note"
  shows "wp (Activate v ids key) (\<lambda>_ _. False) (\<lambda>e (l', w'). l' = l) (l, w)"
proof -
  obtain p n where sign: "Sign v now p = Inr key" and p: "kp_instance p = []" "kp_customer p = customer" "kp_note p = note"
      "MaxUsersForTier (kp_tier p) = Some n"
    using assms(3) unfolding licensegen_def Let_def by (simp split: option.splits)
  have "key_text p" using tier_text [OF p(4)] p assms(4,5) by (simp add: key_text_def)
  from Verify_Sign(1) [OF assms(1,2) sign this, of "clock w"] p show ?thesis
    by (auto simp: Activate_def of_sum_def wp_simps stamped_def EnsureInstanceID_def split: sum.split option.split)
qed

end
