(* ===== verification/Configuration.thy ===== *)
theory Configuration
  imports Router
begin

text \<open>
  \<open>internal/config\<close>: the configuration, read from the environment once at the start. The
  variables are a function; reading a duration (in the seconds of the model) and a network
  in CIDR notation are parameters.
\<close>

section \<open>Reading one variable\<close>

record 'a environment =
  ev_var :: "string \<Rightarrow> string"
  ev_duration :: "string \<Rightarrow> int option"
  ev_prefix :: "string \<Rightarrow> ('a \<Rightarrow> bool) option"

definition getEnv :: "'a environment \<Rightarrow> string \<Rightarrow> string \<Rightarrow> string" where
  "getEnv e key fallback = (let v = trim_space (ev_var e key) in if v \<noteq> [] then v else fallback)"

definition getEnvBool :: "'a environment \<Rightarrow> string \<Rightarrow> bool \<Rightarrow> bool" where
  "getEnvBool e key fallback =
     (let v = trim_space (ev_var e key) in
      if v = [] then fallback
      else if to_lower v \<in> {''1'', ''true'', ''yes'', ''on''} then True
      else if to_lower v \<in> {''0'', ''false'', ''no'', ''off''} then False
      else fallback)"

text \<open>\<open>getEnvInt\<close>, \<open>getEnvInt64\<close> and \<open>getEnvDuration\<close> differ in the reader; an \<open>int\<close> has 64 bits.\<close>

definition getEnvNumber :: "(string \<Rightarrow> int option) \<Rightarrow> 'a environment \<Rightarrow> string \<Rightarrow> int \<Rightarrow> int" where
  "getEnvNumber parse e key fallback =
     (let v = trim_space (ev_var e key) in
      if v = [] then fallback else (case parse v of None \<Rightarrow> fallback | Some n \<Rightarrow> n))"

definition getEnvQuotaBytes :: "'a environment \<Rightarrow> string \<Rightarrow> int" where
  "getEnvQuotaBytes e key =
     (let v = trim_space (ev_var e key) in
      if v = [] \<or> map lower_byte v = ''auto'' then 0
      else (case parse_int64 v of None \<Rightarrow> 0 | Some n \<Rightarrow> if n < 0 then 0 else n))"

fun proxies_of :: "'a environment \<Rightarrow> string list \<Rightarrow> err + ('a \<Rightarrow> bool) list" where
  "proxies_of e [] = Inr []"
| "proxies_of e (part0 # parts) =
     (let part = trim_space part0 in
      if part = [] then proxies_of e parts
      else (case ev_prefix e part of
          None \<Rightarrow> Inl (Msg ''TRUSTED_PROXY_CIDRS: invalid CIDR'')
        | Some p \<Rightarrow> (case proxies_of e parts of Inl x \<Rightarrow> Inl x | Inr ps \<Rightarrow> Inr (p # ps))))"

definition parseTrustedProxies :: "'a environment \<Rightarrow> string \<Rightarrow> err + ('a \<Rightarrow> bool) list" where
  "parseTrustedProxies e raw = proxies_of e (split_at CHR '','' raw)"

section \<open>The configuration\<close>

definition environment_config :: "'a environment \<Rightarrow> config" where
  "environment_config e = (let num = getEnvNumber parse_int64 e; dur = getEnvNumber (ev_duration e) e in
     \<lparr>AppEnv = getEnv e ''APP_ENV'' ''development'', HTTPAddr = getEnv e ''HTTP_ADDR'' '':8080'', DatabaseURL = getEnv e ''DATABASE_URL'' [],
      SessionSecret = getEnv e ''SESSION_SECRET'' [], DataDir = getEnv e ''DATA_DIR'' ''./data'',
      PublicBaseURL = rev (dropWhile (\<lambda>c. c = CHR ''/'') (rev (getEnv e ''PUBLIC_BASE_URL'' ''http://localhost:8080''))),
      FreeQuotaBytes = getEnvQuotaBytes e ''FREE_QUOTA_BYTES'', MaxUploadBytes = num ''MAX_UPLOAD_BYTES'' (10 * 1024 * 1024 * 1024),
      MaxUploadBatchBytes = num ''MAX_UPLOAD_BATCH_BYTES'' (10 * 1024 * 1024 * 1024), UploadChunkBytes = num ''UPLOAD_CHUNK_BYTES'' (8 * 1024 * 1024),
      UploadSessionTTL = dur ''UPLOAD_SESSION_TTL'' (48 * 3600), MaxBatchFiles = num ''MAX_BATCH_FILES'' 2000,
      MaxConcurrentChunks = num ''MAX_CONCURRENT_CHUNKS'' 2, MaxConcurrentUploads = num ''MAX_CONCURRENT_UPLOADS'' 3,
      SessionTTL = dur ''SESSION_TTL'' (24 * 3600), DeviceTokenTTL = dur ''DEVICE_TOKEN_TTL'' 0, TrashRetention = dur ''TRASH_RETENTION'' (720 * 3600),
      FileChangeRetention = dur ''FILE_CHANGE_RETENTION'' (2160 * 3600), ShareTokenBytes = num ''SHARE_TOKEN_BYTES'' 24,
      SharePasswordSalt = getEnv e ''SHARE_PASSWORD_SALT'' ''change-me'', AllowRegistration = getEnvBool e ''ALLOW_REGISTRATION'' True,
      UpdateManifestURL = getEnv e ''UPDATE_MANIFEST_URL'' [], UpdateChannel = getEnv e ''UPDATE_CHANNEL'' ''stable'',
      LicenseVendorMode = getEnvBool e ''LICENSE_VENDOR_MODE'' False\<rparr>)"

definition Load :: "'a environment \<Rightarrow> err + config \<times> ('a \<Rightarrow> bool) list" where
  "Load e =
     (let cfg = environment_config e in
      case parseTrustedProxies e (getEnv e ''TRUSTED_PROXY_CIDRS'' []) of
        Inl x \<Rightarrow> Inl x
      | Inr proxies \<Rightarrow>
          if DatabaseURL cfg = [] then Inl (Msg ''DATABASE_URL is required'')
          else if length (SessionSecret cfg) < 16 then Inl (Msg ''SESSION_SECRET must be at least 16 characters'')
          else if AppEnv cfg = ''production'' \<and> (SessionSecret cfg = ''change-me'' \<or> go_contains (to_lower (SessionSecret cfg)) ''degistir'')
          then Inl (Msg ''SESSION_SECRET looks like a placeholder'')
          else if AppEnv cfg = ''production'' \<and> (SharePasswordSalt cfg = ''change-me'' \<or> length (SharePasswordSalt cfg) < 16)
          then Inl (Msg ''SHARE_PASSWORD_SALT must be at least 16 characters in production'')
          else Inr (cfg, proxies))"

section \<open>What a server starts with\<close>

lemma proxies_exact:
  "proxies_of e parts = Inr ps \<longleftrightarrow> map (ev_prefix e) (filter (\<lambda>p. p \<noteq> []) (map trim_space parts)) = map Some ps"
proof (induction parts arbitrary: ps)
  case (Cons part parts)
  show ?case
  proof (cases "proxies_of e parts")
    case (Inl x)
    with Cons.IH have "map (ev_prefix e) (filter (\<lambda>p. p \<noteq> []) (map trim_space parts)) \<noteq> map Some qs" for qs by (metis Inl_Inr_False)
    with Inl show ?thesis by (auto simp: Let_def map_eq_Cons_conv split: option.split)
  next
    case (Inr qs)
    with Cons.IH [of qs] have "map (ev_prefix e) (filter (\<lambda>p. p \<noteq> []) (map trim_space parts)) = map Some qs" by blast
    with Inr show ?thesis by (auto simp: Let_def map_eq_Cons_conv inj_map_eq_map split: option.split)
  qed
qed auto

text \<open>
  What \<open>Load\<close> accepts, exactly. Of the two placeholders the comparison with \<open>change-me\<close>
  excludes nothing, in the secret and in the salt alike: that text has nine characters.
\<close>

lemma Load_exact:
  "Load e = Inr (cfg, ps) \<longleftrightarrow>
     cfg = environment_config e
     \<and> map (ev_prefix e) (filter (\<lambda>p. p \<noteq> []) (map trim_space (split_at CHR '','' (getEnv e ''TRUSTED_PROXY_CIDRS'' [])))) = map Some ps
     \<and> DatabaseURL cfg \<noteq> [] \<and> 16 \<le> length (SessionSecret cfg)
     \<and> (AppEnv cfg = ''production'' \<longrightarrow> \<not> go_contains (to_lower (SessionSecret cfg)) ''degistir'' \<and> 16 \<le> length (SharePasswordSalt cfg))"
  unfolding proxies_exact [symmetric] parseTrustedProxies_def [symmetric]
  by (auto simp: Load_def Let_def not_less split: sum.splits)

lemma quota_nonneg: "0 \<le> FreeQuotaBytes (environment_config e)"
  by (simp add: environment_config_def getEnvQuotaBytes_def Let_def split: option.split)

lemma go_contains_step:
  "go_contains [] t \<longleftrightarrow> t = []" "go_contains (c # s) t \<longleftrightarrow> has_prefix (c # s) t \<or> go_contains s t"
proof -
  have "{0..length (c # s)} = insert 0 (Suc ` {0..length s})" by (simp add: atLeast0_atMost_Suc_eq_insert_0)
  then show "go_contains (c # s) t \<longleftrightarrow> has_prefix (c # s) t \<or> go_contains s t"
    by (simp only: go_contains_def bex_simps drop_Suc_Cons drop_0)
qed (auto simp: go_contains_def has_prefix_def)

text \<open>The values of \<open>.env.example\<close>, in production.\<close>

definition sample_env :: "string environment" where
  "sample_env = \<lparr>ev_var = (\<lambda>k. case map_of
       [(''APP_ENV'', ''production''), (''DATABASE_URL'', ''postgres://db''), (''SESSION_SECRET'', ''change-this-to-a-long-random-secret''),
        (''SHARE_PASSWORD_SALT'', ''change-this-share-salt-16+'')] k of None \<Rightarrow> [] | Some v \<Rightarrow> v),
     ev_duration = (\<lambda>_. None), ev_prefix = (\<lambda>_. None)\<rparr>"

text \<open>The secret and the salt of the published sample file are accepted for a server in production.\<close>

theorem sample_secret_accepted:
  "\<exists>cfg. Load sample_env = Inr (cfg, []) \<and> AppEnv cfg = ''production''
     \<and> SessionSecret cfg = ''change-this-to-a-long-random-secret'' \<and> SharePasswordSalt cfg = ''change-this-share-salt-16+''"
proof -
  let ?c = "environment_config sample_env"
  have set_to: "getEnv sample_env k d = v" if "ev_var sample_env k = v" "v \<noteq> []" "set v \<inter> set (concat spaces) = {}" for k d v
    using that by (simp add: getEnv_def trim_space_plain)
  have fields: "AppEnv ?c = getEnv sample_env ''APP_ENV'' ''development''" "DatabaseURL ?c = getEnv sample_env ''DATABASE_URL'' []"
    "SessionSecret ?c = getEnv sample_env ''SESSION_SECRET'' []" "SharePasswordSalt ?c = getEnv sample_env ''SHARE_PASSWORD_SALT'' ''change-me''"
    by (simp_all only: environment_config_def Let_def config.simps)
  have vals: "AppEnv ?c = ''production''" "DatabaseURL ?c = ''postgres://db''" "SessionSecret ?c = ''change-this-to-a-long-random-secret''"
    "SharePasswordSalt ?c = ''change-this-share-salt-16+''"
    unfolding fields by (rule set_to; simp add: sample_env_def spaces_chars)+
  have proxies: "getEnv sample_env ''TRUSTED_PROXY_CIDRS'' [] = []" by (simp add: getEnv_def sample_env_def trim_space_plain)
  have lower: "to_lower ''change-this-to-a-long-random-secret'' = ''change-this-to-a-long-random-secret''"
    by (rule to_lower_plain) code_simp
  have "\<not> go_contains ''change-this-to-a-long-random-secret'' ''degistir''" by (simp add: go_contains_step has_prefix_def)
  with lower have "\<not> go_contains (to_lower (SessionSecret ?c)) ''degistir''" unfolding vals(3) by (simp only: not_False_eq_True)
  moreover have "DatabaseURL ?c \<noteq> []" "16 \<le> length (SessionSecret ?c)" "16 \<le> length (SharePasswordSalt ?c)" unfolding vals by simp_all
  moreover have "map (ev_prefix sample_env) (filter (\<lambda>p. p \<noteq> []) (map trim_space (split_at CHR '','' []))) = map Some []"
    by (simp add: trim_space_plain)
  ultimately have "Load sample_env = Inr (?c, [])" unfolding Load_exact proxies by blast
  with vals show ?thesis by blast
qed

end
