(* ===== verification/Packages.thy ===== *)
theory Packages
  imports Configuration
begin

text \<open>
  \<open>internal/app/apk.go\<close> and \<open>internal/updates\<close>: the package of the Android client, looked for
  in the places of an installation, and the question whether there is a newer version.
  \<open>disk\<close> is what \<open>os.Stat\<close> and \<open>os.Open\<close> see, \<open>wd\<close> and \<open>exe\<close> are the directory and
  the program of the process, the readers of JSON are parameters.
\<close>

section \<open>Where files of the installation are\<close>

datatype (plugins only: code size) disk_entry = Directory | Regular string

type_synonym disk_view = "string \<Rightarrow> disk_entry option"

definition androidAppsCandidates :: "string \<Rightarrow> string \<Rightarrow> string \<Rightarrow> string list" where
  "androidAppsCandidates wd exe name =
     (let exeDir = (if exe \<noteq> [] then dir_of exe else []);
          rel = [''web/public/apps/'' @ name, ''web/dist/apps/'' @ name, ''dist/android/'' @ name];
          around = (\<lambda>r. [r] @ (if wd \<noteq> [] then [go_join wd r] else [])
            @ (if exeDir \<noteq> [] then [go_join exeDir r, go_join (dir_of exeDir) r] else []));
          fixed = [''/app/web/public/apps/'' @ name, ''/app/web/dist/apps/'' @ name, ''/app/dist/android/'' @ name]
      in rev (remdups (rev (map go_clean (concat (map around rel) @ fixed)))))"

definition findAndroidAppsFile :: "disk_view \<Rightarrow> string \<Rightarrow> string \<Rightarrow> string \<Rightarrow> (string \<times> string) option" where
  "findAndroidAppsFile disk wd exe name =
     (case find (\<lambda>c. case disk c of Some (Regular bs) \<Rightarrow> bs \<noteq> [] | _ \<Rightarrow> False) (androidAppsCandidates wd exe name) of
        None \<Rightarrow> None
      | Some c \<Rightarrow> (case disk c of Some (Regular bs) \<Rightarrow> Some (c, bs) | _ \<Rightarrow> None))"

definition findAndroidAPK :: "disk_view \<Rightarrow> string \<Rightarrow> string \<Rightarrow> (string \<times> string) option" where
  "findAndroidAPK disk wd exe = findAndroidAppsFile disk wd exe ''TRDriver.apk''"

definition isAPKRequest :: "string \<Rightarrow> bool" where
  "isAPKRequest path =
     (let p = to_lower path in
      has_prefix (rev p) (rev ''.apk'') \<or> p = ''/download/trdriver.apk'' \<or> p = ''/apps/trdriver.apk'')"

section \<open>The package\<close>

datatype (plugins only: code size) 'a file_reply = FileError int | Sent 'a

text \<open>Both \<open>HEAD\<close> and \<open>GET\<close> go to \<open>http.ServeContent\<close> with the whole file.\<close>

definition serveAndroidAPK :: "disk_view \<Rightarrow> string \<Rightarrow> string \<Rightarrow> string \<Rightarrow> string file_reply" where
  "serveAndroidAPK disk wd exe verb =
     (if verb \<noteq> ''GET'' \<and> verb \<noteq> ''HEAD'' then FileError 405
      else (case findAndroidAPK disk wd exe of
          None \<Rightarrow> FileError 404
        | Some (path, bs) \<Rightarrow>
            if length bs < 512 * 1024 then FileError 500
            else if take 4 bs \<noteq> ''PK'' @ [CHR 0x03, CHR 0x04] then FileError 500
            else Sent bs))"

record android_info =
  av_code :: int
  av_name :: string
  av_min :: int
  av_notes :: string
  av_path :: string
  av_url :: string
  av_available :: bool

definition stripUTF8BOM :: "string \<Rightarrow> string" where
  "stripUTF8BOM b = (if take 3 b = [CHR 0xEF, CHR 0xBB, CHR 0xBF] then drop 3 b else b)"

fun first_info :: "(string \<Rightarrow> android_info option) \<Rightarrow> disk_view \<Rightarrow> string list \<Rightarrow> android_info option" where
  "first_info read disk [] = None"
| "first_info read disk (path # paths) =
     (case disk path of
        Some (Regular raw) \<Rightarrow>
          if raw = [] then first_info read disk paths
          else (case read (stripUTF8BOM raw) of
              None \<Rightarrow> first_info read disk paths
            | Some info \<Rightarrow>
                if av_code info \<le> 0 \<and> trim_space (av_name info) = [] then first_info read disk paths else Some info)
      | _ \<Rightarrow> first_info read disk paths)"

definition loadAndroidVersionJSON :: "(string \<Rightarrow> android_info option) \<Rightarrow> disk_view \<Rightarrow> string \<Rightarrow> string \<Rightarrow> android_info option" where
  "loadAndroidVersionJSON read disk wd exe = first_info read disk (androidAppsCandidates wd exe ''android-version.json'')"

definition with_places :: "android_info \<Rightarrow> android_info" where
  "with_places i =
     (let i = (if av_path i = [] then i\<lparr>av_path := ''/download/TRDriver.apk''\<rparr> else i)
      in if av_url i = [] then i\<lparr>av_url := av_path i\<rparr> else i)"

definition with_link :: "android_info \<Rightarrow> android_info" where
  "with_link i =
     (let u = av_url i in
      if \<not> has_prefix u ''http://'' \<and> \<not> has_prefix u ''https://'' \<and> \<not> has_prefix u ''/'' then i\<lparr>av_url := ''/'' @ u\<rparr> else i)"

definition with_package :: "(string \<times> string) option \<Rightarrow> android_info \<Rightarrow> android_info" where
  "with_package apk i =
     (let i = (case apk of None \<Rightarrow> i | Some (_, bs) \<Rightarrow> if 512 * 1024 \<le> length bs then i\<lparr>av_available := True\<rparr> else i)
      in if av_code i \<le> 0 \<and> av_available i
         then i\<lparr>av_code := 1, av_name := (if av_name i = [] then ''unknown'' else av_name i)\<rparr> else i)"

definition serveAndroidVersion :: "(string \<Rightarrow> android_info option) \<Rightarrow> disk_view \<Rightarrow> string \<Rightarrow> string \<Rightarrow> string \<Rightarrow> android_info file_reply" where
  "serveAndroidVersion read disk wd exe verb =
     (if verb \<noteq> ''GET'' \<and> verb \<noteq> ''HEAD'' then FileError 405
      else
        let place = ''/download/TRDriver.apk'';
            info = (case loadAndroidVersionJSON read disk wd exe of
                Some i \<Rightarrow> i
              | None \<Rightarrow> \<lparr>av_code = 0, av_name = [], av_min = 1, av_notes = [], av_path = place, av_url = place, av_available = False\<rparr>)
        in Sent (with_package (findAndroidAPK disk wd exe) (with_link (with_places info))))"

section \<open>Newer versions\<close>

record manifest_info =
  mf_latest :: string
  mf_url :: string
  mf_notes :: string
  mf_published :: string
  mf_channels :: "(string \<rightharpoonup> string) option"

record update_info =
  up_current :: string
  up_available :: bool
  up_latest :: string
  up_url :: string
  up_notes :: string
  up_channel :: string
  up_central :: bool
  up_published :: "string option"

text \<open>\<open>fetch\<close> is the request for the manifest with the decoding of the answer; \<open>None\<close> when either fails.\<close>

definition Check :: "config \<Rightarrow> string \<Rightarrow> (string \<Rightarrow> manifest_info option) \<Rightarrow> string \<Rightarrow> update_info file_reply" where
  "Check cfg version fetch verb =
     (if verb \<noteq> ''GET'' then FileError 405
      else
        let central = (trim_space (UpdateManifestURL cfg) \<noteq> []);
            out = \<lparr>up_current = version, up_available = False, up_latest = version, up_url = [], up_notes = [], up_channel = UpdateChannel cfg,
              up_central = central, up_published = None\<rparr>
        in if \<not> central then Sent out
           else (case fetch (UpdateManifestURL cfg) of
               None \<Rightarrow> Sent out
             | Some man \<Rightarrow>
                 let latest = (case (UpdateChannel cfg, mf_channels man) of
                       (c # cs, Some ch) \<Rightarrow> (case ch (c # cs) of None \<Rightarrow> mf_latest man | Some v \<Rightarrow> if v \<noteq> [] then v else mf_latest man)
                     | _ \<Rightarrow> mf_latest man);
                     latest = (if latest = [] then version else latest)
                 in Sent (out\<lparr>up_latest := latest, up_url := mf_url man, up_notes := mf_notes man, up_published := Some (mf_published man),
                      up_available := (latest \<noteq> version)\<rparr>)))"

section \<open>What is sent\<close>

lemma candidates_distinct: "distinct (androidAppsCandidates wd exe name)"
  by (simp only: androidAppsCandidates_def Let_def distinct_rev distinct_remdups)

lemma file_found:
  assumes "findAndroidAppsFile disk wd exe name = Some (path, bs)"
  shows "path \<in> set (androidAppsCandidates wd exe name) \<and> disk path = Some (Regular bs) \<and> bs \<noteq> []"
  using assms unfolding findAndroidAppsFile_def
  by (auto simp: find_Some_iff split: option.splits disk_entry.splits)

text \<open>Only a non-empty regular file at one of the places is sent, and only if it is a ZIP archive of a plausible size.\<close>

lemma apk_sent:
  assumes "serveAndroidAPK disk wd exe verb = Sent bs"
  shows "\<exists>path \<in> set (androidAppsCandidates wd exe ''TRDriver.apk''). disk path = Some (Regular bs)"
    and "512 * 1024 \<le> length bs" and "take 4 bs = ''PK'' @ [CHR 0x03, CHR 0x04]" and "verb = ''GET'' \<or> verb = ''HEAD''"
  using assms
  by (auto simp: serveAndroidAPK_def findAndroidAPK_def split: if_splits option.splits) (use file_found in blast)+

text \<open>Where the client is sent to for the package is a path of this server or a whole address.\<close>

lemma with_package_url [simp]: "av_url (with_package apk i) = av_url i"
  by (simp add: with_package_def Let_def split: option.split)

lemma version_link:
  assumes "serveAndroidVersion read disk wd exe verb = Sent i"
  shows "has_prefix (av_url i) ''http://'' \<or> has_prefix (av_url i) ''https://'' \<or> has_prefix (av_url i) ''/''"
proof -
  have "has_prefix (av_url (with_link j)) ''http://'' \<or> has_prefix (av_url (with_link j)) ''https://'' \<or> has_prefix (av_url (with_link j)) ''/''" for j
    by (simp add: with_link_def Let_def has_prefix_def)
  moreover from assms obtain j where "av_url i = av_url (with_link j)"
    unfolding serveAndroidVersion_def Let_def by (metis file_reply.distinct(1) file_reply.inject(2) with_package_url)
  ultimately show ?thesis by simp
qed

text \<open>An older version counts as an update: all that matters is that it differs.\<close>

lemma downgrade_offered:
  assumes "trim_space (UpdateManifestURL cfg) \<noteq> []" and "UpdateChannel cfg = []" and "fetch (UpdateManifestURL cfg) = Some man"
    and "mf_latest man \<noteq> []" and "mf_latest man \<noteq> version"
  shows "\<exists>u. Check cfg version fetch ''GET'' = Sent u \<and> up_available u \<and> up_latest u = mf_latest man"
  using assms by (simp add: Check_def)

end
