(* ===== verification/Watcher.thy ===== *)
theory Watcher
  imports SyncEngine
begin

text \<open>
  \<open>internal/watcher/watcher.go\<close>: what happens in a folder, for the engine. The notifications
  of \<open>fsnotify\<close> arrive one by one; they are collected until 250 milliseconds pass without one,
  and then sent through a channel of 128 events. The goroutine of the watcher, the timer and the
  receiver take their steps in any order.
\<close>

section \<open>What is reported\<close>

record fs_op =
  op_create :: bool
  op_write :: bool
  op_remove :: bool
  op_rename :: bool

definition mapOp :: "fs_op \<Rightarrow> string" where
  "mapOp op =
     (if op_remove op then ''remove'' else if op_rename op then ''rename'' else if op_create op then ''create''
      else if op_write op then ''write'' else [])"

definition ends_in :: "string \<Rightarrow> string \<Rightarrow> bool" where
  "ends_in s t = has_prefix (rev s) (rev t)"

definition ignored :: "string \<Rightarrow> bool" where
  "ignored name =
     (let l = to_lower name in
      ends_in l ''.partial'' \<or> ends_in l ''.tmp'' \<or> has_prefix name ''~$'' \<or> l = ''.ds_store'' \<or> l = ''desktop.ini'' \<or> l = ''thumbs.db''
      \<or> has_prefix l ''.necipdrive'')"

text \<open>
  \<open>addTree\<close>: the directories that get a watch, of those that \<open>filepath.WalkDir\<close> comes to. It
  goes on below a directory that is left out.
\<close>

definition addTree :: "string list \<Rightarrow> string \<Rightarrow> string list" where
  "addTree tree dir = filter (\<lambda>d. inside dir d \<and> \<not> ignored (base_of d)) tree"

datatype wevent = Change string string | Rescan

record wstate =
  wt_dirs :: "string list"
  wt_pending :: "string \<rightharpoonup> string"
  wt_armed :: bool
  wt_flush :: "wevent list"
  wt_chan :: "wevent list"
  wt_got :: "wevent list"
  wt_stopped :: bool

definition watch_start :: "string list \<Rightarrow> string \<Rightarrow> wstate" where
  "watch_start tree root = \<lparr>wt_dirs = addTree tree root, wt_pending = Map.empty, wt_armed = False, wt_flush = [], wt_chan = [], wt_got = [],
     wt_stopped = False\<rparr>"

definition reported :: "string \<Rightarrow> string \<Rightarrow> fs_op \<Rightarrow> (string \<times> string) option" where
  "reported root name op =
     (if ignored (base_of name) \<or> mapOp op = [] then None
      else (case go_rel root name of
          None \<Rightarrow> None
        | Some rel \<Rightarrow> if has_prefix rel ''..'' then None else Some (rel, mapOp op)))"

definition on_event :: "string \<Rightarrow> string list \<Rightarrow> string \<Rightarrow> fs_op \<Rightarrow> wstate \<Rightarrow> wstate" where
  "on_event root tree name op s =
     (let s = (if \<not> ignored (base_of name) \<and> op_create op \<and> name \<in> set tree then s\<lparr>wt_dirs := wt_dirs s @ addTree tree name\<rparr> else s) in
      case reported root name op of
        None \<Rightarrow> s
      | Some (rel, what) \<Rightarrow> s\<lparr>wt_pending := (wt_pending s)(rel \<mapsto> what), wt_armed := True\<rparr>)"

section \<open>Its steps\<close>

text \<open>
  \<open>watch root h s\<close>: the watcher of \<open>root\<close> can be in \<open>s\<close> after the notifications that were
  to be reported are \<open>h\<close>. While it sends, it takes no notification. The map of pending events
  is gone through in any order.
\<close>

inductive watch :: "string \<Rightarrow> (string \<times> string) list \<Rightarrow> wstate \<Rightarrow> bool" for root where
  start: "watch root [] (watch_start tree root)"
| event: "watch root h s \<Longrightarrow> wt_flush s = []
    \<Longrightarrow> watch root (h @ (case reported root name op of None \<Rightarrow> [] | Some r \<Rightarrow> [r])) (on_event root tree name op s)"
| fire: "watch root h s \<Longrightarrow> wt_flush s = [] \<Longrightarrow> wt_armed s \<Longrightarrow> distinct (map fst ps) \<Longrightarrow> map_of ps = wt_pending s
    \<Longrightarrow> watch root h (s\<lparr>wt_pending := Map.empty, wt_armed := False, wt_flush := map (\<lambda>(rel, what). Change rel what) ps\<rparr>)"
| tick: "watch root h s \<Longrightarrow> wt_flush s = [] \<Longrightarrow> watch root h (s\<lparr>wt_flush := [Rescan]\<rparr>)"
| send: "watch root h s \<Longrightarrow> wt_flush s = e # es \<Longrightarrow> length (wt_chan s) < 128
    \<Longrightarrow> watch root h (s\<lparr>wt_flush := es, wt_chan := wt_chan s @ [e]\<rparr>)"
| receive: "watch root h s \<Longrightarrow> wt_chan s = e # es \<Longrightarrow> watch root h (s\<lparr>wt_chan := es, wt_got := wt_got s @ [e]\<rparr>)"
| stop: "watch root h s \<Longrightarrow> watch root h (s\<lparr>wt_stopped := True\<rparr>)"
| drop: "watch root h s \<Longrightarrow> wt_stopped s \<Longrightarrow> wt_flush s = e # es \<Longrightarrow> watch root h (s\<lparr>wt_flush := es\<rparr>)"

section \<open>Nothing is missed\<close>

fun changes_in :: "wevent list \<Rightarrow> (string \<times> string) list" where
  "changes_in [] = []"
| "changes_in (Change rel what # es) = (rel, what) # changes_in es"
| "changes_in (Rescan # es) = changes_in es"

lemma changes_in_append [simp]: "changes_in (xs @ ys) = changes_in xs @ changes_in ys"
  by (induction xs rule: changes_in.induct) simp_all

lemma changes_in_tl: "set (changes_in es) \<subseteq> set (changes_in (e # es))"
  by (cases e) auto

lemma changes_in_map [simp]: "changes_in (map (\<lambda>(rel, what). Change rel what) ps) = ps"
  by (induction ps) auto

text \<open>The latest operation on every path.\<close>

definition latest_op :: "(string \<times> string) list \<Rightarrow> string \<rightharpoonup> string" where
  "latest_op h = map_of (rev h)"

lemma latest_op_simps [simp]:
  "latest_op [] = Map.empty" "latest_op (h @ [(p, what)]) = (latest_op h)(p \<mapsto> what)"
  by (simp_all add: latest_op_def)

lemma latest_op_append: "latest_op (h @ g) = latest_op h ++ latest_op g"
  by (simp add: latest_op_def)

lemma latest_op_distinct: "distinct (map fst ps) \<Longrightarrow> latest_op ps = map_of ps"
  by (simp add: latest_op_def fun_eq_iff) (metis map_of_inject_set set_rev distinct_rev rev_map)

definition under_way :: "wstate \<Rightarrow> (string \<times> string) list" where
  "under_way s = changes_in (wt_got s @ wt_chan s @ wt_flush s)"

lemma watch_inv:
  assumes "watch root h s"
  shows "length (wt_chan s) \<le> 128 \<and> set (under_way s) \<subseteq> set h \<and> (\<forall>p what. wt_pending s p = Some what \<longrightarrow> (p, what) \<in> set h)
    \<and> (\<not> wt_stopped s \<longrightarrow> latest_op (under_way s) ++ wt_pending s = latest_op h \<and> (wt_pending s \<noteq> Map.empty \<longrightarrow> wt_armed s))"
  using assms
proof induction
  case (event h s name op tree)
  then show ?case
    by (auto simp: on_event_def under_way_def Let_def split: option.split)
next
  case (fire h s ps)
  then have "latest_op ps = wt_pending s" "\<And>p what. (p, what) \<in> set ps \<Longrightarrow> wt_pending s p = Some what"
    by (auto simp: latest_op_distinct map_of_eq_Some_iff dest: sym)
  with fire show ?case by (auto simp: under_way_def latest_op_append)
next
  case (drop h s e es)
  then show ?case using changes_in_tl [of es e] by (auto simp: under_way_def)
qed (auto simp: under_way_def watch_start_def)

text \<open>
  C21: the watcher reports every change of a folder once it settles, and nothing else. Whatever
  the order of its steps, its channel never holds more than 128 events, every event the engine
  receives was notified, and while the watcher runs, the last thing the
  engine has heard of a path when nothing is on its way is the last thing that happened to it;
  as long as something is pending the timer is set.
\<close>

theorem watcher_exact:
  assumes "watch root h s"
  shows "length (wt_chan s) \<le> 128 \<and> set (changes_in (wt_got s)) \<subseteq> set h
    \<and> (\<not> wt_stopped s \<longrightarrow> (wt_pending s \<noteq> Map.empty \<longrightarrow> wt_armed s)
        \<and> (\<not> wt_armed s \<and> wt_flush s = [] \<and> wt_chan s = [] \<longrightarrow> latest_op (changes_in (wt_got s)) = latest_op h))"
  using watch_inv [OF assms] by (auto simp: under_way_def)

text \<open>
  What lies below a directory that is left out is watched all the same, and a scan of the
  folder does not leave out any file: a temporary file that is never reported is uploaded
  at the next scan.
\<close>

lemma below_ignored_watched:
  "addTree [''/home'', ''/home/.necipdrive'', ''/home/.necipdrive/old''] ''/home'' = [''/home'', ''/home/.necipdrive/old'']"
proof -
  have "base_of ''/home'' = ''home''" "base_of ''/home/.necipdrive'' = ''.necipdrive''" "base_of ''/home/.necipdrive/old'' = ''old''"
    by (simp_all add: base_of_def)
  moreover have "to_lower ''.necipdrive'' = ''.necipdrive''" "to_lower ''home'' = ''home''" "to_lower ''old'' = ''old''"
    by (rule to_lower_plain, simp add: byte_def lower_byte_def)+
  then have "ignored ''.necipdrive''" "\<not> ignored ''home''" "\<not> ignored ''old''"
    by (simp_all add: ignored_def ends_in_def has_prefix_def del: to_lower.simps)
  ultimately show ?thesis by (simp add: addTree_def inside_def has_prefix_def)
qed

lemma temporary_not_reported: "reported root (root @ ''/x.tmp'') op = None"
proof -
  have "base_of (root @ ''/x.tmp'') = ''x.tmp''"
    using split_at_append_sep [of "CHR ''/''" root "''x.tmp''"] by (simp add: base_of_def split_at_none)
  moreover have "ignored ''x.tmp''" by code_simp
  ultimately show ?thesis by (simp add: reported_def)
qed

end
