(* ===== verification/OutsideExamples.thy ===== *)
theory OutsideExamples
  imports WebDav Licence Packages Watcher GateExamples
begin

text \<open>WebDAV, licence keys and the watcher at concrete states.\<close>

section \<open>WebDAV\<close>

text \<open>Ann's laptop signs in, and at once every device of hers is revoked and her account is gone.\<close>

definition laptop :: device_row where
  "laptop = \<lparr>dv_id = 70, dv_user = 1, dv_name = ''laptop'', dv_token = hashToken toy ''tok'', dv_created = 0, dv_seen = 0, dv_expires = None,
     dv_revoked = None\<rparr>"

definition with_laptop :: world where
  "with_laptop = site\<lparr>db := site_db\<lparr>devices := [laptop]\<rparr>\<rparr>"

definition mounted :: api_request where
  "mounted = nosy\<lparr>ar_http := (ar_http nosy)\<lparr>rq_path := ''/dav/'', rq_headers := [(''Authorization'', ''Basic YW5uQHgueTp0b2s='')]\<rparr>\<rparr>"

lemma mounted_as: "basic_auth (ar_http mounted) = Some (''ann@x.y'', ''tok'')"
  by code_simp

lemma mounts: "ok (fst (dav_user toy_site (=) mounted (Map.empty, with_laptop)))"
  by code_simp

theorem dav_cache_outlives_account_witness:
  "\<exists>acc c w'. dav_user toy_site (=) mounted (Map.empty, with_laptop) = (Inr acc, (c, w'))
     \<and> dav_user toy_site (=) mounted (c, w'\<lparr>db := empty_db\<rparr>) = (Inr acc, (c, w'\<lparr>db := empty_db\<rparr>))"
proof -
  obtain acc c w' where run: "dav_user toy_site (=) mounted (Map.empty, with_laptop) = (Inr acc, (c, w'))"
    using ok_run [of "dav_user toy_site (=) mounted" "(Map.empty, with_laptop)", OF mounts] by fastforce
  have "dav_user toy_site (=) mounted (c, w'\<lparr>db := empty_db\<rparr>) = (Inr acc, (c, w'\<lparr>db := empty_db\<rparr>))"
    by (rule dav_cache_outlives_account [OF run mounted_as]) simp_all
  with run show ?thesis by blast
qed

definition opens :: "err + dav_handle \<Rightarrow> bool" where
  "opens r = (case r of Inr (DavFile _) \<Rightarrow> True | _ \<Rightarrow> False)"

lemma document_opens: "opens (fst (dav_OpenFile (=) (site_user 1 ''ann'' ''user'') ''/docs/a.txt'' [] site))"
  by code_simp

theorem dav_file_has_no_end_witness:
  "\<exists>f w'. dav_OpenFile (=) (site_user 1 ''ann'' ''user'') ''/docs/a.txt'' [] site = (Inr (DavFile f), w')
     \<and> (\<exists>e. df_entry f = Some e) \<and> fst (file_Seek 0 SeekEnd f) = Inr 0"
proof -
  obtain f w' where run: "dav_OpenFile (=) (site_user 1 ''ann'' ''user'') ''/docs/a.txt'' [] site = (Inr (DavFile f), w')"
    using document_opens
    by (cases "dav_OpenFile (=) (site_user 1 ''ann'' ''user'') ''/docs/a.txt'' [] site") (auto simp: opens_def split: sum.splits dav_handle.splits)
  from dav_file_has_no_end [OF run, of 0 0 0] run show ?thesis by blast
qed

section \<open>Licence keys\<close>

text \<open>A vendor whose texts are the fields in hexadecimal and whose signatures are the text and the key.\<close>

definition int_text :: "int \<Rightarrow> string" where
  "int_text i = replicate (nat i) CHR ''+'' @ replicate (nat (- i)) CHR ''-''"

definition int_read :: "string \<Rightarrow> int" where
  "int_read s = int (length (filter (\<lambda>c. c = CHR ''+'') s)) - int (length (filter (\<lambda>c. c = CHR ''-'') s))"

lemma int_read_text: "int_read (int_text i) = i"
  by (simp add: int_read_def int_text_def)

lemma int_text_chars: "CHR '','' \<notin> set (int_text i)"
  by (auto simp: int_text_def)

definition toy_text :: "key_payload \<Rightarrow> string" where
  "toy_text p = hex_encode (kp_tier p) @ concat (map (\<lambda>h. CHR '','' # h) [int_text (kp_max p), int_text (kp_exp p), int_text (kp_iat p),
     hex_encode (kp_customer p), hex_encode (kp_note p), hex_encode (kp_instance p)])"

definition toy_read :: "string \<Rightarrow> key_payload option" where
  "toy_read s =
     (case split_at CHR '','' s of
        [t, m, e, i, c, n, x] \<Rightarrow> (case (hex_decode t, hex_decode c, hex_decode n, hex_decode x) of
            (Some t, Some c, Some n, Some x) \<Rightarrow> Some \<lparr>kp_tier = t, kp_max = int_read m, kp_exp = int_read e, kp_iat = int_read i,
              kp_customer = c, kp_note = n, kp_instance = x\<rparr>
          | _ \<Rightarrow> None)
      | _ \<Rightarrow> None)"

lemma toy_read_text: "toy_read (toy_text p) = Some p"
proof -
  have "CHR '','' \<notin> set (hex_encode s)" for s using hex_encode_chars [of s] by (auto simp: hex_digits_def)
  then have "split_at CHR '','' (toy_text p) = [hex_encode (kp_tier p), int_text (kp_max p), int_text (kp_exp p), int_text (kp_iat p),
      hex_encode (kp_customer p), hex_encode (kp_note p), hex_encode (kp_instance p)]"
    unfolding toy_text_def by (intro split_at_hops) (auto simp: int_text_chars)
  then show ?thesis by (simp add: toy_read_def hex_decode_encode int_read_text)
qed

definition toy_vendor :: vendor where
  "toy_vendor = \<lparr>ve_sha = id, ed_key = id, ed_sign = (\<lambda>k m. m @ k), ed_verify = (\<lambda>p m s. take (length m) s = m), kp_text = toy_text, kp_read = toy_read,
     dm_text = (\<lambda>_. []), dm_read = (\<lambda>_. None), getenv = (\<lambda>v. if v = ''LICENSE_ALLOW_DEV_SIGNING'' then ''1'' else []),
     add_years = (\<lambda>t n. t + n * 31536000), ve_vendor = True, ve_registration = True, ve_version = ''1''\<rparr>"

lemma dev_seed: "hex_decode DefaultPrivateSeedHex \<noteq> None" "hex_decode DefaultPublicKeyHex \<noteq> None"
  by (rule hex_decode_defined, simp add: DefaultPrivateSeedHex_def DefaultPublicKeyHex_def,
      simp add: DefaultPrivateSeedHex_def DefaultPublicKeyHex_def from_hex_def byte_def Let_def)+

lemma toy_keys: "privateKey toy_vendor = Inr (the (hex_decode DefaultPrivateSeedHex))" "publicKey toy_vendor = Inr (the (hex_decode DefaultPublicKeyHex))"
proof -
  have "trim_space [] = []" by code_simp
  with dev_seed show "privateKey toy_vendor = Inr (the (hex_decode DefaultPrivateSeedHex))"
    "publicKey toy_vendor = Inr (the (hex_decode DefaultPublicKeyHex))"
    by (auto simp: privateKey_def publicKey_def toy_vendor_def split: option.splits)
qed

definition asking :: demand where
  "asking = \<lparr>dm_instance = ''srv'', dm_tier = ''small'', dm_max = 0, dm_users = 2, dm_product = ''TR Driver'', dm_version = ''1'', dm_created = 0\<rparr>"

definition licensee :: world where
  "licensee = site\<lparr>db := site_db\<lparr>settings := [(''instance_id'', ''srv'')]\<rparr>\<rparr>"

theorem key_for_one_server_witness:
  "\<exists>key l w'. SignFromRequest toy_vendor 1 asking [] 2 ''Ann'' [] = Inr key
     \<and> snd (Activate toy_vendor toy_ids key (None, licensee)) = (Some l, w') \<and> lc_key l = key \<and> lc_customer l = ''Ann'' \<and> db w' = db licensee"
proof -
  have "MaxUsersForTier ''small'' \<noteq> None" by code_simp
  then obtain key where key: "SignFromRequest toy_vendor 1 asking [] 2 ''Ann'' [] = Inr key"
    by (auto simp: SignFromRequest_def Sign_def asking_def toy_keys Let_def)
  have "key_pair toy_vendor" by (simp add: key_pair_def toy_keys) (simp add: toy_vendor_def)
  moreover have "json_read_back toy_vendor" by (simp add: json_read_back_def toy_vendor_def toy_read_text)
  moreover have "text_ok ''Ann''" "valid_utf8 []" "text_ok (dm_instance asking)" "dm_instance asking \<noteq> []" by code_simp+
  moreover have "clock licensee \<le> add_years toy_vendor 1 2" "setting ''instance_id'' (db licensee) = Some ''srv''" "faults licensee = []"
    "dm_instance asking = ''srv''"
    by (simp_all add: licensee_def setting_def toy_vendor_def asking_def)
  ultimately have "wp (Activate toy_vendor toy_ids key)
      (\<lambda>_ (l', w'). \<exists>r. l' = Some r \<and> lc_key r = key \<and> lc_customer r = ''Ann'' \<and> db w' = db licensee) (\<lambda>_ _. False) (None, licensee)"
    using key_for_one_server [of toy_vendor 1 asking "[]" 2 "''Ann''" "[]" key licensee "''srv''" toy_ids None] key
    by (auto elim!: wp_weaken)
  with key show ?thesis by (auto simp: wp_def split: prod.splits sum.splits)
qed

section \<open>The watcher\<close>

text \<open>A file is created, the timer fires, and the engine receives the event.\<close>

definition seen :: "wevent list \<Rightarrow> wevent list \<Rightarrow> wevent list \<Rightarrow> wstate" where
  "seen fl ch got = \<lparr>wt_dirs = [], wt_pending = Map.empty, wt_armed = False, wt_flush = fl, wt_chan = ch, wt_got = got, wt_stopped = False\<rparr>"

definition creation :: fs_op where
  "creation = \<lparr>op_create = True, op_write = False, op_remove = False, op_rename = False\<rparr>"

lemma created: "reported ''/home'' ''/home/a.txt'' creation = Some (''a.txt'', ''create'')"
  by code_simp

lemma seen_reached: "watch ''/home'' [(''a.txt'', ''create'')] (seen [] [] [Change ''a.txt'' ''create''])"
proof -
  let ?e = "Change ''a.txt'' ''create''" and ?h = "[(''a.txt'', ''create'')]"
  have "watch ''/home'' [] (seen [] [] [])"
    using watch.start [of "''/home''" "[]"] by (simp add: watch_start_def addTree_def seen_def)
  from watch.event [OF this, of "''/home/a.txt''" creation "[]"]
  have "watch ''/home'' ?h ((seen [] [] [])\<lparr>wt_pending := [''a.txt'' \<mapsto> ''create''], wt_armed := True\<rparr>)"
    by (simp add: created on_event_def seen_def)
  from watch.fire [OF this, of ?h] have "watch ''/home'' ?h (seen [?e] [] [])" by (simp add: seen_def)
  from watch.send [OF this, of ?e "[]"] have "watch ''/home'' ?h (seen [] [?e] [])" by (simp add: seen_def)
  from watch.receive [OF this, of ?e "[]"] show ?thesis by (simp add: seen_def)
qed

theorem watcher_exact_witness:
  "\<exists>s. watch ''/home'' [(''a.txt'', ''create'')] s \<and> latest_op (changes_in (wt_got s)) = latest_op [(''a.txt'', ''create'')]"
proof -
  have "\<not> wt_stopped (seen [] [] got)" "\<not> wt_armed (seen [] [] got)" "wt_flush (seen [] [] got) = []" "wt_chan (seen [] [] got) = []" for got
    by (simp_all add: seen_def)
  with watcher_exact [OF seen_reached] seen_reached show ?thesis by blast
qed

end
