(* ===== verification/Desktop.thy ===== *)
theory Desktop
  imports SyncEngine Api
begin

text \<open>
  \<open>internal/desktop/app.go\<close> and \<open>host.go\<close>: the client on a desktop around the engine. It holds
  the connection, the folders and the engine that runs, and serves a page to the
  user's browser. The store of secrets of the operating system, which holds the device token, is a field, its calls may fail; the
  server is the record \<open>'s service\<close>. When the engine is off its fields are those it had last.
\<close>

section \<open>The state\<close>

record desk =
  dk_url :: string
  dk_email :: string
  dk_device :: string
  cl_url :: string
  cl_token :: string
  dk_on :: bool
  dk_secret :: string
  dk_autostart :: bool

type_synonym ('s, 'a) desktop = "(desk \<times> 's engine, err, 'a) io"

text \<open>The calls of the client, with the address and the token they are sent with.\<close>

record 's service =
  sv_login :: "string \<Rightarrow> string \<Rightarrow> string \<Rightarrow> string \<Rightarrow> string \<Rightarrow> ('s, string) act"
  sv_logout :: "string \<Rightarrow> string \<Rightarrow> ('s, unit) act"
  sv_me :: "string \<Rightarrow> string \<Rightarrow> ('s, string) act"

definition on_engine :: "('s, 'a) act \<Rightarrow> ('s, 'a) desktop" where
  "on_engine m = (\<lambda>(d, w). case m w of (r, w') \<Rightarrow> (r, (d, w')))"

lemma wp_on_engine [wp_simps]: "wp (on_engine m) Q E (d, w) = wp m (\<lambda>x w'. Q x (d, w')) (\<lambda>e w'. E e (d, w')) w"
  by (simp add: wp_def on_engine_def split: prod.split sum.split)

definition desk_get :: "(desk \<Rightarrow> 'a) \<Rightarrow> ('s, 'a) desktop" where
  "desk_get f = getw (\<lambda>(d, w). f d)"

definition desk_mod :: "(desk \<Rightarrow> desk) \<Rightarrow> ('s, unit) desktop" where
  "desk_mod f = modw (\<lambda>(d, w). (f d, w))"

lemma wp_desk_get [wp_simps]: "wp (desk_get f) Q E (d, w) = Q (f d) (d, w)"
  by (simp add: desk_get_def wp_simps)

lemma wp_desk_mod [wp_simps]: "wp (desk_mod g) Q E (d, w) = Q () (g d, w)"
  by (simp add: desk_mod_def wp_simps)

lemma wp_oscall_ret: "wp (oscall (ret x)) Q E w = (if faulty w then E Fault (pop w) else Q x (pop w))"
  by (simp add: wp_def oscall_def ret_def)

section \<open>Secrets and settings\<close>

definition WriteCredential :: "string \<Rightarrow> ('s, unit) desktop" where
  "WriteCredential token = bnd (on_engine (oscall (ret ()))) (\<lambda>_. desk_mod (\<lambda>d. d\<lparr>dk_secret := token\<rparr>))"

definition ReadCredential :: "('s, string) desktop" where
  "ReadCredential = bnd (on_engine (oscall (ret ()))) (\<lambda>_. desk_get dk_secret)"

definition DeleteCredential :: "('s, unit) desktop" where
  "DeleteCredential = bnd (on_engine (oscall (ret ()))) (\<lambda>_. desk_mod (\<lambda>d. d\<lparr>dk_secret := []\<rparr>))"

definition loadSettings :: "('s, unit) desktop" where
  "loadSettings =
     bnd (desk_get dk_url) (\<lambda>url.
     bnd (if url = [] then bnd (on_engine (or_zero (GetMeta ''server_url'') [])) (\<lambda>v. desk_mod (\<lambda>d. d\<lparr>dk_url := v\<rparr>)) else ret ()) (\<lambda>_.
     bnd (desk_get dk_email) (\<lambda>email.
     bnd (if email = [] then bnd (on_engine (or_zero (GetMeta ''email'') [])) (\<lambda>v. desk_mod (\<lambda>d. d\<lparr>dk_email := v\<rparr>)) else ret ()) (\<lambda>_.
     bnd (or_zero ReadCredential []) (\<lambda>secret.
     bnd (if secret = [] then on_engine (or_zero (GetMeta ''device_token'') []) else ret secret) (\<lambda>token.
     desk_mod (\<lambda>d. d\<lparr>cl_url := dk_url d, cl_token := token\<rparr>)))))))"

section \<open>Starting and stopping\<close>

text \<open>\<open>syncengine.New\<close>.\<close>

definition fresh_engine :: "('s, unit) act" where
  "fresh_engine = modw (\<lambda>w. w\<lparr>estatus := \<lparr>State = [], LastError = [], CurrentFile = [], BytesSynced = 0, BytesTotal = 0, BytesDone = 0,
     PendingJobs = 0, Percent = 0, Message = []\<rparr>, listeners := [], watched := [], running := False, pausedAll := False\<rparr>)"

definition app_Start :: "('s, unit) desktop" where
  "app_Start =
     bnd (desk_get dk_on) (\<lambda>on.
     if on then ret ()
     else
       bnd (desk_get (\<lambda>d. (cl_url d, cl_token d))) (\<lambda>(url, token).
       bnd (require (\<not> (url = [] \<or> token = [])) (Msg ''sign in first'')) (\<lambda>_.
       bnd (on_engine fresh_engine) (\<lambda>_.
       bnd (on_engine Start) (\<lambda>_.
       desk_mod (\<lambda>d. d\<lparr>dk_on := True\<rparr>))))))"

definition app_Stop :: "('s, unit) desktop" where
  "app_Stop = bnd (desk_get dk_on) (\<lambda>on. if on then bnd (ignore (on_engine Stop)) (\<lambda>_. desk_mod (\<lambda>d. d\<lparr>dk_on := False\<rparr>)) else ret ())"

section \<open>The connection\<close>

definition SaveConnection :: "'s service \<Rightarrow> string \<Rightarrow> string \<Rightarrow> string \<Rightarrow> ('s, unit) desktop" where
  "SaveConnection sv url email password =
     bnd (desk_mod (\<lambda>d. d\<lparr>dk_url := url, dk_email := email, cl_url := url\<rparr>)) (\<lambda>_.
     bnd (desk_get (\<lambda>d. (cl_token d, dk_device d))) (\<lambda>(old, device).
     bnd (on_engine (sv_login sv url old email password device)) (\<lambda>token.
     bnd (desk_mod (\<lambda>d. d\<lparr>cl_token := token\<rparr>)) (\<lambda>_.
     bnd (result (WriteCredential token)) (\<lambda>r.
     bnd (ignore (on_engine (SetMeta ''device_token'' (case r of Inl _ \<Rightarrow> token | Inr _ \<Rightarrow> [])))) (\<lambda>_.
     bnd (ignore (on_engine (SetMeta ''server_url'' url))) (\<lambda>_.
     bnd (ignore (on_engine (SetMeta ''email'' email))) (\<lambda>_.
     desk_mod (\<lambda>d. d\<lparr>cl_token := token\<rparr>)))))))))"

definition app_Logout :: "'s service \<Rightarrow> ('s, unit) desktop" where
  "app_Logout sv =
     bnd app_Stop (\<lambda>_.
     bnd (desk_get (\<lambda>d. (cl_url d, cl_token d))) (\<lambda>(url, token).
     bnd (if token \<noteq> [] then ignore (on_engine (sv_logout sv url token)) else ret ()) (\<lambda>_.
     bnd (desk_mod (\<lambda>d. d\<lparr>cl_token := []\<rparr>)) (\<lambda>_.
     bnd (ignore DeleteCredential) (\<lambda>_.
     ignore (on_engine (SetMeta ''device_token'' [])))))))"

section \<open>Folders\<close>

text \<open>\<open>i\<close> is the new UUID, \<open>cwd\<close> what \<open>filepath.Abs\<close> puts before a relative path.\<close>

definition AddFolder :: "'s service \<Rightarrow> string \<Rightarrow> string \<Rightarrow> string \<Rightarrow> ('s, unit) desktop" where
  "AddFolder sv cwd i localPath =
     bnd (on_engine (map_err (\<lambda>_. Msg ''folder not found'') (os_stat localPath))) (\<lambda>(sz, mtime, isDir).
     bnd (require isDir (Msg ''folder not found'')) (\<lambda>_.
     let abs = (if rooted localPath then go_clean localPath else go_join cwd localPath) in
     bnd (on_engine (or_zero ListRoots [])) (\<lambda>rs.
     bnd (require (\<forall>r \<in> set rs. go_clean (rt_path r) \<noteq> go_clean abs) (Msg ''folder already added'')) (\<lambda>_.
     bnd (desk_get (\<lambda>d. (cl_url d, cl_token d))) (\<lambda>(url, token).
     bnd (on_engine (sv_me sv url token)) (\<lambda>remoteRoot.
     let root = \<lparr>rt_id = i, rt_path = abs, rt_parent = remoteRoot, rt_cursor = 0, rt_paused = False\<rparr> in
     bnd (on_engine (AddRoot root)) (\<lambda>_.
     bnd (desk_get dk_on) (\<lambda>on.
     if on then on_engine (AddRootWatch root) else ret ()))))))))"

definition RemoveFolder :: "string \<Rightarrow> ('s, unit) desktop" where
  "RemoveFolder i = bnd (desk_get dk_on) (\<lambda>on. on_engine (if on then RemoveRootWatch i else RemoveRoot i))"

definition PauseFolder :: "string \<Rightarrow> ('s, unit) desktop" where
  "PauseFolder i = bnd (desk_get dk_on) (\<lambda>on. on_engine (if on then Pause i else SetPaused i True))"

definition ResumeFolder :: "string \<Rightarrow> ('s, unit) desktop" where
  "ResumeFolder i = bnd (desk_get dk_on) (\<lambda>on. if on then on_engine (Resume i) else app_Start)"

definition PauseAll :: "('s, unit) desktop" where
  "PauseAll =
     bnd (on_engine ListRoots) (\<lambda>rs. bnd (desk_get dk_on) (\<lambda>on.
     each (\<lambda>r. ignore (on_engine (if on then Pause (rt_id r) else SetPaused (rt_id r) True))) rs))"

definition ResumeAll :: "('s, unit) desktop" where
  "ResumeAll =
     bnd (on_engine ListRoots) (\<lambda>rs. bnd (desk_get dk_on) (\<lambda>on.
     if on then each (\<lambda>r. ignore (on_engine (Resume (rt_id r)))) rs else app_Start))"

definition app_Status :: "('s, status) desktop" where
  "app_Status = bnd (desk_get dk_on) (\<lambda>on. on_engine (getw (\<lambda>w. if on then estatus w
     else \<lparr>State = ''idle'', LastError = [], CurrentFile = [], BytesSynced = 0, BytesTotal = 0, BytesDone = 0, PendingJobs = 0, Percent = 0,
       Message = ''Haz'' @ [CHR 0xC4, CHR 0xB1] @ ''r''\<rparr>)))"

record desk_snapshot =
  sn_connected :: bool
  sn_url :: string
  sn_email :: string
  sn_device :: string
  sn_autostart :: bool
  sn_status :: status
  sn_folders :: "root_row list"
  sn_activities :: "act_row list"
  sn_pending :: int

definition app_Snapshot :: "('s, desk_snapshot) desktop" where
  "app_Snapshot =
     bnd app_Status (\<lambda>status.
     bnd (on_engine (or_zero ListRoots [])) (\<lambda>folders.
     bnd (on_engine (or_zero (ListActivities 30) [])) (\<lambda>acts.
     bnd (on_engine (or_zero CountPendingJobs 0)) (\<lambda>pending.
     desk_get (\<lambda>d. \<lparr>sn_connected = (dk_url d \<noteq> [] \<and> cl_token d \<noteq> []), sn_url = dk_url d, sn_email = dk_email d, sn_device = dk_device d,
       sn_autostart = dk_autostart d, sn_status = status, sn_folders = folders, sn_activities = acts, sn_pending = pending\<rparr>)))))"

section \<open>The page\<close>

text \<open>
  What the page of the client asks for. The body of a request is a JSON value or \<open>None\<close>;
  \<open>json.Decoder\<close> lets unknown fields pass. \<open>pick\<close> is what the user chooses in the dialog
  of the operating system, \<open>busy\<close> whether one is open. No request is asked who it comes from.
\<close>

datatype (plugins only: code size) host_reply = HostError int | HostOk "(string \<times> string) list" | HostState desk_snapshot

definition decodes :: "(string \<times> (json \<Rightarrow> bool)) list \<Rightarrow> json option \<Rightarrow> bool" where
  "decodes shape body = (case body of
       Some (JObject kvs) \<Rightarrow> (\<forall>(k, v) \<in> set kvs. \<forall>(f, fits) \<in> set shape. equal_fold k f \<longrightarrow> v = JNull \<or> fits v)
     | Some v \<Rightarrow> v = JNull
     | None \<Rightarrow> False)"

definition host_answer :: "(string \<times> string) list \<Rightarrow> ('s, 'a) desktop \<Rightarrow> ('s, host_reply) desktop" where
  "host_answer extra m = or_else m (\<lambda>_. ret (HostError 400)) (\<lambda>_. ret (HostOk ((''status'', ''ok'') # extra)))"

definition handleLogin :: "'s service \<Rightarrow> json option \<Rightarrow> ('s, host_reply) desktop" where
  "handleLogin sv j =
     (if \<not> decodes (texts [''serverUrl'', ''email'', ''password'']) j then ret (HostError 400)
      else host_answer [] (bnd (SaveConnection sv (json_text ''serverUrl'' j) (json_text ''email'' j) (json_text ''password'' j)) (\<lambda>_. ignore app_Start)))"

definition handleLogout :: "'s service \<Rightarrow> ('s, host_reply) desktop" where
  "handleLogout sv = host_answer [] (ignore (app_Logout sv))"

definition app_SetAutostart :: "bool \<Rightarrow> ('s, unit) desktop" where
  "app_SetAutostart b = bnd (on_engine (oscall (ret ()))) (\<lambda>_. desk_mod (\<lambda>d. d\<lparr>dk_autostart := b\<rparr>))"

definition handleAutostart :: "json option \<Rightarrow> ('s, host_reply) desktop" where
  "handleAutostart j = host_answer [] (app_SetAutostart (decodes [(''enabled'', is_bool)] j \<and> json_bool ''enabled'' j))"

definition handlePickFolder :: "'s service \<Rightarrow> string \<Rightarrow> string \<Rightarrow> bool \<Rightarrow> err + string \<Rightarrow> string \<Rightarrow> ('s, host_reply) desktop" where
  "handlePickFolder sv cwd i busy pick verb =
     (if verb \<noteq> ''POST'' then ret (HostError 405)
      else if busy then ret (HostOk [(''status'', ''busy'')])
      else (case pick of
          Inl _ \<Rightarrow> ret (HostError 400)
        | Inr path \<Rightarrow>
            if path = [] then ret (HostOk [(''status'', ''cancelled'')])
            else or_else (AddFolder sv cwd i path)
              (\<lambda>e. if e = Msg ''folder already added'' then ret (HostOk [(''status'', ''ok''), (''path'', path), (''note'', ''already_added'')])
                 else ret (HostError 400))
              (\<lambda>_. bnd (ignore app_Start) (\<lambda>_. ret (HostOk [(''status'', ''ok''), (''path'', path)])))))"

definition host_id :: "json option \<Rightarrow> string" where
  "host_id j = (if decodes (texts [''id'']) j then json_text ''id'' j else [])"

definition handleRemoveFolder :: "json option \<Rightarrow> ('s, host_reply) desktop" where
  "handleRemoveFolder j = (if host_id j = [] then ret (HostError 400) else host_answer [] (RemoveFolder (host_id j)))"

definition handlePauseFolder :: "json option \<Rightarrow> ('s, host_reply) desktop" where
  "handlePauseFolder j = host_answer [] (PauseFolder (host_id j))"

definition handleResumeFolder :: "json option \<Rightarrow> ('s, host_reply) desktop" where
  "handleResumeFolder j = host_answer [] (ResumeFolder (host_id j))"

text \<open>The calls that change the client; the others open windows of the operating system.\<close>

definition host_api :: "'s service \<Rightarrow> string \<Rightarrow> string \<Rightarrow> bool \<Rightarrow> err + string \<Rightarrow> string \<Rightarrow> json option \<Rightarrow> (string \<times> ('s, host_reply) desktop) list" where
  "host_api sv cwd i busy pick verb j =
     [(''/api/state'', bnd app_Snapshot (\<lambda>s. ret (HostState s))), (''/api/login'', handleLogin sv j), (''/api/logout'', handleLogout sv),
      (''/api/pause'', host_answer [] (ignore PauseAll)), (''/api/resume'', host_answer [] ResumeAll), (''/api/autostart'', handleAutostart j),
      (''/api/pick-folder'', handlePickFolder sv cwd i busy pick verb), (''/api/remove-folder'', handleRemoveFolder j),
      (''/api/pause-folder'', handlePauseFolder j), (''/api/resume-folder'', handleResumeFolder j)]"

section \<open>What a session leaves behind\<close>

lemma wp_trivial [simp]: "wp m (\<lambda>_ _. True) (\<lambda>_ _. True) w"
  by (simp add: wp_def split: prod.split sum.split)

lemma wp_known: "m w = (r, w') \<Longrightarrow> wp m Q E w = (case r of Inl e \<Rightarrow> E e w' | Inr x \<Rightarrow> Q x w')"
  by (simp add: wp_def split: sum.split)

text \<open>Signing out always succeeds, and then the client has no token and no engine runs.\<close>

lemma logout_signs_out: "wp (app_Logout sv) (\<lambda>_ (d, w). cl_token d = [] \<and> \<not> dk_on d) (\<lambda>_ _. False) (d, w)"
  by (simp add: app_Logout_def app_Stop_def DeleteCredential_def wp_simps)

text \<open>
  A login that fails leaves the client with the address it was tried at and the token of the
  server before. The login itself is sent with that token already.
\<close>

theorem failed_login_keeps_token:
  assumes "SaveConnection sv url email password (d, w) = (Inl e, (d', w'))"
  shows "cl_url d' = url \<and> dk_url d' = url \<and> cl_token d' = cl_token d
    \<and> fst (sv_login sv url (cl_token d) email password (dk_device d) w) = Inl e"
proof (cases "sv_login sv url (cl_token d) email password (dk_device d) w")
  case (Pair r w1)
  have "wp (SaveConnection sv url email password) (\<lambda>_ _. True)
      (\<lambda>e (d', w'). cl_url d' = url \<and> dk_url d' = url \<and> cl_token d' = cl_token d \<and> r = Inl e) (d, w)"
    by (simp add: SaveConnection_def WriteCredential_def wp_simps wp_known [where m = "sv_login sv url (cl_token d) email password (dk_device d)", OF Pair] split: sum.split)
  from wp_InlD [OF this assms] Pair show ?thesis by simp
qed

text \<open>
  When the engine is off, resuming starts it and resumes nothing: the folders are as before,
  and those that are paused get no watch.
\<close>

definition watches_some :: "root_row list \<Rightarrow> 's engine \<Rightarrow> bool" where
  "watches_some rs w \<longleftrightarrow> roots (st w) = rs \<and> (\<forall>i \<in> set (watched w). \<exists>r \<in> set rs. rt_id r = i \<and> \<not> rt_paused r)"

lemma status_watches: "watches_some rs w \<Longrightarrow> wp (setStatus f) (\<lambda>_. watches_some rs) E w"
  by (simp add: setStatus_def set_and_emit_def emit_def wp_simps watches_some_def)

lemma watch_watches:
  assumes "watches_some rs w" and "r \<in> set rs" and "\<not> rt_paused r"
  shows "wp (AddRootWatch r) (\<lambda>_. watches_some rs) (\<lambda>_ _. True) w"
  using assms by (auto simp: AddRootWatch_def wp_simps wp_oscall_ret pop_def watches_some_def)

lemma wp_ListRoots: "wp ListRoots Q E w = (if faulty w then E Fault (pop w)
     else Q (sort_by (\<lambda>a b. bytes_le (rt_path a) (rt_path b)) (roots (st w))) (pop w))"
  by (simp add: wp_def ListRoots_def sq_get_def sq_def oscall_def pop_def)

lemma Start_watches:
  assumes "watched w = []"
  shows "wp Start (\<lambda>_. watches_some (roots (st w))) (\<lambda>_ _. True) w"
proof -
  let ?rs = "roots (st w)"
  have watch: "wp (each (\<lambda>r. if rt_paused r then ret () else on_err (AddRootWatch r) Stop) xs) (\<lambda>_. watches_some ?rs) (\<lambda>_ _. True) w'"
    if "watches_some ?rs w'" "set xs \<subseteq> set ?rs" for xs w'
    by (rule wp_each [where I = "watches_some ?rs"]) (use that in \<open>auto simp: wp_simps intro!: watch_watches\<close>)
  have loop: "wp (each (\<lambda>r. if rt_paused r then ret () else on_err (AddRootWatch r) Stop) xs) (\<lambda>_. wp (setStatus f) (\<lambda>_. watches_some ?rs) (\<lambda>_ _. True))
      (\<lambda>_ _. True) w'" if "watches_some ?rs w'" "set xs \<subseteq> set ?rs" for xs w' f
    by (rule wp_weaken [OF watch [OF that]]) (auto intro: status_watches)
  have first: "wp (setStatus f) (\<lambda>_. wp (each (\<lambda>r. if rt_paused r then ret () else on_err (AddRootWatch r) Stop) xs)
      (\<lambda>_. wp (setStatus g) (\<lambda>_. watches_some ?rs) (\<lambda>_ _. True)) (\<lambda>_ _. True)) (\<lambda>_ _. True) w'"
    if "watches_some ?rs w'" "set xs \<subseteq> set ?rs" for xs w' f g
    by (rule wp_weaken [OF status_watches [OF that(1)]]) (rule loop [OF _ that(2)], assumption, rule TrueI)
  show ?thesis
    using assms by (auto simp: Start_def wp_simps wp_ListRoots pop_def watches_some_def intro!: first)
qed

theorem resume_resumes_nothing:
  assumes "\<not> dk_on d" and "ResumeAll (d, w) = (Inr (), (d', w'))"
  shows "dk_on d' \<and> watches_some (roots (st w)) w'"
proof -
  have start: "wp Start (\<lambda>_ w'. watches_some (roots (st w)) w') (\<lambda>_ _. True) w1" if "watched w1 = []" "roots (st w1) = roots (st w)" for w1
    using Start_watches [OF that(1)] that(2) by simp
  have "wp ResumeAll (\<lambda>_ (d', w'). dk_on d' \<and> watches_some (roots (st w)) w') (\<lambda>_ _. True) (d, w)"
    using assms(1) by (auto simp: ResumeAll_def app_Start_def fresh_engine_def wp_simps wp_ListRoots pop_def intro!: start)
  from wp_InrD [OF this assms(2)] show ?thesis by simp
qed

end
