(* ===== verification/Spec2Isabelle.thy ===== *)
theory Spec2Isabelle
  imports Defects ClientApi SharingExamples AdminExamples GateExamples OutsideExamples Desktop
begin

text \<open>
  TR Driver: a file server and its sync client, written in Go, as a model in HOL with the
  theorems that make it correct.

  \<^bold>\<open>The program.\<close> The server keeps users, entries (files and folders), shared drives,
  permissions, versions, upload batches, share links and sign-in data in PostgreSQL
  (\<open>internal/store\<close>), and the bytes of files in a directory (\<open>internal/storage\<close>). Its
  services are the packages \<open>auth\<close>, \<open>access\<close>, \<open>files\<close>, \<open>uploads\<close>, \<open>syncapi\<close>, \<open>drives\<close>,
  \<open>collab\<close>, \<open>shares\<close>, \<open>admin\<close>, \<open>plans\<close>, \<open>mailer\<close>, \<open>license\<close>, \<open>webdavx\<close>, \<open>updates\<close>, with \<open>changelog\<close>, \<open>blobgc\<close> and \<open>loadpace\<close>
  below them; every package has a \<open>handler.go\<close> for HTTP, and \<open>internal/app\<close> puts the handlers
  behind the middleware. The client (\<open>internal/syncclient\<close>, \<open>syncstore\<close>, \<open>syncengine\<close>, \<open>watcher\<close>, \<open>desktop\<close>) keeps a
  folder of the user's machine in step with the server, with a SQLite database of its own.

  \<^bold>\<open>The shape of the model.\<close> A Go function that may fail is a computation
  \<open>'w \<Rightarrow> (err + 'a) \<times> 'w\<close> (theory \<open>Prelude\<close>): the error or the value, and the state
  afterwards. The combinators follow the code: \<open>bnd\<close> is \<open>if err != nil \{ return err \}\<close>, \<open>require\<close>
  an early return, \<open>result\<close> a call whose error is looked at, \<open>ignore\<close> one whose error is
  dropped, \<open>on_err\<close> a clean-up, \<open>or_else\<close> a call with two answers, \<open>each\<close> a loop. The state of the server is
  the record \<open>world\<close> (theory \<open>Database\<close>): the tables, the blobs by key, the clock, counters for
  fresh ids, a source of random bytes, the two limiters, and a \<^emph>\<open>schedule of faults\<close>. Every statement
  to the database and every call to the operating system takes the next element of the schedule and
  fails when it says so; a statement that fails in a transaction aborts it. All
  theorems hold for any schedule unless they ask for an empty one, so they
  speak of every error path. Proofs compute weakest preconditions (\<open>wp\<close>, the
  collection \<open>wp_simps\<close>) or show what an operation can do to the state (\<open>steps\<close>, \<open>steps_intros\<close>;
  \<open>keeps\<close>, \<open>keeps_intros\<close>) and go through the combinators with these rules.

  \<^bold>\<open>The theories\<close>, with the files they model under \<open>internal/\<close>:

  \<^item> \<open>Prelude\<close>, \<open>GoStrings\<close>, \<open>Encodings\<close>: the computations; strings as lists of bytes with UTF-8,
    \<open>path.Clean\<close>, \<open>strings\<close>; hexadecimal, base64, base32 with round trips.
  \<^item> \<open>Storage\<close> (\<open>storage/local.go\<close>): paths and files. \<open>Names\<close> (\<open>files/service.go\<close>): names of entries.
  \<^item> \<open>Database\<close> (\<open>domain/models.go\<close>, \<open>store/postgres.go\<close>): rows, tables, constraints,
    statements and transactions. \<open>FolderTree\<close>: the recursive queries, and when they end.
  \<^item> \<open>Access\<close> (\<open>access/access.go\<close>): levels and checks, with the specification \<open>grants\<close> (C4).
  \<^item> \<open>Blobs\<close> (\<open>changelog\<close>, \<open>blobgc\<close>): the change log and the garbage collection of blobs.
  \<^item> \<open>Files\<close>, \<open>FilesInv\<close> (\<open>files/service.go\<close>): every operation on entries, and that the table stays a
    tree of folders (\<open>entries_ok\<close>); \<open>Recursion\<close>: their recursive queries end (C39).
  \<^item> \<open>Uploads\<close>, \<open>Batches\<close>, \<open>Chunks\<close>, \<open>Completion\<close>, \<open>Accounting\<close> (\<open>uploads/service.go\<close>): batches, chunks,
    completion and expiry; what a chunk does (C2), what a completed upload is (C3), and the books of
    reserved bytes. \<open>Requests\<close>: the two services as state machines, with C5 and C6 for all reachable states.
  \<^item> \<open>LoadPace\<close>, \<open>Slots\<close> (\<open>loadpace/controller.go\<close>): the estimate of the load and the
    semaphore of uploads as a step relation (C8).
  \<^item> \<open>SyncApi\<close> (\<open>syncapi/service.go\<close>): the feed of changes. The locale \<open>paged_feed\<close> is the
    contract between a feed read in pages and its reader; its interpretation \<open>feed\<close> gives C7.
  \<^item> \<open>SyncClient\<close>, \<open>ClientApi\<close> (\<open>syncclient/client.go\<close>): uploading a file in chunks and
    downloading it. The locale \<open>chunk_sink\<close> is what the loop needs of a server, its
    interpretation \<open>server\<close> is \<open>AppendChunk\<close>; together they give the end-to-end theorem C1.
  \<^item> \<open>SyncStore\<close>, \<open>SyncEngine\<close>, \<open>ClientSafety\<close> (\<open>syncstore\<close>, \<open>syncengine\<close>): the client's
    database (C12), its engine, and what it may do to the user's machine (C10, C14).
  \<^item> \<open>Drives\<close>, \<open>Collab\<close> (\<open>drives\<close>, \<open>collab\<close>): shared drives (C16, C17), sharing with users,
    comments, stars, versions, search (C18 to C20).
  \<^item> \<open>Secrets\<close>, \<open>Accounts\<close>, \<open>SignIn\<close>, \<open>SignInSafety\<close> (\<open>auth\<close>, \<open>totp\<close>, \<open>shares/password.go\<close>):
    hashes (C22), one-time codes (C24), registration, sessions, devices and the second factor
    (C31 to C34), and the limiter as a sliding window (C37).
  \<^item> \<open>Http\<close> (\<open>httpx/json.go\<close>, \<open>app/middleware.go\<close>): client addresses (C28) and tokens against
    forged requests (C27). \<open>Archives\<close> (\<open>files/preview.go\<close>, \<open>zipdownload.go\<close>): C29.
  \<^item> \<open>Sharing\<close>, \<open>SharingSafety\<close> (\<open>shares/service.go\<close>, \<open>handler.go\<close>): share links (C25, C26).
  \<^item> \<open>Administration\<close>, \<open>AdminSafety\<close> (\<open>admin\<close>, \<open>plans\<close>, \<open>mailer\<close>, the data part of \<open>Migrate\<close>): settings,
    quotas, roles; the invariants of the accounts over all steps that touch them (C35, C36).
  \<^item> \<open>Api\<close>, \<open>AuthHttp\<close>, \<open>ApiHttp\<close>, \<open>Router\<close> (every \<open>handler.go\<close>, \<open>app/router.go\<close>): requests with
    their bodies as JSON values, the handlers with their statuses, cookies and early returns, the
    table of routes and the middleware. C38 is the gate: nobody gets past it who is not
    permitted. \<open>Gate\<close>: what a reset of the password means for all later requests (C40).
  \<^item> \<open>WebDav\<close> (\<open>webdavx/handler.go\<close>): the file system that the WebDAV library works on, with its cache
    of credentials (C15) and its open files (C30); the protocol is the parameter \<open>serve\<close>.
  \<^item> \<open>Licence\<close> (\<open>license\<close>, \<open>cmd/trdriver-licensegen\<close>): request codes, signed keys, activation and the
    handlers. C23 is the way of a key from the vendor to the one server it is for; \<open>request_round_trip\<close> that of the
    request, \<open>unbound_key_refused\<close> says what becomes of a key for nobody.
  \<^item> \<open>Configuration\<close> (\<open>config/config.go\<close>): the variables and their checks, with \<open>Load_exact\<close> for what is
    accepted. \<open>Packages\<close> (\<open>app/apk.go\<close>, \<open>updates/handler.go\<close>): the Android package, the check for updates.
  \<^item> \<open>Watcher\<close> (\<open>watcher/watcher.go\<close>): notifications of a folder, collected, coalesced and sent, as a step
    relation with its history (C21).
  \<^item> \<open>Desktop\<close> (\<open>desktop/app.go\<close>, \<open>host.go\<close>): the connection, the folders and the life of the engine, and the
    calls of the page. \<open>failed_login_keeps_token\<close> and \<open>resume_resumes_nothing\<close> show two defects.
  \<^item> \<open>Defects\<close>, \<open>Witnesses\<close> and the theories named \<open>...Examples\<close>: small concrete states at which every
    property with a hypothesis is applied, and runs of the model that show defects of the code (C13 and
    the theorems that the findings name).

  \<^bold>\<open>What the groups of theorems show.\<close> Bytes: a file that the client uploads in chunks over
  any faults that let each chunk through in the end is stored whole (C1 to C3, C11). Books: reservations
  and usage are exact in every reachable state (C5). Tree: entries form a forest with unique
  names in every reachable state (C6), so that no recursive query runs forever (C39). Access: the
  code's level is the best grant (C4), searching and sharing agree with it (C18 to
  C20), and the router lets nobody past it (C38). Identity: C22, C24 and C31 to
  C37, C40, C15. Links: C25, C26. Client: C10, C12, C14, C21. WebDAV: C15, C30. Licences: C23.

  \<^bold>\<open>Bounds and fuel.\<close> Recursive queries have one more unit of fuel than the table has rows and
  return \<open>Diverges\<close> without it; \<open>ancestors_terminates\<close> and \<open>subtree_terminates\<close> show that it is
  enough on a forest, \<open>cycle_diverges\<close> that a cycle would not end. Retry loops have the bounds
  of the code (30 names in \<open>insertUploadedFile\<close>). Sizes and counters are \<open>int\<close> within the
  checks of the code; where Go's arithmetic wraps and it matters it is written out (\<open>AppendChunk\<close>
  and quotas: bounded before they are added; \<open>time.Duration\<close> in \<open>wrap64\<close>; the counters
  of \<open>/proc/stat\<close> as 64-bit words; bytes of hashes as 8-bit words).

  \<^bold>\<open>Simplifications.\<close> A request is atomic except where theory \<open>Slots\<close> makes it steps: the
  mutexes and row locks of the code are taken to serialize. UUIDs are
  numbers, with a \<open>uuid_codec\<close> for their text; times are seconds. The texts of
  messages are English or transliterated. \<open>os.RemoveAll\<close> is one step, \<open>filepath.WalkDir\<close> sees the
  list it is given. A body is the JSON value it denotes or nothing, and paths come decoded. Collation and
  case folding of the database are part of the state (\<open>sql_le\<close>, \<open>sql_lower\<close>), under any function.
  Parameters stand for code that is not in the repository: the primitives of crypto
  (\<open>crypto\<close>, with \<open>crypto_ok\<close> where a round trip needs it), \<open>net/netip\<close>, \<open>net/mail\<close>, the
  conversation with a mail server, signatures and texts of licences, MIME detection, the size of the disk, and parsing of times.

  \<^bold>\<open>Not modelled.\<close> The statements of \<open>Migrate\<close> that create the schema (their outcome is
  the record \<open>database\<close> with its constraints); static files; the router does not
  name the handlers of licences, WebDAV, packages and updates, they are its parameter \<open>rest\<close>; the protocol of
  WebDAV with its locks, which is that of \<open>golang.org/x/net/webdav\<close>; the stream of events, the windows, tray, web view
  and vault of the desktop client, and the start and stop of the processes (pure interaction with the operating system); the HTML of pages, logging, and the scripts of
  the web and Android clients, which are in other languages.
\<close>

end
